(* ===== verification/Go_Base.thy ===== *)
theory Go_Base
  imports Main "HOL-Library.Word" "HOL-Library.Char_ord" "HOL-Library.List_Lexorder"
begin

text \<open>
  Prelude of the development: the pieces of the Go language and of its standard library
  (packages strings, strconv, sort) that the modelled code calls. A Go string is a sequence of
  bytes, so it is an Isabelle \<open>string\<close>, whose characters are exactly the 256 byte values. Raw
  network bytes are \<open>8 word\<close>. Go's \<open>int64\<close> is \<open>int\<close> with the wrap-around of
  \<open>wrap64\<close> written out wherever the code can overflow.
\<close>

named_theorems go_str \<open>rewrite rules about Go string operations\<close>
named_theorems go_inv \<open>operations keep the invariant of their component\<close>

type_synonym u8 = "8 word"
type_synonym bytes = "8 word list"

section \<open>Prefixes, suffixes, searching\<close>

definition has_prefix :: "'a list \<Rightarrow> 'a list \<Rightarrow> bool" where
  "has_prefix s p = (take (length p) s = p)"

definition has_suffix :: "'a list \<Rightarrow> 'a list \<Rightarrow> bool" where
  "has_suffix s p = has_prefix (rev s) (rev p)"

definition trim_prefix :: "'a list \<Rightarrow> 'a list \<Rightarrow> 'a list" where
  "trim_prefix s p = (if has_prefix s p then drop (length p) s else s)"

definition trim_suffix :: "'a list \<Rightarrow> 'a list \<Rightarrow> 'a list" where
  "trim_suffix s p = (if has_suffix s p then take (length s - length p) s else s)"

text \<open>strings.Index: the first position of a substring, None for -1.\<close>

fun str_index :: "'a list \<Rightarrow> 'a list \<Rightarrow> nat option" where
  "str_index [] p = (if p = [] then Some 0 else None)"
| "str_index (c # s) p =
     (if has_prefix (c # s) p then Some 0 else map_option Suc (str_index s p))"

definition str_contains :: "'a list \<Rightarrow> 'a list \<Rightarrow> bool" where
  "str_contains s p = (str_index s p \<noteq> None)"

text \<open>strings.LastIndexByte.\<close>

fun last_index :: "'a list \<Rightarrow> 'a \<Rightarrow> nat option" where
  "last_index [] c = None"
| "last_index (x # s) c =
     (case last_index s c of Some i \<Rightarrow> Some (Suc i) | None \<Rightarrow> if x = c then Some 0 else None)"

text \<open>strings.Cut: text before and after the first separator, and whether it was found.\<close>

definition cut :: "'a list \<Rightarrow> 'a list \<Rightarrow> 'a list \<times> 'a list \<times> bool" where
  "cut s p = (case str_index s p of
      Some i \<Rightarrow> (take i s, drop (i + length p) s, True)
    | None \<Rightarrow> (s, [], False))"

text \<open>strings.Split and strings.Join for a one-byte separator; \<open>split_after\<close> is
  strings.SplitAfter, which keeps the separators.\<close>

fun split_on :: "'a \<Rightarrow> 'a list \<Rightarrow> 'a list list" where
  "split_on c [] = [[]]"
| "split_on c (x # s) =
     (if x = c then [] # split_on c s
      else (case split_on c s of [] \<Rightarrow> [[x]] | w # ws \<Rightarrow> (x # w) # ws))"

fun split_after :: "'a \<Rightarrow> 'a list \<Rightarrow> 'a list list" where
  "split_after c [] = [[]]"
| "split_after c (x # s) =
     (if x = c then [x] # split_after c s
      else (case split_after c s of [] \<Rightarrow> [[x]] | w # ws \<Rightarrow> (x # w) # ws))"

fun join_with :: "'a list \<Rightarrow> 'a list list \<Rightarrow> 'a list" where
  "join_with sep [] = []"
| "join_with sep [w] = w"
| "join_with sep (w # v # ws) = w @ sep @ join_with sep (v # ws)"

text \<open>strings.Trim, TrimLeft and TrimRight with an ASCII cutset.\<close>

definition trim_left :: "'a set \<Rightarrow> 'a list \<Rightarrow> 'a list" where
  "trim_left cs s = dropWhile (\<lambda>c. c \<in> cs) s"

definition trim_right :: "'a set \<Rightarrow> 'a list \<Rightarrow> 'a list" where
  "trim_right cs s = rev (dropWhile (\<lambda>c. c \<in> cs) (rev s))"

definition trim_both :: "'a set \<Rightarrow> 'a list \<Rightarrow> 'a list" where
  "trim_both cs s = trim_right cs (trim_left cs s)"

lemma has_prefix_iff [go_str]: "has_prefix s p \<longleftrightarrow> (\<exists>t. s = p @ t)"
  unfolding has_prefix_def by (metis append_eq_conv_conj append_take_drop_id)

lemma has_suffix_iff [go_str]: "has_suffix s p \<longleftrightarrow> (\<exists>t. s = t @ p)"
  unfolding has_suffix_def has_prefix_iff by (metis rev_append rev_rev_ident)

lemma has_prefix_Nil [simp]: "has_prefix s []"
  by (simp add: has_prefix_def)

lemma has_prefix_Cons [simp]: "has_prefix (x # s) (y # p) \<longleftrightarrow> x = y \<and> has_prefix s p"
  by (auto simp: has_prefix_def)

lemma has_prefix_Nil_Cons [simp]: "\<not> has_prefix [] (y # p)"
  by (simp add: has_prefix_def)

lemma has_suffix_snoc [simp]: "has_suffix (s @ [x]) [y] \<longleftrightarrow> x = y"
  by (simp add: has_suffix_def)

lemma trim_suffix_append [simp]: "trim_suffix (s @ p) p = s"
  by (simp add: trim_suffix_def has_suffix_iff)

lemma trim_suffix_cases:
  "(\<exists>t. s = t @ p \<and> trim_suffix s p = t) \<or> (\<not> has_suffix s p \<and> trim_suffix s p = s)"
  by (auto simp: trim_suffix_def has_suffix_iff)

lemma set_trim_suffix: "set (trim_suffix s p) \<subseteq> set s"
  by (auto simp: trim_suffix_def dest: in_set_takeD)

lemma length_trim_suffix: "length (trim_suffix s p) \<le> length s"
  by (simp add: trim_suffix_def)

lemma str_index_Some:
  "str_index s p = Some i \<Longrightarrow> s = take i s @ p @ drop (i + length p) s"
proof (induction s p arbitrary: i rule: str_index.induct)
  case (1 p)
  then show ?case by (simp split: if_splits)
next
  case (2 c s p)
  show ?case
  proof (cases "has_prefix (c # s) p")
    case True
    with "2.prems" show ?thesis by (auto simp: has_prefix_iff)
  next
    case False
    with "2.prems" obtain j where j: "str_index s p = Some j" "i = Suc j" by auto
    from "2.IH"[OF False j(1)] j(2) show ?thesis by simp
  qed
qed

lemma str_index_single_None: "str_index s [c] = None \<longleftrightarrow> c \<notin> set s"
  by (induction s) auto

lemma cut_found: "cut s p = (a, b, True) \<Longrightarrow> s = a @ p @ b"
  by (auto simp: cut_def dest: str_index_Some split: option.splits)

lemma cut_not_found: "cut s p = (a, b, False) \<Longrightarrow> a = s \<and> b = []"
  by (auto simp: cut_def split: option.splits)

lemma split_on_nonempty [simp]: "split_on c s \<noteq> []"
  by (induction s) (auto split: list.splits)

lemma split_after_nonempty [simp]: "split_after c s \<noteq> []"
  by (induction s) (auto split: list.splits)

lemma join_split [go_str]: "join_with [c] (split_on c s) = s"
proof (induction s)
  case Nil
  then show ?case by simp
next
  case (Cons x s)
  obtain w ws where "split_on c s = w # ws"
    using split_on_nonempty neq_Nil_conv by metis
  with Cons show ?case by (cases ws) auto
qed

lemma concat_split_after [go_str]: "concat (split_after c s) = s"
  by (induction s) (auto split: list.splits)

lemma set_split_on: "w \<in> set (split_on c s) \<Longrightarrow> set w \<subseteq> set s - {c}"
proof (induction s arbitrary: w)
  case Nil
  then show ?case by simp
next
  case (Cons x s)
  obtain v vs where "split_on c s = v # vs"
    using split_on_nonempty neq_Nil_conv by metis
  with Cons show ?case by (auto split: if_splits) blast+
qed

lemma set_from_split_on: "x \<in> set s \<Longrightarrow> x = c \<or> (\<exists>w \<in> set (split_on c s). x \<in> set w)"
  by (induction s) (auto split: list.splits)

section \<open>ASCII case folding\<close>

text \<open>
  strings.ToLower and strings.EqualFold work byte by byte on ASCII text and consult the Unicode
  case tables otherwise. The tables are the parameter \<open>ul\<close> (lower-casing of a string that has a
  non-ASCII byte) and \<open>uf\<close> (folding comparison of strings of which one has such a byte).
\<close>

definition is_ascii :: "char \<Rightarrow> bool" where
  "is_ascii c = (of_char c < (128 :: nat))"

definition all_ascii :: "string \<Rightarrow> bool" where
  "all_ascii s = list_all is_ascii s"

definition is_upper :: "char \<Rightarrow> bool" where
  "is_upper c = (CHR ''A'' \<le> c \<and> c \<le> CHR ''Z'')"

definition lower_char :: "char \<Rightarrow> char" where
  "lower_char c = (if is_upper c then char_of (of_char c + (32 :: nat)) else c)"

definition to_lower :: "(string \<Rightarrow> string) \<Rightarrow> string \<Rightarrow> string" where
  "to_lower ul s = (if all_ascii s then map lower_char s else ul s)"

definition equal_fold :: "(string \<Rightarrow> string \<Rightarrow> bool) \<Rightarrow> string \<Rightarrow> string \<Rightarrow> bool" where
  "equal_fold uf s t =
     (if all_ascii s \<and> all_ascii t then map lower_char s = map lower_char t else uf s t)"

lemma is_upper_code: "is_upper c \<longleftrightarrow> 65 \<le> (of_char c :: nat) \<and> (of_char c :: nat) \<le> 90"
  by (simp add: is_upper_def less_eq_char_def)

lemma of_char_lower_char:
  "(of_char (lower_char c) :: nat) = (if is_upper c then of_char c + 32 else of_char c)"
  by (auto simp: lower_char_def is_upper_code)

lemma lower_char_not_upper [simp]: "\<not> is_upper (lower_char c)"
  by (auto simp: is_upper_code of_char_lower_char)

lemma lower_char_id [simp]: "\<not> is_upper c \<Longrightarrow> lower_char c = c"
  by (simp add: lower_char_def)

lemma lower_char_idem [simp]: "lower_char (lower_char c) = lower_char c"
  by simp

lemma is_ascii_lower_char [simp]: "is_ascii (lower_char c) = is_ascii c"
  by (auto simp: is_ascii_def of_char_lower_char is_upper_code)

lemma all_ascii_map_lower [simp]: "all_ascii (map lower_char s) = all_ascii s"
  by (simp add: all_ascii_def list_all_iff)

lemma to_lower_ascii [simp]: "all_ascii s \<Longrightarrow> to_lower ul s = map lower_char s"
  by (simp add: to_lower_def)

lemma to_lower_idem: "all_ascii s \<Longrightarrow> to_lower ul (to_lower ul' s) = to_lower ul s"
  by (simp add: comp_def)

lemma equal_fold_ascii [simp]:
  "all_ascii s \<Longrightarrow> all_ascii t \<Longrightarrow>
     equal_fold uf s t \<longleftrightarrow> map lower_char s = map lower_char t"
  by (simp add: equal_fold_def)

lemma length_to_lower_ascii: "all_ascii s \<Longrightarrow> length (to_lower ul s) = length s"
  by simp

section \<open>Numbers\<close>

text \<open>The two's complement reading of the low 64 bits: what Go's int64 arithmetic keeps.\<close>

definition wrap64 :: "int \<Rightarrow> int" where
  "wrap64 x = (x + 2 ^ 63) mod 2 ^ 64 - 2 ^ 63"

definition in_int64 :: "int \<Rightarrow> bool" where
  "in_int64 x = (- (2 ^ 63) \<le> x \<and> x < 2 ^ 63)"

lemma wrap64_id [simp]: "in_int64 x \<Longrightarrow> wrap64 x = x"
  by (simp add: wrap64_def in_int64_def)

lemma wrap64_range: "in_int64 (wrap64 x)"
proof -
  have "0 \<le> (x + 2 ^ 63) mod 2 ^ 64" "(x + 2 ^ 63) mod 2 ^ 64 < (2 ^ 64 :: int)"
    by simp_all
  then show ?thesis by (simp add: wrap64_def in_int64_def)
qed

lemma wrap64_sint: "wrap64 x = sint (word_of_int x :: 64 word)"
  by (simp add: wrap64_def sint_word_ariths signed_take_bit_eq_take_bit_shift take_bit_eq_mod
        sint_uint uint_word_of_int mod_simps)

text \<open>
  strconv.ParseUint in base 8, 10 or 16: digits only, and a value that fits the bit size.
  strconv.ParseInt adds an optional sign; strconv.Atoi is the 64-bit decimal case.
\<close>

definition digit_val :: "char \<Rightarrow> nat option" where
  "digit_val c = (let n = (of_char c :: nat) in
     if 48 \<le> n \<and> n \<le> 57 then Some (n - 48)
     else if 97 \<le> n \<and> n \<le> 122 then Some (n - 87)
     else if 65 \<le> n \<and> n \<le> 90 then Some (n - 55)
     else None)"

fun digits_val :: "nat \<Rightarrow> nat \<Rightarrow> string \<Rightarrow> nat option" where
  "digits_val base acc [] = Some acc"
| "digits_val base acc (c # s) = (case digit_val c of
      Some d \<Rightarrow> if d < base then digits_val base (acc * base + d) s else None
    | None \<Rightarrow> None)"

definition parse_uint :: "nat \<Rightarrow> nat \<Rightarrow> string \<Rightarrow> nat option" where
  "parse_uint base bits s = (if s = [] then None else
     case digits_val base 0 s of
       Some n \<Rightarrow> if n < 2 ^ bits then Some n else None
     | None \<Rightarrow> None)"

definition parse_int :: "nat \<Rightarrow> nat \<Rightarrow> string \<Rightarrow> int option" where
  "parse_int base bits s = (case s of
      [] \<Rightarrow> None
    | c # r \<Rightarrow>
        let neg = (c = CHR ''-''); body = (if c = CHR ''-'' \<or> c = CHR ''+'' then r else s) in
        (case parse_uint base 64 body of
           None \<Rightarrow> None
         | Some n \<Rightarrow>
             if \<not> neg \<and> n < 2 ^ (bits - 1) then Some (int n)
             else if neg \<and> n \<le> 2 ^ (bits - 1) then Some (- int n)
             else None))"

definition atoi :: "string \<Rightarrow> int option" where
  "atoi s = parse_int 10 64 s"

text \<open>strconv.Itoa and the decimal verb of fmt.\<close>

fun show_nat :: "nat \<Rightarrow> string" where
  "show_nat n = (if n < 10 then [char_of (48 + n)]
     else show_nat (n div 10) @ [char_of (48 + n mod 10)])"

declare show_nat.simps [simp del]

definition show_int :: "int \<Rightarrow> string" where
  "show_int i = (if i < 0 then CHR ''-'' # show_nat (nat (- i)) else show_nat (nat i))"

lemma digit_val_char_of: "d < 10 \<Longrightarrow> digit_val (char_of (48 + d)) = Some d"
  by (simp add: digit_val_def)

lemma digits_val_append:
  "digits_val b a (s @ t) = Option.bind (digits_val b a s) (\<lambda>a'. digits_val b a' t)"
  by (induction b a s rule: digits_val.induct) (auto split: option.splits)

lemma digits_val_show_nat: "digits_val 10 0 (show_nat n) = Some n"
proof (induction n rule: show_nat.induct)
  case (1 n)
  show ?case
  proof (cases "n < 10")
    case True
    then show ?thesis by (subst show_nat.simps) (simp add: digit_val_char_of)
  next
    case False
    with "1" have "digits_val 10 0 (show_nat (n div 10)) = Some (n div 10)" by simp
    with False show ?thesis
      by (subst show_nat.simps) (simp add: digits_val_append digit_val_char_of)
  qed
qed

lemma show_nat_nonempty [simp]: "show_nat n \<noteq> []"
  by (subst show_nat.simps) simp

lemma parse_uint_show_nat: "n < 2 ^ bits \<Longrightarrow> parse_uint 10 bits (show_nat n) = Some n"
  by (simp add: parse_uint_def digits_val_show_nat)

lemma show_nat_inj: "show_nat m = show_nat n \<Longrightarrow> m = n"
  by (metis digits_val_show_nat option.inject)

lemma parse_uint_bound: "parse_uint b bits s = Some n \<Longrightarrow> n < 2 ^ bits"
  by (auto simp: parse_uint_def split: option.splits if_splits)

lemma parse_int_range: "parse_int b 64 s = Some i \<Longrightarrow> in_int64 i"
  by (auto simp: parse_int_def in_int64_def Let_def split: list.splits option.splits if_splits)

lemma show_nat_digits: "set (show_nat n) \<subseteq> set ''0123456789''"
proof (induction n rule: show_nat.induct)
  case (1 n)
  have d: "char_of (48 + d) \<in> set ''0123456789''" if "d < 10" for d :: nat
  proof -
    have "\<forall>d \<in> set [0..<10]. char_of (48 + d) \<in> set ''0123456789''" by code_simp
    with that show ?thesis by simp
  qed
  show ?case
  proof (cases "n < 10")
    case True
    then show ?thesis by (subst show_nat.simps) (use d in simp)
  next
    case False
    with "1" d[of "n mod 10"] show ?thesis by (subst show_nat.simps) simp
  qed
qed

lemma show_nat_hd: "show_nat n = c # s \<Longrightarrow> c \<noteq> CHR ''-'' \<and> c \<noteq> CHR ''+''"
  using show_nat_digits[of n] by auto

lemma parse_int_show_int:
  assumes "in_int64 i"
  shows "parse_int 10 64 (show_int i) = Some i"
proof (cases "i < 0")
  case True
  moreover have "nat (- i) < 2 ^ 64" using assms True by (simp add: in_int64_def nat_less_iff)
  ultimately show ?thesis using assms
    by (simp add: show_int_def parse_int_def parse_uint_show_nat in_int64_def nat_le_iff)
next
  case False
  obtain c s where cs: "show_nat (nat i) = c # s" by (cases "show_nat (nat i)") auto
  have "nat i < 2 ^ 64" using assms False by (simp add: in_int64_def nat_less_iff)
  then have "parse_uint 10 64 (c # s) = Some (nat i)" using parse_uint_show_nat cs by metis
  moreover have "nat i < 2 ^ 63" using assms False by (simp add: in_int64_def nat_less_iff)
  ultimately show ?thesis using False show_nat_hd[OF cs]
    by (simp add: show_int_def parse_int_def cs)
qed

section \<open>Duplicate removal and sorting\<close>

text \<open>
  The loop that appends a value when a \<open>seen\<close> map does not hold it yet keeps the first
  occurrence of each value.
\<close>

fun dedupe :: "'a list \<Rightarrow> 'a list \<Rightarrow> 'a list" where
  "dedupe seen [] = []"
| "dedupe seen (x # xs) =
     (if x \<in> set seen then dedupe seen xs else x # dedupe (x # seen) xs)"

lemma set_dedupe: "set (dedupe seen xs) = set xs - set seen"
  by (induction seen xs rule: dedupe.induct) auto

lemma distinct_dedupe: "distinct (dedupe seen xs)"
  by (induction seen xs rule: dedupe.induct) (auto simp: set_dedupe)

lemma length_dedupe: "length (dedupe seen xs) \<le> length xs"
  by (induction seen xs rule: dedupe.induct) auto

section \<open>Searching a list\<close>

lemma find_append: "find P (xs @ ys) = (case find P xs of Some x \<Rightarrow> Some x | None \<Rightarrow> find P ys)"
  by (induction xs) auto

lemma map_filter_set: "set (List.map_filter f xs) = {y. \<exists>x \<in> set xs. f x = Some y}"
  by (induction xs) (auto simp: map_filter_simps split: option.splits)

end
