(* ===== verification/Go_Net.thy ===== *)
theory Go_Net
  imports Go_Base
begin

unbundle bit_operations_syntax

text \<open>
  The parts of Go's package net that the egress layer calls: textual IP addresses
  (net.ParseIP, which refuses zones), CIDR networks (net.ParseCIDR, IPNet.Contains), the
  classification methods of net.IP and net.SplitHostPort. A net.IP is a byte slice of length 4
  or 16; the nil slice is the empty list.
\<close>

section \<open>Textual IPv4\<close>

text \<open>
  netip's parser of dotted fields: the accumulated value and digit count of the current octet,
  the octets so far, whether the previous byte was a dot or the start, and the rest.
\<close>

fun v4_fields :: "nat \<Rightarrow> nat \<Rightarrow> bytes \<Rightarrow> bool \<Rightarrow> string \<Rightarrow> bytes option" where
  "v4_fields v n fs dot [] = (if length fs < 3 then None else Some (fs @ [of_nat v]))"
| "v4_fields v n fs dot (c # s) =
     (let d = (of_char c :: nat) in
      if 48 \<le> d \<and> d \<le> 57 then
        (if n = 1 \<and> v = 0 then None
         else if v * 10 + (d - 48) > 255 then None
         else v4_fields (v * 10 + (d - 48)) (Suc n) fs False s)
      else if c = CHR ''.'' then
        (if dot \<or> s = [] \<or> length fs = 3 then None
         else v4_fields 0 0 (fs @ [of_nat v]) True s)
      else None)"

definition parse_ipv4_fields :: "string \<Rightarrow> bytes option" where
  "parse_ipv4_fields s = v4_fields 0 0 [] True s"

section \<open>Textual IPv6\<close>

definition is_hex :: "char \<Rightarrow> bool" where
  "is_hex c = (let n = (of_char c :: nat) in
     (48 \<le> n \<and> n \<le> 57) \<or> (97 \<le> n \<and> n \<le> 102) \<or> (65 \<le> n \<and> n \<le> 70))"

text \<open>One group: up to four hexadecimal digits accumulated in a uint32, stored as two bytes.\<close>

fun hex_acc :: "32 word \<Rightarrow> string \<Rightarrow> 32 word" where
  "hex_acc acc [] = acc"
| "hex_acc acc (c # s) =
     hex_acc (push_bit 4 acc + (case digit_val c of Some d \<Rightarrow> of_nat d | None \<Rightarrow> 0)) s"

definition hex_chunk :: "string \<Rightarrow> bytes" where
  "hex_chunk hs = [ucast (drop_bit 8 (hex_acc 0 hs)), ucast (hex_acc 0 hs)]"

lemma length_hex_chunk [simp]: "length (hex_chunk hs) = 2"
  by (simp add: hex_chunk_def)

text \<open>
  The loop over colon-separated groups: bytes so far, the position of the ellipsis, the rest of
  the text. It returns the bytes, the ellipsis and what is left of the text.
\<close>

function p6_loop :: "bytes \<Rightarrow> nat option \<Rightarrow> string \<Rightarrow> (bytes \<times> nat option \<times> string) option"
  where
  "p6_loop acc ell s =
     (if length acc \<ge> 16 then Some (acc, ell, s)
      else let hs = takeWhile is_hex s; r = dropWhile is_hex s in
        if hs = [] \<or> length hs > 4 then None
        else (case r of
           [] \<Rightarrow> Some (acc @ hex_chunk hs, ell, [])
         | c # q \<Rightarrow>
             if c = CHR ''.'' then
               (if ell = None \<and> length acc \<noteq> 12 then None
                else if length acc + 4 > 16 then None
                else (case parse_ipv4_fields s of
                        None \<Rightarrow> None | Some f \<Rightarrow> Some (acc @ f, ell, [])))
             else if c \<noteq> CHR '':'' then None
             else (case q of
                [] \<Rightarrow> None
              | d # t \<Rightarrow>
                  if d = CHR '':'' then
                    (if ell \<noteq> None then None
                     else if t = [] then
                       Some (acc @ hex_chunk hs, Some (length (acc @ hex_chunk hs)), [])
                     else p6_loop (acc @ hex_chunk hs) (Some (length (acc @ hex_chunk hs))) t)
                  else p6_loop (acc @ hex_chunk hs) ell q)))"
  by pat_completeness auto

termination
  by (relation "measure (\<lambda>(acc, ell, s). 16 - length acc)") auto

declare p6_loop.simps [simp del]

definition p6_finish :: "bytes \<times> nat option \<times> string \<Rightarrow> bytes option" where
  "p6_finish r = (case r of (acc, ell, s) \<Rightarrow>
     if s \<noteq> [] then None
     else if length acc < 16 then
       (case ell of None \<Rightarrow> None
        | Some e \<Rightarrow> Some (take e acc @ replicate (16 - length acc) 0 @ drop e acc))
     else if ell \<noteq> None then None else Some acc)"

text \<open>A zone is refused by net.ParseIP, and an empty zone by netip.\<close>

definition parse_ipv6 :: "string \<Rightarrow> bytes option" where
  "parse_ipv6 s =
     (if CHR ''%'' \<in> set s then None
      else if has_prefix s ''::'' then
        (if length s = 2 then Some (replicate 16 0)
         else Option.bind (p6_loop [] (Some 0) (drop 2 s)) p6_finish)
      else Option.bind (p6_loop [] None s) p6_finish)"

definition v4_in_v6_prefix :: bytes where
  "v4_in_v6_prefix = [0, 0, 0, 0, 0, 0, 0, 0, 0, 0, 255, 255]"

text \<open>The first of the bytes '.', ':' and '%' decides which parser runs.\<close>

definition first_addr_mark :: "string \<Rightarrow> char option" where
  "first_addr_mark s = find (\<lambda>c. c = CHR ''.'' \<or> c = CHR '':'' \<or> c = CHR ''%'') s"

definition parse_addr :: "string \<Rightarrow> bytes option" where
  "parse_addr s = (case first_addr_mark s of
      None \<Rightarrow> None
    | Some c \<Rightarrow> if c = CHR ''.'' then parse_ipv4_fields s
                else if c = CHR '':'' then parse_ipv6 s else None)"

text \<open>net.ParseIP always returns the 16-byte form.\<close>

definition to16 :: "bytes \<Rightarrow> bytes" where
  "to16 ip = (if length ip = 4 then v4_in_v6_prefix @ ip else ip)"

definition parse_ip :: "string \<Rightarrow> bytes option" where
  "parse_ip s = map_option to16 (parse_addr s)"

section \<open>Facts about the parsers\<close>

text \<open>What one step of the field parser can do when it succeeds.\<close>

lemma v4_fields_step:
  assumes "v4_fields v n fs dot (c # s) = Some r"
  obtains (digit) v' n' where "48 \<le> (of_char c :: nat)" "(of_char c :: nat) \<le> 57"
      "v4_fields v' n' fs False s = Some r"
    | (dot) "c = CHR ''.''" "length fs \<noteq> 3" "v4_fields 0 0 (fs @ [of_nat v]) True s = Some r"
  using assms by (simp only: v4_fields.simps Let_def split: if_splits) blast+

lemma v4_fields_length: "v4_fields v n fs dot s = Some r \<Longrightarrow> length fs \<le> 3 \<Longrightarrow> length r = 4"
proof (induction s arbitrary: v n fs dot)
  case Nil
  then show ?case by (auto split: if_splits)
next
  case (Cons c s)
  from Cons.prems(1) show ?case
  proof (cases rule: v4_fields_step)
    case (digit v' n')
    with Cons show ?thesis by blast
  next
    case dot
    from Cons.IH[OF dot(3)] dot(2) Cons.prems(2) show ?thesis by simp
  qed
qed

lemma parse_ipv4_length: "parse_ipv4_fields s = Some r \<Longrightarrow> length r = 4"
  by (simp add: parse_ipv4_fields_def v4_fields_length)

definition v4_char :: "char \<Rightarrow> bool" where
  "v4_char c = ((48 \<le> (of_char c :: nat) \<and> (of_char c :: nat) \<le> 57) \<or> c = CHR ''.'')"

lemma v4_fields_chars: "v4_fields v n fs dot s = Some r \<Longrightarrow> list_all v4_char s"
proof (induction s arbitrary: v n fs dot)
  case Nil
  then show ?case by simp
next
  case (Cons c s)
  from Cons.prems show ?case
    by (cases rule: v4_fields_step) (auto simp: v4_char_def dest: Cons.IH)
qed

definition ip_char :: "char \<Rightarrow> bool" where
  "ip_char c = (is_hex c \<or> c = CHR ''.'' \<or> c = CHR '':'')"

lemma v4_char_ip_char: "v4_char c \<Longrightarrow> ip_char c"
  unfolding v4_char_def ip_char_def is_hex_def Let_def by blast

lemma list_all_hex_prefix:
  "list_all ip_char (dropWhile is_hex s) \<Longrightarrow> list_all ip_char s"
  by (induction s) (auto simp: ip_char_def split: if_splits)

text \<open>The ways one round of the group loop can succeed.\<close>

lemma p6_loop_step:
  assumes "p6_loop acc ell s = Some res"
  obtains (full) "16 \<le> length acc" "res = (acc, ell, s)"
    | (last) "length acc < 16" "dropWhile is_hex s = []"
        "res = (acc @ hex_chunk (takeWhile is_hex s), ell, [])"
    | (dotted) f where "length acc + 4 \<le> 16" "parse_ipv4_fields s = Some f"
        "res = (acc @ f, ell, [])"
    | (ellipsis_end) "length acc < 16" "dropWhile is_hex s = ''::''"
        "res = (acc @ hex_chunk (takeWhile is_hex s), Some (length acc + 2), [])"
    | (ellipsis) t where "length acc < 16" "dropWhile is_hex s = CHR '':'' # CHR '':'' # t"
        "p6_loop (acc @ hex_chunk (takeWhile is_hex s)) (Some (length acc + 2)) t = Some res"
    | (group) q where "length acc < 16" "dropWhile is_hex s = CHR '':'' # q"
        "p6_loop (acc @ hex_chunk (takeWhile is_hex s)) ell q = Some res"
  using assms unfolding p6_loop.simps[of acc ell s] Let_def
  by (auto split: if_splits list.splits option.splits)

lemma length_dropWhile_tail: "dropWhile P s = c # q \<Longrightarrow> length q < length s"
  by (metis length_Cons length_dropWhile_le not_less_eq_eq linorder_not_less)

lemma p6_loop_chars:
  "p6_loop acc ell s = Some (a, e, []) \<Longrightarrow> list_all ip_char s"
proof (induction s arbitrary: acc ell rule: length_induct)
  case (1 s)
  note IH = "1.IH"[rule_format]
  have *: "list_all ip_char (dropWhile is_hex s) \<Longrightarrow> ?case" by (rule list_all_hex_prefix)
  from "1.prems" show ?case
  proof (cases rule: p6_loop_step)
    case full
    then show ?thesis by simp
  next
    case last
    show ?thesis by (rule *) (simp only: last(2) list.pred_inject)
  next
    case (dotted f)
    then have "list_all v4_char s" by (auto simp: parse_ipv4_fields_def dest: v4_fields_chars)
    then show ?thesis by (auto simp: list_all_iff dest: v4_char_ip_char)
  next
    case ellipsis_end
    show ?thesis by (rule *) (simp add: ellipsis_end(2) ip_char_def)
  next
    case (ellipsis t)
    then have "length t < length s" using length_dropWhile_tail[of is_hex s] by fastforce
    from IH[OF this ellipsis(3)] ellipsis(2) show ?thesis by (intro *) (simp add: ip_char_def)
  next
    case (group q)
    from IH[OF length_dropWhile_tail[OF group(2)] group(3)] group(2)
    show ?thesis by (intro *) (simp add: ip_char_def)
  qed
qed

lemma p6_finish_length:
  "p6_finish (a, e, r) = Some ip \<Longrightarrow> length a \<le> 16 \<Longrightarrow> length ip = 16"
  by (auto simp: p6_finish_def split: if_splits option.splits)

lemma p6_loop_length:
  "p6_loop acc ell s = Some (a, e, r) \<Longrightarrow> length acc \<le> 16 \<Longrightarrow> even (length acc) \<Longrightarrow> length a \<le> 16"
proof (induction s arbitrary: acc ell rule: length_induct)
  case (1 s)
  note IH = "1.IH"[rule_format]
  have two: "length acc < 16 \<Longrightarrow> length acc + 2 \<le> 16" using "1.prems"(3) by presburger
  from "1.prems"(1) show ?case
  proof (cases rule: p6_loop_step)
    case (ellipsis t)
    then have "length t < length s" using length_dropWhile_tail[of is_hex s] by fastforce
    from IH[OF this ellipsis(3)] two[OF ellipsis(1)] "1.prems"(3) show ?thesis by simp
  next
    case (group q)
    from IH[OF length_dropWhile_tail[OF group(2)] group(3)] two[OF group(1)] "1.prems"(3)
    show ?thesis by simp
  qed (use two "1.prems"(2) in \<open>auto dest: parse_ipv4_length\<close>)
qed

lemma parse_addr_chars: "parse_addr s = Some ip \<Longrightarrow> list_all ip_char s"
proof -
  assume s: "parse_addr s = Some ip"
  have six: "list_all ip_char s" if six: "parse_ipv6 s = Some ip"
  proof (cases "has_prefix s ''::''")
    case True
    then obtain t where t: "s = ''::'' @ t" by (auto simp: has_prefix_iff)
    show ?thesis
    proof (cases "t = []")
      case True
      with t show ?thesis by (simp add: ip_char_def)
    next
      case False
      with six t True obtain a e r where "p6_loop [] (Some 0) t = Some (a, e, r)"
          and f: "p6_finish (a, e, r) = Some ip"
        by (auto simp: parse_ipv6_def bind_eq_Some_conv split: if_splits)
      moreover from f have "r = []" by (auto simp: p6_finish_def split: if_splits)
      ultimately have "list_all ip_char t" using p6_loop_chars by blast
      with t show ?thesis by (simp add: ip_char_def)
    qed
  next
    case False
    with six obtain a e r where "p6_loop [] None s = Some (a, e, r)"
        and f: "p6_finish (a, e, r) = Some ip"
      by (auto simp: parse_ipv6_def bind_eq_Some_conv split: if_splits)
    moreover from f have "r = []" by (auto simp: p6_finish_def split: if_splits)
    ultimately show ?thesis using p6_loop_chars by blast
  qed
  from s show ?thesis
    by (auto simp: parse_addr_def parse_ipv4_fields_def list_all_iff split: option.splits if_splits
        dest!: v4_fields_chars six v4_char_ip_char)
qed

lemma parse_ipv6_length: "parse_ipv6 s = Some ip \<Longrightarrow> length ip = 16"
  by (auto simp: parse_ipv6_def bind_eq_Some_conv split: if_splits
      dest!: p6_finish_length p6_loop_length)

lemma parse_addr_length: "parse_addr s = Some ip \<Longrightarrow> length ip = 4 \<or> length ip = 16"
  by (auto simp: parse_addr_def split: option.splits if_splits
      dest: parse_ipv4_length parse_ipv6_length)

lemma length_to16: "length ip = 4 \<or> length ip = 16 \<Longrightarrow> length (to16 ip) = 16"
  by (auto simp: to16_def v4_in_v6_prefix_def)

lemma parse_ip_length: "parse_ip s = Some ip \<Longrightarrow> length ip = 16"
  by (auto simp: parse_ip_def dest!: parse_addr_length intro: length_to16)

lemma parse_ip_chars: "parse_ip s = Some ip \<Longrightarrow> list_all ip_char s"
  by (auto simp: parse_ip_def dest: parse_addr_chars)

section \<open>Methods of net.IP\<close>

definition ip_to4 :: "bytes \<Rightarrow> bytes option" where
  "ip_to4 ip =
     (if length ip = 4 then Some ip
      else if length ip = 16 \<and> take 12 ip = v4_in_v6_prefix then Some (drop 12 ip)
      else None)"

text \<open>IP.Equal: a 4-byte address equals its IPv4-mapped 16-byte form.\<close>

definition ip_equal :: "bytes \<Rightarrow> bytes \<Rightarrow> bool" where
  "ip_equal a b =
     (if length a = length b then a = b
      else if length a = 4 \<and> length b = 16 then take 12 b = v4_in_v6_prefix \<and> drop 12 b = a
      else if length a = 16 \<and> length b = 4 then take 12 a = v4_in_v6_prefix \<and> drop 12 a = b
      else False)"

definition is_unspecified :: "bytes \<Rightarrow> bool" where
  "is_unspecified ip = (ip_equal ip (to16 [0, 0, 0, 0]) \<or> ip_equal ip (replicate 16 0))"

definition is_loopback :: "bytes \<Rightarrow> bool" where
  "is_loopback ip = (case ip_to4 ip of
      Some v \<Rightarrow> v ! 0 = 127
    | None \<Rightarrow> ip_equal ip (replicate 15 0 @ [1]))"

definition is_private :: "bytes \<Rightarrow> bool" where
  "is_private ip = (case ip_to4 ip of
      Some v \<Rightarrow> v ! 0 = 10 \<or> (v ! 0 = 172 \<and> v ! 1 AND 0xf0 = 16) \<or> (v ! 0 = 192 \<and> v ! 1 = 168)
    | None \<Rightarrow> length ip = 16 \<and> ip ! 0 AND 0xfe = 0xfc)"

definition is_multicast :: "bytes \<Rightarrow> bool" where
  "is_multicast ip = (case ip_to4 ip of
      Some v \<Rightarrow> v ! 0 AND 0xf0 = 0xe0
    | None \<Rightarrow> length ip = 16 \<and> ip ! 0 = 0xff)"

definition is_link_local_multicast :: "bytes \<Rightarrow> bool" where
  "is_link_local_multicast ip = (case ip_to4 ip of
      Some v \<Rightarrow> v ! 0 = 224 \<and> v ! 1 = 0 \<and> v ! 2 = 0
    | None \<Rightarrow> length ip = 16 \<and> ip ! 0 = 0xff \<and> ip ! 1 AND 0x0f = 0x02)"

definition is_link_local_unicast :: "bytes \<Rightarrow> bool" where
  "is_link_local_unicast ip = (case ip_to4 ip of
      Some v \<Rightarrow> v ! 0 = 169 \<and> v ! 1 = 254
    | None \<Rightarrow> length ip = 16 \<and> ip ! 0 = 0xfe \<and> ip ! 1 AND 0xc0 = 0x80)"

definition is_global_unicast :: "bytes \<Rightarrow> bool" where
  "is_global_unicast ip =
     ((length ip = 4 \<or> length ip = 16) \<and>
      \<not> ip_equal ip (to16 [255, 255, 255, 255]) \<and> \<not> is_unspecified ip \<and>
      \<not> is_loopback ip \<and> \<not> is_multicast ip \<and> \<not> is_link_local_unicast ip)"

section \<open>CIDR networks\<close>

record ipnet =
  net_ip :: bytes
  net_mask :: bytes

text \<open>net.CIDRMask: \<open>n\<close> one bits over \<open>k\<close> bytes.\<close>

fun cidr_mask :: "nat \<Rightarrow> nat \<Rightarrow> bytes" where
  "cidr_mask n 0 = []"
| "cidr_mask n (Suc k) =
     (if 8 \<le> n then 255 # cidr_mask (n - 8) k
      else NOT (drop_bit n 255) # cidr_mask 0 k)"

definition and_bytes :: "bytes \<Rightarrow> bytes \<Rightarrow> bytes" where
  "and_bytes xs ys = map2 (\<lambda>x y. x AND y) xs ys"

text \<open>net.ParseCIDR: the address in 16-byte form, and the network.\<close>

definition parse_cidr :: "string \<Rightarrow> (bytes \<times> ipnet) option" where
  "parse_cidr s = (case cut s ''/'' of (addr, pfx, found) \<Rightarrow>
     if \<not> found then None
     else (case parse_addr addr of
        None \<Rightarrow> None
      | Some ip \<Rightarrow>
          (case (if pfx = [] then None else digits_val 10 0 pfx) of
             None \<Rightarrow> None
           | Some n \<Rightarrow>
               if n > 8 * length ip then None
               else Some (to16 ip,
                 \<lparr>net_ip = and_bytes ip (cidr_mask n (length ip)),
                  net_mask = cidr_mask n (length ip)\<rparr>))))"

text \<open>net.networkNumberAndMask and IPNet.Contains.\<close>

definition network_number_and_mask :: "ipnet \<Rightarrow> (bytes \<times> bytes) option" where
  "network_number_and_mask n =
     (let ip = (case ip_to4 (net_ip n) of Some v \<Rightarrow> v | None \<Rightarrow> net_ip n); m = net_mask n in
      if ip_to4 (net_ip n) = None \<and> length ip \<noteq> 16 then None
      else if length m = 4 then (if length ip \<noteq> 4 then None else Some (ip, m))
      else if length m = 16 then Some (ip, if length ip = 4 then drop 12 m else m)
      else None)"

definition net_contains :: "ipnet \<Rightarrow> bytes \<Rightarrow> bool" where
  "net_contains n ip =
     (case network_number_and_mask n of
        None \<Rightarrow> (case ip_to4 ip of Some v \<Rightarrow> v | None \<Rightarrow> ip) = []
      | Some (nn, m) \<Rightarrow>
          let x = (case ip_to4 ip of Some v \<Rightarrow> v | None \<Rightarrow> ip) in
          length x = length nn \<and> and_bytes nn m = and_bytes x m)"

section \<open>IP.String for IPv4 and net.SplitHostPort\<close>

definition show_v4 :: "bytes \<Rightarrow> string" where
  "show_v4 ip = join_with ''.'' (map (\<lambda>b. show_nat (unat b)) ip)"

text \<open>net.SplitHostPort; None stands for each of its address errors.\<close>

definition split_host_port :: "string \<Rightarrow> (string \<times> string) option" where
  "split_host_port hp = (case last_index hp CHR '':'' of
      None \<Rightarrow> None
    | Some i \<Rightarrow>
        if has_prefix hp ''['' then
          (case str_index hp '']'' of
             None \<Rightarrow> None
           | Some e \<Rightarrow>
               if Suc e \<noteq> i then None
               else if CHR ''['' \<in> set (drop 1 hp) \<or> CHR '']'' \<in> set (drop (Suc e) hp) then None
               else Some (take (e - 1) (drop 1 hp), drop (Suc i) hp))
        else if CHR '':'' \<in> set (take i hp) then None
        else if CHR ''['' \<in> set hp \<or> CHR '']'' \<in> set hp then None
        else Some (take i hp, drop (Suc i) hp))"

section \<open>Masks as bit prefixes\<close>

text \<open>
  The specification of a CIDR network: an address lies in it exactly when its first \<open>n\<close> bits,
  most significant first, are those of the network's address.
\<close>

definition byte_bits :: "u8 \<Rightarrow> bool list" where
  "byte_bits b = map (\<lambda>i. bit b (7 - i)) [0..<8]"

definition ip_bits :: "bytes \<Rightarrow> bool list" where
  "ip_bits ip = concat (map byte_bits ip)"

lemma length_byte_bits [simp]: "length (byte_bits b) = 8"
  by (simp add: byte_bits_def)

lemma nth_byte_bits: "i < 8 \<Longrightarrow> byte_bits b ! i = bit b (7 - i)"
  by (simp add: byte_bits_def)

lemma bit_via_byte_bits: "n < 8 \<Longrightarrow> bit b n = byte_bits b ! (7 - n)"
proof -
  assume n: "n < 8"
  then have "7 - n < 8" "7 - (7 - n) = n" by arith+
  then show ?thesis by (simp add: nth_byte_bits)
qed

lemma byte_bits_inj: "byte_bits a = byte_bits b \<longleftrightarrow> a = b"
proof
  assume "byte_bits a = byte_bits b"
  then have "bit a n = bit b n" if "n < 8" for n
    using that by (simp add: bit_via_byte_bits)
  then show "a = b" by (intro bit_word_eqI) simp
qed simp

lemma bit_ones_byte: "bit (255 :: u8) i \<longleftrightarrow> i < 8"
proof -
  have "bit (mask 8 :: u8) i \<longleftrightarrow> i < 8" by (auto simp: bit_mask_iff)
  then show ?thesis by (simp add: mask_eq_exp_minus_1)
qed

lemma and_ones_byte [simp]: "b AND 255 = (b :: u8)"
proof (rule bit_word_eqI)
  fix n :: nat
  assume "n < LENGTH(8)"
  then have "bit (255 :: u8) n" by (simp only: bit_ones_byte) simp
  then show "bit (b AND 255) n = bit b n" by (simp only: bit_and_iff simp_thms)
qed

lemma bit_cidr_byte: "i < 8 \<Longrightarrow> bit (NOT (drop_bit n 255 :: u8)) i \<longleftrightarrow> 8 \<le> i + n"
proof -
  assume i: "i < 8"
  have ones: "(255 :: u8) = mask 8" by (simp add: mask_eq_exp_minus_1)
  have "bit (drop_bit n (mask 8 :: u8)) i \<longleftrightarrow> n + i < 8"
    by (auto simp: bit_drop_bit_eq bit_mask_iff)
  with i show ?thesis unfolding ones by (auto simp: bit_not_iff)
qed

lemma cidr_byte_prefix:
  assumes "n \<le> 8"
  shows "(x AND NOT (drop_bit n 255) = y AND NOT (drop_bit n (255 :: u8)))
     \<longleftrightarrow> take n (byte_bits x) = take n (byte_bits y)"
proof -
  have "take n (byte_bits x) = take n (byte_bits y) \<longleftrightarrow> (\<forall>i < n. bit x (7 - i) = bit y (7 - i))"
    using assms by (auto simp: list_eq_iff_nth_eq byte_bits_def)
  also have "\<dots> \<longleftrightarrow> (\<forall>j < 8. 8 \<le> j + n \<longrightarrow> bit x j = bit y j)"
  proof
    assume l: "\<forall>i<n. bit x (7 - i) = bit y (7 - i)"
    show "\<forall>j<8. 8 \<le> j + n \<longrightarrow> bit x j = bit y j"
    proof (intro allI impI)
      fix j :: nat assume "j < 8" "8 \<le> j + n"
      then have "7 - j < n" "7 - (7 - j) = j" by arith+
      with l show "bit x j = bit y j" by metis
    qed
  next
    assume r: "\<forall>j<8. 8 \<le> j + n \<longrightarrow> bit x j = bit y j"
    show "\<forall>i<n. bit x (7 - i) = bit y (7 - i)"
    proof (intro allI impI)
      fix i assume "i < n"
      with assms have "7 - i < 8" "8 \<le> 7 - i + n" by arith+
      with r show "bit x (7 - i) = bit y (7 - i)" by blast
    qed
  qed
  also have "\<dots> \<longleftrightarrow> x AND NOT (drop_bit n 255) = y AND NOT (drop_bit n (255 :: u8))"
    by (auto simp: bit_eq_iff bit_and_iff bit_cidr_byte simp del: drop_bit_word_numeral)
  finally show ?thesis by simp
qed

lemma and_mask_prefix:
  assumes "length xs = k" "length ys = k" "n \<le> 8 * k"
  shows "and_bytes xs (cidr_mask n k) = and_bytes ys (cidr_mask n k)
     \<longleftrightarrow> take n (ip_bits xs) = take n (ip_bits ys)"
  using assms
proof (induction k arbitrary: n xs ys)
  case 0
  then show ?case by simp
next
  case (Suc k)
  obtain x xs' y ys' where eq: "xs = x # xs'" "ys = y # ys'" "length xs' = k" "length ys' = k"
    using Suc.prems by (metis length_Suc_conv)
  have bits: "ip_bits (b # bs) = byte_bits b @ ip_bits bs" for b bs by (simp add: ip_bits_def)
  show ?case
  proof (cases "8 \<le> n")
    case True
    have "(and_bytes xs (cidr_mask n (Suc k)) = and_bytes ys (cidr_mask n (Suc k)))
        \<longleftrightarrow> x = y \<and> and_bytes xs' (cidr_mask (n - 8) k) = and_bytes ys' (cidr_mask (n - 8) k)"
      using True eq by (simp add: and_bytes_def)
    also have "\<dots> \<longleftrightarrow> byte_bits x = byte_bits y \<and> take (n - 8) (ip_bits xs') = take (n - 8) (ip_bits ys')"
      using Suc.IH[of xs' ys' "n - 8"] eq Suc.prems(3) by (simp add: byte_bits_inj)
    also have "\<dots> \<longleftrightarrow> take n (ip_bits xs) = take n (ip_bits ys)"
      using True by (simp add: eq bits)
    finally show ?thesis .
  next
    case False
    have "(and_bytes xs (cidr_mask n (Suc k)) = and_bytes ys (cidr_mask n (Suc k)))
        \<longleftrightarrow> x AND NOT (drop_bit n 255) = y AND NOT (drop_bit n 255) \<and>
            and_bytes xs' (cidr_mask 0 k) = and_bytes ys' (cidr_mask 0 k)"
      using False eq by (simp add: and_bytes_def)
    also have "\<dots> \<longleftrightarrow> take n (byte_bits x) = take n (byte_bits y)"
      using Suc.IH[of xs' ys' 0] eq False cidr_byte_prefix[of n x y] by simp
    also have "\<dots> \<longleftrightarrow> take n (ip_bits xs) = take n (ip_bits ys)"
      using False by (simp add: eq bits)
    finally show ?thesis .
  qed
qed

end
