(* ===== verification/Address_Policy.thy ===== *)
theory Address_Policy
  imports Go_Net
begin

text \<open>
  internal/egress/address.go and the reserved-range list of broker.go: which IP addresses and
  ports the egress layer may contact at all. The policy holds the host's own interface addresses
  and directly attached subnets; the broker and the trusted-side fetcher share it.
\<close>

section \<open>Model\<close>

definition http_port :: int where "http_port = 80"
definition https_port :: int where "https_port = 443"
definition max_tcp_port :: int where "max_tcp_port = 2 ^ 16 - 1"

record address_policy =
  addresses :: "bytes list"
  subnets :: "ipnet list"
  permit_all :: bool

text \<open>The explicit denylist, parsed from its CIDR text as the package initialiser does.\<close>

definition non_public_cidrs :: "string list" where
  "non_public_cidrs =
     [''0.0.0.0/8'', ''10.0.0.0/8'', ''100.64.0.0/10'', ''127.0.0.0/8'', ''169.254.0.0/16'',
      ''172.16.0.0/12'', ''192.0.0.0/24'', ''192.0.2.0/24'', ''192.168.0.0/16'', ''198.18.0.0/15'',
      ''198.51.100.0/24'', ''203.0.113.0/24'', ''224.0.0.0/4'', ''240.0.0.0/4'',
      ''::/128'', ''::1/128'', ''64:ff9b::/96'', ''64:ff9b:1::/48'', ''100::/64'',
      ''2001::/23'', ''2001:db8::/32'', ''2002::/16'', ''fc00::/7'', ''fec0::/10'', ''fe80::/10'',
      ''ff00::/8'']"

definition non_public_networks :: "ipnet list" where
  "non_public_networks = List.map_filter (\<lambda>v. map_option snd (parse_cidr v)) non_public_cidrs"

text \<open>
  NewAddressPolicy. The operating system's answer is the argument: None when the interfaces
  cannot be enumerated, and per interface its name and either None (its addresses cannot be
  read) or the CIDR texts of its addresses.
\<close>

datatype policy_error = EnumerateInterfaces | EnumerateAddresses string

definition add_interface_address :: "address_policy \<Rightarrow> string \<Rightarrow> address_policy" where
  "add_interface_address p text = (case parse_cidr text of
      Some (ip, net) \<Rightarrow> p\<lparr>addresses := addresses p @ [ip], subnets := subnets p @ [net]\<rparr>
    | None \<Rightarrow> p)"

fun add_interfaces ::
  "address_policy \<Rightarrow> (string \<times> string list option) list \<Rightarrow> policy_error + address_policy" where
  "add_interfaces p [] = Inr p"
| "add_interfaces p ((name, addrs) # rest) = (case addrs of
      None \<Rightarrow> Inl (EnumerateAddresses name)
    | Some texts \<Rightarrow> add_interfaces (foldl add_interface_address p texts) rest)"

definition new_address_policy ::
  "(string \<times> string list option) list option \<Rightarrow> policy_error + address_policy" where
  "new_address_policy interfaces = (case interfaces of
      None \<Rightarrow> Inl EnumerateInterfaces
    | Some is \<Rightarrow> add_interfaces \<lparr>addresses = [], subnets = [], permit_all = False\<rparr> is)"

text \<open>AddressPolicy.Port and AddressPolicy.Public; None is the nil policy.\<close>

definition policy_port :: "address_policy option \<Rightarrow> int \<Rightarrow> bool" where
  "policy_port p port =
     (if p \<noteq> None \<and> permit_all (the p) then 0 < port \<and> port \<le> max_tcp_port
      else port = http_port \<or> port = https_port)"

definition v4_octets_denied :: "bytes \<Rightarrow> bool" where
  "v4_octets_denied v =
     (v ! 0 = 0 \<or> v ! 0 = 127 \<or> (v ! 0 = 100 \<and> v ! 1 AND 0xc0 = 64) \<or>
      (v ! 0 = 169 \<and> v ! 1 = 254) \<or> v ! 0 \<ge> 224)"

definition policy_public :: "address_policy option \<Rightarrow> bytes \<Rightarrow> bool" where
  "policy_public p ip =
     (if p \<noteq> None \<and> permit_all (the p) then ip \<noteq> []
      else if ip = [] \<or> \<not> is_global_unicast ip \<or> is_unspecified ip \<or> is_loopback ip \<or>
        is_private ip \<or> is_link_local_unicast ip \<or> is_link_local_multicast ip \<or> is_multicast ip
      then False
      else if \<exists>n \<in> set non_public_networks. net_contains n ip then False
      else if (case ip_to4 ip of Some v \<Rightarrow> v4_octets_denied v | None \<Rightarrow> False) then False
      else (case p of
          None \<Rightarrow> True
        | Some q \<Rightarrow> \<not> (\<exists>l \<in> set (addresses q). ip_equal l ip) \<and>
                   \<not> (\<exists>n \<in> set (subnets q). net_contains n ip)))"

section \<open>The host's own networks\<close>

definition policy_local :: "address_policy \<Rightarrow> bytes \<Rightarrow> bool" where
  "policy_local q ip \<longleftrightarrow>
     (\<exists>l \<in> set (addresses q). ip_equal l ip) \<or> (\<exists>n \<in> set (subnets q). net_contains n ip)"

lemma fold_interface_addresses:
  "addresses (foldl add_interface_address p texts) =
     addresses p @ map fst (List.map_filter parse_cidr texts)"
  "subnets (foldl add_interface_address p texts) =
     subnets p @ map snd (List.map_filter parse_cidr texts)"
  "permit_all (foldl add_interface_address p texts) = permit_all p"
  by (induction texts arbitrary: p)
     (auto simp: add_interface_address_def List.map_filter_def split: option.splits)

definition interface_texts :: "(string \<times> string list option) list \<Rightarrow> string list" where
  "interface_texts is = concat (map (\<lambda>(_, a). case a of None \<Rightarrow> [] | Some ts \<Rightarrow> ts) is)"

lemma add_interfaces_result:
  "add_interfaces p is = Inr q \<Longrightarrow>
     addresses q = addresses p @ map fst (List.map_filter parse_cidr (interface_texts is)) \<and>
     subnets q = subnets p @ map snd (List.map_filter parse_cidr (interface_texts is)) \<and>
     permit_all q = permit_all p \<and> (\<forall>i \<in> set is. snd i \<noteq> None)"
proof (induction p "is" rule: add_interfaces.induct)
  case (1 p)
  then show ?case by (simp add: interface_texts_def List.map_filter_def)
next
  case (2 p name addrs rest)
  then obtain ts where ts: "addrs = Some ts"
      and q: "add_interfaces (foldl add_interface_address p ts) rest = Inr q"
    by (auto split: option.splits)
  have texts: "interface_texts ((name, Some ts) # rest) = ts @ interface_texts rest"
    by (simp add: interface_texts_def)
  have mf: "List.map_filter f (xs @ ys) = List.map_filter f xs @ List.map_filter f ys" for f xs ys
    by (simp add: List.map_filter_def)
  from "2.IH"[OF ts q] show ?case
    by (simp add: texts mf fold_interface_addresses ts)
qed

lemma new_address_policy_result:
  "new_address_policy (Some is) = Inr q \<Longrightarrow>
     addresses q = map fst (List.map_filter parse_cidr (interface_texts is)) \<and>
     subnets q = map snd (List.map_filter parse_cidr (interface_texts is)) \<and>
     \<not> permit_all q \<and> (\<forall>i \<in> set is. snd i \<noteq> None)"
  by (auto simp: new_address_policy_def dest!: add_interfaces_result)

section \<open>The reserved ranges as bit prefixes\<close>

text \<open>
  The specification of the denylist: an address (its IPv4 bytes when it has an IPv4 form) is
  reserved when its leading bits are those of one of the listed blocks.
\<close>

definition canonical_ip :: "bytes \<Rightarrow> bytes" where
  "canonical_ip ip = (case ip_to4 ip of Some v \<Rightarrow> v | None \<Rightarrow> ip)"

definition in_prefix :: "bytes \<Rightarrow> nat \<Rightarrow> bytes \<Rightarrow> bool" where
  "in_prefix b n ip \<longleftrightarrow>
     length (canonical_ip ip) = length b \<and>
     take n (ip_bits (canonical_ip ip)) = take n (ip_bits b)"

definition prefix_net :: "bytes \<Rightarrow> nat \<Rightarrow> ipnet" where
  "prefix_net b n = \<lparr>net_ip = b, net_mask = cidr_mask n (length b)\<rparr>"

definition reserved_prefixes :: "(bytes \<times> nat) list" where
  "reserved_prefixes =
     [([0, 0, 0, 0], 8),
      ([10, 0, 0, 0], 8),
      ([100, 64, 0, 0], 10),
      ([127, 0, 0, 0], 8),
      ([169, 254, 0, 0], 16),
      ([172, 16, 0, 0], 12),
      ([192, 0, 0, 0], 24),
      ([192, 0, 2, 0], 24),
      ([192, 168, 0, 0], 16),
      ([198, 18, 0, 0], 15),
      ([198, 51, 100, 0], 24),
      ([203, 0, 113, 0], 24),
      ([224, 0, 0, 0], 4),
      ([240, 0, 0, 0], 4),
      ([0, 0, 0, 0, 0, 0, 0, 0, 0, 0, 0, 0, 0, 0, 0, 0], 128),
      ([0, 0, 0, 0, 0, 0, 0, 0, 0, 0, 0, 0, 0, 0, 0, 1], 128),
      ([0, 100, 255, 155, 0, 0, 0, 0, 0, 0, 0, 0, 0, 0, 0, 0], 96),
      ([0, 100, 255, 155, 0, 1, 0, 0, 0, 0, 0, 0, 0, 0, 0, 0], 48),
      ([1, 0, 0, 0, 0, 0, 0, 0, 0, 0, 0, 0, 0, 0, 0, 0], 64),
      ([32, 1, 0, 0, 0, 0, 0, 0, 0, 0, 0, 0, 0, 0, 0, 0], 23),
      ([32, 1, 13, 184, 0, 0, 0, 0, 0, 0, 0, 0, 0, 0, 0, 0], 32),
      ([32, 2, 0, 0, 0, 0, 0, 0, 0, 0, 0, 0, 0, 0, 0, 0], 16),
      ([252, 0, 0, 0, 0, 0, 0, 0, 0, 0, 0, 0, 0, 0, 0, 0], 7),
      ([254, 192, 0, 0, 0, 0, 0, 0, 0, 0, 0, 0, 0, 0, 0, 0], 10),
      ([254, 128, 0, 0, 0, 0, 0, 0, 0, 0, 0, 0, 0, 0, 0, 0], 10),
      ([255, 0, 0, 0, 0, 0, 0, 0, 0, 0, 0, 0, 0, 0, 0, 0], 8)]"

lemma parse_non_public:
  "map_option snd (parse_cidr ''0.0.0.0/8'') = Some (prefix_net [0, 0, 0, 0] 8)"
  "map_option snd (parse_cidr ''10.0.0.0/8'') = Some (prefix_net [10, 0, 0, 0] 8)"
  "map_option snd (parse_cidr ''100.64.0.0/10'') = Some (prefix_net [100, 64, 0, 0] 10)"
  "map_option snd (parse_cidr ''127.0.0.0/8'') = Some (prefix_net [127, 0, 0, 0] 8)"
  "map_option snd (parse_cidr ''169.254.0.0/16'') = Some (prefix_net [169, 254, 0, 0] 16)"
  "map_option snd (parse_cidr ''172.16.0.0/12'') = Some (prefix_net [172, 16, 0, 0] 12)"
  "map_option snd (parse_cidr ''192.0.0.0/24'') = Some (prefix_net [192, 0, 0, 0] 24)"
  "map_option snd (parse_cidr ''192.0.2.0/24'') = Some (prefix_net [192, 0, 2, 0] 24)"
  "map_option snd (parse_cidr ''192.168.0.0/16'') = Some (prefix_net [192, 168, 0, 0] 16)"
  "map_option snd (parse_cidr ''198.18.0.0/15'') = Some (prefix_net [198, 18, 0, 0] 15)"
  "map_option snd (parse_cidr ''198.51.100.0/24'') = Some (prefix_net [198, 51, 100, 0] 24)"
  "map_option snd (parse_cidr ''203.0.113.0/24'') = Some (prefix_net [203, 0, 113, 0] 24)"
  "map_option snd (parse_cidr ''224.0.0.0/4'') = Some (prefix_net [224, 0, 0, 0] 4)"
  "map_option snd (parse_cidr ''240.0.0.0/4'') = Some (prefix_net [240, 0, 0, 0] 4)"
  "map_option snd (parse_cidr ''::/128'') = Some (prefix_net [0, 0, 0, 0, 0, 0, 0, 0, 0, 0, 0, 0, 0, 0, 0, 0] 128)"
  "map_option snd (parse_cidr ''::1/128'') = Some (prefix_net [0, 0, 0, 0, 0, 0, 0, 0, 0, 0, 0, 0, 0, 0, 0, 1] 128)"
  "map_option snd (parse_cidr ''64:ff9b::/96'') = Some (prefix_net [0, 100, 255, 155, 0, 0, 0, 0, 0, 0, 0, 0, 0, 0, 0, 0] 96)"
  "map_option snd (parse_cidr ''64:ff9b:1::/48'') = Some (prefix_net [0, 100, 255, 155, 0, 1, 0, 0, 0, 0, 0, 0, 0, 0, 0, 0] 48)"
  "map_option snd (parse_cidr ''100::/64'') = Some (prefix_net [1, 0, 0, 0, 0, 0, 0, 0, 0, 0, 0, 0, 0, 0, 0, 0] 64)"
  "map_option snd (parse_cidr ''2001::/23'') = Some (prefix_net [32, 1, 0, 0, 0, 0, 0, 0, 0, 0, 0, 0, 0, 0, 0, 0] 23)"
  "map_option snd (parse_cidr ''2001:db8::/32'') = Some (prefix_net [32, 1, 13, 184, 0, 0, 0, 0, 0, 0, 0, 0, 0, 0, 0, 0] 32)"
  "map_option snd (parse_cidr ''2002::/16'') = Some (prefix_net [32, 2, 0, 0, 0, 0, 0, 0, 0, 0, 0, 0, 0, 0, 0, 0] 16)"
  "map_option snd (parse_cidr ''fc00::/7'') = Some (prefix_net [252, 0, 0, 0, 0, 0, 0, 0, 0, 0, 0, 0, 0, 0, 0, 0] 7)"
  "map_option snd (parse_cidr ''fec0::/10'') = Some (prefix_net [254, 192, 0, 0, 0, 0, 0, 0, 0, 0, 0, 0, 0, 0, 0, 0] 10)"
  "map_option snd (parse_cidr ''fe80::/10'') = Some (prefix_net [254, 128, 0, 0, 0, 0, 0, 0, 0, 0, 0, 0, 0, 0, 0, 0] 10)"
  "map_option snd (parse_cidr ''ff00::/8'') = Some (prefix_net [255, 0, 0, 0, 0, 0, 0, 0, 0, 0, 0, 0, 0, 0, 0, 0] 8)"
  by code_simp+

lemma map_filter_list_all2: "list_all2 (\<lambda>x y. f x = Some y) xs ys \<Longrightarrow> List.map_filter f xs = ys"
  by (induction rule: list_all2_induct) simp_all

lemma non_public_networks_eq:
  "non_public_networks = map (\<lambda>(b, n). prefix_net b n) reserved_prefixes"
  unfolding non_public_networks_def
  by (rule map_filter_list_all2)
     (simp only: non_public_cidrs_def reserved_prefixes_def list.map prod.case
        list_all2_Cons list_all2_Nil parse_non_public simp_thms)

lemma length_cidr_mask [simp]: "length (cidr_mask n k) = k"
  by (induction n k rule: cidr_mask.induct) auto

lemma net_contains_prefix_net:
  assumes "length b = 4 \<or> (length b = 16 \<and> ip_to4 b = None)" "n \<le> 8 * length b"
  shows "net_contains (prefix_net b n) ip \<longleftrightarrow> in_prefix b n ip"
proof -
  have num: "network_number_and_mask (prefix_net b n) = Some (b, cidr_mask n (length b))"
    using assms(1) by (auto simp: network_number_and_mask_def prefix_net_def Let_def ip_to4_def)
  have "net_contains (prefix_net b n) ip \<longleftrightarrow> length (canonical_ip ip) = length b \<and>
      and_bytes b (cidr_mask n (length b)) = and_bytes (canonical_ip ip) (cidr_mask n (length b))"
    by (simp add: net_contains_def num canonical_ip_def Let_def)
  also have "\<dots> \<longleftrightarrow> in_prefix b n ip"
    using and_mask_prefix[of b "length b" "canonical_ip ip" n] assms(2)
    by (auto simp: in_prefix_def)
  finally show ?thesis .
qed

lemma reserved_prefixes_wf:
  "(b, n) \<in> set reserved_prefixes \<Longrightarrow>
     (length b = 4 \<or> (length b = 16 \<and> ip_to4 b = None)) \<and> n \<le> 8 * length b"
proof -
  have "list_all (\<lambda>(b, n). (length b = 4 \<or> (length b = 16 \<and> ip_to4 b = None)) \<and> n \<le> 8 * length b)
      reserved_prefixes"
    by code_simp
  then show "(b, n) \<in> set reserved_prefixes \<Longrightarrow> ?thesis" by (auto simp: list_all_iff)
qed

lemma non_public_iff:
  "(\<exists>m \<in> set non_public_networks. net_contains m ip) \<longleftrightarrow>
   (\<exists>(b, n) \<in> set reserved_prefixes. in_prefix b n ip)"
proof -
  have "net_contains (prefix_net b n) ip = in_prefix b n ip" if "(b, n) \<in> set reserved_prefixes" for b n
    using reserved_prefixes_wf[OF that] net_contains_prefix_net by blast
  then show ?thesis unfolding non_public_networks_eq by fastforce
qed

section \<open>Every classification test is an instance of a reserved block\<close>

lemma all_bytes: "(\<forall>x :: u8. P x) \<longleftrightarrow> (\<forall>n \<in> set [0..<256]. P (of_nat n))"
proof (intro iffI ballI allI)
  fix x :: u8
  assume h: "\<forall>n \<in> set [0..<256]. P (of_nat n)"
  have "unat x < 256" using unsigned_less[of x] by simp
  then have "P (of_nat (unat x))" using h by (intro bspec[OF h]) simp
  then show "P x" by simp
qed simp

lemma length4E:
  assumes "length xs = 4" obtains a b c d where "xs = [a, b, c, d]"
  using assms by (auto simp: numeral_eq_Suc length_Suc_conv)

lemma length16E:
  assumes "length xs = 16"
  obtains a b c d e f g h i j k l m n p q where "xs = [a, b, c, d, e, f, g, h, i, j, k, l, m, n, p, q]"
  using assms by (auto simp: numeral_eq_Suc length_Suc_conv)

lemma canonical_v4: "ip_to4 ip = Some v \<Longrightarrow> canonical_ip ip = v \<and> length v = 4"
  by (auto simp: canonical_ip_def ip_to4_def split: if_splits)

lemma canonical_v6: "ip_to4 ip = None \<Longrightarrow> canonical_ip ip = ip \<and> length ip \<noteq> 4"
  by (auto simp: canonical_ip_def ip_to4_def split: if_splits)

lemma in_prefix_mask:
  assumes "length b = 4 \<or> length b = 16" "n \<le> 8 * length b"
  shows "in_prefix b n ip \<longleftrightarrow> length (canonical_ip ip) = length b \<and>
     and_bytes (canonical_ip ip) (cidr_mask n (length b)) = and_bytes b (cidr_mask n (length b))"
  using and_mask_prefix[of "canonical_ip ip" "length b" b n] assms by (auto simp: in_prefix_def)

declare cidr_mask.simps [simp del]

lemma in_prefix_v4:
  "canonical_ip ip = [a, b, c, d] \<Longrightarrow> n \<le> 32 \<Longrightarrow> in_prefix [x, y, z, w] n ip \<longleftrightarrow>
     and_bytes [a, b, c, d] (cidr_mask n 4) = and_bytes [x, y, z, w] (cidr_mask n 4)"
  using in_prefix_mask[of "[x, y, z, w]" n ip] by (simp add: eval_nat_numeral)

lemma in_prefix_length: "length (canonical_ip ip) \<noteq> length b \<Longrightarrow> \<not> in_prefix b n ip"
  by (simp add: in_prefix_def)

lemma cidr_masks:
  "cidr_mask 8 4 = [255, 0, 0, 0]" "cidr_mask 10 4 = [255, 192, 0, 0]"
  "cidr_mask 16 4 = [255, 255, 0, 0]" "cidr_mask 12 4 = [255, 240, 0, 0]"
  "cidr_mask 24 4 = [255, 255, 255, 0]" "cidr_mask 15 4 = [255, 254, 0, 0]"
  "cidr_mask 4 4 = [240, 0, 0, 0]"
  "cidr_mask 128 16 = replicate 16 255"
  "cidr_mask 7 16 = 254 # replicate 15 0" "cidr_mask 8 16 = 255 # replicate 15 0"
  "cidr_mask 10 16 = 255 # 192 # replicate 14 0"
  by code_simp+

text \<open>The reserved IPv4 blocks, read off their octets.\<close>

definition reserved_v4 :: "bytes \<Rightarrow> bool" where
  "reserved_v4 v \<longleftrightarrow>
     v ! 0 = 0 \<or> v ! 0 = 10 \<or> (v ! 0 = 100 \<and> v ! 1 AND 192 = 64) \<or> v ! 0 = 127 \<or>
     (v ! 0 = 169 \<and> v ! 1 = 254) \<or> (v ! 0 = 172 \<and> v ! 1 AND 240 = 16) \<or>
     (v ! 0 = 192 \<and> v ! 1 = 0 \<and> v ! 2 = 0) \<or> (v ! 0 = 192 \<and> v ! 1 = 0 \<and> v ! 2 = 2) \<or>
     (v ! 0 = 192 \<and> v ! 1 = 168) \<or> (v ! 0 = 198 \<and> v ! 1 AND 254 = 18) \<or>
     (v ! 0 = 198 \<and> v ! 1 = 51 \<and> v ! 2 = 100) \<or> (v ! 0 = 203 \<and> v ! 1 = 0 \<and> v ! 2 = 113) \<or>
     v ! 0 AND 240 = 224 \<or> v ! 0 AND 240 = 240"

lemma reserved_prefixes_v4:
  assumes "ip_to4 ip = Some v"
  shows "(\<exists>(b, n) \<in> set reserved_prefixes. in_prefix b n ip) \<longleftrightarrow> reserved_v4 v"
proof -
  obtain a b c d where v: "v = [a, b, c, d]" using canonical_v4[OF assms] length4E by blast
  have can: "canonical_ip ip = [a, b, c, d]" using canonical_v4[OF assms] v by simp
  show ?thesis
    by (simp add: reserved_prefixes_def in_prefix_v4[OF can] in_prefix_length can cidr_masks
        and_bytes_def reserved_v4_def v)
qed

lemma octets_at_least_224: "(x :: u8) \<ge> 224 \<longleftrightarrow> x AND 240 = 224 \<or> x AND 240 = 240"
proof -
  have "\<forall>x :: u8. (x \<ge> 224) = (x AND 240 = 224 \<or> x AND 240 = 240)"
    unfolding all_bytes by code_simp
  then show ?thesis by blast
qed

lemma v4_tests_reserved:
  assumes "ip_to4 ip = Some v"
    and "\<not> is_global_unicast ip \<or> is_unspecified ip \<or> is_loopback ip \<or> is_private ip \<or>
      is_link_local_unicast ip \<or> is_link_local_multicast ip \<or> is_multicast ip \<or> v4_octets_denied v"
  shows "reserved_v4 v"
proof -
  obtain a b c d where v: "v = [a, b, c, d]" using canonical_v4[OF assms(1)] length4E by blast
  have len: "length ip = 4 \<or> length ip = 16" using assms(1) by (auto simp: ip_to4_def split: if_splits)
  have eq: "ip_equal ip (to16 w) \<Longrightarrow> v = w" if "length w = 4" for w
    using assms(1) that
    by (auto simp: ip_equal_def ip_to4_def to16_def v4_in_v6_prefix_def split: if_splits)
  have unspec: "is_unspecified ip \<Longrightarrow> v = [0, 0, 0, 0]"
  proof -
    assume "is_unspecified ip"
    moreover have "\<not> ip_equal ip (replicate 16 0)"
    proof
      assume z: "ip_equal ip (replicate 16 0)"
      then have "ip = replicate 16 0 \<or> (length ip = 4 \<and> take 12 (replicate 16 0) = v4_in_v6_prefix)"
        by (auto simp: ip_equal_def split: if_splits)
      moreover have "take 12 (replicate 16 0) \<noteq> v4_in_v6_prefix"
        by code_simp
      ultimately show False using assms(1) by (auto simp: ip_to4_def)
    qed
    ultimately show ?thesis using eq[of "[0, 0, 0, 0]"] by (simp add: is_unspecified_def)
  qed
  note tests = is_loopback_def is_private_def is_link_local_unicast_def is_link_local_multicast_def
    is_multicast_def assms(1) v
  have unicast: "is_global_unicast ip \<or> v = [255, 255, 255, 255] \<or> is_unspecified ip \<or>
      is_loopback ip \<or> is_multicast ip \<or> is_link_local_unicast ip"
    using len eq[of "[255, 255, 255, 255]"] by (auto simp: is_global_unicast_def)
  from assms(2) unicast
  consider "v = [255, 255, 255, 255]" | "is_unspecified ip" | "is_loopback ip" | "is_private ip"
    | "is_link_local_unicast ip" | "is_link_local_multicast ip" | "is_multicast ip"
    | "v4_octets_denied v"
    by blast
  then show ?thesis
  proof cases
    case 1 then show ?thesis by (simp add: v reserved_v4_def)
  next
    case 2 then show ?thesis using unspec by (simp add: v reserved_v4_def)
  next
    case 3 then show ?thesis by (simp add: tests reserved_v4_def)
  next
    case 4 then show ?thesis by (auto simp: tests reserved_v4_def)
  next
    case 5 then show ?thesis by (simp add: tests reserved_v4_def)
  next
    case 6 then show ?thesis by (simp add: tests reserved_v4_def)
  next
    case 7 then show ?thesis by (simp add: tests reserved_v4_def)
  next
    case 8 then show ?thesis
      by (auto simp: v4_octets_denied_def octets_at_least_224 v reserved_v4_def)
  qed
qed

text \<open>The same for addresses without an IPv4 form.\<close>

lemma in_prefix_v6:
  "canonical_ip ip = ip \<Longrightarrow> length ip = 16 \<Longrightarrow> length b = 16 \<Longrightarrow> n \<le> 128 \<Longrightarrow>
     in_prefix b n ip \<longleftrightarrow> and_bytes ip (cidr_mask n 16) = and_bytes b (cidr_mask n 16)"
  using in_prefix_mask[of b n ip] by simp

lemma in_prefix_refl: "canonical_ip ip = ip \<Longrightarrow> in_prefix ip n ip"
  by (simp add: in_prefix_def)

lemma and_bytes_tail0: "length xs = k \<Longrightarrow> and_bytes xs (replicate k 0) = replicate k 0"
  by (induction xs arbitrary: k) (auto simp: and_bytes_def)

lemma and_bytes_ones: "length xs = k \<Longrightarrow> and_bytes xs (replicate k 255) = xs"
  by (induction xs arbitrary: k) (auto simp: and_bytes_def)

lemma and_bytes_Cons [simp]: "and_bytes (x # xs) (y # ys) = (x AND y) # and_bytes xs ys"
  by (simp add: and_bytes_def)

lemma v6_tests_reserved:
  assumes "ip_to4 ip = None" "length ip = 16"
    and "\<not> is_global_unicast ip \<or> is_unspecified ip \<or> is_loopback ip \<or> is_private ip \<or>
      is_link_local_unicast ip \<or> is_link_local_multicast ip \<or> is_multicast ip"
  shows "\<exists>(b, n) \<in> set reserved_prefixes. in_prefix b n ip"
proof -
  have can: "canonical_ip ip = ip" using canonical_v6[OF assms(1)] by simp
  obtain x y r where ip: "ip = x # y # r" and r: "length r = 14"
    using assms(2) by (cases ip; cases "tl ip") auto
  note pfx = in_prefix_v6[OF can assms(2)]
  have rl: "length (y # r) = 15" using r by simp
  have no4: "\<not> ip_equal ip (to16 w)" if "length w = 4" for w
    using assms(1,2) that by (auto simp: ip_equal_def ip_to4_def to16_def v4_in_v6_prefix_def)
  have unspec: "is_unspecified ip \<Longrightarrow> ip = replicate 16 0"
    using assms(2) no4[of "[0, 0, 0, 0]"] by (auto simp: is_unspecified_def ip_equal_def)
  have loop: "is_loopback ip \<Longrightarrow> ip = replicate 15 0 @ [1]"
    using assms by (auto simp: is_loopback_def ip_equal_def)
  have mem: "(replicate 16 0, 128) \<in> set reserved_prefixes"
      "(replicate 15 0 @ [1], 128) \<in> set reserved_prefixes"
      "(252 # replicate 15 0, 7) \<in> set reserved_prefixes"
      "(254 # 128 # replicate 14 0, 10) \<in> set reserved_prefixes"
      "(255 # replicate 15 0, 8) \<in> set reserved_prefixes"
    by (simp_all add: reserved_prefixes_def eval_nat_numeral)
  from assms(3) consider "ip = replicate 16 0" | "ip = replicate 15 0 @ [1]" | "x AND 254 = 252"
    | "x = 255" | "x = 254" "y AND 192 = 128"
    using no4[of "[255, 255, 255, 255]"] unspec loop r
    unfolding is_global_unicast_def is_private_def is_link_local_unicast_def
      is_link_local_multicast_def is_multicast_def assms(1)
    by (auto simp: ip assms(2))
  then show ?thesis
  proof cases
    case 1
    then have "in_prefix (replicate 16 0) 128 ip" using can by (metis in_prefix_refl)
    with mem(1) show ?thesis by blast
  next
    case 2
    then have "in_prefix (replicate 15 0 @ [1]) 128 ip" using can by (metis in_prefix_refl)
    with mem(2) show ?thesis by blast
  next
    case 3
    then have "and_bytes ip (cidr_mask 7 16) = and_bytes (252 # replicate 15 0) (cidr_mask 7 16)"
      using and_bytes_tail0[OF rl] and_bytes_tail0[of "replicate 15 (0 :: u8)" 15]
      by (simp add: cidr_masks ip)
    then have "in_prefix (252 # replicate 15 0) 7 ip" by (subst pfx) simp_all
    with mem(3) show ?thesis by blast
  next
    case 4
    then have "and_bytes ip (cidr_mask 8 16) = and_bytes (255 # replicate 15 0) (cidr_mask 8 16)"
      using and_bytes_tail0[OF rl] and_bytes_tail0[of "replicate 15 (0 :: u8)" 15]
      by (simp add: cidr_masks ip)
    then have "in_prefix (255 # replicate 15 0) 8 ip" by (subst pfx) simp_all
    with mem(5) show ?thesis by blast
  next
    case 5
    then have "and_bytes ip (cidr_mask 10 16) = and_bytes (254 # 128 # replicate 14 0) (cidr_mask 10 16)"
      using and_bytes_tail0[OF r] and_bytes_tail0[of "replicate 14 (0 :: u8)" 14]
      by (simp add: cidr_masks ip)
    then have "in_prefix (254 # 128 # replicate 14 0) 10 ip" by (subst pfx) simp_all
    with mem(4) show ?thesis by blast
  qed
qed

section \<open>The policy is exactly its denylist\<close>

lemma policy_public_exact:
  assumes "\<not> permit_all q"
  shows "policy_public (Some q) ip \<longleftrightarrow>
     (length ip = 4 \<or> length ip = 16) \<and>
     (\<forall>(b, n) \<in> set reserved_prefixes. \<not> in_prefix b n ip) \<and> \<not> policy_local q ip"
proof -
  let ?tests = "\<not> is_global_unicast ip \<or> is_unspecified ip \<or> is_loopback ip \<or> is_private ip \<or>
      is_link_local_unicast ip \<or> is_link_local_multicast ip \<or> is_multicast ip"
  let ?denied = "case ip_to4 ip of Some v \<Rightarrow> v4_octets_denied v | None \<Rightarrow> False"
  let ?res = "\<exists>(b, n) \<in> set reserved_prefixes. in_prefix b n ip"
  have unf: "policy_public (Some q) ip \<longleftrightarrow> ip \<noteq> [] \<and> \<not> ?tests \<and> \<not> ?res \<and> \<not> ?denied \<and> \<not> policy_local q ip"
    using assms by (auto simp: policy_public_def non_public_iff policy_local_def)
  show ?thesis
  proof (cases "length ip = 4 \<or> length ip = 16")
    case False
    then show ?thesis using unf by (auto simp: is_global_unicast_def)
  next
    case len: True
    then have "ip \<noteq> []" by auto
    moreover have "?tests \<or> ?denied \<Longrightarrow> ?res"
    proof (cases "ip_to4 ip")
      case None
      with len have "length ip = 16" using canonical_v6 by blast
      moreover assume "?tests \<or> ?denied"
      ultimately show ?thesis using None v6_tests_reserved[OF None] by auto
    next
      case (Some v)
      assume "?tests \<or> ?denied"
      with Some have "reserved_v4 v" using v4_tests_reserved[OF Some] by auto
      then show ?thesis using reserved_prefixes_v4[OF Some] by blast
    qed
    ultimately show ?thesis using unf len by auto
  qed
qed

lemma net_contains_canonical:
  "net_contains n ip = (case network_number_and_mask n of
      None \<Rightarrow> canonical_ip ip = []
    | Some (nn, m) \<Rightarrow> length (canonical_ip ip) = length nn \<and>
        and_bytes nn m = and_bytes (canonical_ip ip) m)"
  by (simp add: net_contains_def canonical_ip_def Let_def split: option.split)

text \<open>An IPv4 address and its IPv4-mapped IPv6 form are one address to the policy.\<close>

lemma ip_to4_to16: "length v = 4 \<Longrightarrow> ip_to4 (to16 v) = Some v"
  by (simp add: ip_to4_def to16_def v4_in_v6_prefix_def)

lemma ip_equal_to16: "length v = 4 \<Longrightarrow> length l = 4 \<or> length l = 16 \<Longrightarrow> ip_equal l (to16 v) = ip_equal l v"
proof -
  assume v: "length v = 4" and l: "length l = 4 \<or> length l = 16"
  have len: "length (to16 v) = 16" using v by (simp add: length_to16)
  have parts: "take 12 (to16 v) = v4_in_v6_prefix" "drop 12 (to16 v) = v"
    using v by (simp_all add: to16_def v4_in_v6_prefix_def)
  have "l = to16 v \<longleftrightarrow> take 12 l = v4_in_v6_prefix \<and> drop 12 l = v"
    using parts by (metis append_take_drop_id)
  with l v len parts show ?thesis by (auto simp: ip_equal_def)
qed

lemma policy_public_mapped:
  assumes "length v = 4" "\<And>l. l \<in> set (addresses q) \<Longrightarrow> length l = 4 \<or> length l = 16"
  shows "policy_public (Some q) (to16 v) = policy_public (Some q) v"
proof (cases "permit_all q")
  case True
  with assms(1) show ?thesis by (auto simp: policy_public_def to16_def v4_in_v6_prefix_def)
next
  case False
  have can: "canonical_ip (to16 v) = v" "canonical_ip v = v"
    using assms(1) by (simp_all add: canonical_ip_def ip_to4_to16) (simp add: ip_to4_def)
  have "in_prefix b n (to16 v) = in_prefix b n v" for b n
    by (simp add: in_prefix_def can)
  moreover have "net_contains n (to16 v) = net_contains n v" for n
    by (simp only: net_contains_canonical can)
  moreover have "ip_equal l (to16 v) = ip_equal l v" if "l \<in> set (addresses q)" for l
    using assms that ip_equal_to16 by blast
  ultimately show ?thesis
    using assms(1) False by (auto simp: policy_public_exact policy_local_def length_to16)
qed

section \<open>Properties\<close>

text \<open>A concrete instance, used by the witnesses.\<close>

lemma example_public:
  "policy_public (Some \<lparr>addresses = [], subnets = [], permit_all = False\<rparr>) [93, 184, 216, 34]"
  by code_simp

lemma bex_map_filter: "(\<exists>y \<in> set (List.map_filter f xs). P y) \<longleftrightarrow> (\<exists>x \<in> set xs. \<exists>y. f x = Some y \<and> P y)"
  by (induction xs) (auto simp: List.map_filter_simps split: option.split)

text \<open>C2: a policy built from the interfaces of the host admits exactly the addresses that lie in
  none of the reserved prefixes, are none of the host's own addresses and belong to none of its
  attached subnets: the classification methods and octet tests of the code neither add nor miss
  a case.\<close>

theorem new_policy_public:
  assumes "new_address_policy (Some ifs) = Inr q"
  shows "policy_public (Some q) ip \<longleftrightarrow>
     (length ip = 4 \<or> length ip = 16) \<and>
     (\<forall>(b, n) \<in> set reserved_prefixes. \<not> in_prefix b n ip) \<and>
     (\<forall>t \<in> set (interface_texts ifs). case parse_cidr t of
        None \<Rightarrow> True | Some (own, net) \<Rightarrow> \<not> ip_equal own ip \<and> \<not> net_contains net ip)"
proof -
  note q = new_address_policy_result[OF assms]
  let ?own = "\<lambda>t. \<exists>y. parse_cidr t = Some y \<and> (ip_equal (fst y) ip \<or> net_contains (snd y) ip)"
  have "policy_local q ip \<longleftrightarrow> (\<exists>y \<in> set (List.map_filter parse_cidr (interface_texts ifs)).
      ip_equal (fst y) ip \<or> net_contains (snd y) ip)"
    unfolding policy_local_def using q by auto
  also have "\<dots> \<longleftrightarrow> (\<exists>t \<in> set (interface_texts ifs). ?own t)"
    by (rule bex_map_filter)
  finally have local: "policy_local q ip \<longleftrightarrow> (\<exists>t \<in> set (interface_texts ifs). ?own t)" .
  have "(case parse_cidr t of None \<Rightarrow> True | Some (own, net) \<Rightarrow> \<not> ip_equal own ip \<and> \<not> net_contains net ip)
      \<longleftrightarrow> \<not> ?own t" for t
    by (cases "parse_cidr t") auto
  then show ?thesis using policy_public_exact[of q ip] q local by simp
qed

theorem new_policy_public_witness:
  "policy_public (Some \<lparr>addresses = [], subnets = [], permit_all = False\<rparr>) [10, 0, 0, 1] \<longleftrightarrow>
     (length [10, 0, 0, 1 :: u8] = 4 \<or> length [10, 0, 0, 1 :: u8] = 16) \<and>
     (\<forall>(b, n) \<in> set reserved_prefixes. \<not> in_prefix b n [10, 0, 0, 1]) \<and>
     (\<forall>t \<in> set (interface_texts [(''lo'', Some [])]). case parse_cidr t of
        None \<Rightarrow> True | Some (own, net) \<Rightarrow> \<not> ip_equal own [10, 0, 0, 1] \<and> \<not> net_contains net [10, 0, 0, 1])"
  by (rule new_policy_public) code_simp

text \<open>An IPv4 address and its IPv4-mapped IPv6 form get the same verdict.\<close>

lemma policy_mapped_form:
  assumes "length v = 4" "\<forall>l \<in> set (addresses q). length l = 4 \<or> length l = 16"
  shows "policy_public (Some q) (to16 v) = policy_public (Some q) v"
  using assms by (intro policy_public_mapped) auto

end
