(* ===== verification/Request_Host.thy ===== *)
theory Request_Host
  imports Go_Net
begin

text \<open>
  internal/egress/host.go: which strings count as a destination host. Everything the sandbox
  names - in a proxy request, a TLS ClientHello, a Host header - passes this check before it can
  reach the resolver or the user's prompt. The locale \<open>host_syntax\<close> is the contract the prompt and
  the tunnel check rely on, and it is interpreted here on the model of ValidRequestHost.
\<close>

section \<open>Model\<close>

definition max_hostname_bytes :: nat where "max_hostname_bytes = 253"
definition max_dns_label_bytes :: nat where "max_dns_label_bytes = 63"

definition is_alnum :: "char \<Rightarrow> bool" where
  "is_alnum c = (let n = (of_char c :: nat) in
     (97 \<le> n \<and> n \<le> 122) \<or> (65 \<le> n \<and> n \<le> 90) \<or> (48 \<le> n \<and> n \<le> 57))"

definition valid_label :: "string \<Rightarrow> bool" where
  "valid_label label =
     (\<not> (label = [] \<or> length label > max_dns_label_bytes \<or> hd label = CHR ''-'' \<or> last label = CHR ''-'') \<and>
      list_all (\<lambda>c. is_alnum c \<or> c = CHR ''-'' \<or> c = CHR ''_'') label)"

definition valid_request_host :: "string \<Rightarrow> bool" where
  "valid_request_host host =
     (if host = [] \<or> length host > max_hostname_bytes then False
      else if has_prefix host ''['' \<and> has_suffix host '']'' then
        parse_ip (butlast (tl host)) \<noteq> None
      else if parse_ip host \<noteq> None then True
      else list_all valid_label (split_on CHR ''.'' (trim_suffix host ''.'')))"

section \<open>The bytes a host may contain\<close>

text \<open>
  Letters, digits and the five marks of names and IP literals: no blank, no control byte, no
  escape, no quote, nothing outside ASCII.
\<close>

definition host_char :: "char \<Rightarrow> bool" where
  "host_char c \<longleftrightarrow> is_alnum c \<or> c \<in> set ''-_.:[]''"

lemma ip_char_host_char: "ip_char c \<Longrightarrow> host_char c"
  by (auto simp: ip_char_def host_char_def is_hex_def is_alnum_def Let_def)

lemma is_alnum_ascii: "is_alnum c \<Longrightarrow> is_ascii c"
  unfolding is_alnum_def is_ascii_def Let_def by linarith

lemma host_char_ascii: "host_char c \<Longrightarrow> is_ascii c"
  by (auto simp: host_char_def is_alnum_ascii) (auto simp: is_ascii_def)

lemma host_char_printable: "host_char c \<Longrightarrow> 33 \<le> (of_char c :: nat) \<and> (of_char c :: nat) \<le> 126"
  by (auto simp: host_char_def is_alnum_def Let_def)

lemma host_char_marks:
  "host_char CHR ''-''" "host_char CHR ''_''" "host_char CHR ''.''" "host_char CHR '':''"
  "host_char CHR ''[''" "host_char CHR '']''" "\<not> host_char CHR '',''"
  by (simp_all add: host_char_def is_alnum_def)

lemma valid_label_chars: "valid_label l \<Longrightarrow> list_all host_char l"
  by (auto simp: valid_label_def list_all_iff host_char_def)

lemma split_dot_chars:
  assumes "list_all valid_label (split_on CHR ''.'' s)"
  shows "list_all host_char s"
proof -
  have "host_char c" if "c \<in> set s" for c
  proof -
    from set_from_split_on[OF that, of "CHR ''.''"] show ?thesis
      using assms valid_label_chars by (auto simp: list_all_iff host_char_def)
  qed
  then show ?thesis by (simp add: list_all_iff)
qed

lemma trim_dot_chars: "list_all host_char (trim_suffix s ''.'') \<Longrightarrow> list_all host_char s"
  using trim_suffix_cases[of s "''.''"]
  by (elim disjE exE conjE) (simp_all add: host_char_marks)

lemma parse_ip_host_chars: "parse_ip s \<noteq> None \<Longrightarrow> list_all host_char s"
proof -
  assume "parse_ip s \<noteq> None"
  then have "list_all ip_char s" by (auto dest: parse_ip_chars)
  then show ?thesis by (rule list.pred_mono_strong) (rule ip_char_host_char)
qed

lemma valid_request_host_chars: "valid_request_host h \<Longrightarrow> list_all host_char h"
proof -
  assume v: "valid_request_host h"
  then have ne: "h \<noteq> []" by (auto simp: valid_request_host_def)
  consider (bracket) "has_prefix h ''[''" "has_suffix h '']''" "parse_ip (butlast (tl h)) \<noteq> None"
    | (ip) "parse_ip h \<noteq> None"
    | (labels) "list_all valid_label (split_on CHR ''.'' (trim_suffix h ''.''))"
    using v by (auto simp: valid_request_host_def split: if_splits)
  then show ?thesis
  proof cases
    case bracket
    then have inner: "list_all host_char (butlast (tl h))" by (intro parse_ip_host_chars)
    from bracket(2) obtain u where u: "h = u @ '']''" by (auto simp: has_suffix_iff)
    with bracket(1) obtain w where w: "u = CHR ''['' # w" by (cases u) auto
    have "butlast (tl h) = w" by (simp only: u w append_Cons list.sel butlast_snoc)
    with inner have "list_all host_char w" by simp
    then show ?thesis
      by (simp only: u w append_Cons list.pred_inject list_all_append host_char_marks simp_thms)
  next
    case ip
    then show ?thesis by (rule parse_ip_host_chars)
  next
    case labels
    then show ?thesis by (rule trim_dot_chars [OF split_dot_chars])
  qed
qed

lemma valid_request_host_length:
  "valid_request_host h \<Longrightarrow> 0 < length h \<and> length h \<le> 253"
  by (auto simp: valid_request_host_def max_hostname_bytes_def split: if_splits)

section \<open>The contract\<close>

text \<open>
  What the rest of the egress layer needs of a host check: what passes is short, non-empty and
  made of printable ASCII bytes only.
\<close>

locale host_syntax =
  fixes valid :: "string \<Rightarrow> bool"
  assumes valid_chars: "valid h \<Longrightarrow> list_all host_char h"
    and valid_length: "valid h \<Longrightarrow> 0 < length h \<and> length h \<le> 253"
begin

lemma valid_ascii: "valid h \<Longrightarrow> all_ascii h"
  using valid_chars host_char_ascii by (fastforce simp: all_ascii_def list_all_iff)

lemma valid_printable: "valid h \<Longrightarrow> c \<in> set h \<Longrightarrow> 33 \<le> (of_char c :: nat) \<and> (of_char c :: nat) \<le> 126"
  using valid_chars host_char_printable by (auto simp: list_all_iff)

lemma valid_no_control: "valid h \<Longrightarrow> CHR 0x1B \<notin> set h \<and> CHR 0x0A \<notin> set h \<and> CHR 0x0D \<notin> set h \<and> CHR '' '' \<notin> set h"
  using valid_printable[of h "CHR 0x1B"] valid_printable[of h "CHR 0x0A"]
    valid_printable[of h "CHR 0x0D"] valid_printable[of h "CHR '' ''"] by auto

lemma valid_no_comma: "valid h \<Longrightarrow> CHR '','' \<notin> set h"
  using valid_chars host_char_marks(7) by (auto simp: list_all_iff)

lemma valid_to_lower: "valid h \<Longrightarrow> to_lower ul h = map lower_char h"
  using valid_ascii by simp

end

interpretation request_host: host_syntax valid_request_host
  by unfold_locales (rule valid_request_host_chars, assumption, rule valid_request_host_length)

section \<open>Case and a trailing dot\<close>

text \<open>The normal form under which hosts are compared: lower case, one trailing dot removed.\<close>

definition normal_host :: "(string \<Rightarrow> string) \<Rightarrow> string \<Rightarrow> string" where
  "normal_host ul h = to_lower ul (trim_suffix h ''.'')"

lemma all_ascii_trim_suffix: "all_ascii h \<Longrightarrow> all_ascii (trim_suffix h p)"
  using set_trim_suffix[of h p] by (auto simp: all_ascii_def list_all_iff)

lemma normal_host_ascii: "all_ascii h \<Longrightarrow> normal_host ul h = map lower_char (trim_suffix h ''.'')"
  by (simp add: normal_host_def all_ascii_trim_suffix)

lemma is_alnum_lower: "is_alnum (lower_char c) = is_alnum c"
  by (auto simp: is_alnum_def Let_def of_char_lower_char is_upper_code)

lemma lower_char_mark: "lower_char c = m \<Longrightarrow> \<not> is_alnum m \<Longrightarrow> c = m"
  by (metis is_alnum_lower is_upper_code is_alnum_def lower_char_id Let_def)

lemma lower_char_mark_iff: "\<not> is_alnum m \<Longrightarrow> lower_char c = m \<longleftrightarrow> c = m"
  by (metis is_alnum_def is_upper_code lower_char_id lower_char_mark)

lemma valid_label_lower: "valid_label (map lower_char l) = valid_label l"
proof (cases "l = []")
  case True
  then show ?thesis by (simp add: valid_label_def)
next
  case False
  have m: "\<not> is_alnum CHR ''-''" "\<not> is_alnum CHR ''_''" by (simp_all add: is_alnum_def)
  from False show ?thesis
    by (auto simp: valid_label_def hd_map last_map list_all_iff is_alnum_lower lower_char_mark_iff[OF m(1)]
        lower_char_mark_iff[OF m(2)])
qed

section \<open>Lower-casing and the parsers\<close>

lemma digit_val_lower: "digit_val (lower_char c) = digit_val c"
  by (auto simp: digit_val_def Let_def of_char_lower_char is_upper_code)

lemma is_hex_lower: "is_hex (lower_char c) = is_hex c"
  by (auto simp: is_hex_def Let_def of_char_lower_char is_upper_code)

lemma hex_acc_lower: "hex_acc acc (map lower_char s) = hex_acc acc s"
  by (induction acc s rule: hex_acc.induct) (simp_all add: digit_val_lower)

lemma hex_chunk_lower: "hex_chunk (map lower_char s) = hex_chunk s"
  by (simp add: hex_chunk_def hex_acc_lower)

lemma lower_dot: "lower_char c = CHR ''.'' \<longleftrightarrow> c = CHR ''.''" "lower_char c = CHR '':'' \<longleftrightarrow> c = CHR '':''"
    "lower_char c = CHR ''%'' \<longleftrightarrow> c = CHR ''%''" "lower_char c = CHR ''['' \<longleftrightarrow> c = CHR ''[''"
    "lower_char c = CHR '']'' \<longleftrightarrow> c = CHR '']''"
  by (simp_all add: lower_char_mark_iff is_alnum_def)

lemma v4_fields_lower: "v4_fields v n fs dot (map lower_char s) = v4_fields v n fs dot s"
proof (induction v n fs dot s rule: v4_fields.induct)
  case (2 v n fs dot c s)
  show ?case
  proof (cases "is_upper c")
    case True
    then have "57 < (of_char (lower_char c) :: nat)" "57 < (of_char c :: nat)" "c \<noteq> CHR ''.''"
      by (auto simp: of_char_lower_char is_upper_code)
    then show ?thesis by (simp add: Let_def lower_dot)
  next
    case False
    with 2 show ?thesis by (simp add: Let_def)
  qed
qed simp

lemma takeWhile_hex_lower: "takeWhile is_hex (map lower_char s) = map lower_char (takeWhile is_hex s)"
  by (simp add: takeWhile_map comp_def is_hex_lower)

lemma dropWhile_hex_lower: "dropWhile is_hex (map lower_char s) = map lower_char (dropWhile is_hex s)"
  by (simp add: dropWhile_map comp_def is_hex_lower)

lemma p6_loop_lower:
  "p6_loop acc ell (map lower_char s) = map_option (\<lambda>(a, e, r). (a, e, map lower_char r)) (p6_loop acc ell s)"
proof (induction acc ell s rule: p6_loop.induct)
  case (1 acc ell s)
  show ?case
  proof (cases "dropWhile is_hex s")
    case Nil
    then show ?thesis
      by (simp add: p6_loop.simps[of _ _ s] p6_loop.simps[of _ _ "map lower_char s"] Let_def
          takeWhile_hex_lower dropWhile_hex_lower hex_chunk_lower del: dropWhile_eq_Nil_conv)
  next
    case (Cons c q)
    show ?thesis
    proof (cases q)
      case Nil
      with Cons show ?thesis
        by (simp add: p6_loop.simps[of _ _ s] p6_loop.simps[of _ _ "map lower_char s"] Let_def lower_dot
          takeWhile_hex_lower dropWhile_hex_lower hex_chunk_lower parse_ipv4_fields_def v4_fields_lower split: option.split)
    next
      case d: (Cons d t)
      define hs where "hs = takeWhile is_hex s"
      let ?bad = "hs = [] \<or> length hs > 4"
      let ?f = "parse_ipv4_fields s"
      let ?a = "acc @ hex_chunk hs"
      have e: "p6_loop acc ell s = (if length acc \<ge> 16 then Some (acc, ell, s) else if ?bad then None
          else if c = CHR ''.'' then (if ell = None \<and> length acc \<noteq> 12 then None else if length acc + 4 > 16 then None
             else (case ?f of None \<Rightarrow> None | Some f \<Rightarrow> Some (acc @ f, ell, [])))
          else if c \<noteq> CHR '':'' then None
          else if d = CHR '':'' then (if ell \<noteq> None then None else if t = [] then Some (?a, Some (length ?a), [])
             else p6_loop ?a (Some (length ?a)) t)
          else p6_loop ?a ell q)"
        by (simp only: p6_loop.simps[of acc ell s] Let_def hs_def Cons d list.case)
      have e': "p6_loop acc ell (map lower_char s) = (if length acc \<ge> 16 then Some (acc, ell, map lower_char s) else if ?bad then None
          else if c = CHR ''.'' then (if ell = None \<and> length acc \<noteq> 12 then None else if length acc + 4 > 16 then None
             else (case ?f of None \<Rightarrow> None | Some f \<Rightarrow> Some (acc @ f, ell, [])))
          else if c \<noteq> CHR '':'' then None
          else if d = CHR '':'' then (if ell \<noteq> None then None else if t = [] then Some (?a, Some (length ?a), [])
             else p6_loop ?a (Some (length ?a)) (map lower_char t))
          else p6_loop ?a ell (map lower_char q))"
        by (simp only: p6_loop.simps[of acc ell "map lower_char s"] Let_def hs_def Cons d list.case list.map
            takeWhile_hex_lower dropWhile_hex_lower hex_chunk_lower parse_ipv4_fields_def v4_fields_lower lower_dot
            length_map map_is_Nil_conv)
      note IH = 1[OF _ refl refl _ Cons _ _ d, folded hs_def]
      show ?thesis unfolding e e'
        by (simp split: option.split) (use IH in auto)
    qed
  qed
qed

lemma parse_ip_lower: "parse_ip (map lower_char s) = parse_ip s"
proof -
  have m: "first_addr_mark (map lower_char s) = map_option lower_char (first_addr_mark s)"
    by (induction s) (auto simp: first_addr_mark_def lower_dot)
  have f: "p6_finish (case r of (a, e, q) \<Rightarrow> (a, e, map lower_char q)) = p6_finish r" for r
    by (auto simp: p6_finish_def split: prod.split)
  have b: "Option.bind (map_option (\<lambda>(a, e, q). (a, e, map lower_char q)) x) p6_finish = Option.bind x p6_finish" for x
    using f by (cases x) auto
  have pc: "CHR ''%'' \<in> lower_char ` set s \<longleftrightarrow> CHR ''%'' \<in> set s"
    by (metis image_iff lower_dot(3))
  have cc: "has_prefix (map lower_char s) ''::'' = has_prefix s ''::''"
    by (cases s; cases "tl s") (auto simp: lower_dot)
  have "parse_ipv6 (map lower_char s) = parse_ipv6 s"
    by (simp add: parse_ipv6_def pc cc p6_loop_lower b drop_map)
  with m show ?thesis
    by (auto simp: parse_ip_def parse_addr_def parse_ipv4_fields_def v4_fields_lower lower_dot split: option.split)
qed

lemma split_on_lower: "split_on CHR ''.'' (map lower_char s) = map (map lower_char) (split_on CHR ''.'' s)"
  by (induction s) (auto simp: lower_dot split: list.split)

lemma has_suffix_lower1: "\<not> is_alnum m \<Longrightarrow> has_suffix (map lower_char t) [m] = has_suffix t [m]"
  by (cases t rule: rev_cases) (auto simp: has_suffix_def lower_char_mark_iff)

lemma has_prefix_lower1: "\<not> is_alnum m \<Longrightarrow> has_prefix (map lower_char t) [m] = has_prefix t [m]"
  by (cases t) (auto simp: lower_char_mark_iff)

lemma trim_dot_lower: "trim_suffix (map lower_char t) ''.'' = map lower_char (trim_suffix t ''.'')"
  using has_suffix_lower1[of "CHR ''.''" t] by (simp add: trim_suffix_def is_alnum_def take_map)

text \<open>Lower-casing keeps a host valid, so the normalised destination passes the same check.\<close>

lemma valid_request_host_lower: "valid_request_host (map lower_char h) = valid_request_host h"
proof -
  have m: "\<not> is_alnum CHR ''[''" "\<not> is_alnum CHR '']''" by (simp_all add: is_alnum_def)
  have "butlast (tl (map lower_char h)) = map lower_char (butlast (tl h))" by (simp add: map_butlast map_tl)
  moreover have "list_all valid_label (map (map lower_char) ws) = list_all valid_label ws" for ws
    by (simp add: list_all_iff valid_label_lower)
  ultimately show ?thesis
    by (simp add: valid_request_host_def has_suffix_lower1[OF m(2)] has_prefix_lower1[OF m(1)]
        parse_ip_lower trim_dot_lower split_on_lower)
qed

end
