(* ===== verification/Go_Path.thy ===== *)
theory Go_Path
  imports Go_Base
begin

text \<open>
  The lexical path functions of the packages path and path/filepath on a Unix system, which the
  sandbox, the broker and the archive checks rely on. A cleaned path is the join of its
  elements, so the model works on the element list with the elements kept so far in reverse.
\<close>

section \<open>Model\<close>

abbreviation "slash \<equiv> CHR ''/''"

text \<open>One element of the source path, pushed on the elements kept so far.\<close>

fun clean_push :: "bool \<Rightarrow> string list \<Rightarrow> string \<Rightarrow> string list" where
  "clean_push rooted st e =
     (if e = [] \<or> e = ''.'' then st
      else if e = ''..'' then
        (case st of
           [] \<Rightarrow> if rooted then [] else [e]
         | x # xs \<Rightarrow> if x = ''..'' then e # st else xs)
      else e # st)"

definition clean_elems :: "bool \<Rightarrow> string list \<Rightarrow> string list" where
  "clean_elems rooted es = rev (foldl (clean_push rooted) [] es)"

definition path_rooted :: "string \<Rightarrow> bool" where
  "path_rooted p = (p \<noteq> [] \<and> hd p = slash)"

text \<open>filepath.Clean and path.Clean.\<close>

definition path_clean :: "string \<Rightarrow> string" where
  "path_clean p =
     (let es = clean_elems (path_rooted p) (split_on slash p)
      in if path_rooted p then slash # join_with [slash] es
         else if es = [] then ''.'' else join_with [slash] es)"

text \<open>filepath.Join: leading empty arguments are dropped, the rest is joined and cleaned.\<close>

definition path_join :: "string list \<Rightarrow> string" where
  "path_join es = (case dropWhile (\<lambda>e. e = []) es of
      [] \<Rightarrow> [] | fs \<Rightarrow> path_clean (join_with [slash] fs))"

text \<open>path.Ext: from the last dot of the last element.\<close>

definition path_ext :: "string \<Rightarrow> string" where
  "path_ext p = (let base = (case last_index p slash of None \<Rightarrow> p | Some i \<Rightarrow> drop (Suc i) p) in
     case last_index base CHR ''.'' of None \<Rightarrow> [] | Some i \<Rightarrow> drop i base)"

text \<open>filepath.Base and filepath.Dir.\<close>

definition path_base :: "string \<Rightarrow> string" where
  "path_base p = (if p = [] then ''.''
     else (case trim_right {slash} p of
        [] \<Rightarrow> [slash]
      | q \<Rightarrow> (case last_index q slash of None \<Rightarrow> q | Some i \<Rightarrow> drop (Suc i) q)))"

definition path_dir :: "string \<Rightarrow> string" where
  "path_dir p = path_clean (case last_index p slash of None \<Rightarrow> [] | Some i \<Rightarrow> take (Suc i) p)"

section \<open>Cleaned element lists\<close>

text \<open>
  The elements a cleaned path may hold: no empty and no dot element, and dot-dot elements only
  as a block at the front of an unrooted path.
\<close>

definition clean_elem :: "string \<Rightarrow> bool" where
  "clean_elem e = (e \<noteq> [] \<and> e \<noteq> ''.'' \<and> slash \<notin> set e)"

fun clean_stack :: "bool \<Rightarrow> string list \<Rightarrow> bool" where
  "clean_stack rooted [] = True"
| "clean_stack rooted (x # xs) =
     (clean_elem x \<and> (x = ''..'' \<longrightarrow> \<not> rooted \<and> set xs \<subseteq> {''..''}) \<and> clean_stack rooted xs)"

definition clean_shape :: "bool \<Rightarrow> string list \<Rightarrow> bool" where
  "clean_shape rooted es = clean_stack rooted (rev es)"

lemma clean_shape_Nil [simp]: "clean_shape rooted []"
  by (simp add: clean_shape_def)

lemma clean_push_shape [go_inv]:
  "clean_stack rooted st \<Longrightarrow> slash \<notin> set e \<Longrightarrow> clean_stack rooted (clean_push rooted st e)"
  by (cases st) (auto simp: clean_elem_def)

lemma clean_fold_shape:
  "clean_stack rooted st \<Longrightarrow> list_all (\<lambda>e. slash \<notin> set e) es \<Longrightarrow>
     clean_stack rooted (foldl (clean_push rooted) st es)"
  by (induction es arbitrary: st) (simp_all add: clean_push_shape del: clean_push.simps)

lemma clean_elems_shape: "clean_shape rooted (clean_elems rooted (split_on slash p))"
  unfolding clean_elems_def clean_shape_def rev_rev_ident
  by (rule clean_fold_shape) (use set_split_on[of _ slash p] in \<open>auto simp: list_all_iff\<close>)

lemma clean_stack_append: "clean_stack r (xs @ ys) \<Longrightarrow> clean_stack r ys"
  by (induction xs) auto

lemma clean_stack_elems: "clean_stack r st \<Longrightarrow> list_all clean_elem st"
  by (induction st) auto

text \<open>Cleaning a clean element list changes nothing.\<close>

lemma clean_push_id: "clean_stack r (e # st) \<Longrightarrow> clean_push r st e = e # st"
  by (cases st) (auto simp: clean_elem_def)

lemma clean_fold_id:
  "clean_stack rooted (rev es @ st) \<Longrightarrow> foldl (clean_push rooted) st es = rev es @ st"
proof (induction es arbitrary: st)
  case (Cons e es)
  from Cons.prems have "clean_stack rooted (e # st)"
    using clean_stack_append[of rooted "rev es" "e # st"] by simp
  then have "clean_push rooted st e = e # st" by (rule clean_push_id)
  with Cons show ?case by (simp del: clean_push.simps)
qed simp

lemma clean_elems_id: "clean_shape rooted es \<Longrightarrow> clean_elems rooted es = es"
  using clean_fold_id[of rooted es "[]"] by (simp add: clean_elems_def clean_shape_def)

lemma split_on_no: "c \<notin> set w \<Longrightarrow> split_on c w = [w]"
  by (induction w) auto

lemma split_on_append: "c \<notin> set w \<Longrightarrow> split_on c (w @ c # s) = w # split_on c s"
  by (induction w) auto

lemma split_join: "ws \<noteq> [] \<Longrightarrow> list_all (\<lambda>w. c \<notin> set w) ws \<Longrightarrow> split_on c (join_with [c] ws) = ws"
proof (induction ws)
  case (Cons w ws)
  then show ?case by (cases ws) (auto simp: split_on_no split_on_append)
qed simp

lemma clean_elems_Nil_first: "clean_elems rooted ([] # es) = clean_elems rooted es"
  by (simp add: clean_elems_def)

lemma clean_shape_no_slash: "clean_shape r es \<Longrightarrow> list_all (\<lambda>w. slash \<notin> set w) es"
  by (auto simp: clean_shape_def clean_elem_def list_all_iff dest!: clean_stack_elems)

lemma join_not_rooted:
  "clean_shape r es \<Longrightarrow> es \<noteq> [] \<Longrightarrow> \<not> path_rooted (join_with [slash] es)"
proof -
  assume a: "clean_shape r es" "es \<noteq> []"
  then obtain e r where e: "es = e # r" by (cases es) auto
  from a have "list_all clean_elem (rev es)" by (simp only: clean_shape_def clean_stack_elems)
  with e have "e \<noteq> []" "slash \<notin> set e" by (auto simp: clean_elem_def)
  then show ?thesis by (cases r; cases e) (auto simp: e path_rooted_def)
qed

text \<open>path.Clean is idempotent.\<close>

lemma path_clean_idem: "path_clean (path_clean p) = path_clean p"
proof -
  define r where "r = path_rooted p"
  define es where "es = clean_elems r (split_on slash p)"
  have sh: "clean_shape r es" unfolding es_def by (rule clean_elems_shape)
  show ?thesis
  proof (cases r)
    case True
    have "path_clean p = slash # join_with [slash] es"
      using True by (simp add: path_clean_def Let_def es_def r_def)
    moreover have "path_clean (slash # join_with [slash] es) = slash # join_with [slash] es"
    proof (cases "es = []")
      case True
      then show ?thesis by (simp add: path_clean_def path_rooted_def clean_elems_def)
    next
      case False
      with sh have "split_on slash (join_with [slash] es) = es"
        by (intro split_join clean_shape_no_slash)
      then show ?thesis using sh True
        by (simp add: path_clean_def path_rooted_def clean_elems_Nil_first clean_elems_id)
    qed
    ultimately show ?thesis by simp
  next
    case nr: False
    show ?thesis
    proof (cases "es = []")
      case True
      then have "path_clean p = ''.''" using nr by (simp add: path_clean_def Let_def es_def r_def)
      moreover have "path_clean ''.'' = ''.''" by code_simp
      ultimately show ?thesis by simp
    next
      case False
      then have p: "path_clean p = join_with [slash] es"
        using nr by (simp add: path_clean_def Let_def es_def r_def)
      from sh False have "split_on slash (join_with [slash] es) = es"
        by (intro split_join clean_shape_no_slash)
      then show ?thesis using sh nr False join_not_rooted[OF sh False]
        by (simp add: p) (simp add: path_clean_def clean_elems_id)
    qed
  qed
qed

end
