(* ===== verification/Broker_Config.thy ===== *)
theory Broker_Config
  imports Request_Host Go_Path
begin

text \<open>
  The egress broker's policy (config.go), the way it crosses the process boundary as an argument
  vector (StartBroker and cmd/prolewatch-net), the re-validation on the other side and the closed
  host set of a phase (permitsHost).
\<close>

section \<open>Configuration\<close>

record prompt_source =
  ps_host :: string
  ps_url :: string
  ps_kind :: string
  ps_transport :: string
  ps_binding :: string

record egress_config =
  mode :: string
  prompt_timeout_seconds :: int
  grant_scope :: string
  max_destinations :: int
  max_requests :: int
  max_connections :: int
  connect_timeout_seconds :: int
  idle_timeout_seconds :: int
  max_transfer_bytes :: int
  disk_reserve_bytes :: int
  prompt_context :: string
  prompt_package :: string
  prompt_phase :: string
  declared_hosts :: "string list"
  prompt_sources :: "prompt_source list"
  allowed_hosts :: "string list"

definition zero_config :: egress_config where
  "zero_config = \<lparr>mode = [], prompt_timeout_seconds = 0, grant_scope = [], max_destinations = 0,
     max_requests = 0, max_connections = 0, connect_timeout_seconds = 0, idle_timeout_seconds = 0,
     max_transfer_bytes = 0, disk_reserve_bytes = 0, prompt_context = [], prompt_package = [],
     prompt_phase = [], declared_hosts = [], prompt_sources = [], allowed_hosts = []\<rparr>"

definition default_config :: egress_config where
  "default_config = zero_config\<lparr>mode := ''prompt'', prompt_timeout_seconds := 300,
     grant_scope := ''transaction'', max_destinations := 8, max_requests := 100000,
     max_connections := 32, connect_timeout_seconds := 15, idle_timeout_seconds := 60,
     max_transfer_bytes := 8 * 2 ^ 30, disk_reserve_bytes := 2 * 2 ^ 30\<rparr>"

definition exit_ok :: int where "exit_ok = 0"
definition exit_invalid_invocation :: int where "exit_invalid_invocation = 20"
definition exit_listen_failure :: int where "exit_listen_failure = 23"
definition exit_runtime_failure :: int where "exit_runtime_failure = 24"
definition exit_request_limit :: int where "exit_request_limit = 25"

section \<open>The launcher's side\<close>

definition no_allowed_hosts :: string where "no_allowed_hosts = ''-''"

text \<open>StartBroker's host loop: the normalised hosts, or the first host it refuses.\<close>

fun normalize_hosts :: "(string \<Rightarrow> string) \<Rightarrow> string list \<Rightarrow> string + string list" where
  "normalize_hosts ul [] = Inr []"
| "normalize_hosts ul (host # hosts) =
     (let h = to_lower ul (trim_suffix host ''.'')
      in if \<not> valid_request_host h then Inl h
         else map_sum id (\<lambda>r. h # r) (normalize_hosts ul hosts))"

definition allowed_argument :: "(string \<Rightarrow> string) \<Rightarrow> egress_config \<Rightarrow> string + string" where
  "allowed_argument ul cfg =
     (if allowed_hosts cfg = [] then Inr no_allowed_hosts
      else map_sum id (join_with '','') (normalize_hosts ul (allowed_hosts cfg)))"

text \<open>The bubblewrap command line of the broker.\<close>

definition client_directory :: "string \<Rightarrow> string" where
  "client_directory d = path_join [d, ''client'']"

definition control_directory :: "string \<Rightarrow> string" where
  "control_directory d = path_join [d, ''control'']"

definition broker_sandbox_args :: "string \<Rightarrow> string list" where
  "broker_sandbox_args d =
     [''--die-with-parent'', ''--new-session'', ''--unshare-all'', ''--share-net'', ''--unshare-user'',
      ''--disable-userns'', ''--assert-userns-disabled'',
      ''--ro-bind'', ''/usr'', ''/usr'', ''--symlink'', ''usr/bin'', ''/bin'', ''--symlink'', ''usr/lib'', ''/lib'',
      ''--symlink'', ''usr/lib64'', ''/lib64'', ''--dir'', ''/etc'',
      ''--ro-bind-try'', ''/etc/resolv.conf'', ''/etc/resolv.conf'',
      ''--ro-bind-try'', ''/etc/hosts'', ''/etc/hosts'',
      ''--ro-bind-try'', ''/etc/nsswitch.conf'', ''/etc/nsswitch.conf'',
      ''--ro-bind-try'', ''/etc/ssl'', ''/etc/ssl'',
      ''--ro-bind-try'', ''/etc/ca-certificates'', ''/etc/ca-certificates'',
      ''--proc'', ''/proc'', ''--dev'', ''/dev'', ''--tmpfs'', ''/tmp'',
      ''--dir'', ''/broker-client'', ''--bind'', client_directory d, ''/broker-client'',
      ''--dir'', ''/broker-control'', ''--bind'', control_directory d, ''/broker-control'',
      ''--clearenv'', ''--setenv'', ''PATH'', ''/usr/bin'', ''--setenv'', ''LANG'', ''C.UTF-8'']"

definition broker_command :: "egress_config \<Rightarrow> string \<Rightarrow> string list" where
  "broker_command cfg allowed =
     [''/usr/bin/prolewatch-net'', ''broker'', ''/broker-client/proxy.sock'', ''/broker-control/prompt.sock'',
      show_int (max_connections cfg), show_int (connect_timeout_seconds cfg),
      show_int (idle_timeout_seconds cfg), show_int (max_transfer_bytes cfg),
      show_int (prompt_timeout_seconds cfg), show_int (max_destinations cfg),
      show_int (max_requests cfg), allowed]"

definition start_broker_args :: "(string \<Rightarrow> string) \<Rightarrow> string \<Rightarrow> egress_config \<Rightarrow> string + string list" where
  "start_broker_args ul d cfg = map_sum id (\<lambda>allowed. broker_sandbox_args d @ broker_command cfg allowed)
     (allowed_argument ul cfg)"

section \<open>The broker's side\<close>

text \<open>cmd/prolewatch-net: what the argument vector makes the process do.\<close>

datatype net_main = ExitWith int | RunBroker string string egress_config | RunSupervisor string "string list"

definition net_main :: "string list \<Rightarrow> net_main" where
  "net_main args =
     (if length args < 3 then ExitWith exit_invalid_invocation
      else if args ! 1 = ''broker'' then
        if length args \<noteq> 12 then ExitWith exit_invalid_invocation
        else (case (atoi (args ! 4), atoi (args ! 5), atoi (args ! 6), parse_int 10 64 (args ! 7),
                    atoi (args ! 8), atoi (args ! 9), atoi (args ! 10)) of
          (Some connections, Some connect, Some idle, Some transfer, Some prompt, Some destinations, Some requests) \<Rightarrow>
            RunBroker (args ! 2) (args ! 3) (zero_config\<lparr>max_connections := connections,
              connect_timeout_seconds := connect, idle_timeout_seconds := idle, max_transfer_bytes := transfer,
              mode := ''prompt'', grant_scope := ''transaction'', prompt_timeout_seconds := prompt,
              max_destinations := destinations, max_requests := requests,
              allowed_hosts := (if args ! 11 \<noteq> no_allowed_hosts then split_on CHR '','' (args ! 11) else [])\<rparr>)
        | _ \<Rightarrow> ExitWith exit_invalid_invocation)
      else if args ! 1 = ''supervise'' then
        if length args < 5 \<or> args ! 3 \<noteq> ''--'' then ExitWith exit_invalid_invocation
        else RunSupervisor (args ! 2) (drop 4 args)
      else ExitWith exit_invalid_invocation)"

text \<open>RunNetworkBroker's first checks, and permitsHost.\<close>

definition valid_broker_config :: "egress_config \<Rightarrow> bool" where
  "valid_broker_config cfg = (\<not> (max_connections cfg \<le> 0 \<or> connect_timeout_seconds cfg \<le> 0 \<or>
     idle_timeout_seconds cfg \<le> 0 \<or> max_transfer_bytes cfg \<le> 0 \<or> prompt_timeout_seconds cfg \<le> 0 \<or>
     max_destinations cfg \<le> 0 \<or> max_requests cfg \<le> 0 \<or> mode cfg \<noteq> ''prompt'' \<or> grant_scope cfg \<noteq> ''transaction''))"

definition broker_host_ok :: "(string \<Rightarrow> string) \<Rightarrow> string \<Rightarrow> bool" where
  "broker_host_ok ul host = (\<not> (host \<noteq> to_lower ul (trim_suffix host ''.'') \<or> \<not> valid_request_host host))"

text \<open>
  The start of RunNetworkBroker up to its accept loop: the exit code with which it refuses to
  start, if any. The arguments say whether the stale socket was removed, the socket could be
  listened on and the local networks could be read.
\<close>

definition broker_start ::
  "(string \<Rightarrow> string) \<Rightarrow> bool \<Rightarrow> bool \<Rightarrow> bool \<Rightarrow> string \<Rightarrow> string \<Rightarrow> egress_config \<Rightarrow> int option" where
  "broker_start ul removed listening captured socket prompt_socket cfg =
     (if \<not> valid_broker_config cfg then Some exit_invalid_invocation
      else if \<not> list_all (broker_host_ok ul) (allowed_hosts cfg) then Some exit_invalid_invocation
      else if \<not> removed \<or> \<not> listening then Some exit_listen_failure
      else if prompt_socket = [] \<or> path_clean prompt_socket = path_clean socket
      then Some exit_invalid_invocation
      else if \<not> captured then Some exit_invalid_invocation
      else None)"

definition permits_host :: "(string \<Rightarrow> string) \<Rightarrow> egress_config \<Rightarrow> string \<Rightarrow> bool" where
  "permits_host ul cfg host =
     (allowed_hosts cfg = [] \<or> to_lower ul (trim_suffix host ''.'') \<in> set (allowed_hosts cfg))"

section \<open>Integers cross the boundary unchanged\<close>

lemma atoi_show_int: "in_int64 i \<Longrightarrow> atoi (show_int i) = Some i"
  by (simp add: atoi_def parse_int_show_int)

section \<open>The host set crosses the boundary unchanged\<close>

lemma normalize_hosts_Inr:
  "normalize_hosts ul hs = Inr ns \<Longrightarrow>
     ns = map (\<lambda>h. to_lower ul (trim_suffix h ''.'')) hs \<and> list_all valid_request_host ns"
proof (induction hs arbitrary: ns)
  case (Cons h hs)
  then show ?case
    by (cases "normalize_hosts ul hs") (auto simp: Let_def split: if_splits)
qed simp

lemma join_hosts_split:
  assumes "list_all valid_request_host ns" "ns \<noteq> []"
  shows "split_on CHR '','' (join_with '','' ns) = ns"
  using assms request_host.valid_no_comma
  by (intro split_join) (auto simp: list_all_iff)

lemma valid_not_dash: "\<not> valid_request_host no_allowed_hosts"
  by code_simp

lemma join_hosts_not_dash:
  assumes "list_all valid_request_host ns" "ns \<noteq> []"
  shows "join_with '','' ns \<noteq> no_allowed_hosts"
proof
  assume j: "join_with '','' ns = no_allowed_hosts"
  then have "split_on CHR '','' no_allowed_hosts = ns" using join_hosts_split[OF assms] by simp
  moreover have "split_on CHR '','' no_allowed_hosts = [no_allowed_hosts]" by code_simp
  ultimately show False using assms(1) valid_not_dash by auto
qed

text \<open>The fields of the configuration that the argument vector carries are 64-bit integers.\<close>

definition int64_config :: "egress_config \<Rightarrow> bool" where
  "int64_config cfg = (in_int64 (max_connections cfg) \<and> in_int64 (connect_timeout_seconds cfg) \<and>
     in_int64 (idle_timeout_seconds cfg) \<and> in_int64 (max_transfer_bytes cfg) \<and>
     in_int64 (prompt_timeout_seconds cfg) \<and> in_int64 (max_destinations cfg) \<and> in_int64 (max_requests cfg))"

text \<open>What the broker is meant to receive: the limits of the launcher and its normalised hosts.\<close>

definition carried_config :: "(string \<Rightarrow> string) \<Rightarrow> egress_config \<Rightarrow> egress_config" where
  "carried_config ul cfg = zero_config\<lparr>mode := ''prompt'', grant_scope := ''transaction'',
     max_connections := max_connections cfg, connect_timeout_seconds := connect_timeout_seconds cfg,
     idle_timeout_seconds := idle_timeout_seconds cfg, max_transfer_bytes := max_transfer_bytes cfg,
     prompt_timeout_seconds := prompt_timeout_seconds cfg, max_destinations := max_destinations cfg,
     max_requests := max_requests cfg,
     allowed_hosts := map (\<lambda>h. to_lower ul (trim_suffix h ''.'')) (allowed_hosts cfg)\<rparr>"

lemma net_main_broker_command:
  assumes "int64_config cfg"
  shows "net_main (broker_command cfg a) = RunBroker ''/broker-client/proxy.sock'' ''/broker-control/prompt.sock''
    ((carried_config ul cfg)\<lparr>allowed_hosts := (if a \<noteq> no_allowed_hosts then split_on CHR '','' a else [])\<rparr>)"
  using assms
  by (simp add: net_main_def broker_command_def int64_config_def atoi_show_int parse_int_show_int
      carried_config_def zero_config_def)

lemma allowed_argument_Inr:
  assumes "allowed_argument ul cfg = Inr a"
  shows "(if a \<noteq> no_allowed_hosts then split_on CHR '','' a else []) =
           map (\<lambda>h. to_lower ul (trim_suffix h ''.'')) (allowed_hosts cfg)"
proof (cases "allowed_hosts cfg = []")
  case True
  with assms show ?thesis by (simp add: allowed_argument_def)
next
  case False
  with assms obtain ns where ns: "normalize_hosts ul (allowed_hosts cfg) = Inr ns" "a = join_with '','' ns"
    by (cases "normalize_hosts ul (allowed_hosts cfg)") (auto simp: allowed_argument_def)
  from normalize_hosts_Inr[OF ns(1)] have n: "ns = map (\<lambda>h. to_lower ul (trim_suffix h ''.'')) (allowed_hosts cfg)"
      "list_all valid_request_host ns" by auto
  with False have ne: "ns \<noteq> []" by simp
  show ?thesis using join_hosts_not_dash[OF n(2) ne] join_hosts_split[OF n(2) ne] ns(2) n(1) by simp
qed

lemma carried_valid: "valid_broker_config cfg \<Longrightarrow> valid_broker_config (carried_config ul cfg)"
  by (simp add: valid_broker_config_def carried_config_def)

lemma carried_hosts [simp]:
  "allowed_hosts (carried_config ul cfg) = map (\<lambda>h. to_lower ul (trim_suffix h ''.'')) (allowed_hosts cfg)"
  by (simp add: carried_config_def)

lemma allowed_argument_valid:
  "allowed_argument ul cfg = Inr a \<Longrightarrow> h \<in> set (allowed_hosts cfg) \<Longrightarrow>
     valid_request_host (to_lower ul (trim_suffix h ''.''))"
  by (cases "normalize_hosts ul (allowed_hosts cfg)")
    (auto simp: allowed_argument_def list_all_iff dest!: normalize_hosts_Inr split: if_splits)

lemma trim_dot_twice: "\<not> has_suffix h ''..'' \<Longrightarrow> trim_suffix (trim_suffix h ''.'') ''.'' = trim_suffix h ''.''"
  by (cases h rule: rev_cases; cases "butlast h" rule: rev_cases)
    (auto simp: trim_suffix_def has_suffix_def has_prefix_def)

section \<open>Properties\<close>

text \<open>C8: what the launcher puts into the broker's argument vector is read back as the same
  policy: every limit unchanged and the closed host set as the launcher's hosts, lower-cased and
  without a trailing dot, the empty set only for the token that says so.\<close>

theorem broker_launch_roundtrip:
  assumes "int64_config cfg" "allowed_argument ul cfg = Inr a"
  shows "net_main (broker_command cfg a) =
    RunBroker ''/broker-client/proxy.sock'' ''/broker-control/prompt.sock'' (carried_config ul cfg)"
  using net_main_broker_command[OF assms(1), of a ul] allowed_argument_Inr[OF assms(2)] by simp

theorem broker_launch_roundtrip_witness:
  "net_main (broker_command (default_config\<lparr>allowed_hosts := [''Git.Example.'', ''b.c'']\<rparr>) ''git.example,b.c'') =
    RunBroker ''/broker-client/proxy.sock'' ''/broker-control/prompt.sock''
      (carried_config id (default_config\<lparr>allowed_hosts := [''Git.Example.'', ''b.c'']\<rparr>))"
proof (rule broker_launch_roundtrip)
  show "int64_config (default_config\<lparr>allowed_hosts := [''Git.Example.'', ''b.c'']\<rparr>)"
    by code_simp
  show "allowed_argument id (default_config\<lparr>allowed_hosts := [''Git.Example.'', ''b.c'']\<rparr>) = Inr ''git.example,b.c''"
    by code_simp
qed

text \<open>
  A policy the launcher accepts also starts the broker, whose second validation finds nothing to
  refuse, for ASCII hosts that do not end in two dots.
\<close>

lemma broker_launch_accepted:
  assumes "valid_broker_config cfg" "allowed_argument ul cfg = Inr a"
    and "\<forall>h \<in> set (allowed_hosts cfg). all_ascii h \<and> \<not> has_suffix h ''..''"
  shows "broker_start ul True True True ''/broker-client/proxy.sock'' ''/broker-control/prompt.sock''
           (carried_config ul cfg) = None"
proof -
  have "broker_host_ok ul (to_lower ul (trim_suffix h ''.''))" if h: "h \<in> set (allowed_hosts cfg)" for h
  proof -
    from assms(3) h have a: "all_ascii h" "\<not> has_suffix h ''..''" by auto
    define t where "t = trim_suffix h ''.''"
    have at: "all_ascii t" using a by (simp add: t_def all_ascii_trim_suffix)
    have dot: "trim_suffix (map lower_char t) ''.'' = map lower_char (trim_suffix t ''.'')"
      by (rule trim_dot_lower)
    have "trim_suffix t ''.'' = t" using trim_dot_twice[OF a(2)] by (simp add: t_def)
    with dot have "to_lower ul (trim_suffix (map lower_char t) ''.'') = map lower_char t"
      using at by (simp add: comp_def)
    moreover have "valid_request_host (map lower_char t)"
      using allowed_argument_valid[OF assms(2) h] at by (simp add: t_def all_ascii_trim_suffix a)
    ultimately show ?thesis using at by (simp add: broker_host_ok_def flip: t_def)
  qed
  moreover have "path_clean ''/broker-control/prompt.sock'' \<noteq> path_clean ''/broker-client/proxy.sock''"
    by code_simp
  ultimately show ?thesis using carried_valid[OF assms(1), of ul]
    by (simp add: broker_start_def list_all_iff)
qed

text \<open>The launcher accepts a host that ends in two dots, and the broker it starts refuses the
  policy: the launch fails only after the broker has exited.\<close>

lemma broker_double_dot_divergence:
  "allowed_argument ul (default_config\<lparr>allowed_hosts := [''git.example..'']\<rparr>) = Inr ''git.example.'' \<and>
   broker_start ul True True True s p (carried_config ul (default_config\<lparr>allowed_hosts := [''git.example..'']\<rparr>))
     = Some exit_invalid_invocation"
proof
  have t: "trim_suffix ''git.example..'' ''.'' = ''git.example.''" by code_simp
  have l: "to_lower ul ''git.example.'' = ''git.example.''"
    by (subst to_lower_ascii) (code_simp, code_simp)
  have l': "to_lower ul (trim_suffix ''git.example.'' ''.'') = ''git.example''"
    by (subst to_lower_ascii) (code_simp, code_simp)
  have v: "valid_request_host ''git.example.''" by code_simp
  show "allowed_argument ul (default_config\<lparr>allowed_hosts := [''git.example..'']\<rparr>) = Inr ''git.example.''"
    by (simp add: allowed_argument_def t l v)
  show "broker_start ul True True True s p (carried_config ul (default_config\<lparr>allowed_hosts := [''git.example..'']\<rparr>))
     = Some exit_invalid_invocation"
    by (simp add: broker_start_def t l l' broker_host_ok_def)
qed

text \<open>A broker that was given a closed host set permits a destination exactly when it equals a
  declared host up to letter case and one trailing dot; only a broker without a set permits
  every host.\<close>

lemma permits_host_exact:
  assumes "all_ascii host" "\<forall>h \<in> set (allowed_hosts cfg). all_ascii h"
  shows "permits_host ul (carried_config ul cfg) host \<longleftrightarrow>
    allowed_hosts cfg = [] \<or>
    (\<exists>h \<in> set (allowed_hosts cfg). equal_fold uf (trim_suffix host ''.'') (trim_suffix h ''.''))"
  using assms by (auto simp: permits_host_def all_ascii_trim_suffix image_iff)

end
