(* ===== verification/Go_Utf8.thy ===== *)
theory Go_Utf8
  imports Go_Base "HOL-Library.Code_Target_Nat"
begin

text \<open>
  Go's package unicode/utf8 as the code uses it (DecodeRune, DecodeLastRune, FullRune, Valid, the
  rune loop over a string), and the string functions defined through it: strings.TrimSpace and
  strings.Fields, whose notion of white space is unicode.IsSpace. A rune is a \<open>nat\<close>.
\<close>

abbreviation code :: "char \<Rightarrow> nat" where "code c \<equiv> of_char c"

definition rune_error :: nat where "rune_error = 0xFFFD"

section \<open>Decoding\<close>

text \<open>
  The table of first bytes: the length of the sequence it starts and the range of the second
  byte. None is a byte that starts nothing (a continuation byte, 0xC0, 0xC1, 0xF5 and above).
\<close>

definition first_byte :: "nat \<Rightarrow> (nat \<times> nat \<times> nat) option" where
  "first_byte b =
     (if b < 0x80 then Some (1, 0, 0)
      else if b < 0xC2 then None
      else if b < 0xE0 then Some (2, 0x80, 0xBF)
      else if b = 0xE0 then Some (3, 0xA0, 0xBF)
      else if b = 0xED then Some (3, 0x80, 0x9F)
      else if b < 0xF0 then Some (3, 0x80, 0xBF)
      else if b = 0xF0 then Some (4, 0x90, 0xBF)
      else if b < 0xF4 then Some (4, 0x80, 0xBF)
      else if b = 0xF4 then Some (4, 0x80, 0x8F)
      else None)"

definition is_cont :: "nat \<Rightarrow> bool" where
  "is_cont b = (0x80 \<le> b \<and> b \<le> 0xBF)"

text \<open>utf8.DecodeRune: the rune and the number of bytes it takes, (RuneError, 1) if malformed.\<close>

definition decode_rune :: "string \<Rightarrow> nat \<times> nat" where
  "decode_rune s = (case s of
      [] \<Rightarrow> (rune_error, 0)
    | c # _ \<Rightarrow>
        (case first_byte (code c) of
           None \<Rightarrow> (rune_error, 1)
         | Some (n, lo, hi) \<Rightarrow>
             if n = 1 then (code c, 1)
             else if length s < n then (rune_error, 1)
             else let b1 = code (s ! 1) in
               if b1 < lo \<or> hi < b1 then (rune_error, 1)
               else if n = 2 then (code c mod 32 * 64 + b1 mod 64, 2)
               else let b2 = code (s ! 2) in
                 if \<not> is_cont b2 then (rune_error, 1)
                 else if n = 3 then ((code c mod 16 * 64 + b1 mod 64) * 64 + b2 mod 64, 3)
                 else let b3 = code (s ! 3) in
                   if \<not> is_cont b3 then (rune_error, 1)
                   else (((code c mod 8 * 64 + b1 mod 64) * 64 + b2 mod 64) * 64 + b3 mod 64, 4)))"

text \<open>utf8.FullRune: whether the bytes start with a complete encoding (a malformed one is complete).\<close>

definition full_rune :: "string \<Rightarrow> bool" where
  "full_rune s = (case s of
      [] \<Rightarrow> False
    | c # _ \<Rightarrow>
        (case first_byte (code c) of
           None \<Rightarrow> True
         | Some (n, lo, hi) \<Rightarrow>
             if length s \<ge> n then True
             else if length s > 1 \<and> (code (s ! 1) < lo \<or> hi < code (s ! 1)) then True
             else if length s > 2 \<and> \<not> is_cont (code (s ! 2)) then True
             else False))"

definition bad_rune :: "string \<Rightarrow> bool" where
  "bad_rune s = (decode_rune s = (rune_error, 1))"

lemma first_byte_size: "first_byte b = Some (n, lo, hi) \<Longrightarrow> n = 1 \<or> n = 2 \<or> n = 3 \<or> n = 4"
  by (simp add: first_byte_def split: if_splits)

lemma decode_rune_size: "s \<noteq> [] \<Longrightarrow> 0 < snd (decode_rune s) \<and> snd (decode_rune s) \<le> length s"
proof (cases s)
  case (Cons c r)
  show ?thesis
  proof (cases "first_byte (code c)")
    case None
    with Cons show ?thesis by (simp add: decode_rune_def)
  next
    case (Some v)
    obtain n lo hi where v: "v = (n, lo, hi)" by (cases v)
    with Some have "n = 1 \<or> n = 2 \<or> n = 3 \<or> n = 4" by (auto dest: first_byte_size)
    then show ?thesis
      using Cons Some v by (elim disjE) (simp_all add: decode_rune_def Let_def Suc_le_eq)
  qed
qed simp

lemma decode_rune_ascii: "code c < 128 \<Longrightarrow> decode_rune (c # s) = (code c, 1)"
  by (simp add: decode_rune_def first_byte_def)

text \<open>The rune loop \<open>for _, r := range s\<close>.\<close>

function runes :: "string \<Rightarrow> nat list" where
  "runes s = (if s = [] then [] else fst (decode_rune s) # runes (drop (snd (decode_rune s)) s))"
  by pat_completeness auto
termination
  by (relation "measure length") (use decode_rune_size in auto)

declare runes.simps [simp del]

text \<open>utf8.Valid.\<close>

function valid_utf8 :: "string \<Rightarrow> bool" where
  "valid_utf8 s = (if s = [] then True
     else if bad_rune s then False else valid_utf8 (drop (snd (decode_rune s)) s))"
  by pat_completeness auto
termination
  by (relation "measure length") (use decode_rune_size in auto)

declare valid_utf8.simps [simp del]

text \<open>utf8.DecodeLastRune: it looks back at most four bytes for the start of a rune.\<close>

definition rune_start :: "char \<Rightarrow> bool" where
  "rune_start c = (\<not> (0x80 \<le> code c \<and> code c < 0xC0))"

definition decode_last_rune :: "string \<Rightarrow> nat \<times> nat" where
  "decode_last_rune s =
     (if s = [] then (rune_error, 0)
      else if code (last s) < 0x80 then (code (last s), 1)
      else let k = (case find (\<lambda>k. k \<le> length s \<and> rune_start (s ! (length s - k))) [2, 3, 4] of
                      Some k \<Rightarrow> k | None \<Rightarrow> min 4 (length s));
               start = (if rune_start (last s) then 1 else k);
               d = decode_rune (drop (length s - start) s)
           in if snd d \<noteq> start then (rune_error, 1) else d)"

lemma decode_last_rune_size:
  "s \<noteq> [] \<Longrightarrow> 0 < snd (decode_last_rune s) \<and> snd (decode_last_rune s) \<le> length s"
proof -
  assume s: "s \<noteq> []"
  have "0 < snd (decode_rune (drop k s)) \<and> snd (decode_rune (drop k s)) \<le> length s - k"
    if "k < length s" for k
    using decode_rune_size[of "drop k s"] that by simp
  from this[of "length s - start" for start] s show ?thesis
    by (cases "length s") (auto simp: decode_last_rune_def Let_def Suc_leI split: option.splits)
qed

section \<open>White space\<close>

definition is_space_rune :: "nat \<Rightarrow> bool" where
  "is_space_rune r =
     (r \<in> {9, 10, 11, 12, 13, 32, 0x85, 0xA0, 0x1680, 0x2028, 0x2029, 0x202F, 0x205F, 0x3000} \<or>
      (0x2000 \<le> r \<and> r \<le> 0x200A))"

function trim_space_left :: "string \<Rightarrow> string" where
  "trim_space_left s =
     (if s \<noteq> [] \<and> is_space_rune (fst (decode_rune s))
      then trim_space_left (drop (snd (decode_rune s)) s) else s)"
  by pat_completeness auto
termination
  by (relation "measure length") (use decode_rune_size in auto)

function trim_space_right :: "string \<Rightarrow> string" where
  "trim_space_right s =
     (if s \<noteq> [] \<and> is_space_rune (fst (decode_last_rune s))
      then trim_space_right (take (length s - snd (decode_last_rune s)) s) else s)"
  by pat_completeness auto
termination
  by (relation "measure length") (use decode_last_rune_size in fastforce)+

declare trim_space_left.simps [simp del] trim_space_right.simps [simp del]

text \<open>strings.TrimSpace.\<close>

definition trim_space :: "string \<Rightarrow> string" where
  "trim_space s = trim_space_right (trim_space_left s)"

text \<open>strings.Fields: the maximal runs of non-space runes.\<close>

function fields_loop :: "string \<Rightarrow> string \<Rightarrow> string list" where
  "fields_loop cur s =
     (if s = [] then (if cur = [] then [] else [cur])
      else let d = decode_rune s in
        if is_space_rune (fst d)
        then (if cur = [] then [] else [cur]) @ fields_loop [] (drop (snd d) s)
        else fields_loop (cur @ take (snd d) s) (drop (snd d) s))"
  by pat_completeness auto
termination
  by (relation "measure (\<lambda>(cur, s). length s)") (use decode_rune_size in auto)

declare fields_loop.simps [simp del]

definition fields :: "string \<Rightarrow> string list" where
  "fields s = fields_loop [] s"

lemma trim_space_left_suffix: "\<exists>t. s = t @ trim_space_left s"
proof (induction s rule: trim_space_left.induct)
  case (1 s)
  show ?case
  proof (cases "s \<noteq> [] \<and> is_space_rune (fst (decode_rune s))")
    case True
    with 1 obtain t where "drop (snd (decode_rune s)) s = t @ trim_space_left (drop (snd (decode_rune s)) s)"
      by blast
    then have "s = (take (snd (decode_rune s)) s @ t) @ trim_space_left s"
      using True trim_space_left.simps[of s] append_take_drop_id[of "snd (decode_rune s)" s]
      by (metis append_assoc)
    then show ?thesis by blast
  next
    case False
    then show ?thesis by (subst trim_space_left.simps) auto
  qed
qed

lemma trim_space_right_prefix: "\<exists>t. s = trim_space_right s @ t"
proof (induction s rule: trim_space_right.induct)
  case (1 s)
  show ?case
  proof (cases "s \<noteq> [] \<and> is_space_rune (fst (decode_last_rune s))")
    case True
    let ?k = "length s - snd (decode_last_rune s)"
    from 1 True obtain t where "take ?k s = trim_space_right (take ?k s) @ t" by blast
    then have "s = trim_space_right s @ t @ drop ?k s"
      using True trim_space_right.simps[of s] append_take_drop_id[of ?k s]
      by (metis append_assoc)
    then show ?thesis by blast
  next
    case False
    then show ?thesis by (subst trim_space_right.simps) auto
  qed
qed

lemma trim_space_infix: "\<exists>a b. s = a @ trim_space s @ b"
  unfolding trim_space_def using trim_space_left_suffix trim_space_right_prefix by metis

lemma set_trim_space: "set (trim_space s) \<subseteq> set s"
proof -
  obtain a b where "s = a @ trim_space s @ b" using trim_space_infix by blast
  then show ?thesis by (metis Un_upper1 Un_upper2 le_supI2 set_append subset_trans)
qed

lemma length_trim_space: "length (trim_space s) \<le> length s"
proof -
  obtain a b where "s = a @ trim_space s @ b" using trim_space_infix by blast
  then show ?thesis by (metis length_append le_add1 le_add2 le_trans)
qed

text \<open>On text without white space at its ends nothing is trimmed.\<close>

lemma trim_space_id:
  assumes "s \<noteq> []" "33 \<le> code (hd s)" "code (hd s) < 127" "33 \<le> code (last s)" "code (last s) < 127"
  shows "trim_space s = s"
proof -
  have sp: "\<not> is_space_rune r" if "33 \<le> r" "r < 127" for r
    using that by (auto simp: is_space_rune_def)
  have l: "decode_rune s = (code (hd s), 1)"
    using assms decode_rune_ascii[of "hd s" "tl s"] by simp
  have r: "decode_last_rune s = (code (last s), 1)"
    using assms by (simp add: decode_last_rune_def)
  have "trim_space_left s = s"
    using l sp[OF assms(2,3)] by (subst trim_space_left.simps) simp
  moreover have "trim_space_right s = s"
    using r sp[OF assms(4,5)] by (subst trim_space_right.simps) simp
  ultimately show ?thesis by (simp add: trim_space_def)
qed

end
