(* ===== verification/Tunnel_Host.thy ===== *)
theory Tunnel_Host
  imports Go_Utf8 Request_Host
begin

text \<open>
  The check of broker.go that holds an opaque tunnel to the approved host: the first message of
  the tunnel is read - a TLS ClientHello or an HTTP request head - the host it names is compared
  with the approved one, and the bytes read are replayed to the upstream. A stream is the byte
  list the client sends before it closes or times out.
\<close>

section \<open>Ports and host:port texts\<close>

datatype tunnel_error =
    ClosedBeforeHost | ImplausibleRecord | TruncatedHello | NotClientHello | NoServerName
  | NoHostHeader | BadPort | BadHostPort | OutsideWebPolicy | NotAHost | HostMismatch string string

text \<open>splitHostPortDefault.\<close>

definition split_host_port_default :: "string \<Rightarrow> int \<Rightarrow> tunnel_error + (string \<times> int)" where
  "split_host_port_default v fallback =
     (let finish = (\<lambda>host port.
            if host = [] \<or> length host > max_hostname_bytes \<or> (port \<noteq> 80 \<and> port \<noteq> 443)
            then Inl OutsideWebPolicy
            else Inr (trim_both (set ''[]'') host, port))
      in case split_host_port v of
           Some (h, p) \<Rightarrow> (case atoi p of None \<Rightarrow> Inl BadPort | Some n \<Rightarrow> finish h n)
         | None \<Rightarrow> if CHR '':'' \<in> set v \<and> parse_ip v = None then Inl BadHostPort
                   else finish v fallback)"

lemma split_host_port_default_port:
  "split_host_port_default v f = Inr (h, p) \<Longrightarrow> p = 80 \<or> p = 443"
  by (auto simp: split_host_port_default_def Let_def split: option.splits if_splits)

section \<open>The byte cursor\<close>

record byte_cursor =
  cdata :: bytes
  cfail :: bool

text \<open>byteCursor.take: None is the nil slice of a cursor that ran off the end; it stays failed.\<close>

definition take_c :: "int \<Rightarrow> byte_cursor \<Rightarrow> bytes option \<times> byte_cursor" where
  "take_c n c =
     (if cfail c \<or> n < 0 \<or> n > int (length (cdata c)) then (None, c\<lparr>cfail := True\<rparr>)
      else (Some (take (nat n) (cdata c)), c\<lparr>cdata := drop (nat n) (cdata c)\<rparr>))"

definition u8_c :: "byte_cursor \<Rightarrow> int \<times> byte_cursor" where
  "u8_c c = (case take_c 1 c of
      (None, c') \<Rightarrow> (0, c') | (Some v, c') \<Rightarrow> (uint (v ! 0), c'))"

definition u16_c :: "byte_cursor \<Rightarrow> int \<times> byte_cursor" where
  "u16_c c = (case take_c 2 c of
      (None, c') \<Rightarrow> (0, c') | (Some v, c') \<Rightarrow> (uint (v ! 0) * 256 + uint (v ! 1), c'))"

lemma take_c_le: "length (cdata (snd (take_c n c))) \<le> length (cdata c)"
  by (simp add: take_c_def)

lemma u8_c_le: "length (cdata (snd (u8_c c))) \<le> length (cdata c)"
  using take_c_le[of 1 c] by (cases "take_c 1 c") (auto simp: u8_c_def split: option.splits)

lemma u16_c_le: "length (cdata (snd (u16_c c))) \<le> length (cdata c)"
  using take_c_le[of 2 c] by (cases "take_c 2 c") (auto simp: u16_c_def split: option.splits)

lemma take_c_ok: "\<not> cfail (snd (take_c n c)) \<Longrightarrow>
  \<not> cfail c \<and> 0 \<le> n \<and> n \<le> int (length (cdata c)) \<and>
  take_c n c = (Some (take (nat n) (cdata c)), c\<lparr>cdata := drop (nat n) (cdata c)\<rparr>)"
  by (auto simp: take_c_def split: if_splits)

lemma u8_c_ok: "\<not> cfail (snd (u8_c c)) \<Longrightarrow> \<not> cfail c \<and> length (cdata (snd (u8_c c))) < length (cdata c)"
  using take_c_ok[of 1 c] by (auto simp: u8_c_def split: prod.splits option.splits)

lemma u16_c_ok: "\<not> cfail (snd (u16_c c)) \<Longrightarrow> \<not> cfail c \<and> length (cdata (snd (u16_c c))) < length (cdata c)"
  using take_c_ok[of 2 c] by (auto simp: u16_c_def split: prod.splits option.splits)

section \<open>The server name of a ClientHello\<close>

text \<open>
  The loop over the entries of one server_name extension: None when no entry is a host name, so
  that the search continues with the next extension.
\<close>

function name_loop :: "byte_cursor \<Rightarrow> (tunnel_error + bytes) option" where
  "name_loop n =
     (if cdata n = [] then None
      else let (ty, n1) = u8_c n; (len, n2) = u16_c n1; (v, n3) = take_c len n2 in
        if cfail n3 then Some (Inl TruncatedHello)
        else if ty = 0 then Some (Inr (case v of Some b \<Rightarrow> b | None \<Rightarrow> []))
        else name_loop n3)"
  by pat_completeness auto
termination
proof (relation "measure (\<lambda>n. length (cdata n))", goal_cases)
  case (2 n a ty n1 b len n2 d v n3)
  then have "\<not> cfail (snd (take_c len n2))" by (metis snd_conv)
  then have "\<not> cfail (snd (u16_c n1))" using take_c_ok 2 by (metis snd_conv)
  then have "length (cdata n2) < length (cdata n1)" using u16_c_ok 2 by (metis snd_conv)
  moreover have "length (cdata n3) \<le> length (cdata n2)" using take_c_le 2 by (metis snd_conv)
  moreover have "length (cdata n1) \<le> length (cdata n)" using u8_c_le 2 by (metis snd_conv)
  ultimately show ?case by simp
qed simp

declare name_loop.simps [simp del]

function ext_loop :: "byte_cursor \<Rightarrow> tunnel_error + bytes" where
  "ext_loop c =
     (if cdata c = [] then Inl NoServerName
      else let (kind, c1) = u16_c c; (len, c2) = u16_c c1; (payload, c3) = take_c len c2 in
        if cfail c3 then Inl TruncatedHello
        else if kind \<noteq> 0 then ext_loop c3
        else (case name_loop (snd (take_c 2 \<lparr>cdata = (case payload of Some b \<Rightarrow> b | None \<Rightarrow> []), cfail = False\<rparr>)) of
                Some r \<Rightarrow> r
              | None \<Rightarrow> ext_loop c3))"
  by pat_completeness auto
termination
proof (relation "measure (\<lambda>n. length (cdata n))", goal_cases)
  case (2 c a kind c1 b len c2 d payload c3)
  then have "\<not> cfail (snd (take_c len c2))" by (metis snd_conv)
  then have "\<not> cfail (snd (u16_c c1))" using take_c_ok 2 by (metis snd_conv)
  then have "length (cdata c2) < length (cdata c1)" using u16_c_ok 2 by (metis snd_conv)
  moreover have "length (cdata c3) \<le> length (cdata c2)" using take_c_le 2 by (metis snd_conv)
  moreover have "length (cdata c1) \<le> length (cdata c)" using u16_c_le 2 by (metis snd_conv)
  ultimately show ?case by simp
next
  case (3 c a kind c1 b len c2 d payload c3)
  then have "\<not> cfail (snd (take_c len c2))" by (metis snd_conv)
  then have "\<not> cfail (snd (u16_c c1))" using take_c_ok 3 by (metis snd_conv)
  then have "length (cdata c2) < length (cdata c1)" using u16_c_ok 3 by (metis snd_conv)
  moreover have "length (cdata c3) \<le> length (cdata c2)" using take_c_le 3 by (metis snd_conv)
  moreover have "length (cdata c1) \<le> length (cdata c)" using u16_c_le 3 by (metis snd_conv)
  ultimately show ?case by simp
qed simp

declare ext_loop.simps [simp del]

definition bytes_text :: "bytes \<Rightarrow> string" where
  "bytes_text b = map (\<lambda>x. char_of (unat x)) b"

definition text_bytes :: "string \<Rightarrow> bytes" where
  "text_bytes s = map (\<lambda>c. of_nat (of_char c)) s"

definition client_hello_server_name :: "bytes \<Rightarrow> tunnel_error + string" where
  "client_hello_server_name body =
     (let (handshake, c0) = take_c 4 \<lparr>cdata = body, cfail = False\<rparr> in
      if handshake = None \<or> the handshake ! 0 \<noteq> 1 then Inl NotClientHello
      else let c1 = snd (take_c 2 c0);
               c2 = snd (take_c 32 c1);
               (sid, c3) = u8_c c2; c4 = snd (take_c sid c3);
               (suites, c5) = u16_c c4; c6 = snd (take_c suites c5);
               (comps, c7) = u8_c c6; c8 = snd (take_c comps c7);
               (elen, c9) = u16_c c8; (exts, c10) = take_c elen c9
           in if cfail c10 then Inl TruncatedHello
              else map_sum id bytes_text
                (ext_loop \<lparr>cdata = (case exts of Some b \<Rightarrow> b | None \<Rightarrow> []), cfail = False\<rparr>))"

section \<open>The Host header of an HTTP request head\<close>

definition proxy_read_buffer_bytes :: nat where "proxy_read_buffer_bytes = 4096"

text \<open>bufio's ReadString up to a line feed: None at the end of the input.\<close>

definition read_line :: "string \<Rightarrow> (string \<times> string) option" where
  "read_line s = (case str_index s [CHR 0x0A] of
      None \<Rightarrow> None | Some i \<Rightarrow> Some (take (Suc i) s, drop (Suc i) s))"

lemma read_line_length: "read_line s = Some (l, r) \<Longrightarrow> length r < length s"
proof -
  assume a: "read_line s = Some (l, r)"
  then obtain i where i: "str_index s [CHR 0x0A] = Some i" "r = drop (Suc i) s"
    by (auto simp: read_line_def split: option.splits)
  from str_index_Some[OF i(1)] have "s \<noteq> []" by auto
  with i show ?thesis by simp
qed

function header_loop :: "(string \<Rightarrow> string \<Rightarrow> bool) \<Rightarrow> string \<Rightarrow> tunnel_error + string" where
  "header_loop uf s = (case read_line s of
      None \<Rightarrow> Inl NoHostHeader
    | Some (line, rest) \<Rightarrow>
        let trimmed = trim_right {CHR 0x0D, CHR 0x0A} line in
        if trimmed = [] then Inl NoHostHeader
        else (case cut trimmed '':'' of (name, v, found) \<Rightarrow>
          if \<not> found \<or> \<not> equal_fold uf (trim_space name) ''host'' then header_loop uf rest
          else map_sum id fst (split_host_port_default (trim_space v) 80)))"
  by pat_completeness auto
termination
  by (relation "measure (\<lambda>(uf, s). length s)") (auto dest: read_line_length)

declare header_loop.simps [simp del]

definition http_request_host :: "(string \<Rightarrow> string \<Rightarrow> bool) \<Rightarrow> string \<Rightarrow> tunnel_error + string" where
  "http_request_host uf s =
     (case read_line (take (2 * proxy_read_buffer_bytes) s) of
        None \<Rightarrow> Inl ClosedBeforeHost
      | Some (_, rest) \<Rightarrow> header_loop uf rest)"

section \<open>The tunnel check\<close>

definition tunnel_host_limit :: nat where "tunnel_host_limit = 16 * 1024 + 5"

definition tunnel_requested_host :: "(string \<Rightarrow> string \<Rightarrow> bool) \<Rightarrow> bytes \<Rightarrow> tunnel_error + string" where
  "tunnel_requested_host uf s =
     (if length s < 5 then Inl ClosedBeforeHost
      else if s ! 0 \<noteq> 0x16 then http_request_host uf (bytes_text s)
      else let len = uint (s ! 3) * 256 + uint (s ! 4) in
        if len < 4 \<or> len > 16 * 1024 then Inl ImplausibleRecord
        else if int (length s) < 5 + len then Inl TruncatedHello
        else client_hello_server_name (take (nat len) (drop 5 s)))"

text \<open>
  How many bytes the reader behind the tee has consumed when the host is known: the record for
  TLS; for HTTP the buffered reader's fills, at least to the end of the last line read, which is
  an argument.
\<close>

definition check_tunnel_host ::
  "(string \<Rightarrow> string \<Rightarrow> bool) \<Rightarrow> (bytes \<Rightarrow> nat) \<Rightarrow> string \<Rightarrow> bytes \<Rightarrow> tunnel_error + (bytes \<times> bytes)" where
  "check_tunnel_host uf consumed host client =
     (if parse_ip (trim_both (set ''[]'') host) \<noteq> None then Inr ([], client)
      else let limited = take tunnel_host_limit client;
               seen = take (consumed limited) limited in
        (case tunnel_requested_host uf limited of
           Inl e \<Rightarrow> Inl e
         | Inr requested \<Rightarrow>
             if \<not> valid_request_host requested then Inl NotAHost
             else if \<not> equal_fold uf (trim_suffix requested ''.'') (trim_suffix host ''.'')
             then Inl (HostMismatch host requested)
             else Inr (seen, drop (length seen) client)))"

end
