(* ===== verification/Json.thy ===== *)
theory Json
  imports Go_Utf8
begin

text \<open>
  internal/safe: DecodeJSON and CanonicalJSON, the only JSON reader and writer of the trust
  boundaries, with the part of encoding/json they rest on: the grammar of the scanner, the string
  escapes, the strict decoding of a document into the fields of a struct (unknown fields and
  trailing values are errors, names match up to case, null leaves a field alone, the last
  duplicate wins), and the compact printing. A document is a byte string.
\<close>

section \<open>Strings\<close>

text \<open>utf8.EncodeRune, and its inverse on the sequences the decoder accepts.\<close>

definition encode_rune :: "nat \<Rightarrow> string" where
  "encode_rune r =
     (let r = (if r > 0x10FFFF \<or> (0xD800 \<le> r \<and> r < 0xE000) then rune_error else r) in
      if r < 0x80 then [char_of r]
      else if r < 0x800 then [char_of (0xC0 + r div 64), char_of (0x80 + r mod 64)]
      else if r < 0x10000 then
        [char_of (0xE0 + r div 4096), char_of (0x80 + r div 64 mod 64), char_of (0x80 + r mod 64)]
      else [char_of (0xF0 + r div 262144), char_of (0x80 + r div 4096 mod 64),
            char_of (0x80 + r div 64 mod 64), char_of (0x80 + r mod 64)])"

definition hex_digit :: "nat \<Rightarrow> char" where
  "hex_digit n = ''0123456789abcdef'' ! n"

definition hex4 :: "string \<Rightarrow> (nat \<times> string) option" where
  "hex4 s = (if length s < 4 then None
     else map_option (\<lambda>n. (n, drop 4 s)) (digits_val 16 0 (take 4 s)))"

definition simple_escape :: "char \<Rightarrow> char option" where
  "simple_escape c =
     (if c = CHR 0x22 \<or> c = CHR 0x5C \<or> c = CHR ''/'' then Some c
      else if c = CHR ''b'' then Some CHR 0x08 else if c = CHR ''f'' then Some CHR 0x0C
      else if c = CHR ''n'' then Some CHR 0x0A else if c = CHR ''r'' then Some CHR 0x0D
      else if c = CHR ''t'' then Some CHR 0x09 else None)"

text \<open>
  The rune of an escape \<open>\u\<close>, whose digits follow: a surrogate pair is one rune, a lone surrogate
  the replacement character.
\<close>

definition u_escape :: "string \<Rightarrow> (string \<times> string) option" where
  "u_escape s = (case hex4 s of
      None \<Rightarrow> None
    | Some (u, t) \<Rightarrow>
        if 0xD800 \<le> u \<and> u < 0xDC00 then
          (case (if has_prefix t [CHR 0x5C, CHR ''u''] then hex4 (drop 2 t) else None) of
             Some (v, t') \<Rightarrow>
               if 0xDC00 \<le> v \<and> v < 0xE000
               then Some (encode_rune (0x10000 + (u - 0xD800) * 1024 + (v - 0xDC00)), t')
               else Some (encode_rune rune_error, t)
           | None \<Rightarrow> Some (encode_rune rune_error, t))
        else Some (encode_rune u, t))"

lemma hex4_length: "hex4 s = Some (u, t) \<Longrightarrow> length t < length s"
  by (auto simp: hex4_def split: if_splits)

lemma u_escape_length: "u_escape s = Some (x, t) \<Longrightarrow> length t < length s"
  by (fastforce simp: u_escape_def dest: hex4_length split: option.splits if_splits prod.splits)

text \<open>The text of a string literal after its opening quote, unescaped, and what follows it.\<close>

function scan_str :: "string \<Rightarrow> (string \<times> string) option" where
  "scan_str s = (case s of
      [] \<Rightarrow> None
    | c # r \<Rightarrow>
        if c = CHR 0x22 then Some ([], r)
        else if c = CHR 0x5C then
          (case r of
             [] \<Rightarrow> None
           | e # t \<Rightarrow>
               if e = CHR ''u'' then
                 (case u_escape t of
                    None \<Rightarrow> None
                  | Some (x, t') \<Rightarrow> map_option (\<lambda>(v, q). (x @ v, q)) (scan_str t'))
               else (case simple_escape e of
                   None \<Rightarrow> None
                 | Some x \<Rightarrow> map_option (\<lambda>(v, q). (x # v, q)) (scan_str t)))
        else if code c < 0x20 then None
        else let d = decode_rune s in
          map_option (\<lambda>(v, q). ((if d = (rune_error, 1) then encode_rune rune_error else take (snd d) s) @ v, q))
            (scan_str (drop (snd d) s)))"
  by pat_completeness auto
termination
  by (relation "measure length") (use decode_rune_size in \<open>auto dest: u_escape_length\<close>)

declare scan_str.simps [simp del]

text \<open>The writer's escapes: HTML-safe output, malformed bytes replaced.\<close>

definition html_safe :: "char \<Rightarrow> bool" where
  "html_safe c = (0x20 \<le> code c \<and> code c < 0x80 \<and> c \<notin> {CHR 0x22, CHR 0x5C, CHR ''<'', CHR ''>'', CHR ''&''})"

definition escape_byte :: "char \<Rightarrow> string" where
  "escape_byte c =
     (if c = CHR 0x22 \<or> c = CHR 0x5C then [CHR 0x5C, c]
      else if c = CHR 0x08 then [CHR 0x5C, CHR ''b''] else if c = CHR 0x0C then [CHR 0x5C, CHR ''f'']
      else if c = CHR 0x0A then [CHR 0x5C, CHR ''n''] else if c = CHR 0x0D then [CHR 0x5C, CHR ''r'']
      else if c = CHR 0x09 then [CHR 0x5C, CHR ''t'']
      else [CHR 0x5C, CHR ''u'', CHR ''0'', CHR ''0'', hex_digit (code c div 16), hex_digit (code c mod 16)])"

function marshal_chars :: "string \<Rightarrow> string" where
  "marshal_chars s = (case s of
      [] \<Rightarrow> []
    | c # r \<Rightarrow>
        if code c < 0x80 then (if html_safe c then [c] else escape_byte c) @ marshal_chars r
        else let d = decode_rune s in
          (if d = (rune_error, 1) then [CHR 0x5C] @ ''ufffd''
           else if fst d = 0x2028 \<or> fst d = 0x2029 then [CHR 0x5C] @ ''u202'' @ [hex_digit (fst d mod 16)]
           else take (snd d) s) @ marshal_chars (drop (snd d) s))"
  by pat_completeness auto
termination
  by (relation "measure length") (use decode_rune_size in auto)

declare marshal_chars.simps [simp del]

definition marshal_string :: "string \<Rightarrow> string" where
  "marshal_string s = [CHR 0x22] @ marshal_chars s @ [CHR 0x22]"

section \<open>Numbers\<close>

definition is_digit :: "char \<Rightarrow> bool" where
  "is_digit c = (48 \<le> code c \<and> code c \<le> 57)"

definition scan_digits :: "string \<Rightarrow> (string \<times> string) option" where
  "scan_digits s = (if takeWhile is_digit s = [] then None else Some (takeWhile is_digit s, dropWhile is_digit s))"

definition scan_frac :: "string \<Rightarrow> (string \<times> string) option" where
  "scan_frac s = (if has_prefix s ''.'' then map_option (\<lambda>(d, r). (CHR ''.'' # d, r)) (scan_digits (tl s))
     else Some ([], s))"

definition scan_exp :: "string \<Rightarrow> (string \<times> string) option" where
  "scan_exp s =
     (if has_prefix s ''e'' \<or> has_prefix s ''E'' then
        let sign = takeWhile (\<lambda>c. c = CHR ''+'' \<or> c = CHR ''-'') (take 1 (tl s))
        in map_option (\<lambda>(d, r). (hd s # sign @ d, r)) (scan_digits (drop (length sign) (tl s)))
      else Some ([], s))"

definition scan_number :: "string \<Rightarrow> (string \<times> string) option" where
  "scan_number s =
     (let (sign, t) = (if has_prefix s ''-'' then (''-'', tl s) else ([], s));
          int_part = (if has_prefix t ''0'' then Some (''0'', tl t) else scan_digits t)
      in Option.bind int_part (\<lambda>(i, r1). Option.bind (scan_frac r1) (\<lambda>(f, r2).
           map_option (\<lambda>(e, r3). (sign @ i @ f @ e, r3)) (scan_exp r2))))"

section \<open>Documents\<close>

datatype json =
    JNull | JBool bool | JNum string | JStr string | JArr "json list" | JObj "(string \<times> json) list"

definition skip_ws :: "string \<Rightarrow> string" where
  "skip_ws s = dropWhile (\<lambda>c. c = CHR '' '' \<or> c = CHR 0x09 \<or> c = CHR 0x0A \<or> c = CHR 0x0D) s"

definition expect :: "char \<Rightarrow> string \<Rightarrow> string option" where
  "expect c s = (case skip_ws s of [] \<Rightarrow> None | x # r \<Rightarrow> if x = c then Some r else None)"

definition max_nesting :: int where "max_nesting = 10000"

definition scan_scalar :: "string \<Rightarrow> (json \<times> string) option" where
  "scan_scalar s =
     (if has_prefix s [CHR 0x22] then map_option (\<lambda>(v, r). (JStr v, r)) (scan_str (tl s))
      else if has_prefix s ''true'' then Some (JBool True, drop 4 s)
      else if has_prefix s ''false'' then Some (JBool False, drop 5 s)
      else if has_prefix s ''null'' then Some (JNull, drop 4 s)
      else map_option (\<lambda>(v, r). (JNum v, r)) (scan_number s))"

text \<open>The value parser, with the number of calls still allowed and the nesting depth.\<close>

fun p_value :: "nat \<Rightarrow> int \<Rightarrow> string \<Rightarrow> (json \<times> string) option"
  and p_elems :: "nat \<Rightarrow> int \<Rightarrow> string \<Rightarrow> (json list \<times> string) option"
  and p_members :: "nat \<Rightarrow> int \<Rightarrow> string \<Rightarrow> ((string \<times> json) list \<times> string) option" where
  "p_value 0 d s = None"
| "p_value (Suc n) d s = (case expect CHR 0x7B s of
      Some r \<Rightarrow> if d \<ge> max_nesting then None else (case expect CHR 0x7D r of
          Some r' \<Rightarrow> Some (JObj [], r')
        | None \<Rightarrow> map_option (\<lambda>(ms, q). (JObj ms, q)) (p_members n (d + 1) r))
    | None \<Rightarrow> (case expect CHR ''['' s of
          Some r \<Rightarrow> if d \<ge> max_nesting then None else (case expect CHR '']'' r of
              Some r' \<Rightarrow> Some (JArr [], r')
            | None \<Rightarrow> map_option (\<lambda>(es, q). (JArr es, q)) (p_elems n (d + 1) r))
        | None \<Rightarrow> scan_scalar (skip_ws s)))"
| "p_elems 0 d s = None"
| "p_elems (Suc n) d s = (case p_value n d s of
      None \<Rightarrow> None
    | Some (v, r) \<Rightarrow> (case expect CHR '','' r of
          Some r' \<Rightarrow> map_option (\<lambda>(es, q). (v # es, q)) (p_elems n d r')
        | None \<Rightarrow> map_option (\<lambda>q. ([v], q)) (expect CHR '']'' r)))"
| "p_members 0 d s = None"
| "p_members (Suc n) d s = (case Option.bind (expect CHR 0x22 s) scan_str of
      None \<Rightarrow> None
    | Some (k, r) \<Rightarrow> (case Option.bind (expect CHR '':'' r) (p_value n d) of
          None \<Rightarrow> None
        | Some (v, r') \<Rightarrow> (case expect CHR '','' r' of
              Some r'' \<Rightarrow> map_option (\<lambda>(ms, q). ((k, v) # ms, q)) (p_members n d r'')
            | None \<Rightarrow> map_option (\<lambda>q. ([(k, v)], q)) (expect CHR 0x7D r'))))"

definition parse_json :: "string \<Rightarrow> json option" where
  "parse_json s = (case p_value (2 * length s + 2) 0 s of
      Some (v, r) \<Rightarrow> if skip_ws r = [] then Some v else None
    | None \<Rightarrow> None)"

section \<open>Strict decoding into a struct\<close>

text \<open>
  A struct is its list of field names. A member is assigned to the field of its name, exactly
  or up to case; a member without one is an error. A top-level null leaves the struct alone.
\<close>

definition field_of :: "(string \<Rightarrow> string \<Rightarrow> bool) \<Rightarrow> string list \<Rightarrow> string \<Rightarrow> string option" where
  "field_of uf names k = (if k \<in> set names then Some k else find (\<lambda>n. equal_fold uf k n) names)"

definition decode_struct ::
  "(string \<Rightarrow> string \<Rightarrow> bool) \<Rightarrow> string list \<Rightarrow> string \<Rightarrow> (string \<times> json) list option" where
  "decode_struct uf names data = (case parse_json data of
      Some (JObj ms) \<Rightarrow>
        if list_all (\<lambda>m. field_of uf names (fst m) \<noteq> None) ms
        then Some (map (\<lambda>(k, v). (the (field_of uf names k), v)) ms) else None
    | Some JNull \<Rightarrow> Some []
    | _ \<Rightarrow> None)"

definition assign :: "(json \<Rightarrow> 'a option) \<Rightarrow> string \<Rightarrow> 'a \<Rightarrow> (string \<times> json) list \<Rightarrow> 'a option" where
  "assign conv name zero ms = foldl (\<lambda>acc (k, v). if k \<noteq> name then acc else
     (case (acc, v) of (None, _) \<Rightarrow> None | (Some a, JNull) \<Rightarrow> Some a | (Some _, _) \<Rightarrow> conv v)) (Some zero) ms"

definition int_of_json :: "json \<Rightarrow> int option" where
  "int_of_json j = (case j of JNum s \<Rightarrow> parse_int 10 64 s | _ \<Rightarrow> None)"

definition bool_of_json :: "json \<Rightarrow> bool option" where
  "bool_of_json j = (case j of JBool b \<Rightarrow> Some b | _ \<Rightarrow> None)"

definition string_of_json :: "json \<Rightarrow> string option" where
  "string_of_json j = (case j of JStr s \<Rightarrow> Some s | _ \<Rightarrow> None)"

section \<open>Printing\<close>

fun show_json :: "json \<Rightarrow> string"
  and show_elems :: "json list \<Rightarrow> string"
  and show_members :: "(string \<times> json) list \<Rightarrow> string" where
  "show_json JNull = ''null''"
| "show_json (JBool b) = (if b then ''true'' else ''false'')"
| "show_json (JNum s) = s"
| "show_json (JStr s) = marshal_string s"
| "show_json (JArr es) = ''['' @ show_elems es @ '']''"
| "show_json (JObj ms) = [CHR 0x7B] @ show_members ms @ [CHR 0x7D]"
| "show_elems [] = []"
| "show_elems (e # es) = show_json e @ (if es = [] then [] else '','' @ show_elems es)"
| "show_members [] = []"
| "show_members ((k, v) # ms) =
     marshal_string k @ '':'' @ show_json v @ (if ms = [] then [] else '','' @ show_members ms)"

section \<open>The parser has enough calls\<close>

lemma skip_ws_length: "length (skip_ws s) \<le> length s"
  by (simp add: skip_ws_def length_dropWhile_le)

lemma expect_length: "expect c s = Some r \<Longrightarrow> length r < length s"
  using skip_ws_length[of s] by (auto simp: expect_def split: list.splits if_splits)

lemma scan_str_eqs:
  "scan_str [] = None"
  "scan_str (CHR 0x22 # r) = Some ([], r)"
  "scan_str [CHR 0x5C] = None"
  "scan_str (CHR 0x5C # CHR ''u'' # t) = (case u_escape t of
      None \<Rightarrow> None | Some (x, t') \<Rightarrow> map_option (\<lambda>(v, q). (x @ v, q)) (scan_str t'))"
  "e \<noteq> CHR ''u'' \<Longrightarrow> scan_str (CHR 0x5C # e # t) = (case simple_escape e of
      None \<Rightarrow> None | Some x \<Rightarrow> map_option (\<lambda>(v, q). (x # v, q)) (scan_str t))"
  by (subst scan_str.simps; simp)+

lemma scan_str_rune:
  "c \<noteq> CHR 0x22 \<Longrightarrow> c \<noteq> CHR 0x5C \<Longrightarrow> scan_str (c # r) =
     (if code c < 0x20 then None
      else map_option (\<lambda>(v, q). ((if decode_rune (c # r) = (rune_error, 1) then encode_rune rune_error
             else take (snd (decode_rune (c # r))) (c # r)) @ v, q))
        (scan_str (drop (snd (decode_rune (c # r))) (c # r))))"
  by (subst scan_str.simps) (simp add: Let_def del: take_Cons' drop_Cons')

lemma scan_str_length: "scan_str s = Some (v, r) \<Longrightarrow> length r < length s"
proof (induction s arbitrary: v r rule: length_induct)
  case (1 s)
  have IH: "length q < length t" if "length t < length s" "scan_str t = Some (w, q)" for t w q
    using 1 that by blast
  show ?case
  proof (cases s)
    case Nil
    with 1 show ?thesis by (simp add: scan_str_eqs)
  next
    case (Cons c u)
    consider (quote) "c = CHR 0x22" | (esc) "c = CHR 0x5C" | (rune) "c \<noteq> CHR 0x22" "c \<noteq> CHR 0x5C" by blast
    then show ?thesis
    proof cases
      case quote
      with 1 Cons show ?thesis by (simp add: scan_str_eqs)
    next
      case esc
      show ?thesis
      proof (cases u)
        case Nil
        with "1.prems" Cons esc show ?thesis by (simp add: scan_str_eqs)
      next
        case u: (Cons e t)
        show ?thesis
        proof (cases "e = CHR ''u''")
          case True
          with "1.prems" Cons esc u obtain x t' w where "u_escape t = Some (x, t')" "scan_str t' = Some (w, r)"
            by (auto simp: scan_str_eqs split: option.splits)
          with IH[of t' w r] u_escape_length[of t x t'] Cons u show ?thesis by simp
        next
          case False
          with "1.prems" Cons esc u obtain w where "scan_str t = Some (w, r)"
            by (auto simp: scan_str_eqs split: option.splits)
          with IH[of t w r] Cons u show ?thesis by simp
        qed
      qed
    next
      case rune
      with "1.prems" Cons obtain w where "scan_str (drop (snd (decode_rune s)) s) = Some (w, r)"
        by (auto simp: scan_str_rune split: if_splits)
      moreover have "length (drop (snd (decode_rune s)) s) < length s"
        using decode_rune_size[of s] Cons by simp
      ultimately show ?thesis using IH[of "drop (snd (decode_rune s)) s" w r] by linarith
    qed
  qed
qed

lemma scan_digits_length: "scan_digits s = Some (d, r) \<Longrightarrow> length r < length s"
proof -
  assume "scan_digits s = Some (d, r)"
  then have "takeWhile is_digit s \<noteq> []" "r = dropWhile is_digit s" by (auto simp: scan_digits_def split: if_splits)
  then show ?thesis
    using takeWhile_dropWhile_id[of is_digit s] by (metis length_append length_greater_0_conv less_add_same_cancel2)
qed

lemma scan_frac_length: "scan_frac s = Some (d, r) \<Longrightarrow> length r \<le> length s"
  by (auto simp: scan_frac_def dest!: scan_digits_length split: if_splits)

lemma scan_exp_length: "scan_exp s = Some (d, r) \<Longrightarrow> length r \<le> length s"
  by (auto simp: scan_exp_def Let_def dest!: scan_digits_length split: if_splits)

lemma scan_number_length: "scan_number s = Some (v, r) \<Longrightarrow> length r < length s"
proof -
  assume a: "scan_number s = Some (v, r)"
  define t where "t = (if has_prefix s ''-'' then tl s else s)"
  from a obtain i r1 f r2 e where
    i: "(if has_prefix t ''0'' then Some (''0'', tl t) else scan_digits t) = Some (i, r1)"
    and f: "scan_frac r1 = Some (f, r2)" and e: "scan_exp r2 = Some (e, r)"
    by (auto simp: scan_number_def Let_def t_def bind_eq_Some_conv split: if_splits)
  from i have "length r1 < length t"
    by (cases t) (auto dest: scan_digits_length split: if_splits)
  moreover have "length t \<le> length s" by (simp add: t_def)
  ultimately show ?thesis using scan_frac_length[OF f] scan_exp_length[OF e] by linarith
qed

lemma scan_scalar_length: "scan_scalar s = Some (v, r) \<Longrightarrow> length r < length s"
proof -
  assume a: "scan_scalar s = Some (v, r)"
  have "has_prefix s w \<Longrightarrow> length w \<le> length s" for w by (auto simp: has_prefix_iff)
  note len = this[of "[CHR 0x22]"] this[of "''true''"] this[of "''false''"] this[of "''null''"]
  from a len show ?thesis
    by (auto simp: scan_scalar_def dest!: scan_str_length scan_number_length split: if_splits)
qed

text \<open>Parsing consumes input.\<close>

lemma p_length:
  "p_value n d s = Some (v, r) \<Longrightarrow> length r < length s"
  "p_elems n d s = Some (es, r) \<Longrightarrow> length r < length s"
  "p_members n d s = Some (ms, r) \<Longrightarrow> length r < length s"
proof (induction n d s and n d s and n d s arbitrary: v r and es r and ms r
    rule: p_value_p_elems_p_members.induct)
  case (2 n d s)
  from "2.prems" 2 show ?case
    by (fastforce split: option.splits if_splits dest: expect_length scan_scalar_length
        simp: order.strict_trans2[OF _ skip_ws_length])
next
  case (4 n d s)
  from "4.prems" 4 show ?case
    by (fastforce split: option.splits if_splits dest: expect_length)
next
  case (6 n d s)
  from "6.prems" 6 show ?case
    by (fastforce split: option.splits if_splits simp: bind_eq_Some_conv dest: expect_length scan_str_length)
qed simp_all

text \<open>
  The call budget of \<open>parse_json\<close> never decides: more calls give the same result.
\<close>

lemma p_fuel:
  "(2 * length s + 1 \<le> n \<longrightarrow> 2 * length s + 1 \<le> m \<longrightarrow> p_value n d s = p_value m d s) \<and>
   (2 * length s + 2 \<le> n \<longrightarrow> 2 * length s + 2 \<le> m \<longrightarrow> p_elems n d s = p_elems m d s) \<and>
   (2 * length s + 2 \<le> n \<longrightarrow> 2 * length s + 2 \<le> m \<longrightarrow> p_members n d s = p_members m d s)"
proof (induction n arbitrary: m d s)
  case (Suc n)
  show ?case
  proof (cases m)
    case (Suc k)
    have V: "p_value n e t = p_value k e t" if "2 * length t + 1 \<le> n" "2 * length t + 1 \<le> k" for e t
      using Suc.IH that by blast
    have E: "p_elems n e t = p_elems k e t" if "2 * length t + 2 \<le> n" "2 * length t + 2 \<le> k" for e t
      using Suc.IH that by blast
    have M: "p_members n e t = p_members k e t" if "2 * length t + 2 \<le> n" "2 * length t + 2 \<le> k" for e t
      using Suc.IH that by blast
    have "p_value (Suc n) d s = p_value (Suc k) d s" if "2 * length s \<le> n" "2 * length s \<le> k"
    proof -
      have "p_members n (d + 1) r = p_members k (d + 1) r" "p_elems n (d + 1) r = p_elems k (d + 1) r"
        if "expect c s = Some r" for c r
        using M[of r] E[of r] expect_length[OF that] \<open>2 * length s \<le> n\<close> \<open>2 * length s \<le> k\<close> by auto
      then show ?thesis by (auto split: option.split)
    qed
    moreover have "p_elems (Suc n) d s = p_elems (Suc k) d s"
      if f: "2 * length s + 1 \<le> n" "2 * length s + 1 \<le> k"
    proof -
      have "p_elems n d q = p_elems k d q" if "p_value k d s = Some (v, r)" "expect c r = Some q" for c v r q
        using E[of q] p_length(1)[OF that(1)] expect_length[OF that(2)] f by auto
      then show ?thesis using V[OF f] by (auto split: option.split)
    qed
    moreover have "p_members (Suc n) d s = p_members (Suc k) d s"
      if f: "2 * length s + 1 \<le> n" "2 * length s + 1 \<le> k"
    proof -
      have v: "p_value n d q = p_value k d q"
        if "expect c s = Some t" "scan_str t = Some (x, r)" "expect c' r = Some q" for c c' t x r q
        using V[of q] expect_length[OF that(1)] scan_str_length[OF that(2)] expect_length[OF that(3)] f by auto
      have "p_members n d p = p_members k d p"
        if "expect c s = Some t" "scan_str t = Some (x, r)" "expect c' r = Some q" "p_value k d q = Some (v, r')"
          "expect c'' r' = Some p" for c c' c'' t x r q v r' p
        using M[of p] expect_length[OF that(1)] scan_str_length[OF that(2)] expect_length[OF that(3)]
          p_length(1)[OF that(4)] expect_length[OF that(5)] f by auto
      with v show ?thesis
        by (fastforce split: option.split simp: bind_eq_Some_conv Option.bind_eq_None_conv cong: Option.bind_cong)
    qed
    ultimately show ?thesis unfolding Suc by simp
  qed simp
qed simp

lemma parse_json_fuel:
  "2 * length s + 1 \<le> n \<Longrightarrow> parse_json s = (case p_value n 0 s of
      Some (v, r) \<Rightarrow> if skip_ws r = [] then Some v else None | None \<Rightarrow> None)"
  using p_fuel[of s "2 * length s + 2" n 0] by (simp add: parse_json_def del: p_value.simps)

section \<open>Round trip of strings\<close>

lemma decode_rune_prefix:
  assumes "s \<noteq> []" "\<not> bad_rune s"
  shows "decode_rune (take (snd (decode_rune s)) s @ y) = decode_rune s"
proof -
  obtain c r where s: "s = c # r" using assms(1) by (cases s) auto
  from assms(2) s obtain n lo hi where fb: "first_byte (code c) = Some (n, lo, hi)"
    by (cases "first_byte (code c)") (auto simp: bad_rune_def decode_rune_def)
  have nb: "decode_rune s \<noteq> (rune_error, 1)" using assms(2) by (simp add: bad_rune_def)
  have len: "n = 1 \<or> n \<le> length s" using nb fb by (auto simp: s decode_rune_def split: if_splits)
  from first_byte_size[OF fb] consider "n = 1" | "n = 2" | "n = 3" | "n = 4" by blast
  then show ?thesis
  proof cases
    case 1
    then show ?thesis by (simp add: s decode_rune_def fb)
  next
    case 2
    with len s obtain b1 r1 where "r = b1 # r1" by (cases r) auto
    with nb fb 2 show ?thesis by (auto simp: s decode_rune_def Let_def split: if_splits)
  next
    case 3
    with len s obtain b1 b2 r2 where "r = b1 # b2 # r2" by (cases r; cases "tl r") auto
    with nb fb 3 show ?thesis by (auto simp: s decode_rune_def Let_def split: if_splits)
  next
    case 4
    with len s obtain b1 b2 b3 r3 where "r = b1 # b2 # b3 # r3"
      by (cases r; cases "tl r"; cases "tl (tl r)") auto
    with nb fb 4 show ?thesis by (auto simp: s decode_rune_def Let_def split: if_splits)
  qed
qed

lemma encode_rune_ascii: "code c < 128 \<Longrightarrow> encode_rune (code c) = [c]"
  by (simp add: encode_rune_def)

lemma hex_digit_val: "n < 16 \<Longrightarrow> digit_val (hex_digit n) = Some n"
proof -
  assume "n < 16"
  moreover have "\<forall>n \<in> set [0..<16]. digit_val (hex_digit n) = Some n" by code_simp
  ultimately show ?thesis by simp
qed

lemma hex4_four: "hex4 (a # b # c # d # s) = map_option (\<lambda>n. (n, s)) (digits_val 16 0 [a, b, c, d])"
  by (simp add: hex4_def del: digits_val.simps)

lemma digit_val_zero: "digit_val CHR ''0'' = Some 0"
  by (simp add: digit_val_def)

lemma scan_escape_byte:
  assumes "code c < 128" "\<not> html_safe c"
  shows "scan_str (escape_byte c @ s) = map_option (\<lambda>(v, q). (c # v, q)) (scan_str s)"
proof -
  have u: "u_escape (CHR ''0'' # CHR ''0'' # hex_digit (code c div 16) # hex_digit (code c mod 16) # s) = Some ([c], s)"
  proof -
    have "code c div 16 < 16" using assms(1) by simp
    then have "hex4 (CHR ''0'' # CHR ''0'' # hex_digit (code c div 16) # hex_digit (code c mod 16) # s) = Some (code c, s)"
      by (simp add: hex4_four hex_digit_val digit_val_zero)
    then show ?thesis using assms(1) encode_rune_ascii[OF assms(1)] by (simp add: u_escape_def)
  qed
  show ?thesis
    by (auto simp: escape_byte_def scan_str_eqs simple_escape_def u split: if_splits)
qed

text \<open>utf8.EncodeRune gives back the bytes a well-formed rune was decoded from.\<close>

lemma mod_from: "k \<le> b \<Longrightarrow> b < k + m \<Longrightarrow> k mod m = 0 \<Longrightarrow> k + b mod m = (b :: nat)"
  by (metis add.commute le_add_diff_inverse mod_add_self2 mod_if add_cancel_left_left
      less_diff_conv2 mod_add_left_eq)

lemma char_of_mod: "k \<le> code c \<Longrightarrow> code c < k + m \<Longrightarrow> k mod m = 0 \<Longrightarrow> char_of (k + code c mod m) = c"
  by (simp add: mod_from)

lemma digits64: "(y :: nat) < 64 \<Longrightarrow> (x * 64 + y) div 64 = x" "(y :: nat) < 64 \<Longrightarrow> (x * 64 + y) mod 64 = y"
  by simp_all

lemma three_byte_range:
  assumes "x < 16" "y < 64" "z < 64" "x = 0 \<longrightarrow> 32 \<le> y" "x = 13 \<longrightarrow> (y :: nat) < 32"
  shows "0x800 \<le> (x * 64 + y) * 64 + z \<and> (x * 64 + y) * 64 + z < 0x10000 \<and>
    \<not> (0xD800 \<le> (x * 64 + y) * 64 + z \<and> (x * 64 + y) * 64 + z < 0xE000)"
proof -
  define q where "q = (x * 64 + y) * 64 + z"
  have q: "q = 4096 * x + 64 * y + z" by (simp add: q_def)
  consider "x = 0" | "1 \<le> x" "x \<le> 12" | "x = 13" | "14 \<le> x" by linarith
  then have "0x800 \<le> q \<and> q < 0x10000 \<and> \<not> (0xD800 \<le> q \<and> q < 0xE000)"
    by cases (use assms q in linarith)+
  then show ?thesis unfolding q_def .
qed

lemma four_byte_range:
  assumes "x \<le> 4" "y < 64" "z < 64" "w < 64" "x = 0 \<longrightarrow> 16 \<le> y" "x = 4 \<longrightarrow> (y :: nat) < 16"
  shows "0x10000 \<le> ((x * 64 + y) * 64 + z) * 64 + w \<and> ((x * 64 + y) * 64 + z) * 64 + w \<le> 0x10FFFF"
proof -
  define q where "q = ((x * 64 + y) * 64 + z) * 64 + w"
  have q: "q = 262144 * x + 4096 * y + 64 * z + w" by (simp add: q_def)
  consider "x = 0" | "1 \<le> x" "x \<le> 3" | "x = 4" using assms(1) by linarith
  then have "0x10000 \<le> q \<and> q \<le> 0x10FFFF"
    by cases (use assms q in linarith)+
  then show ?thesis unfolding q_def .
qed

lemma encode_decode_rune:
  assumes "s \<noteq> []" "\<not> bad_rune s"
  shows "encode_rune (fst (decode_rune s)) = take (snd (decode_rune s)) s"
proof -
  obtain c r where s: "s = c # r" using assms(1) by (cases s) auto
  from assms(2) s obtain n lo hi where fb: "first_byte (code c) = Some (n, lo, hi)"
    by (cases "first_byte (code c)") (auto simp: bad_rune_def decode_rune_def)
  have nb: "decode_rune s \<noteq> (rune_error, 1)" using assms(2) by (simp add: bad_rune_def)
  have len: "n = 1 \<or> n \<le> length s" using nb fb by (auto simp: s decode_rune_def split: if_splits)
  from first_byte_size[OF fb] consider "n = 1" | "n = 2" | "n = 3" | "n = 4" by blast
  then show ?thesis
  proof cases
    case 1
    then have "code c < 128" using fb by (auto simp: first_byte_def split: if_splits)
    then show ?thesis by (simp add: s decode_rune_ascii encode_rune_ascii)
  next
    case 2
    with len s obtain b1 r1 where r: "r = b1 # r1" by (cases r) auto
    from fb 2 have c: "0xC2 \<le> code c" "code c < 0xE0" "lo = 0x80" "hi = 0xBF"
      by (auto simp: first_byte_def split: if_splits)
    with nb fb 2 r s have b: "0x80 \<le> code b1" "code b1 \<le> 0xBF"
      by (auto simp: decode_rune_def Let_def split: if_splits)
    define x y where "x = code c mod 32" and "y = code b1 mod 64"
    have "0xC0 + x = code c" unfolding x_def using c by (simp add: mod_from)
    then have xy: "x < 32" "y < 64" "2 \<le> x" using c by (auto simp: y_def)
    have "decode_rune s = (x * 64 + y, 2)"
      using fb 2 b c by (simp add: s r decode_rune_def Let_def x_def y_def)
    moreover have "encode_rune (x * 64 + y) = [char_of (0xC0 + x), char_of (0x80 + y)]"
      using xy by (simp add: encode_rune_def)
    moreover have "char_of (0xC0 + x) = c" "char_of (0x80 + y) = b1"
      unfolding x_def y_def using b c by (simp_all add: char_of_mod)
    ultimately show ?thesis by (simp add: s r)
  next
    case 3
    with len s obtain b1 b2 r2 where r: "r = b1 # b2 # r2" by (cases r; cases "tl r") auto
    from fb 3 have c: "0xE0 \<le> code c" "code c < 0xF0" "0x80 \<le> lo" "hi \<le> 0xBF"
        "code c = 0xE0 \<longrightarrow> lo = 0xA0" "code c = 0xED \<longrightarrow> hi = 0x9F"
      by (auto simp: first_byte_def split: if_splits)
    with nb fb 3 r s have b: "lo \<le> code b1" "code b1 \<le> hi" "0x80 \<le> code b2" "code b2 \<le> 0xBF"
      by (auto simp: decode_rune_def Let_def is_cont_def split: if_splits)
    define x y z where "x = code c mod 16" and "y = code b1 mod 64" and "z = code b2 mod 64"
    have xe: "0xE0 + x = code c" "0x80 + y = code b1" "0x80 + z = code b2"
      unfolding x_def y_def z_def using b c by (simp_all add: mod_from)
    then have xy: "x < 16" "y < 64" "z < 64" "x = 0 \<longrightarrow> 32 \<le> y" "x = 13 \<longrightarrow> y < 32"
      using b c by (auto simp: x_def y_def z_def)
    have "decode_rune s = ((x * 64 + y) * 64 + z, 3)"
      using fb 3 b c by (simp add: s r decode_rune_def Let_def is_cont_def x_def y_def z_def)
    moreover have "encode_rune ((x * 64 + y) * 64 + z) = [char_of (0xE0 + x), char_of (0x80 + y), char_of (0x80 + z)]"
    proof -
      define q where "q = (x * 64 + y) * 64 + z"
      have q1: "q div 64 = x * 64 + y" and q0: "q mod 64 = z"
        unfolding q_def by (rule digits64[OF xy(3)])+
      have q2: "q div 4096 = q div 64 div 64" by (simp flip: div_mult2_eq)
      have "q div 4096 = x" "q div 64 mod 64 = y" "q mod 64 = z"
        unfolding q2 q1 q0 by (rule digits64[OF xy(2)] refl)+
      moreover note three_byte_range[OF xy, folded q_def]
      ultimately have "encode_rune q = [char_of (0xE0 + x), char_of (0x80 + y), char_of (0x80 + z)]"
        by (auto simp: encode_rune_def Let_def)
      then show ?thesis unfolding q_def .
    qed
    ultimately show ?thesis by (simp add: s r xe)
  next
    case 4
    with len s obtain b1 b2 b3 r3 where r: "r = b1 # b2 # b3 # r3"
      by (cases r; cases "tl r"; cases "tl (tl r)") auto
    from fb 4 have c: "0xF0 \<le> code c" "code c \<le> 0xF4" "0x80 \<le> lo" "hi \<le> 0xBF"
        "code c = 0xF0 \<longrightarrow> lo = 0x90" "code c = 0xF4 \<longrightarrow> hi = 0x8F"
      by (auto simp: first_byte_def split: if_splits)
    with nb fb 4 r s have b: "lo \<le> code b1" "code b1 \<le> hi" "0x80 \<le> code b2" "code b2 \<le> 0xBF"
        "0x80 \<le> code b3" "code b3 \<le> 0xBF"
      by (auto simp: decode_rune_def Let_def is_cont_def split: if_splits)
    define x y z w where "x = code c mod 8" and "y = code b1 mod 64" and "z = code b2 mod 64" and "w = code b3 mod 64"
    have xe: "0xF0 + x = code c" "0x80 + y = code b1" "0x80 + z = code b2" "0x80 + w = code b3"
      unfolding x_def y_def z_def w_def using b c by (simp_all add: mod_from)
    then have xy: "x \<le> 4" "y < 64" "z < 64" "w < 64" "x = 0 \<longrightarrow> 16 \<le> y" "x = 4 \<longrightarrow> y < 16"
      using b c by (auto simp: y_def z_def w_def)
    have "decode_rune s = (((x * 64 + y) * 64 + z) * 64 + w, 4)"
      using fb 4 b c by (simp add: s r decode_rune_def Let_def is_cont_def x_def y_def z_def w_def)
    moreover have "encode_rune (((x * 64 + y) * 64 + z) * 64 + w) =
        [char_of (0xF0 + x), char_of (0x80 + y), char_of (0x80 + z), char_of (0x80 + w)]"
    proof -
      define q where "q = ((x * 64 + y) * 64 + z) * 64 + w"
      have q1: "q div 64 = (x * 64 + y) * 64 + z" and q0: "q mod 64 = w"
        unfolding q_def by (rule digits64[OF xy(4)])+
      have q2: "q div 4096 = x * 64 + y"
        using digits64(1)[OF xy(3), of "x * 64 + y"] q1 by (simp add: div_mult2_eq[of q 64 64, simplified])
      have q3: "q div 262144 = q div 4096 div 64" by (simp flip: div_mult2_eq)
      have "q div 262144 = x" "q div 4096 mod 64 = y" "q div 64 mod 64 = z" "q mod 64 = w"
        unfolding q3 q2 q1 q0 by (rule digits64[OF xy(2)] digits64[OF xy(3)] refl)+
      moreover note four_byte_range[OF xy, folded q_def]
      ultimately have "encode_rune q = [char_of (0xF0 + x), char_of (0x80 + y), char_of (0x80 + z), char_of (0x80 + w)]"
        by (auto simp: encode_rune_def Let_def)
      then show ?thesis unfolding q_def .
    qed
    ultimately show ?thesis by (simp add: s r xe)
  qed
qed

text \<open>A string literal reads back as the string it was printed from.\<close>

lemma scan_line_separator:
  assumes "u = 0x2028 \<or> u = 0x2029"
  shows "scan_str (([CHR 0x5C] @ ''u202'' @ [hex_digit (u mod 16)]) @ s) =
    map_option (\<lambda>(v, q). (encode_rune u @ v, q)) (scan_str s)"
proof -
  have "u_escape (''202'' @ hex_digit (u mod 16) # s) = Some (encode_rune u, s)"
    using assms by (elim disjE) (simp_all add: u_escape_def hex4_four hex_digit_def digit_val_def)
  then show ?thesis by (simp add: scan_str_eqs)
qed

lemma scan_rune_bytes:
  assumes "s \<noteq> []" "\<not> bad_rune s" "128 \<le> code (hd s)"
  shows "scan_str (take (snd (decode_rune s)) s @ y) =
    map_option (\<lambda>(v, q). (take (snd (decode_rune s)) s @ v, q)) (scan_str y)"
proof -
  define n where "n = snd (decode_rune s)"
  have n: "0 < n" "n \<le> length s" using decode_rune_size[OF assms(1)] by (auto simp: n_def)
  obtain c r where s: "s = c # r" using assms(1) by (cases s) auto
  obtain w where w: "take n s @ y = c # w" using n s by (cases n) auto
  have c: "c \<noteq> CHR 0x22" "c \<noteq> CHR 0x5C" using assms(3) s by auto
  have d: "decode_rune (c # w) = decode_rune s" using decode_rune_prefix[OF assms(1,2), of y] w n_def by simp
  have tk: "take n (c # w) = take n s" "drop n (c # w) = y" using n by (simp_all flip: w)
  have "decode_rune s \<noteq> (rune_error, 1)" using assms(2) by (simp add: bad_rune_def)
  then have "scan_str (c # w) = map_option (\<lambda>(v, q). (take n s @ v, q)) (scan_str y)"
    using scan_str_rune[OF c, of w] d tk assms(3) s by (simp add: n_def)
  then show ?thesis by (simp add: w flip: n_def)
qed

lemma valid_utf8_step:
  "valid_utf8 s \<Longrightarrow> s \<noteq> [] \<Longrightarrow> \<not> bad_rune s \<and> valid_utf8 (drop (snd (decode_rune s)) s)"
  by (subst (asm) valid_utf8.simps) (simp split: if_splits)

lemma scan_marshal:
  "valid_utf8 s \<Longrightarrow> scan_str (marshal_chars s @ [CHR 0x22] @ r) = Some (s, r)"
proof (induction s rule: length_induct)
  case (1 s)
  show ?case
  proof (cases s)
    case Nil
    then show ?thesis by (subst marshal_chars.simps) (simp add: scan_str_eqs)
  next
    case (Cons c t)
    note v = valid_utf8_step[OF "1.prems"]
    have IH: "scan_str (marshal_chars u @ CHR 0x22 # r) = Some (u, r)"
      if "length u < length s" "valid_utf8 u" for u
      using 1 that by simp
    show ?thesis
    proof (cases "code c < 128")
      case True
      then have d: "decode_rune s = (code c, 1)" by (simp add: Cons decode_rune_ascii)
      with v Cons have vt: "valid_utf8 t" by simp
      have m: "marshal_chars s = (if html_safe c then [c] else escape_byte c) @ marshal_chars t"
        using True Cons by (subst marshal_chars.simps) simp
      show ?thesis
      proof (cases "html_safe c")
        case False
        then show ?thesis using scan_escape_byte[OF True False] IH[of t] vt Cons m by simp
      next
        case safe: True
        then have c: "c \<noteq> CHR 0x22" "c \<noteq> CHR 0x5C" "0x20 \<le> code c" by (auto simp: html_safe_def)
        have "decode_rune (c # x) = (code c, 1)" for x using True by (simp add: decode_rune_ascii)
        with c True show ?thesis using IH[of t] vt Cons m safe by (simp add: scan_str_rune rune_error_def)
      qed
    next
      case False
      let ?d = "decode_rune s"
      have len: "length (drop (snd ?d) s) < length s" using decode_rune_size[of s] Cons by simp
      have nb: "\<not> bad_rune s" "?d \<noteq> (rune_error, 1)" using v Cons by (auto simp: bad_rune_def)
      have m: "marshal_chars s = (if fst ?d = 0x2028 \<or> fst ?d = 0x2029
          then [CHR 0x5C] @ ''u202'' @ [hex_digit (fst ?d mod 16)] else take (snd ?d) s) @ marshal_chars (drop (snd ?d) s)"
        using False Cons nb(2) by (subst marshal_chars.simps) (simp add: Let_def)
      have tail: "scan_str (marshal_chars (drop (snd ?d) s) @ CHR 0x22 # r) = Some (drop (snd ?d) s, r)"
        using IH[OF len] v Cons by simp
      show ?thesis
      proof (cases "fst ?d = 0x2028 \<or> fst ?d = 0x2029")
        case True
        have "encode_rune (fst ?d) = take (snd ?d) s" using nb Cons by (intro encode_decode_rune) auto
        then show ?thesis using scan_line_separator[OF True] tail True by (simp add: m)
      next
        case nls: False
        have "s \<noteq> []" "128 \<le> code (hd s)" using Cons False by simp_all
        then show ?thesis using scan_rune_bytes[of s "marshal_chars (drop (snd ?d) s) @ CHR 0x22 # r"] tail nb nls
          by (simp add: m)
      qed
    qed
  qed
qed

section \<open>Round trip of documents\<close>

fun wf_json :: "int \<Rightarrow> json \<Rightarrow> bool"
  and wf_elems :: "int \<Rightarrow> json list \<Rightarrow> bool"
  and wf_members :: "int \<Rightarrow> (string \<times> json) list \<Rightarrow> bool" where
  "wf_json d JNull = True"
| "wf_json d (JBool b) = True"
| "wf_json d (JNum s) = (scan_number s = Some (s, []))"
| "wf_json d (JStr s) = valid_utf8 s"
| "wf_json d (JArr es) = (d < max_nesting \<and> wf_elems (d + 1) es)"
| "wf_json d (JObj ms) = (d < max_nesting \<and> wf_members (d + 1) ms)"
| "wf_elems d [] = True"
| "wf_elems d (e # es) = (wf_json d e \<and> wf_elems d es)"
| "wf_members d [] = True"
| "wf_members d ((k, v) # ms) = (valid_utf8 k \<and> wf_json d v \<and> wf_members d ms)"

text \<open>What may follow a value: nothing, or one of the three characters that end it.\<close>

definition delim :: "string \<Rightarrow> bool" where
  "delim r = (r = [] \<or> hd r = CHR '','' \<or> hd r = CHR '']'' \<or> hd r = CHR 0x7D)"

lemma scan_digits_append: "scan_digits s = Some (v, q) \<Longrightarrow> delim r \<Longrightarrow> scan_digits (s @ r) = Some (v, q @ r)"
proof -
  assume s: "scan_digits s = Some (v, q)" and r: "delim r"
  have nd: "takeWhile is_digit r = []" "dropWhile is_digit r = r"
    using r by (cases r; auto simp: delim_def is_digit_def)+
  from s have v: "takeWhile is_digit s \<noteq> []" "v = takeWhile is_digit s" "q = dropWhile is_digit s"
    by (auto simp: scan_digits_def split: if_splits)
  show ?thesis
  proof (cases "\<forall>x \<in> set s. is_digit x")
    case True
    then have "takeWhile is_digit (s @ r) = s" "dropWhile is_digit (s @ r) = r" and sd: "dropWhile is_digit s = []"
      using nd by (auto simp: takeWhile_append dropWhile_append)
    moreover have "takeWhile is_digit s = s" using True by (metis takeWhile_eq_all_conv)
    with v have "s \<noteq> []" "v = s" by argo+
    ultimately show ?thesis using v(3) sd by (simp add: scan_digits_def)
  next
    case False
    then have "takeWhile is_digit (s @ r) = takeWhile is_digit s" "dropWhile is_digit (s @ r) = dropWhile is_digit s @ r"
      by (auto simp: takeWhile_append dropWhile_append)
    then show ?thesis using v by (simp add: scan_digits_def)
  qed
qed

lemma has_prefix_delim:
  "delim r \<Longrightarrow> c \<noteq> CHR '','' \<and> c \<noteq> CHR '']'' \<and> c \<noteq> CHR 0x7D \<Longrightarrow> has_prefix (s @ r) [c] = has_prefix s [c]"
  by (cases s; cases r) (auto simp: delim_def)

lemma scan_frac_append:
  assumes "scan_frac s = Some (v, q)" "delim r"
  shows "scan_frac (s @ r) = Some (v, q @ r)"
proof (cases "has_prefix s ''.''")
  case True
  then obtain t where t: "s = CHR ''.'' # t" by (auto simp: has_prefix_iff)
  with assms(1) obtain d where "scan_digits t = Some (d, q)" "v = CHR ''.'' # d" by (auto simp: scan_frac_def)
  with scan_digits_append[OF this(1) assms(2)] t show ?thesis by (simp add: scan_frac_def)
next
  case False
  with assms show ?thesis by (auto simp: scan_frac_def has_prefix_delim)
qed

lemma scan_exp_append:
  assumes "scan_exp s = Some (v, q)" "delim r"
  shows "scan_exp (s @ r) = Some (v, q @ r)"
proof (cases "has_prefix s ''e'' \<or> has_prefix s ''E''")
  case True
  then obtain c t where t: "s = c # t" by (cases s) auto
  let ?sg = "\<lambda>u. takeWhile (\<lambda>c. c = CHR ''+'' \<or> c = CHR ''-'') (take 1 u)"
  from assms(1) True t obtain d where d: "scan_digits (drop (length (?sg t)) t) = Some (d, q)" "v = c # ?sg t @ d"
    by (auto simp: scan_exp_def Let_def)
  then have "t \<noteq> []" by (auto simp: scan_digits_def)
  then have "?sg (t @ r) = ?sg t" "length (?sg t) \<le> length t" by (cases t; simp)+
  with d True t scan_digits_append[OF d(1) assms(2)] show ?thesis by (simp add: scan_exp_def Let_def)
next
  case False
  with assms show ?thesis by (auto simp: scan_exp_def has_prefix_delim)
qed

lemma scan_number_append:
  assumes "scan_number s = Some (v, q)" "delim r"
  shows "scan_number (s @ r) = Some (v, q @ r)"
proof -
  define split where "split = (\<lambda>s :: string. if has_prefix s ''-'' then (''-'', tl s) else ([], s))"
  define int_part where "int_part = (\<lambda>t. if has_prefix t ''0'' then Some (''0'', tl t) else scan_digits t)"
  have num: "scan_number u = (case split u of (sign, t) \<Rightarrow> Option.bind (int_part t) (\<lambda>(i, r1).
      Option.bind (scan_frac r1) (\<lambda>(f, r2). map_option (\<lambda>(e, r3). (sign @ i @ f @ e, r3)) (scan_exp r2))))" for u
    by (simp add: scan_number_def split_def int_part_def Let_def)
  obtain sign t where st: "split s = (sign, t)" by (cases "split s")
  from assms(1) obtain i r1 f r2 e where
    p: "int_part t = Some (i, r1)" "scan_frac r1 = Some (f, r2)" "scan_exp r2 = Some (e, q)" "v = sign @ i @ f @ e"
    by (auto simp: num st bind_eq_Some_conv)
  have "split (s @ r) = (sign, t @ r)"
    using st assms(2) by (cases s; cases r) (auto simp: split_def delim_def split: if_splits)
  moreover have "int_part (t @ r) = Some (i, r1 @ r)"
    using p(1) scan_digits_append[of t i r1 r] assms(2) has_prefix_delim[OF assms(2), of "CHR ''0''" t]
    by (cases t) (auto simp: int_part_def scan_digits_def split: if_splits)
  ultimately show ?thesis
    using scan_frac_append[OF p(2) assms(2)] scan_exp_append[OF p(3) assms(2)] p(4) by (simp add: num)
qed

lemma scan_number_hd:
  assumes "scan_number s = Some (v, q)"
  shows "\<exists>c t. s = c # t \<and> (c = CHR ''-'' \<or> is_digit c)"
proof (cases s)
  case Nil
  with assms show ?thesis by (simp add: scan_number_def scan_digits_def)
next
  case (Cons c t)
  show ?thesis
  proof (rule ccontr)
    assume "\<not> ?thesis"
    with Cons have c: "c \<noteq> CHR ''-''" "\<not> is_digit c" by auto
    then have "c \<noteq> CHR ''0''" by (auto simp: is_digit_def)
    with c assms Cons show False by (simp add: scan_number_def scan_digits_def)
  qed
qed

text \<open>The first character of a printed value.\<close>

definition value_char :: "char \<Rightarrow> bool" where
  "value_char c = (c \<in> set ''tfn[-0123456789'' \<or> c = CHR 0x22 \<or> c = CHR 0x7B)"

lemma is_digit_set: "is_digit c \<Longrightarrow> c \<in> set ''0123456789''"
proof -
  assume "is_digit c"
  then have "c = char_of (code c)" "code c \<in> set [48..<58]"
    unfolding set_upt by (simp_all add: is_digit_def)
  moreover have "\<forall>k \<in> set [48..<58]. char_of (k :: nat) \<in> set ''0123456789''" by code_simp
  ultimately show ?thesis by metis
qed

lemma show_json_hd: "wf_json d j \<Longrightarrow> \<exists>c t. show_json j = c # t \<and> value_char c"
  by (cases j) (auto simp: value_char_def marshal_string_def dest!: scan_number_hd is_digit_set)

lemma expect_hd: "value_char c \<Longrightarrow> expect x (c # t) = (if c = x then Some t else None)"
  by (auto simp: value_char_def expect_def skip_ws_def)

lemma expect_hit: "x \<notin> {CHR '' '', CHR 0x09, CHR 0x0A, CHR 0x0D} \<Longrightarrow> expect x (x # t) = Some t"
  by (simp add: expect_def skip_ws_def)

lemma skip_ws_value: "value_char c \<Longrightarrow> skip_ws (c # t) = c # t"
  by (auto simp: value_char_def skip_ws_def)

lemma value_char_facts: "value_char CHR 0x22" "value_char CHR 0x7B" "value_char CHR ''[''"
  "\<not> value_char CHR '']''" "\<not> value_char CHR 0x7D" "\<not> value_char CHR '',''"
  "value_char CHR ''t''" "value_char CHR ''f''" "value_char CHR ''n''"
  by (simp_all add: value_char_def)

lemma p_value_scalar:
  assumes "value_char c" "c \<noteq> CHR 0x7B" "c \<noteq> CHR ''[''"
  shows "p_value (Suc n) d (c # t) = scan_scalar (c # t)"
  using assms by (simp add: expect_hd skip_ws_value)

lemma value_char_digit: "is_digit c \<Longrightarrow> value_char c"
  by (drule is_digit_set) (auto simp: value_char_def)

lemma p_value_number:
  assumes "scan_number s = Some (s, [])" "delim r"
  shows "p_value (Suc n) d (s @ r) = Some (JNum s, r)"
proof -
  obtain c t where s: "s = c # t" and c: "c = CHR ''-'' \<or> is_digit c"
    using scan_number_hd[OF assms(1)] by blast
  have "value_char CHR ''-''" by (simp add: value_char_def)
  with c have v: "value_char c" using value_char_digit by blast
  have ne: "c \<notin> {CHR 0x7B, CHR ''['', CHR 0x22, CHR ''t'', CHR ''f'', CHR ''n''}"
    using c by (auto simp: is_digit_def)
  then have "c \<noteq> CHR 0x7B" "c \<noteq> CHR ''[''" by blast+
  then have "p_value (Suc n) d (s @ r) = scan_scalar (s @ r)"
    unfolding s append_Cons by (rule p_value_scalar[OF v])
  also have "\<dots> = Some (JNum s, r)"
    using scan_number_append[OF assms] ne by (simp add: scan_scalar_def s)
  finally show ?thesis .
qed

lemma p_value_string:
  assumes "valid_utf8 s"
  shows "p_value (Suc n) d (marshal_string s @ r) = Some (JStr s, r)"
  using scan_marshal[OF assms, of r] p_value_scalar[of "CHR 0x22" n d "marshal_chars s @ CHR 0x22 # r"]
  by (simp add: marshal_string_def value_char_facts scan_scalar_def del: p_value.simps)

lemma p_value_literals:
  "p_value (Suc n) d (''null'' @ r) = Some (JNull, r)"
  "p_value (Suc n) d (''true'' @ r) = Some (JBool True, r)"
  "p_value (Suc n) d (''false'' @ r) = Some (JBool False, r)"
  by (simp_all add: p_value_scalar value_char_facts scan_scalar_def del: p_value.simps)

lemma expect_delim: "expect c (c' # t) = (if c = c' then Some t else None)"
  if "c' \<in> {CHR '','', CHR '']'', CHR 0x7D, CHR '':''}"
  using that by (auto simp: expect_def skip_ws_def)

lemma p_show:
  "wf_json d j \<Longrightarrow> delim r \<Longrightarrow> 2 * length (show_json j) + 1 \<le> n \<Longrightarrow> p_value n d (show_json j @ r) = Some (j, r)"
  "es \<noteq> [] \<Longrightarrow> wf_elems d es \<Longrightarrow> 2 * length (show_elems es) + 2 \<le> n \<Longrightarrow>
     p_elems n d (show_elems es @ CHR '']'' # r) = Some (es, r)"
  "ms \<noteq> [] \<Longrightarrow> wf_members d ms \<Longrightarrow> 2 * length (show_members ms) + 2 \<le> n \<Longrightarrow>
     p_members n d (show_members ms @ CHR 0x7D # r) = Some (ms, r)"
proof (induction j and es and ms arbitrary: d n r and d n r and d n r rule: show_json_show_elems_show_members.induct)
  case 1
  then obtain k where "n = Suc k" by (cases n) auto
  then show ?case using p_value_literals(1) by (simp del: p_value.simps)
next
  case (2 b)
  then obtain k where "n = Suc k" by (cases n) auto
  then show ?case using p_value_literals(2,3) by (simp del: p_value.simps)
next
  case (3 s)
  then obtain k where "n = Suc k" by (cases n) auto
  then show ?case using p_value_number 3 by (simp del: p_value.simps)
next
  case (4 s)
  then obtain k where "n = Suc k" by (cases n) auto
  then show ?case using p_value_string 4 by (simp del: p_value.simps)
next
  case (5 es)
  then obtain k where n: "n = Suc k" by (cases n) auto
  show ?case
  proof (cases es)
    case Nil
    then show ?thesis using 5 n by (simp add: expect_hd expect_hit value_char_facts)
  next
    case (Cons e es')
    then obtain c t where ct: "show_elems es = c # t" "value_char c"
      using show_json_hd[of "d + 1" e] "5.prems"(1) by auto
    have "expect CHR '']'' (show_elems es @ CHR '']'' # r) = None"
      using ct value_char_facts(4) expect_hd[OF ct(2), of "CHR '']''"] by auto
    moreover have "p_elems k (d + 1) (show_elems es @ CHR '']'' # r) = Some (es, r)"
      using "5.IH"[of "d + 1" k r] "5.prems" Cons n by simp
    ultimately show ?thesis using "5.prems" n by (simp add: expect_hd value_char_facts)
  qed
next
  case (6 ms)
  then obtain k where n: "n = Suc k" by (cases n) auto
  show ?case
  proof (cases ms)
    case Nil
    then show ?thesis using 6 n by (simp add: expect_hd expect_hit value_char_facts)
  next
    case (Cons m ms')
    then obtain t where ct: "show_members ms = CHR 0x22 # t"
      by (cases m) (auto simp: marshal_string_def)
    have "expect CHR 0x7D (show_members ms @ CHR 0x7D # r) = None"
      using ct expect_hd[OF value_char_facts(1), of "CHR 0x7D"] by simp
    moreover have "p_members k (d + 1) (show_members ms @ CHR 0x7D # r) = Some (ms, r)"
      using "6.IH"[of "d + 1" k r] "6.prems" Cons n by simp
    ultimately show ?thesis using "6.prems" n by (simp add: expect_hd value_char_facts)
  qed
next
  case 7
  then show ?case by simp
next
  case (8 e es)
  then obtain k where n: "n = Suc k" by (cases n) auto
  have e: "p_value k d (show_json e @ q) = Some (e, q)" if "delim q" for q
    using "8.IH"(1)[OF _ that, of d k] "8.prems" n by simp
  show ?case
  proof (cases es)
    case Nil
    then show ?thesis using e[of "CHR '']'' # r"] n by (simp add: delim_def expect_delim del: p_value.simps)
  next
    case (Cons e' es')
    have "p_elems k d (show_elems es @ CHR '']'' # r) = Some (es, r)"
      using "8.IH"(2)[of d k r] "8.prems" Cons n by simp
    then show ?thesis using e[of "CHR '','' # show_elems es @ CHR '']'' # r"] n Cons
      by (simp add: delim_def expect_delim del: p_value.simps)
  qed
next
  case 9
  then show ?case by simp
next
  case (10 k v ms)
  then obtain f where n: "n = Suc f" by (cases n) auto
  have kv: "scan_str (marshal_chars k @ CHR 0x22 # q) = Some (k, q)" for q
    using scan_marshal[of k q] "10.prems" by simp
  have v: "p_value f d (show_json v @ q) = Some (v, q)" if "delim q" for q
    using "10.IH"(1)[OF _ that, of d f] "10.prems" n by simp
  show ?case
  proof (cases ms)
    case Nil
    then show ?thesis using v[of "CHR 0x7D # r"] n
      by (simp add: marshal_string_def expect_hd value_char_facts kv delim_def expect_delim del: p_value.simps)
  next
    case (Cons m ms')
    have "p_members f d (show_members ms @ CHR 0x7D # r) = Some (ms, r)"
      using "10.IH"(2)[of d f r] "10.prems" Cons n by simp
    then show ?thesis using v[of "CHR '','' # show_members ms @ CHR 0x7D # r"] n Cons
      by (simp add: marshal_string_def expect_hd value_char_facts kv delim_def expect_delim del: p_value.simps)
  qed
qed

lemma parse_show_json: "wf_json 0 j \<Longrightarrow> parse_json (show_json j) = Some j"
  using p_show(1)[of 0 j "[]" "2 * length (show_json j) + 2"]
  by (simp add: parse_json_def delim_def skip_ws_def del: p_value.simps)

section \<open>Printed integers and structs\<close>

lemma show_nat_hd_zero: "0 < n \<Longrightarrow> hd (show_nat n) \<noteq> CHR ''0''"
proof (induction n rule: show_nat.induct)
  case (1 n)
  show ?case
  proof (cases "n < 10")
    case True
    have "\<forall>k \<in> set [1..<10]. char_of (48 + k :: nat) \<noteq> CHR ''0''" by code_simp
    moreover have "n \<in> set [1..<10]" using True 1 by (simp add: Suc_le_eq)
    ultimately show ?thesis using True by (subst show_nat.simps) auto
  next
    case False
    then show ?thesis using 1 by (subst show_nat.simps) (simp add: hd_append)
  qed
qed

lemma show_nat_is_digit: "c \<in> set (show_nat n) \<Longrightarrow> is_digit c"
  using show_nat_digits[of n] by (auto simp: is_digit_def)

lemma scan_number_show_nat: "scan_number (show_nat n) = Some (show_nat n, [])"
proof -
  have all: "takeWhile is_digit (show_nat n) = show_nat n" "dropWhile is_digit (show_nat n) = []"
    using show_nat_is_digit by auto
  obtain c s where cs: "show_nat n = c # s" by (cases "show_nat n") auto
  have c: "c \<noteq> CHR ''-''" using show_nat_is_digit[of c n] cs by (auto simp: is_digit_def)
  show ?thesis
  proof (cases "n = 0")
    case True
    moreover have "show_nat 0 = ''0''" by code_simp
    ultimately have "show_nat n = ''0''" by simp
    then show ?thesis by (simp add: scan_number_def scan_frac_def scan_exp_def)
  next
    case False
    then have "c \<noteq> CHR ''0''" using show_nat_hd_zero[of n] cs by simp
    with c all cs show ?thesis
      by (simp add: scan_number_def scan_digits_def scan_frac_def scan_exp_def)
  qed
qed

lemma wf_show_int: "0 \<le> i \<Longrightarrow> wf_json d (JNum (show_int i))"
  by (simp add: show_int_def scan_number_show_nat)

lemma valid_utf8_ascii: "all_ascii s \<Longrightarrow> valid_utf8 s"
proof (induction s)
  case (Cons c s)
  then have "decode_rune (c # s) = (code c, 1)" by (simp add: all_ascii_def is_ascii_def decode_rune_ascii)
  with Cons show ?case by (subst valid_utf8.simps) (auto simp: bad_rune_def rune_error_def all_ascii_def is_ascii_def)
qed (simp add: valid_utf8.simps)

lemma decode_show_struct:
  assumes "wf_json 0 (JObj ms)" "list_all (\<lambda>m. fst m \<in> set names) ms"
  shows "decode_struct uf names (show_json (JObj ms)) = Some ms"
proof -
  have f: "field_of uf names (fst m) = Some (fst m)" if "m \<in> set ms" for m
    using that assms(2) by (auto simp: field_of_def list_all_iff)
  then have "list_all (\<lambda>m. field_of uf names (fst m) \<noteq> None) ms" by (simp add: list_all_iff)
  moreover have "map (\<lambda>(k, v). (the (field_of uf names k), v)) ms = ms"
    using f by (intro map_idI) auto
  ultimately show ?thesis
    by (simp add: decode_struct_def parse_show_json[OF assms(1)] del: show_json.simps)
qed

declare show_json.simps [simp del] show_elems.simps [simp del] show_members.simps [simp del]
  p_value.simps [simp del] p_elems.simps [simp del] p_members.simps [simp del]

section \<open>Properties\<close>



end
