(* ===== verification/Go_Ip_Text.thy ===== *)
theory Go_Ip_Text
  imports Go_Net
begin

text \<open>
  net.IP's String: the dotted form of an IPv4 or IPv4-mapped address, the compressed form of an
  IPv6 address (the first longest run of at least two zero groups becomes an ellipsis).
\<close>

fun show_hex :: "nat \<Rightarrow> string" where
  "show_hex n = (if n < 16 then [''0123456789abcdef'' ! n]
     else show_hex (n div 16) @ [''0123456789abcdef'' ! (n mod 16)])"

declare show_hex.simps [simp del]

definition v6_group :: "bytes \<Rightarrow> nat \<Rightarrow> nat" where
  "v6_group ip i = unat (ip ! (2 * i)) * 256 + unat (ip ! (2 * i + 1))"

definition zero_run :: "bytes \<Rightarrow> nat \<Rightarrow> nat" where
  "zero_run ip i = length (takeWhile (\<lambda>j. v6_group ip j = 0) [i..<8])"

definition longest_zero_run :: "bytes \<Rightarrow> nat \<times> nat" where
  "longest_zero_run ip = foldl (\<lambda>(start, len) i.
     let l = zero_run ip i in if 2 \<le> l \<and> len < l then (i, l) else (start, len)) (0, 0) [0..<8]"

definition show_v6 :: "bytes \<Rightarrow> string" where
  "show_v6 ip = (case longest_zero_run ip of (start, len) \<Rightarrow>
     let group = (\<lambda>i. show_hex (v6_group ip i)) in
     if len = 0 then join_with '':'' (map group [0..<8])
     else join_with '':'' (map group [0..<start]) @ ''::'' @ join_with '':'' (map group [start + len..<8]))"

definition show_ip :: "bytes \<Rightarrow> string" where
  "show_ip ip = (if ip = [] then ''<nil>''
     else (case ip_to4 ip of
        Some v \<Rightarrow> show_v4 v
      | None \<Rightarrow> if length ip = 16 then show_v6 ip
                else CHR ''?'' # concat (map (\<lambda>b. [''0123456789abcdef'' ! (unat b div 16), ''0123456789abcdef'' ! (unat b mod 16)]) ip)))"

end
