(* ===== verification/Broker.thy ===== *)
theory Broker
  imports Address_Policy Broker_Config Tunnel_Host Json Go_Ip_Text
begin

text \<open>
  The egress broker of broker.go: the consent protocol between the untrusted broker and the
  trusted prompt agent (authorize, serveNetworkPromptAgent), the one place that resolves and
  dials (dialPublic) and the two proxy protocols in front of it (handleSOCKS, handleHTTP).
  What the outside world answers - the agent, the resolver, the dialled hosts - is a function of
  everything the broker has done before, so that an answer may change between two calls; what the
  broker does is recorded as a trace of events.
\<close>

section \<open>State, world and events\<close>

datatype broker_event =
    AskAgent string            \<comment> \<open>the request written to the prompt socket\<close>
  | Resolve string
  | DialTo bytes int

datatype exchange = AgentUnavailable | RequestFailed | ResponseFailed | Response string

datatype dial_error =
    PortDenied | InvalidHost | OutsideHostSet | DestinationLimit | PromptUnavailable
  | PromptRequestFailed | PromptResponseFailed | DestinationDenied
  | ResolutionFailed | NonPublicAnswer | AllDestinationsFailed

record network_world =
  ask_agent :: "broker_event list \<Rightarrow> string \<Rightarrow> exchange"
  lookup_ip :: "broker_event list \<Rightarrow> string \<Rightarrow> bytes list option"
  dial_tcp :: "broker_event list \<Rightarrow> bytes \<Rightarrow> int \<Rightarrow> bool"

record network_broker =
  cfg :: egress_config
  used :: int
  policy :: "address_policy option"
  grants :: "string set"
  asked :: "string set"

definition start_broker :: "egress_config \<Rightarrow> address_policy \<Rightarrow> network_broker" where
  "start_broker c p = \<lparr>cfg = c, used = 0, policy = Some p, grants = {}, asked = {}\<rparr>"

text \<open>The Unicode case tables of the standard library, for text that is not ASCII.\<close>

record unicode_case =
  lower_table :: "string \<Rightarrow> string"
  fold_table :: "string \<Rightarrow> string \<Rightarrow> bool"

section \<open>The consent protocol\<close>

definition broker_message_bytes :: nat where "broker_message_bytes = 4096"

definition request_json :: "string \<Rightarrow> int \<Rightarrow> json" where
  "request_json host port = JObj [(''schema_version'', JNum (show_int 1)),
     (''host'', JStr host), (''port'', JNum (show_int port))]"

definition response_json :: "bool \<Rightarrow> json" where
  "response_json allow = JObj [(''schema_version'', JNum (show_int 1)), (''allow'', JBool allow)]"

definition decode_request :: "unicode_case \<Rightarrow> string \<Rightarrow> (int \<times> string \<times> int) option" where
  "decode_request uc raw = Option.bind
     (decode_struct (fold_table uc) [''schema_version'', ''host'', ''port''] raw)
     (\<lambda>ms. case (assign int_of_json ''schema_version'' 0 ms, assign string_of_json ''host'' [] ms,
                 assign int_of_json ''port'' 0 ms) of
        (Some v, Some h, Some p) \<Rightarrow> Some (v, h, p) | _ \<Rightarrow> None)"

definition decode_response :: "unicode_case \<Rightarrow> string \<Rightarrow> (int \<times> bool) option" where
  "decode_response uc raw = Option.bind
     (decode_struct (fold_table uc) [''schema_version'', ''allow''] raw)
     (\<lambda>ms. case (assign int_of_json ''schema_version'' 0 ms, assign bool_of_json ''allow'' False ms) of
        (Some v, Some a) \<Rightarrow> Some (v, a) | _ \<Rightarrow> None)"

text \<open>
  One round of serveNetworkPromptAgent: the bytes received (None: the read failed) and the
  response written. \<open>prompt\<close> is the human decision.
\<close>

definition prompt_agent ::
  "unicode_case \<Rightarrow> (string \<Rightarrow> int \<Rightarrow> bool) \<Rightarrow> string option \<Rightarrow> string" where
  "prompt_agent uc prompt raw = show_json (response_json
     (case raw of
        None \<Rightarrow> False
      | Some r \<Rightarrow> if length r \<le> broker_message_bytes then
          (case decode_request uc r of
             Some (v, host, port) \<Rightarrow>
               if v = 1 \<and> 0 < port \<and> port \<le> max_tcp_port \<and> valid_request_host host
               then prompt host port else False
           | None \<Rightarrow> False) else False))"

definition grant_key :: "unicode_case \<Rightarrow> string \<Rightarrow> int \<Rightarrow> string" where
  "grant_key uc host port = to_lower (lower_table uc) host @ '':'' @ show_int port"

definition request_text :: "unicode_case \<Rightarrow> string \<Rightarrow> int \<Rightarrow> string" where
  "request_text uc host port = show_json (request_json (to_lower (lower_table uc) host) port)"

text \<open>What the answer of the agent means: None is consent.\<close>

definition consent_result :: "unicode_case \<Rightarrow> exchange \<Rightarrow> dial_error option" where
  "consent_result uc x = (case x of
      AgentUnavailable \<Rightarrow> Some PromptUnavailable
    | RequestFailed \<Rightarrow> Some PromptRequestFailed
    | ResponseFailed \<Rightarrow> Some PromptResponseFailed
    | Response r \<Rightarrow>
        if length r > broker_message_bytes then Some PromptResponseFailed
        else (case decode_response uc r of
            Some (v, allow) \<Rightarrow> if v \<noteq> 1 \<or> \<not> allow then Some DestinationDenied else None
          | None \<Rightarrow> Some DestinationDenied))"

definition authorize :: "unicode_case \<Rightarrow> network_world \<Rightarrow> string \<Rightarrow> int \<Rightarrow>
    broker_event list \<times> network_broker \<Rightarrow> dial_error option \<times> broker_event list \<times> network_broker" where
  "authorize uc w host port = (\<lambda>(tr, b).
     let key = grant_key uc host port in
     if key \<in> grants b then (None, tr, b)
     else if key \<notin> asked b \<and> int (card (asked b)) \<ge> max_destinations (cfg b)
     then (Some DestinationLimit, tr, b)
     else
       let b1 = b\<lparr>asked := insert key (asked b)\<rparr>;
           raw = request_text uc host port;
           tr1 = tr @ [AskAgent raw];
           e = consent_result uc (ask_agent w tr raw)
       in (e, tr1, if e = None then b1\<lparr>grants := insert key (grants b1)\<rparr> else b1))"

section \<open>Dialling\<close>

text \<open>The dial loop: the first address that answers.\<close>

fun dial_first :: "network_world \<Rightarrow> int \<Rightarrow> bytes list \<Rightarrow> broker_event list \<Rightarrow> bytes option \<times> broker_event list" where
  "dial_first w port [] tr = (None, tr)"
| "dial_first w port (a # as) tr =
     (if dial_tcp w tr a port then (Some a, tr @ [DialTo a port])
      else dial_first w port as (tr @ [DialTo a port]))"

definition dial_public :: "unicode_case \<Rightarrow> network_world \<Rightarrow> string \<Rightarrow> int \<Rightarrow>
    broker_event list \<times> network_broker \<Rightarrow> (dial_error + bytes) \<times> broker_event list \<times> network_broker" where
  "dial_public uc w host port = (\<lambda>(tr, b).
     if \<not> policy_port (policy b) port then (Inl PortDenied, tr, b)
     else if \<not> valid_request_host host then (Inl InvalidHost, tr, b)
     else if \<not> permits_host (lower_table uc) (cfg b) host then (Inl OutsideHostSet, tr, b)
     else (case authorize uc w host port (tr, b) of
         (Some e, tr1, b1) \<Rightarrow> (Inl e, tr1, b1)
       | (None, tr1, b1) \<Rightarrow>
           (let tr2 = tr1 @ [Resolve host] in
            case lookup_ip w tr1 host of
              None \<Rightarrow> (Inl ResolutionFailed, tr2, b1)
            | Some as \<Rightarrow>
                if as = [] then (Inl ResolutionFailed, tr2, b1)
                else if \<not> list_all (policy_public (policy b1)) as then (Inl NonPublicAnswer, tr2, b1)
                else (case dial_first w port as tr2 of
                    (Some a, tr3) \<Rightarrow> (Inr a, tr3, b1)
                  | (None, tr3) \<Rightarrow> (Inl AllDestinationsFailed, tr3, b1)))))"

section \<open>The consent state\<close>

text \<open>
  The grants are among the questions asked, and the questions within the destination limit.
\<close>

definition consent_inv :: "network_broker \<Rightarrow> bool" where
  "consent_inv b = (grants b \<subseteq> asked b \<and> finite (asked b) \<and> int (card (asked b)) \<le> max_destinations (cfg b))"

text \<open>The agent's answer to a request text allows it.\<close>

definition agent_allows :: "unicode_case \<Rightarrow> exchange \<Rightarrow> bool" where
  "agent_allows uc x = (case x of
      Response r \<Rightarrow> length r \<le> broker_message_bytes \<and> decode_response uc r = Some (1, True) | _ \<Rightarrow> False)"

lemma consent_result_None:
  "consent_result uc x = None \<longleftrightarrow> agent_allows uc x"
  "consent_result uc x \<noteq> Some DestinationLimit"
  by (auto simp: consent_result_def agent_allows_def split: exchange.split option.split prod.split)

lemma authorize_cases:
  assumes "authorize uc w host port (tr, b) = (r, tr', b')"
  obtains
    (granted) "grant_key uc host port \<in> grants b" "r = None" "tr' = tr" "b' = b"
  | (limit) "grant_key uc host port \<notin> grants b" "grant_key uc host port \<notin> asked b"
      "int (card (asked b)) \<ge> max_destinations (cfg b)" "r = Some DestinationLimit" "tr' = tr" "b' = b"
  | (ask) "grant_key uc host port \<notin> grants b"
      "grant_key uc host port \<in> asked b \<or> int (card (asked b)) < max_destinations (cfg b)"
      "tr' = tr @ [AskAgent (request_text uc host port)]"
      "b' = b\<lparr>asked := insert (grant_key uc host port) (asked b),
             grants := (if r = None then insert (grant_key uc host port) (grants b) else grants b)\<rparr>"
      "r = None \<longleftrightarrow> agent_allows uc (ask_agent w tr (request_text uc host port))"
      "r \<noteq> Some DestinationLimit"
proof (cases "grant_key uc host port \<in> grants b")
  case True
  with assms show ?thesis by (intro granted) (simp_all add: authorize_def)
next
  case ng: False
  show ?thesis
  proof (cases "grant_key uc host port \<notin> asked b \<and> int (card (asked b)) \<ge> max_destinations (cfg b)")
    case True
    with assms ng show ?thesis by (intro limit) (simp_all add: authorize_def)
  next
    case False
    with assms ng consent_result_None[of uc "ask_agent w tr (request_text uc host port)"] show ?thesis
      by (intro ask) (auto simp: authorize_def Let_def)
  qed
qed

lemma authorize_inv [go_inv]:
  assumes "authorize uc w host port (tr, b) = (r, tr', b')" "consent_inv b"
  shows "consent_inv b'"
  using assms(1)
proof (cases rule: authorize_cases)
  case ask
  let ?k = "grant_key uc host port"
  have "int (card (insert ?k (asked b))) \<le> max_destinations (cfg b)"
    using ask(2) assms(2) by (auto simp: consent_inv_def card_insert_if)
  with ask(4) assms(2) show ?thesis by (auto simp: consent_inv_def)
qed (use assms(2) in simp_all)

lemma authorize_keeps:
  assumes "authorize uc w host port (tr, b) = (r, tr', b')"
  shows "cfg b' = cfg b \<and> policy b' = policy b \<and> used b' = used b \<and>
    grants b \<subseteq> grants b' \<and> asked b \<subseteq> asked b' \<and> (r = None \<longrightarrow> grant_key uc host port \<in> grants b')"
  using assms by (cases rule: authorize_cases) auto

section \<open>What one dial does\<close>

lemma dial_first_shape:
  assumes "dial_first w port as tr = (r, tr')"
  shows "\<exists>ds. tr' = tr @ map (\<lambda>a. DialTo a port) ds \<and> set ds \<subseteq> set as \<and> (\<forall>a. r = Some a \<longrightarrow> a \<in> set ds)"
  using assms
proof (induction w port as tr arbitrary: r tr' rule: dial_first.induct)
  case (1 w port tr)
  then show ?case by (intro exI[of _ "[]"]) auto
next
  case (2 w port a as tr)
  show ?case
  proof (cases "dial_tcp w tr a port")
    case True
    with 2 show ?thesis by (intro exI[of _ "[a]"]) auto
  next
    case False
    with 2 obtain ds where "tr' = (tr @ [DialTo a port]) @ map (\<lambda>a. DialTo a port) ds"
        "set ds \<subseteq> set as" "\<forall>a. r = Some a \<longrightarrow> a \<in> set ds"
      by fastforce
    then show ?thesis by (intro exI[of _ "a # ds"]) auto
  qed
qed

section \<open>Consent over the life of the broker\<close>

text \<open>Any number of dials, for requests of any connections, in the order they get the lock.\<close>

definition run_dials :: "unicode_case \<Rightarrow> network_world \<Rightarrow> (string \<times> int) list \<Rightarrow>
    broker_event list \<times> network_broker \<Rightarrow> broker_event list \<times> network_broker" where
  "run_dials uc w reqs s = foldl (\<lambda>s (host, port). snd (dial_public uc w host port s)) s reqs"

text \<open>The agent was asked for this host and port before, and its answer at that moment was consent.\<close>

definition consented :: "unicode_case \<Rightarrow> network_world \<Rightarrow> broker_event list \<Rightarrow> string \<Rightarrow> int \<Rightarrow> bool" where
  "consented uc w tr host port \<longleftrightarrow>
     (\<exists>j < length tr. tr ! j = AskAgent (request_text uc host port) \<and>
        agent_allows uc (ask_agent w (take j tr) (request_text uc host port)))"

text \<open>
  What must hold of the past when an event happens. A dialled address is public and comes from
  the resolution made for this dial: only dials lie between the two.
\<close>

definition event_ok :: "unicode_case \<Rightarrow> network_world \<Rightarrow> egress_config \<Rightarrow> address_policy option \<Rightarrow>
    broker_event list \<Rightarrow> broker_event \<Rightarrow> bool" where
  "event_ok uc w c p tr e = (case e of
      AskAgent _ \<Rightarrow> True
    | Resolve host \<Rightarrow> valid_request_host host \<and> permits_host (lower_table uc) c host \<and>
        (\<exists>port. policy_port p port \<and> consented uc w tr host port)
    | DialTo a port \<Rightarrow> policy_port p port \<and> policy_public p a \<and>
        (\<exists>pre host ds as. tr = pre @ Resolve host # map (\<lambda>d. DialTo d port) ds \<and>
           lookup_ip w pre host = Some as \<and> a \<in> set as \<and> consented uc w pre host port))"

definition trace_ok :: "unicode_case \<Rightarrow> network_world \<Rightarrow> egress_config \<Rightarrow> address_policy option \<Rightarrow>
    broker_event list \<Rightarrow> bool" where
  "trace_ok uc w c p tr \<longleftrightarrow> (\<forall>i < length tr. event_ok uc w c p (take i tr) (tr ! i))"

lemma trace_ok_Nil [simp]: "trace_ok uc w c p []"
  by (simp add: trace_ok_def)

lemma trace_ok_snoc: "trace_ok uc w c p (tr @ [e]) \<longleftrightarrow> trace_ok uc w c p tr \<and> event_ok uc w c p tr e"
  by (auto simp: trace_ok_def nth_append less_Suc_eq)

lemma consented_append: "consented uc w tr host port \<Longrightarrow> consented uc w (tr @ es) host port"
  by (fastforce simp: consented_def nth_append)

lemma consented_snoc:
  "agent_allows uc (ask_agent w tr (request_text uc host port)) \<Longrightarrow>
     consented uc w (tr @ [AskAgent (request_text uc host port)]) host port"
  by (auto simp: consented_def intro!: exI[of _ "length tr"])

text \<open>A key names the host, up to case, and the port.\<close>

lemma show_int_no_colon: "CHR '':'' \<notin> set (show_int p)"
  using show_nat_digits[of "nat p"] show_nat_digits[of "nat (- p)"] by (auto simp: show_int_def)

lemma grant_key_text:
  assumes "grant_key uc h p = grant_key uc h' p'"
  shows "request_text uc h p = request_text uc h' p'"
proof -
  have last: "takeWhile (\<lambda>c. c \<noteq> CHR '':'') (rev (grant_key uc h p)) = rev (show_int p)" for h p
    using show_int_no_colon[of p] by (auto simp: grant_key_def takeWhile_append2 takeWhile_append)
  have "show_int p = show_int p'" using last[of h p] last[of h' p'] assms by simp
  with assms have "to_lower (lower_table uc) h = to_lower (lower_table uc) h'"
    by (simp add: grant_key_def)
  with \<open>show_int p = show_int p'\<close> show ?thesis by (simp add: request_text_def request_json_def)
qed

text \<open>The invariant: every grant rests on a recorded consent, and the trace is in order.\<close>

definition life_inv :: "unicode_case \<Rightarrow> network_world \<Rightarrow> egress_config \<Rightarrow> address_policy option \<Rightarrow>
    broker_event list \<times> network_broker \<Rightarrow> bool" where
  "life_inv uc w c p = (\<lambda>(tr, b). cfg b = c \<and> policy b = p \<and> consent_inv b \<and> trace_ok uc w c p tr \<and>
     (\<forall>host port. grant_key uc host port \<in> grants b \<longrightarrow> consented uc w tr host port))"

lemma life_inv_start: "0 \<le> max_destinations c \<Longrightarrow> life_inv uc w c (Some p) ([], start_broker c p)"
  by (simp add: life_inv_def start_broker_def consent_inv_def)

lemma authorize_life:
  assumes a: "authorize uc w host port (tr, b) = (r, tr', b')" and inv: "life_inv uc w c p (tr, b)"
  shows "life_inv uc w c p (tr', b')"
proof -
  have ci: "consent_inv b'" using authorize_inv[OF a] inv by (simp add: life_inv_def)
  show ?thesis using a
  proof (cases rule: authorize_cases)
    case ask
    have gr: "consented uc w tr' h q" if "grant_key uc h q \<in> grants b'" for h q
    proof (cases "grant_key uc h q \<in> grants b")
      case True
      with inv have "consented uc w tr h q" by (auto simp: life_inv_def)
      then show ?thesis unfolding ask(3) by (rule consented_append)
    next
      case False
      with that ask(4) have r: "r = None" and k: "grant_key uc h q = grant_key uc host port"
        by (auto split: if_splits)
      from grant_key_text[OF k] have "request_text uc h q = request_text uc host port" .
      with r ask(3,5) consented_snoc[of uc w tr h q] show ?thesis by simp
    qed
    with ask(3,4) inv ci show ?thesis by (simp add: life_inv_def trace_ok_snoc event_ok_def)
  qed (use inv in simp_all)
qed

lemma dial_events_trace_ok:
  assumes "trace_ok uc w c p (pre @ [Resolve host])" "policy_port p port" "consented uc w pre host port"
    and "lookup_ip w pre host = Some as" "set ds \<subseteq> set as" "\<forall>a \<in> set as. policy_public p a"
  shows "trace_ok uc w c p (pre @ Resolve host # map (\<lambda>d. DialTo d port) ds)"
  using assms(5)
proof (induction ds rule: rev_induct)
  case Nil
  then show ?case using assms(1) by simp
next
  case (snoc d ds)
  have "event_ok uc w c p (pre @ Resolve host # map (\<lambda>d. DialTo d port) ds) (DialTo d port)"
    unfolding event_ok_def broker_event.case
    by (intro conjI exI[of _ pre] exI[of _ host] exI[of _ ds] exI[of _ as]) (use assms snoc.prems in auto)
  then show ?case
    using snoc trace_ok_snoc[of uc w c p "pre @ Resolve host # map (\<lambda>d. DialTo d port) ds" "DialTo d port"] by simp
qed

lemma dial_public_life:
  assumes inv: "life_inv uc w c p s"
  shows "life_inv uc w c p (snd (dial_public uc w host port s))"
proof -
  obtain tr b where s: "s = (tr, b)" by (cases s)
  obtain r tr' b' where d: "dial_public uc w host port (tr, b) = (r, tr', b')"
    by (cases "dial_public uc w host port (tr, b)") auto
  show ?thesis
  proof (cases "policy_port (policy b) port \<and> valid_request_host host \<and> permits_host (lower_table uc) (cfg b) host")
    case False
    then have "tr' = tr" "b' = b" using d by (auto simp: dial_public_def split: if_splits)
    with inv d s show ?thesis by simp
  next
    case ok: True
    obtain e tr1 b1 where a: "authorize uc w host port (tr, b) = (e, tr1, b1)"
      by (cases "authorize uc w host port (tr, b)") auto
    have inv1: "life_inv uc w c p (tr1, b1)" using authorize_life[OF a] inv s by simp
    note keep = authorize_keeps[OF a]
    show ?thesis
    proof (cases e)
      case (Some err)
      with d ok a s inv1 show ?thesis by (simp add: dial_public_def)
    next
      case None
      have con: "consented uc w tr1 host port" using inv1 keep None by (auto simp: life_inv_def)
      have "event_ok uc w c p tr1 (Resolve host)"
        using ok con inv s by (auto simp: event_ok_def life_inv_def)
      with inv1 have inv2: "trace_ok uc w c p (tr1 @ [Resolve host])"
        by (simp add: trace_ok_snoc life_inv_def)
      have port: "policy_port p port" and pol: "policy b1 = p" using ok inv s inv1 by (auto simp: life_inv_def)
      obtain ds where ds: "tr' = tr1 @ Resolve host # map (\<lambda>d. DialTo d port) ds" "b' = b1"
        and dd: "ds \<noteq> [] \<longrightarrow> (\<exists>as. lookup_ip w tr1 host = Some as \<and> set ds \<subseteq> set as \<and> (\<forall>x \<in> set as. policy_public p x))"
      proof (cases "\<exists>as. lookup_ip w tr1 host = Some as \<and> as \<noteq> [] \<and> list_all (policy_public (policy b1)) as")
        case False
        with d ok a None have "tr' = tr1 @ [Resolve host]" "b' = b1"
          by (auto simp: dial_public_def Let_def split: option.splits if_splits)
        then show ?thesis using that[of "[]"] by simp
      next
        case True
        then obtain as where as: "lookup_ip w tr1 host = Some as" "as \<noteq> []" "list_all (policy_public (policy b1)) as"
          by blast
        obtain x tr3 where f: "dial_first w port as (tr1 @ [Resolve host]) = (x, tr3)"
          by (cases "dial_first w port as (tr1 @ [Resolve host])")
        from dial_first_shape[OF f] obtain ds where
          q: "tr3 = (tr1 @ [Resolve host]) @ map (\<lambda>a. DialTo a port) ds" "set ds \<subseteq> set as" by blast
        have "tr' = tr3" "b' = b1"
          using d ok a None as f by (auto simp: dial_public_def Let_def split: option.splits)
        then show ?thesis using that[of ds] q as pol by (auto simp: list_all_iff)
      qed
      have "trace_ok uc w c p tr'"
      proof (cases "ds = []")
        case True
        with ds inv2 show ?thesis by simp
      next
        case False
        with dd obtain as where "lookup_ip w tr1 host = Some as" "set ds \<subseteq> set as" "\<forall>x \<in> set as. policy_public p x"
          by blast
        with dial_events_trace_ok[OF inv2 port con] ds(1) show ?thesis by blast
      qed
      moreover have "consented uc w tr' h q" if "grant_key uc h q \<in> grants b1" for h q
        using that inv1 ds(1) consented_append[of uc w tr1 h q] by (auto simp: life_inv_def)
      ultimately show ?thesis using d s ds(2) inv1 by (simp add: life_inv_def)
    qed
  qed
qed

lemma run_dials_life: "life_inv uc w c p s \<Longrightarrow> life_inv uc w c p (run_dials uc w reqs s)"
proof (induction reqs arbitrary: s)
  case (Cons r reqs)
  have "life_inv uc w c p (snd (dial_public uc w (fst r) (snd r) s))"
    using Cons.prems by (rule dial_public_life)
  then show ?case using Cons.IH by (simp add: run_dials_def split_def)
qed (simp add: run_dials_def)

section \<open>The two ends of the consent protocol\<close>

lemma host_char_html_safe: "host_char c \<Longrightarrow> html_safe c"
proof -
  assume h: "host_char c"
  then have "33 \<le> code c \<and> code c \<le> 126" by (rule host_char_printable)
  moreover from h have "c \<noteq> CHR 0x22 \<and> c \<noteq> CHR 0x5C \<and> c \<noteq> CHR ''<'' \<and> c \<noteq> CHR ''>'' \<and> c \<noteq> CHR ''&''"
    by (auto simp: host_char_def is_alnum_def)
  ultimately show ?thesis by (simp add: html_safe_def)
qed

lemma marshal_html_safe: "list_all html_safe s \<Longrightarrow> marshal_chars s = s"
proof (induction s)
  case (Cons c s)
  then have "code c < 128" by (simp add: html_safe_def)
  with Cons show ?case by (subst marshal_chars.simps) simp
qed (simp add: marshal_chars.simps)

lemma length_show_nat: "n < 10 ^ k \<Longrightarrow> 0 < k \<Longrightarrow> length (show_nat n) \<le> k"
proof (induction n arbitrary: k rule: show_nat.induct)
  case (1 n)
  show ?case
  proof (cases "n < 10")
    case True
    with 1 show ?thesis by (subst show_nat.simps) simp
  next
    case False
    obtain j where k: "k = Suc j" "0 < j"
    proof (cases k)
      case (Suc j)
      with 1 False that show ?thesis by (cases j) auto
    qed (use 1 in simp)
    have "n div 10 < 10 ^ j" using 1 k by (simp add: less_mult_imp_div_less)
    with "1.IH"[OF False, of j] k False show ?thesis by (subst show_nat.simps) simp
  qed
qed

lemma protocol_literals:
  "marshal_chars ''schema_version'' = ''schema_version''" "marshal_chars ''host'' = ''host''"
  "marshal_chars ''port'' = ''port''" "marshal_chars ''allow'' = ''allow''"
  "valid_utf8 ''schema_version''" "valid_utf8 ''host''" "valid_utf8 ''port''" "valid_utf8 ''allow''"
  by (rule marshal_html_safe valid_utf8_ascii; simp add: html_safe_def all_ascii_def is_ascii_def)+

lemma show_int_1: "show_int 1 = ''1''"
  by code_simp

context host_syntax
begin

lemma request_fits:
  assumes "valid host" "0 < port" "port \<le> max_tcp_port"
  shows "length (request_text uc host port) \<le> broker_message_bytes"
proof -
  have chars: "list_all html_safe (map lower_char host)"
  proof -
    have "host_char (lower_char c)" if "host_char c" for c
      using that by (auto simp: host_char_def is_alnum_lower lower_char_id is_upper_code)
    then show ?thesis using valid_chars[OF assms(1)] host_char_html_safe by (auto simp: list_all_iff)
  qed
  have "length (show_int port) \<le> 5"
    using assms length_show_nat[of "nat port" 5] by (simp add: show_int_def max_tcp_port_def nat_less_iff)
  then show ?thesis
    using valid_length[OF assms(1)] chars
    by (simp add: request_text_def request_json_def show_json.simps show_members.simps marshal_string_def
        marshal_html_safe valid_to_lower[OF assms(1)] broker_message_bytes_def protocol_literals show_int_1)
qed

end

lemma wf_request:
  assumes "all_ascii host" "0 < port"
  shows "wf_json 0 (request_json (to_lower (lower_table uc) host) port)"
  using assms(2) wf_show_int[of 1] wf_show_int[of port] valid_utf8_ascii[of "map lower_char host"] assms(1)
  by (simp add: request_json_def max_nesting_def protocol_literals)

lemma decode_request_text:
  assumes "all_ascii host" "0 < port" "port \<le> max_tcp_port"
  shows "decode_request uc (request_text uc host port) = Some (1, map lower_char host, port)"
proof -
  have i: "parse_int 10 64 (show_int 1) = Some 1" "parse_int 10 64 (show_int port) = Some port"
    using assms by (simp_all add: parse_int_show_int in_int64_def max_tcp_port_def)
  have "decode_struct (fold_table uc) [''schema_version'', ''host'', ''port''] (request_text uc host port) =
      Some [(''schema_version'', JNum (show_int 1)), (''host'', JStr (map lower_char host)), (''port'', JNum (show_int port))]"
    using wf_request[OF assms(1,2)] assms(1) decode_show_struct unfolding request_text_def request_json_def by simp
  then show ?thesis using i
    by (simp add: decode_request_def assign_def int_of_json_def string_of_json_def)
qed

lemma decode_response_text:
  "decode_response uc (show_json (response_json a)) = Some (1, a)"
  "length (show_json (response_json a)) \<le> broker_message_bytes"
proof -
  have i: "parse_int 10 64 (show_int 1) = Some 1" by (simp add: parse_int_show_int in_int64_def)
  have "wf_json 0 (response_json a)"
    using wf_show_int[of 1] by (simp add: response_json_def max_nesting_def protocol_literals)
  then have "decode_struct (fold_table uc) [''schema_version'', ''allow''] (show_json (response_json a)) =
      Some [(''schema_version'', JNum (show_int 1)), (''allow'', JBool a)]"
    unfolding response_json_def by (intro decode_show_struct) simp_all
  then show "decode_response uc (show_json (response_json a)) = Some (1, a)" using i
    by (simp add: decode_response_def assign_def int_of_json_def bool_of_json_def)
  show "length (show_json (response_json a)) \<le> broker_message_bytes"
    by (simp add: response_json_def show_json.simps show_members.simps marshal_string_def
        broker_message_bytes_def protocol_literals show_int_1)
qed

lemma prompt_agent_answer:
  assumes "valid_request_host host" "0 < port" "port \<le> max_tcp_port"
  shows "prompt_agent uc prompt (Some (request_text uc host port)) =
    show_json (response_json (prompt (map lower_char host) port))"
  using request_host.request_fits[OF assms] assms
    decode_request_text[OF request_host.valid_ascii[OF assms(1)] assms(2,3), of uc]
  by (simp add: prompt_agent_def valid_request_host_lower)

text \<open>Every question recorded in the trace belongs to a destination counted as asked.\<close>

definition asked_inv :: "unicode_case \<Rightarrow> broker_event list \<times> network_broker \<Rightarrow> bool" where
  "asked_inv uc = (\<lambda>(tr, b). \<forall>t. AskAgent t \<in> set tr \<longrightarrow>
     (\<exists>host port. t = request_text uc host port \<and> grant_key uc host port \<in> asked b))"

lemma authorize_asked:
  assumes "authorize uc w host port (tr, b) = (r, tr', b')" "asked_inv uc (tr, b)"
  shows "asked_inv uc (tr', b')"
  using assms by (cases rule: authorize_cases) (fastforce simp: asked_inv_def)+

lemma asked_inv_append:
  "asked_inv uc (tr, b) \<Longrightarrow> (\<forall>t. AskAgent t \<notin> set es) \<Longrightarrow> asked_inv uc (tr @ es, b)"
  by (auto simp: asked_inv_def)

lemma dial_first_no_ask:
  "dial_first w port as tr = (r, tr') \<Longrightarrow> \<exists>es. tr' = tr @ es \<and> (\<forall>t. AskAgent t \<notin> set es)"
  using dial_first_shape[of w port as tr r tr'] by auto

lemma dial_public_asked:
  assumes inv: "asked_inv uc s"
  shows "asked_inv uc (snd (dial_public uc w host port s))"
proof -
  obtain tr b where s: "s = (tr, b)" by (cases s)
  obtain e tr1 b1 where a: "authorize uc w host port (tr, b) = (e, tr1, b1)"
    by (cases "authorize uc w host port (tr, b)") auto
  have i1: "asked_inv uc (tr1, b1)" using authorize_asked[OF a] inv s by simp
  then have i2: "asked_inv uc (tr1 @ [Resolve host], b1)" by (rule asked_inv_append) simp
  have i3: "asked_inv uc (snd (dial_first w port as (tr1 @ [Resolve host])), b1)" for as
  proof -
    obtain x tr3 where f: "dial_first w port as (tr1 @ [Resolve host]) = (x, tr3)"
      by (cases "dial_first w port as (tr1 @ [Resolve host])")
    then obtain es where "tr3 = (tr1 @ [Resolve host]) @ es" "\<forall>t. AskAgent t \<notin> set es"
      using dial_first_no_ask by blast
    with asked_inv_append[OF i2, of es] f show ?thesis by simp
  qed
  show ?thesis using inv i1 i2 i3
    by (auto simp: dial_public_def s a Let_def split: option.split prod.split) (metis snd_conv)+
qed

lemma run_dials_asked: "asked_inv uc s \<Longrightarrow> asked_inv uc (run_dials uc w reqs s)"
proof (induction reqs arbitrary: s)
  case (Cons r reqs)
  have "asked_inv uc (snd (dial_public uc w (fst r) (snd r) s))"
    using Cons.prems by (rule dial_public_asked)
  then show ?case using Cons.IH by (simp add: run_dials_def split_def)
qed (simp add: run_dials_def)

lemma asked_texts_card:
  assumes "asked_inv uc (tr, b)" "finite (asked b)"
  shows "card {t. AskAgent t \<in> set tr} \<le> card (asked b)"
proof -
  define f where "f = (\<lambda>k. SOME t. \<exists>host port. t = request_text uc host port \<and> grant_key uc host port = k)"
  have f: "f (grant_key uc host port) = request_text uc host port" for host port
  proof -
    have "\<exists>h q. f (grant_key uc host port) = request_text uc h q \<and> grant_key uc h q = grant_key uc host port"
      unfolding f_def by (rule someI_ex) blast
    then show ?thesis using grant_key_text by metis
  qed
  have "{t. AskAgent t \<in> set tr} \<subseteq> f ` asked b"
    using assms(1) f by (auto simp: asked_inv_def image_iff) metis
  then show ?thesis using assms(2) by (meson card_image_le card_mono finite_imageI le_trans)
qed

section \<open>The proxy protocols\<close>

text \<open>
  What a handled connection amounts to: what was written to the client, and the dialled address
  with the bytes the tunnel forwards to it, or the request that is sent on. \<open>read_full\<close> is
  io.ReadFull whose error is ignored: the missing bytes stay zero and the stream is at its end.
\<close>

datatype upstream = NoUpstream | Tunnel bytes bytes | ForwardHTTP string int

record handled =
  to_client :: "bytes list"
  upstream :: upstream

definition read_full :: "nat \<Rightarrow> bytes \<Rightarrow> bytes \<times> bytes" where
  "read_full n s = (take n s @ replicate (n - length s) 0, drop n s)"

definition socks_host :: "u8 \<Rightarrow> bytes \<Rightarrow> (string \<times> bytes) option" where
  "socks_host atyp s =
     (if atyp = 1 then (case read_full 4 s of (raw, r) \<Rightarrow> Some (show_ip raw, r))
      else if atyp = 4 then (case read_full 16 s of (raw, r) \<Rightarrow> Some (show_ip raw, r))
      else if atyp = 3 then
        (case s of
           [] \<Rightarrow> None
         | n # s' \<Rightarrow> if n = 0 then None
             else (case read_full (unat n) s' of (raw, r) \<Rightarrow> Some (bytes_text raw, r)))
      else None)"

definition handle_socks ::
  "unicode_case \<Rightarrow> (bytes \<Rightarrow> nat) \<Rightarrow> network_world \<Rightarrow> bytes \<Rightarrow>
    broker_event list \<times> network_broker \<Rightarrow> handled \<times> broker_event list \<times> network_broker" where
  "handle_socks uc consumed w s st =
     (let closed = (\<lambda>out. (\<lparr>to_client = out, upstream = NoUpstream\<rparr>, st)) in
      if length s < 2 \<or> s ! 0 \<noteq> 5 \<or> s ! 1 = 0 \<or> s ! 1 > 32 then closed []
      else let n = unat (s ! 1); methods = take n (drop 2 s); s1 = drop (2 + n) s in
        if length methods < n then closed []
        else if 0 \<notin> set methods then closed [[5, 0xff]]
        else if length s1 < 4 \<or> s1 ! 0 \<noteq> 5 \<or> s1 ! 1 \<noteq> 1 then closed [[5, 0]]
        else (case socks_host (s1 ! 3) (drop 4 s1) of
            None \<Rightarrow> closed [[5, 0]]
          | Some (host, s2) \<Rightarrow>
              if length s2 < 2 then closed [[5, 0]]
              else let port = uint (s2 ! 0) * 256 + uint (s2 ! 1); s3 = drop 2 s2 in
                (case dial_public uc w host port st of
                   (Inl e, st') \<Rightarrow> (\<lparr>to_client = [[5, 0], [5, 2, 0, 1, 0, 0, 0, 0, 0, 0]], upstream = NoUpstream\<rparr>, st')
                 | (Inr a, st') \<Rightarrow>
                     (\<lparr>to_client = [[5, 0], [5, 0, 0, 1, 0, 0, 0, 0, 0, 0]],
                       upstream = (case check_tunnel_host (fold_table uc) consumed host s3 of
                           Inl e \<Rightarrow> NoUpstream
                         | Inr (seen, rest) \<Rightarrow> Tunnel a (seen @ rest))\<rparr>, st'))))"

text \<open>What http.ReadRequest reports: the method, the Host, the URL and the number of fields.\<close>

record http_request =
  rq_method :: string
  rq_host :: string
  rq_url :: "(string \<times> string) option"    \<comment> \<open>scheme and host\<close>
  rq_fields :: nat

definition network_http_header_bytes :: nat where "network_http_header_bytes = 128 * 1024"
definition max_http_header_fields :: nat where "max_http_header_fields = 200"

definition proxy_error :: "int \<Rightarrow> bytes" where
  "proxy_error status = text_bytes (''HTTP/1.1 '' @ show_int status @ '' '' @
     (if status = 403 then ''Forbidden'' else if status = 502 then ''Bad Gateway'' else []) @
     [CHR 0x0D, CHR 0x0A] @ ''Connection: close'' @ [CHR 0x0D, CHR 0x0A] @ ''Content-Length: 0'' @
     [CHR 0x0D, CHR 0x0A, CHR 0x0D, CHR 0x0A])"

definition connection_established :: bytes where
  "connection_established = text_bytes (''HTTP/1.1 200 Connection Established'' @
     [CHR 0x0D, CHR 0x0A, CHR 0x0D, CHR 0x0A])"

text \<open>
  handleHTTP. \<open>read_request\<close> parses the request head from at most the header limit and says how
  many bytes it took; a plain request is answered by \<open>Bad Gateway\<close> when the dial fails.
\<close>

definition handle_http ::
  "unicode_case \<Rightarrow> (bytes \<Rightarrow> (http_request \<times> nat) option) \<Rightarrow> (bytes \<Rightarrow> nat) \<Rightarrow> network_world \<Rightarrow> bytes \<Rightarrow>
    broker_event list \<times> network_broker \<Rightarrow> handled \<times> broker_event list \<times> network_broker" where
  "handle_http uc read_request consumed w s st =
     (let refuse = (\<lambda>status st. (\<lparr>to_client = [proxy_error status], upstream = NoUpstream\<rparr>, st)) in
      case read_request (take network_http_header_bytes s) of
        None \<Rightarrow> (\<lparr>to_client = [], upstream = NoUpstream\<rparr>, st)
      | Some (rq, n) \<Rightarrow>
          if rq_fields rq > max_http_header_fields then (\<lparr>to_client = [], upstream = NoUpstream\<rparr>, st)
          else if rq_method rq = ''CONNECT'' then
            (case split_host_port_default (rq_host rq) https_port of
               Inl e \<Rightarrow> refuse 403 st
             | Inr (host, port) \<Rightarrow>
                 if port \<noteq> https_port then refuse 403 st
                 else (case dial_public uc w host port st of
                     (Inl e, st') \<Rightarrow> refuse 403 st'
                   | (Inr a, st') \<Rightarrow>
                       (\<lparr>to_client = [connection_established],
                         upstream = (case check_tunnel_host (fold_table uc) consumed host (drop n s) of
                             Inl e \<Rightarrow> NoUpstream
                           | Inr (seen, rest) \<Rightarrow> Tunnel a (seen @ rest))\<rparr>, st')))
          else (case rq_url rq of
              None \<Rightarrow> refuse 403 st
            | Some (scheme, url_host) \<Rightarrow>
                if scheme \<noteq> ''http'' \<or> url_host = [] then refuse 403 st
                else (case split_host_port_default url_host http_port of
                    Inl e \<Rightarrow> refuse 403 st
                  | Inr (host, port) \<Rightarrow>
                      if port \<noteq> http_port then refuse 403 st
                      else (case dial_public uc w host port st of
                          (Inl e, st') \<Rightarrow> refuse 502 st'
                        | (Inr a, st') \<Rightarrow> (\<lparr>to_client = [], upstream = ForwardHTTP host port\<rparr>, st')))))"

text \<open>handle: the first byte of the connection selects the protocol.\<close>

definition handle_conn ::
  "unicode_case \<Rightarrow> (bytes \<Rightarrow> (http_request \<times> nat) option) \<Rightarrow> (bytes \<Rightarrow> nat) \<Rightarrow>
    network_world \<Rightarrow> bytes \<Rightarrow> broker_event list \<times> network_broker \<Rightarrow> handled \<times> broker_event list \<times> network_broker" where
  "handle_conn uc read_request consumed w s st =
     (case s of
        [] \<Rightarrow> (\<lparr>to_client = [], upstream = NoUpstream\<rparr>, st)
      | b # _ \<Rightarrow> if b = 5 then handle_socks uc consumed w s st
                 else handle_http uc read_request consumed w s st)"

end
