(* ===== verification/Bounded_Sink.thy ===== *)
theory Bounded_Sink
  imports Go_Base
begin

text \<open>
  The contract of every byte ceiling of the program - the transfer quota of the broker, the limit
  of a subprocess output buffer, the expansion limit of an archive scan: a sink is offered chunks,
  takes each of them whole or refuses it, and never holds more than its capacity.
\<close>

text \<open>A sequence of offers, with the verdict on each.\<close>

fun run_puts :: "(nat \<Rightarrow> 's \<Rightarrow> bool \<times> 's) \<Rightarrow> nat list \<Rightarrow> 's \<Rightarrow> bool list \<times> 's" where
  "run_puts put [] s = ([], s)"
| "run_puts put (n # ns) s =
     (case put n s of (ok, s') \<Rightarrow> (case run_puts put ns s' of (oks, s'') \<Rightarrow> (ok # oks, s'')))"

lemma run_puts_Cons [simp]:
  "snd (run_puts put (n # ns) s) = snd (run_puts put ns (snd (put n s)))"
  "fst (run_puts put (n # ns) s) = fst (put n s) # fst (run_puts put ns (snd (put n s)))"
  by (simp_all split: prod.split)

declare run_puts.simps(2) [simp del]

text \<open>The bytes of the chunks that were taken.\<close>

fun accepted_bytes :: "nat list \<Rightarrow> bool list \<Rightarrow> int" where
  "accepted_bytes (n # ns) (ok # oks) = (if ok then int n else 0) + accepted_bytes ns oks"
| "accepted_bytes _ _ = 0"

lemma accepted_bytes_nonneg: "0 \<le> accepted_bytes ns oks"
  by (induction ns oks rule: accepted_bytes.induct) auto

locale bounded_sink =
  fixes put :: "nat \<Rightarrow> 's \<Rightarrow> bool \<times> 's"
    and taken :: "'s \<Rightarrow> int"
    and cap :: "'s \<Rightarrow> int"
    and inv :: "nat \<Rightarrow> 's \<Rightarrow> bool"
  assumes put_inv: "inv (n + m) s \<Longrightarrow> inv m (snd (put n s))"
    and put_cap: "cap (snd (put n s)) = cap s"
    and put_taken: "inv (n + m) s \<Longrightarrow> taken (snd (put n s)) = taken s + (if fst (put n s) then int n else 0)"
    and put_bound: "inv (n + m) s \<Longrightarrow> fst (put n s) \<Longrightarrow> taken (snd (put n s)) \<le> cap s"
begin

text \<open>
  \<open>inv m s\<close> says that the state is sound and may be offered m more bytes.
\<close>

lemma run_cap: "cap (snd (run_puts put ns s)) = cap s"
  by (induction ns arbitrary: s) (simp_all add: put_cap)

lemma run_taken:
  "inv (sum_list ns) s \<Longrightarrow>
     taken (snd (run_puts put ns s)) = taken s + accepted_bytes ns (fst (run_puts put ns s))"
proof (induction ns arbitrary: s)
  case (Cons n ns)
  from Cons.prems have i: "inv (n + sum_list ns) s" by simp
  from Cons.IH[OF put_inv[OF i]] put_taken[OF i] show ?case by simp
qed simp

lemma run_bound:
  "inv (sum_list ns) s \<Longrightarrow> taken s \<le> cap s \<Longrightarrow> taken (snd (run_puts put ns s)) \<le> cap s"
proof (induction ns arbitrary: s)
  case (Cons n ns)
  from Cons.prems have i: "inv (n + sum_list ns) s" by simp
  have "taken (snd (put n s)) \<le> cap (snd (put n s))"
    using put_taken[OF i] put_bound[OF i] put_cap[of n s] Cons.prems(2) by (cases "fst (put n s)") auto
  from Cons.IH[OF put_inv[OF i] this] show ?case by (simp add: put_cap)
qed simp

text \<open>What is accepted in a run never exceeds what was left.\<close>

lemma run_accepted:
  "inv (sum_list ns) s \<Longrightarrow> taken s \<le> cap s \<Longrightarrow>
     accepted_bytes ns (fst (run_puts put ns s)) \<le> cap s - taken s"
  using run_taken[of ns s] run_bound[of ns s] by simp

end

end
