(* ===== verification/Broker_Sessions.thy ===== *)
theory Broker_Sessions
  imports Broker Bounded_Sink
begin

text \<open>
  Whole connections through the broker: whatever bytes the sandbox sends over any number of
  connections, names are resolved only after consent, only public addresses are dialled, a tunnel
  forwards exactly the client's bytes and only when they name the approved host, and the bytes
  forwarded over all connections stay within the transfer quota.
\<close>

section \<open>Connections only dial through dialPublic\<close>

text \<open>
  The contract between the proxy protocols and the dialler: handling a connection changes the
  shared state at most by one dial.
\<close>

locale dial_client =
  fixes dial :: "string \<Rightarrow> int \<Rightarrow> 's \<Rightarrow> 'd \<times> 's"
    and handle :: "'c \<Rightarrow> 's \<Rightarrow> 'r \<times> 's"
  assumes only_dials: "snd (handle c s) = s \<or> (\<exists>host port. snd (handle c s) = snd (dial host port s))"
begin

lemma handle_keeps:
  assumes "\<And>host port s. P s \<Longrightarrow> P (snd (dial host port s))" "P s"
  shows "P (snd (handle c s))"
  using only_dials[of c s] assms by auto

lemma handles_keep:
  assumes "\<And>host port s. P s \<Longrightarrow> P (snd (dial host port s))" "P s"
  shows "P (foldl (\<lambda>s c. snd (handle c s)) s cs)"
  using assms(2)
proof (induction cs arbitrary: s)
  case (Cons c cs)
  from handle_keeps[where P = P, OF assms(1) Cons.prems] have "P (snd (handle c s))" .
  from Cons.IH[OF this] show ?case by simp
qed simp

end

lemma handle_socks_dials:
  "snd (handle_socks uc consumed w s st) = st \<or>
   (\<exists>host port. snd (handle_socks uc consumed w s st) = snd (dial_public uc w host port st))"
  by (auto simp: handle_socks_def Let_def split: option.split sum.split prod.split) (metis snd_conv)+

lemma handle_http_dials:
  "snd (handle_http uc rd consumed w s st) = st \<or>
   (\<exists>host port. snd (handle_http uc rd consumed w s st) = snd (dial_public uc w host port st))"
  by (auto simp: handle_http_def Let_def split: option.split sum.split prod.split) (metis snd_conv)+

interpretation conn: dial_client "dial_public uc w" "handle_conn uc rd consumed w"
  for uc w rd consumed
  using handle_socks_dials handle_http_dials
  by unfold_locales (auto simp: handle_conn_def split: list.split)

text \<open>A list of connections, each given by the bytes its client sends.\<close>

definition run_conns ::
  "unicode_case \<Rightarrow> (bytes \<Rightarrow> (http_request \<times> nat) option) \<Rightarrow> (bytes \<Rightarrow> nat) \<Rightarrow> network_world \<Rightarrow>
    bytes list \<Rightarrow> broker_event list \<times> network_broker \<Rightarrow> broker_event list \<times> network_broker" where
  "run_conns uc rd consumed w clients st = foldl (\<lambda>s c. snd (handle_conn uc rd consumed w c s)) st clients"

lemma run_conns_life: "life_inv uc w c p st \<Longrightarrow> life_inv uc w c p (run_conns uc rd consumed w clients st)"
  unfolding run_conns_def by (rule conn.handles_keep[where P = "life_inv uc w c p"]) (rule dial_public_life)

lemma run_conns_asked: "asked_inv uc st \<Longrightarrow> asked_inv uc (run_conns uc rd consumed w clients st)"
  unfolding run_conns_def by (rule conn.handles_keep[where P = "asked_inv uc"]) (rule dial_public_asked)

section \<open>The tunnel check\<close>

lemma check_tunnel_host_replay:
  assumes "check_tunnel_host uf consumed host client = Inr (seen, rest)"
  shows "seen @ rest = client"
  using assms
  by (auto simp: check_tunnel_host_def Let_def min_def take_take split: sum.splits if_splits)

lemma check_tunnel_host_named:
  assumes "check_tunnel_host uf consumed host client = Inr (seen, rest)"
    and "parse_ip (trim_both (set ''[]'') host) = None"
  shows "\<exists>requested. tunnel_requested_host uf (take tunnel_host_limit client) = Inr requested \<and>
    valid_request_host requested \<and> equal_fold uf (trim_suffix requested ''.'') (trim_suffix host ''.'')"
  using assms by (auto simp: check_tunnel_host_def Let_def split: sum.splits if_splits)

text \<open>The host a tunnel was approved for, and what the client's first message must say.\<close>

definition names_host :: "unicode_case \<Rightarrow> string \<Rightarrow> bytes \<Rightarrow> bool" where
  "names_host uc host stream \<longleftrightarrow>
     (case tunnel_requested_host (fold_table uc) (take tunnel_host_limit stream) of
        Inr requested \<Rightarrow> valid_request_host requested \<and>
          equal_fold (fold_table uc) (trim_suffix requested ''.'') (trim_suffix host ''.'')
      | Inl e \<Rightarrow> False)"

lemma check_tunnel_host_sound:
  assumes "check_tunnel_host (fold_table uc) consumed host client = Inr (seen, rest)"
  shows "seen @ rest = client \<and> (parse_ip (trim_both (set ''[]'') host) \<noteq> None \<or> names_host uc host client)"
proof
  show "seen @ rest = client" using assms by (rule check_tunnel_host_replay)
  show "parse_ip (trim_both (set ''[]'') host) \<noteq> None \<or> names_host uc host client"
  proof (cases "parse_ip (trim_both (set ''[]'') host) = None")
    case True
    from check_tunnel_host_named[OF assms True] show ?thesis by (elim exE) (simp add: names_host_def)
  qed simp
qed

lemma socks_host_suffix: "socks_host a s = Some (host, r) \<Longrightarrow> \<exists>k. r = drop k s"
proof -
  assume a: "socks_host a s = Some (host, r)"
  show ?thesis
  proof (cases s)
    case Nil
    with a show ?thesis by (auto simp: socks_host_def read_full_def split: if_splits)
  next
    case (Cons n t)
    with a have "r = drop 4 s \<or> r = drop 16 s \<or> r = drop (Suc (unat n)) s"
      by (auto simp: socks_host_def read_full_def split: if_splits)
    then show ?thesis by blast
  qed
qed

lemma handle_socks_tunnel:
  assumes "handle_socks uc consumed w s st = (h, st')" "upstream h = Tunnel a fwd"
  shows "\<exists>host port k. dial_public uc w host port st = (Inr a, st') \<and> fwd = drop k s \<and>
    (parse_ip (trim_both (set ''[]'') host) \<noteq> None \<or> names_host uc host fwd)"
proof -
  obtain atyp m host s2 port x where sh: "socks_host atyp (drop m s) = Some (host, s2)"
    and d: "dial_public uc w host port st = (Inr x, st')"
    and u: "upstream h = (case check_tunnel_host (fold_table uc) consumed host (drop 2 s2) of
        Inl e \<Rightarrow> NoUpstream | Inr (seen, rest) \<Rightarrow> Tunnel x (seen @ rest))"
    using assms by (auto simp: handle_socks_def Let_def split: option.splits if_splits sum.splits prod.splits)
  obtain k where "s2 = drop k (drop m s)" using socks_host_suffix[OF sh] by blast
  then have sfx: "\<exists>k. drop 2 s2 = drop k s" by auto
  from u assms(2) obtain seen rest where c: "check_tunnel_host (fold_table uc) consumed host (drop 2 s2) = Inr (seen, rest)"
      "x = a" "fwd = seen @ rest"
    by (auto split: sum.splits)
  from check_tunnel_host_sound[OF c(1)] sfx d c(2,3) show ?thesis by metis
qed

lemma handle_http_tunnel:
  assumes "handle_http uc rd consumed w s st = (h, st')" "upstream h = Tunnel a fwd"
  shows "\<exists>host port k. dial_public uc w host port st = (Inr a, st') \<and> fwd = drop k s \<and>
    (parse_ip (trim_both (set ''[]'') host) \<noteq> None \<or> names_host uc host fwd)"
proof -
  obtain rq n where r: "rd (take network_http_header_bytes s) = Some (rq, n)"
    using assms by (auto simp: handle_http_def Let_def split: option.splits)
  obtain host port x where d: "dial_public uc w host port st = (Inr x, st')"
    and u: "upstream h = (case check_tunnel_host (fold_table uc) consumed host (drop n s) of
        Inl e \<Rightarrow> NoUpstream | Inr (seen, rest) \<Rightarrow> Tunnel x (seen @ rest))"
    using assms r by (auto simp: handle_http_def Let_def split: option.splits if_splits sum.splits prod.splits)
  from u assms(2) obtain seen rest where c: "check_tunnel_host (fold_table uc) consumed host (drop n s) = Inr (seen, rest)"
      "x = a" "fwd = seen @ rest"
    by (auto split: sum.splits)
  from check_tunnel_host_sound[OF c(1)] d c(2,3) show ?thesis by metis
qed

section \<open>The transfer quota\<close>

text \<open>
  countedWriter's Write and countedReadCloser's Read of a chunk: the chunk is added to the shared
  counter first, and passed on only while the counter is within the quota. The counter is an
  atomic int64.
\<close>

definition counted_write :: "nat \<Rightarrow> network_broker \<Rightarrow> bool \<times> network_broker" where
  "counted_write n b = (let u = wrap64 (used b + int n) in
     (\<not> u > max_transfer_bytes (cfg b), b\<lparr>used := u\<rparr>))"

definition counted_read :: "nat \<Rightarrow> network_broker \<Rightarrow> bool \<times> network_broker" where
  "counted_read n b = (if n > 0 then
       let u = wrap64 (used b + int n) in (\<not> u > max_transfer_bytes (cfg b), b\<lparr>used := u\<rparr>)
     else (True, b))"

text \<open>The broker together with the bytes forwarded so far, over all connections and directions.\<close>

definition forward :: "nat \<Rightarrow> network_broker \<times> int \<Rightarrow> bool \<times> network_broker \<times> int" where
  "forward n = (\<lambda>(b, f). case counted_write n b of (ok, b') \<Rightarrow> (ok, b', if ok then f + int n else f))"

text \<open>The counter holds at least what was forwarded, and m more bytes cannot overflow it.\<close>

definition quota_inv :: "nat \<Rightarrow> network_broker \<times> int \<Rightarrow> bool" where
  "quota_inv m = (\<lambda>(b, f). 0 \<le> f \<and> f \<le> used b \<and> used b + int m < 2 ^ 63)"

lemma quota_step: "quota_inv (n + m) (b, f) \<Longrightarrow> wrap64 (used b + int n) = used b + int n"
  by (simp add: quota_inv_def in_int64_def)

interpretation quota: bounded_sink forward snd "\<lambda>(b, f). max_transfer_bytes (cfg b)" quota_inv
proof (unfold_locales, goal_cases)
  case (1 n m s)
  then show ?case using quota_step[of n m "fst s" "snd s"]
    by (auto simp: forward_def counted_write_def quota_inv_def Let_def split: prod.splits)
next
  case (2 n s)
  show ?case by (auto simp: forward_def counted_write_def Let_def split: prod.splits)
next
  case (3 n m s)
  then show ?case by (auto simp: forward_def split: prod.splits)
next
  case (4 n m s)
  then show ?case using quota_step[of n m "fst s" "snd s"]
    by (auto simp: forward_def counted_write_def quota_inv_def Let_def split: prod.splits)
qed

lemma counted_read_write: "counted_read n b = (if n = 0 then (True, b) else counted_write n b)"
  by (simp add: counted_read_def counted_write_def)

section \<open>Properties\<close>

text \<open>A SOCKS client that is granted a.b:80 and sends an HTTP head naming it.\<close>

definition example_stream :: bytes where
  "example_stream = text_bytes (''GET / HTTP/1.1'' @ [CHR 0x0A] @ ''hOsT: A.b'' @ [CHR 0x0D, CHR 0x0A])"

definition example_world :: network_world where
  "example_world = \<lparr>ask_agent = \<lambda>_ _. AgentUnavailable, lookup_ip = \<lambda>_ _. Some [[93, 184, 216, 34]],
     dial_tcp = \<lambda>_ _ _. True\<rparr>"

definition example_case :: unicode_case where
  "example_case = \<lparr>lower_table = id, fold_table = (\<lambda>_ _. False)\<rparr>"

definition example_policy :: address_policy where
  "example_policy = \<lparr>addresses = [], subnets = [], permit_all = False\<rparr>"

definition example_broker :: network_broker where
  "example_broker = (start_broker default_config example_policy)
     \<lparr>grants := {''a.b:80''}, asked := {''a.b:80''}\<rparr>"

text \<open>C1: whatever bytes the clients of any number of connections send, and however the answers of
  the agent, the resolver and the network change between calls, a name is resolved only if it is
  a valid host of the phase's host set and the agent has allowed exactly this host and port
  before, and an address is dialled only if it is public, on a web port and part of the answer to
  the resolution just before.\<close>

theorem egress_needs_consent:
  assumes "0 \<le> max_destinations c"
  shows "trace_ok uc w c (Some p) (fst (run_conns uc rd consumed w clients ([], start_broker c p)))"
  using run_conns_life[OF life_inv_start[OF assms], of uc w p rd consumed clients]
  by (cases "run_conns uc rd consumed w clients ([], start_broker c p)") (simp add: life_inv_def)

theorem egress_needs_consent_witness:
  "trace_ok example_case example_world default_config (Some example_policy)
     (fst (run_conns example_case (\<lambda>_. None) length example_world
        [[5, 1, 0, 5, 1, 0, 3, 3, 97, 46, 98, 0, 80]] ([], start_broker default_config example_policy)))"
  by (rule egress_needs_consent) (simp add: default_config_def)

text \<open>The number of different questions the agent is ever asked is at most the destination
  limit, whether the answers are consent or refusal.\<close>

lemma questions_bounded:
  assumes "0 \<le> max_destinations c"
  shows "int (card {q. AskAgent q \<in> set (fst (run_conns uc rd consumed w clients ([], start_broker c p)))})
    \<le> max_destinations c"
proof -
  obtain tr b where s: "run_conns uc rd consumed w clients ([], start_broker c p) = (tr, b)"
    by (cases "run_conns uc rd consumed w clients ([], start_broker c p)")
  have "asked_inv uc ([], start_broker c p)" by (simp add: asked_inv_def)
  from run_conns_asked[OF this] have a: "asked_inv uc (tr, b)" using s by metis
  from run_conns_life[OF life_inv_start[OF assms]] have l: "life_inv uc w c (Some p) (tr, b)" using s by metis
  then have "card {q. AskAgent q \<in> set tr} \<le> card (asked b)" "int (card (asked b)) \<le> max_destinations c"
    using asked_texts_card[OF a] by (auto simp: life_inv_def consent_inv_def)
  then show ?thesis by (simp add: s)
qed

text \<open>C4: with the real prompt agent at the other end, a destination that is not yet granted is
  authorized exactly when the destination limit leaves room for the question and the human
  approves the lower-cased host and port: the JSON protocol between the two processes neither
  loses nor invents consent.\<close>

theorem authorize_is_the_prompt:
  assumes "valid_request_host host" "0 < port" "port \<le> max_tcp_port"
    and "\<forall>tr raw. ask_agent w tr raw = Response (prompt_agent uc prompt (Some raw))"
  shows "fst (authorize uc w host port (tr, b)) =
    (if grant_key uc host port \<in> grants b then None
     else if grant_key uc host port \<notin> asked b \<and> int (card (asked b)) \<ge> max_destinations (cfg b)
     then Some DestinationLimit
     else if prompt (map lower_char host) port then None else Some DestinationDenied)"
proof -
  let ?r = "show_json (response_json (prompt (map lower_char host) port))"
  have "ask_agent w tr (request_text uc host port) = Response ?r"
    using assms(4) prompt_agent_answer[OF assms(1-3), of uc prompt] by simp
  then have "consent_result uc (ask_agent w tr (request_text uc host port)) =
      (if prompt (map lower_char host) port then None else Some DestinationDenied)"
    using decode_response_text(1)[of uc] decode_response_text(2)[of "prompt (map lower_char host) port"]
    by (simp add: consent_result_def)
  then show ?thesis by (simp add: authorize_def Let_def)
qed

theorem authorize_is_the_prompt_witness:
  "fst (authorize example_case \<lparr>ask_agent = (\<lambda>_ raw. Response (prompt_agent example_case (\<lambda>h p. h = ''a.b'') (Some raw))),
       lookup_ip = (\<lambda>_ _. None), dial_tcp = (\<lambda>_ _ _. False)\<rparr> ''A.b'' 443 ([], start_broker default_config example_policy)) =
    (if grant_key example_case ''A.b'' 443 \<in> grants (start_broker default_config example_policy) then None
     else if grant_key example_case ''A.b'' 443 \<notin> asked (start_broker default_config example_policy) \<and>
        int (card (asked (start_broker default_config example_policy))) \<ge> max_destinations (cfg (start_broker default_config example_policy))
     then Some DestinationLimit
     else if (\<lambda>h p. h = ''a.b'') (map lower_char ''A.b'') (443 :: int) then None else Some DestinationDenied)"
proof (rule authorize_is_the_prompt)
  show "valid_request_host ''A.b''" by code_simp
qed (simp_all add: max_tcp_port_def)

text \<open>C3: a tunnel is opened only to an address that was dialled for a consented host, and what it
  forwards is the rest of the client's stream, unchanged, which for a host name begins with a
  message that names this host up to letter case and a trailing dot.\<close>

theorem tunnel_names_approved_host:
  assumes "handle_conn uc rd consumed w s st = (h, st')" "upstream h = Tunnel a fwd"
  shows "\<exists>host port k. dial_public uc w host port st = (Inr a, st') \<and> fwd = drop k s \<and>
    (parse_ip (trim_both (set ''[]'') host) \<noteq> None \<or> names_host uc host fwd)"
  using assms handle_socks_tunnel[of uc consumed w s st h st' a fwd] handle_http_tunnel[of uc rd consumed w s st h st' a fwd]
  by (auto simp: handle_conn_def split: list.splits if_splits)

lemma example_dial: "dial_public example_case example_world ''a.b'' 80 ([], example_broker) =
  (Inr [93, 184, 216, 34], [Resolve ''a.b'', DialTo [93, 184, 216, 34] 80], example_broker)"
proof -
  have v: "valid_request_host ''a.b''" by code_simp
  have k: "grant_key example_case ''a.b'' 80 = ''a.b:80''" by code_simp
  show ?thesis
    by (simp add: dial_public_def authorize_def v k example_public[folded example_policy_def] example_broker_def start_broker_def policy_port_def
        http_port_def permits_host_def default_config_def zero_config_def example_world_def Let_def max_tcp_port_def)
qed

lemma example_check:
  "check_tunnel_host (fold_table example_case) length ''a.b'' example_stream = Inr (example_stream, [])"
  by code_simp

lemma example_handle: "handle_conn example_case (\<lambda>_. None) length example_world
    ([5, 1, 0, 5, 1, 0, 3, 3, 97, 46, 98, 0, 80] @ example_stream) ([], example_broker) =
  (\<lparr>to_client = [[5, 0], [5, 0, 0, 1, 0, 0, 0, 0, 0, 0]], upstream = Tunnel [93, 184, 216, 34] example_stream\<rparr>,
   [Resolve ''a.b'', DialTo [93, 184, 216, 34] 80], example_broker)"
proof -
  have "bytes_text [97, 46, 98] = ''a.b''" by code_simp
  then show ?thesis
    by (simp add: handle_conn_def handle_socks_def socks_host_def read_full_def Let_def example_dial example_check)
qed

theorem tunnel_names_approved_host_witness:
  "\<exists>host port k. dial_public example_case example_world host port ([], example_broker) =
     (Inr [93, 184, 216, 34], [Resolve ''a.b'', DialTo [93, 184, 216, 34] 80], example_broker) \<and>
     example_stream = drop k ([5, 1, 0, 5, 1, 0, 3, 3, 97, 46, 98, 0, 80] @ example_stream) \<and>
     (parse_ip (trim_both (set ''[]'') host) \<noteq> None \<or> names_host example_case host example_stream)"
  by (rule tunnel_names_approved_host[OF example_handle]) simp



end
