(* ===== verification/Safe_Text.thy ===== *)
theory Safe_Text
  imports Json Go_Ip_Text
begin

text \<open>
  internal/safe: rendering untrusted text for the terminal (Text, Inline), and the validator of
  byte streams that carries an incomplete rune across chunks (ContentValidator).
\<close>

section \<open>Text and Inline\<close>

text \<open>unicode.IsControl, and the tables Cf (format characters) and Cs (surrogates).\<close>

definition is_control :: "nat \<Rightarrow> bool" where
  "is_control r = (r < 0x20 \<or> (0x7F \<le> r \<and> r < 0xA0))"

definition format_ranges :: "(nat \<times> nat) list" where
  "format_ranges = [(0xAD, 0xAD), (0x600, 0x605), (0x61C, 0x61C), (0x6DD, 0x6DD), (0x70F, 0x70F),
     (0x890, 0x891), (0x8E2, 0x8E2), (0x180E, 0x180E), (0x200B, 0x200F), (0x202A, 0x202E),
     (0x2060, 0x2064), (0x2066, 0x206F), (0xFEFF, 0xFEFF), (0xFFF9, 0xFFFB), (0x110BD, 0x110BD),
     (0x110CD, 0x110CD), (0x13430, 0x1343F), (0x1BCA0, 0x1BCA3), (0x1D173, 0x1D17A),
     (0xE0001, 0xE0001), (0xE0020, 0xE007F)]"

definition is_format :: "nat \<Rightarrow> bool" where
  "is_format r = (list_ex (\<lambda>(a, b). a \<le> r \<and> r \<le> b) format_ranges \<or> (0xD800 \<le> r \<and> r < 0xE000))"

text \<open>The verb %04x.\<close>

definition hex04 :: "nat \<Rightarrow> string" where
  "hex04 r = (let h = show_hex r in replicate (4 - length h) CHR ''0'' @ h)"

definition render_rune :: "nat \<Rightarrow> string" where
  "render_rune r =
     (if r = 10 \<or> r = 9 then encode_rune r
      else if is_control r \<or> is_format r then CHR 0x5C # CHR ''u'' # hex04 r
      else encode_rune r)"

definition ellipsis :: nat where "ellipsis = 0x2026"

fun render_runes :: "int \<Rightarrow> int \<Rightarrow> nat list \<Rightarrow> string" where
  "render_runes limit count [] = []"
| "render_runes limit count (r # rs) =
     (if count \<ge> limit then encode_rune ellipsis
      else render_rune r @ render_runes limit (count + 1) rs)"

definition safe_text :: "string \<Rightarrow> int \<Rightarrow> string" where
  "safe_text s limit = render_runes limit 0 (runes s)"

definition safe_inline :: "string \<Rightarrow> int \<Rightarrow> string" where
  "safe_inline s limit =
     map (\<lambda>c. if c = CHR 0x0A \<or> c = CHR 0x0D \<or> c = CHR 0x09 then CHR '' '' else c) (safe_text s limit)"

text \<open>What a terminal may be shown: printable runes, and newline and tab.\<close>

definition displayable :: "nat \<Rightarrow> bool" where
  "displayable r = (r = 10 \<or> r = 9 \<or> (\<not> is_control r \<and> \<not> is_format r))"

section \<open>Decoding what was encoded\<close>

text \<open>The runes a decoder produces: scalar values.\<close>

definition scalar :: "nat \<Rightarrow> bool" where
  "scalar r = (r \<le> 0x10FFFF \<and> \<not> (0xD800 \<le> r \<and> r < 0xE000))"

lemma code_char_of: "n < 256 \<Longrightarrow> code (char_of n) = n"
  by simp

lemma base_mod: "x < m \<Longrightarrow> (k * m + x) mod m = (x :: nat)"
  by simp

lemma decode_encode_rune:
  assumes "scalar r"
  shows "decode_rune (encode_rune r @ y) = (r, length (encode_rune r))"
proof -
  consider "r < 0x80" | "0x80 \<le> r" "r < 0x800" | "0x800 \<le> r" "r < 0x10000" | "0x10000 \<le> r" "r \<le> 0x10FFFF"
    using assms by (fastforce simp: scalar_def)
  then show ?thesis
  proof cases
    case 1
    then show ?thesis by (simp add: encode_rune_def decode_rune_def first_byte_def)
  next
    case 2
    define x y' where "x = r div 64" and "y' = r mod 64"
    have r: "r = x * 64 + y'" "y' < 64" "2 \<le> x" "x < 32" using 2 by (auto simp: x_def y'_def)
    have e: "encode_rune r = [char_of (0xC0 + x), char_of (0x80 + y')]"
      using 2 by (simp add: encode_rune_def x_def y'_def)
    have c: "code (char_of (0xC0 + x)) = 0xC0 + x" "code (char_of (0x80 + y')) = 0x80 + y'"
      using r by (simp_all add: code_char_of)
    have "first_byte (0xC0 + x) = Some (2, 0x80, 0xBF)" using r by (simp add: first_byte_def)
    moreover have "(0xC0 + x) mod 32 = x" "(0x80 + y') mod 64 = y'"
      using base_mod[of x 32 6] base_mod[of y' 64 2] r by simp_all
    ultimately show ?thesis using r unfolding e by (simp add: decode_rune_def c Let_def)
  next
    case 3
    define x y' z where "x = r div 4096" and "y' = r div 64 mod 64" and "z = r mod 64"
    have q: "r div 64 = x * 64 + y'" unfolding x_def y'_def by (simp add: div_mult2_eq[of r 64 64, simplified])
    have r: "r = (x * 64 + y') * 64 + z" unfolding q[symmetric] z_def by simp
    have b: "y' < 64" "z < 64" "x < 16" using 3 by (auto simp: x_def y'_def z_def)
    have e: "encode_rune r = [char_of (0xE0 + x), char_of (0x80 + y'), char_of (0x80 + z)]"
      using 3 assms by (auto simp: encode_rune_def Let_def x_def y'_def z_def scalar_def)
    have c: "code (char_of (0xE0 + x)) = 0xE0 + x" "code (char_of (0x80 + y')) = 0x80 + y'"
        "code (char_of (0x80 + z)) = 0x80 + z"
      using b by (simp_all add: code_char_of)
    have r': "r = 4096 * x + 64 * y' + z" using r by simp
    have x0: "x = 0 \<Longrightarrow> 32 \<le> y'" using 3 r' b by linarith
    have x13: "x = 13 \<Longrightarrow> y' < 32" using assms r' b unfolding scalar_def by linarith
    have "\<exists>lo hi. first_byte (0xE0 + x) = Some (3, lo, hi) \<and> \<not> 0x80 + y' < lo \<and> \<not> hi < 0x80 + y'"
    proof (cases "x = 0 \<or> x = 13")
      case True
      with x0 x13 b show ?thesis by (auto simp: first_byte_def)
    next
      case False
      with b show ?thesis by (simp add: first_byte_def)
    qed
    then obtain lo hi where f: "first_byte (0xE0 + x) = Some (3, lo, hi)" "\<not> 0x80 + y' < lo" "\<not> hi < 0x80 + y'"
      by blast
    have m: "(0xE0 + x) mod 16 = x" "(0x80 + y') mod 64 = y'" "(0x80 + z) mod 64 = z"
      using base_mod[of x 16 14] base_mod[of y' 64 2] base_mod[of z 64 2] b by simp_all
    show ?thesis using f b m unfolding e
      by (simp add: decode_rune_def c Let_def is_cont_def) (simp add: r)
  next
    case 4
    define x y' z w where "x = r div 262144" and "y' = r div 4096 mod 64" and "z = r div 64 mod 64" and "w = r mod 64"
    have q2: "r div 4096 = x * 64 + y'" unfolding x_def y'_def by (simp add: div_mult2_eq[of r 4096 64, simplified])
    have q: "r div 64 = (x * 64 + y') * 64 + z"
      unfolding z_def q2[symmetric] by (simp add: div_mult2_eq[of r 64 64, simplified])
    have r: "r = ((x * 64 + y') * 64 + z) * 64 + w" unfolding q[symmetric] w_def by simp
    have b: "y' < 64" "z < 64" "w < 64" "x \<le> 4" using 4 by (auto simp: x_def y'_def z_def w_def)
    have e: "encode_rune r = [char_of (0xF0 + x), char_of (0x80 + y'), char_of (0x80 + z), char_of (0x80 + w)]"
      using 4 by (auto simp: encode_rune_def Let_def x_def y'_def z_def w_def)
    have c: "code (char_of (0xF0 + x)) = 0xF0 + x" "code (char_of (0x80 + y')) = 0x80 + y'"
        "code (char_of (0x80 + z)) = 0x80 + z" "code (char_of (0x80 + w)) = 0x80 + w"
      using b by (simp_all add: code_char_of)
    have r': "r = 262144 * x + 4096 * y' + 64 * z + w" using r by simp
    have x0: "x = 0 \<Longrightarrow> 16 \<le> y'" using 4 r' b by linarith
    have x4: "x = 4 \<Longrightarrow> y' < 16" using 4 r' b by linarith
    have "\<exists>lo hi. first_byte (0xF0 + x) = Some (4, lo, hi) \<and> \<not> 0x80 + y' < lo \<and> \<not> hi < 0x80 + y'"
    proof (cases "x = 0 \<or> x = 4")
      case True
      with x0 x4 b show ?thesis by (auto simp: first_byte_def)
    next
      case False
      with b show ?thesis by (simp add: first_byte_def)
    qed
    then obtain lo hi where f: "first_byte (0xF0 + x) = Some (4, lo, hi)" "\<not> 0x80 + y' < lo" "\<not> hi < 0x80 + y'"
      by blast
    have m: "(0xF0 + x) mod 8 = x" "(0x80 + y') mod 64 = y'" "(0x80 + z) mod 64 = z" "(0x80 + w) mod 64 = w"
      using base_mod[of x 8 30] base_mod[of y' 64 2] base_mod[of z 64 2] base_mod[of w 64 2] b by simp_all
    show ?thesis using f b m unfolding e
      by (simp add: decode_rune_def c Let_def is_cont_def) (simp add: r)
  qed
qed

lemma encode_rune_nonempty: "encode_rune r \<noteq> []"
  by (simp add: encode_rune_def Let_def)

lemma runes_encode: "scalar r \<Longrightarrow> runes (encode_rune r @ y) = r # runes y"
  using decode_encode_rune[of r y] encode_rune_nonempty[of r] by (subst runes.simps) simp

lemma runes_ascii: "code c < 128 \<Longrightarrow> runes (c # y) = code c # runes y"
  by (subst runes.simps) (simp add: decode_rune_ascii)

section \<open>What Text lets through\<close>

lemma decode_rune_scalar: "s \<noteq> [] \<Longrightarrow> \<not> bad_rune s \<Longrightarrow> scalar (fst (decode_rune s))"
proof (rule ccontr)
  assume s: "s \<noteq> []" "\<not> bad_rune s" and n: "\<not> scalar (fst (decode_rune s))"
  let ?r = "fst (decode_rune s)" and ?n = "snd (decode_rune s)"
  from n have "encode_rune ?r = encode_rune rune_error" by (auto simp: encode_rune_def scalar_def Let_def rune_error_def)
  with encode_decode_rune[OF s] have "take ?n s = encode_rune rune_error" by simp
  moreover have "decode_rune (take ?n s @ []) = decode_rune s" by (rule decode_rune_prefix[OF s])
  moreover have "decode_rune (encode_rune rune_error @ []) = (rune_error, length (encode_rune rune_error))"
    by (rule decode_encode_rune) (simp add: scalar_def rune_error_def)
  ultimately have "?r = rune_error" by (metis fst_conv)
  then show False using n by (simp add: scalar_def rune_error_def)
qed

lemma runes_scalar: "list_all scalar (runes s)"
proof (induction s rule: runes.induct)
  case (1 s)
  show ?case
  proof (cases "s = []")
    case False
    have "scalar (fst (decode_rune s))"
      using decode_rune_scalar[OF False] by (cases "bad_rune s") (auto simp: bad_rune_def scalar_def rune_error_def)
    then show ?thesis using 1 False by (subst runes.simps) simp
  qed (simp add: runes.simps)
qed

lemma hex04_chars: "list_all (\<lambda>c. 48 \<le> code c \<and> code c \<le> 102) (hex04 r)"
proof -
  have d: "48 \<le> code (''0123456789abcdef'' ! k) \<and> code (''0123456789abcdef'' ! k) \<le> 102" if "k < 16" for k
  proof -
    have "\<forall>k \<in> set [0..<16]. 48 \<le> code (''0123456789abcdef'' ! k) \<and> code (''0123456789abcdef'' ! k) \<le> 102"
      by code_simp
    with that show ?thesis by simp
  qed
  have "list_all (\<lambda>c. 48 \<le> code c \<and> code c \<le> 102) (show_hex r)"
  proof (induction r rule: show_hex.induct)
    case (1 n)
    then show ?case using d[of n] d[of "n mod 16"] by (subst show_hex.simps) simp
  qed
  then show ?thesis by (auto simp: hex04_def Let_def list_all_iff)
qed

lemma runes_ascii_append: "list_all (\<lambda>c. code c < 128) xs \<Longrightarrow> runes (xs @ y) = map code xs @ runes y"
  by (induction xs) (simp_all add: runes_ascii)

lemma displayable_ascii: "32 \<le> n \<Longrightarrow> n < 127 \<Longrightarrow> displayable n"
  by (auto simp: displayable_def is_control_def is_format_def format_ranges_def)

lemma displayable_ellipsis: "displayable ellipsis" "scalar ellipsis"
  by (simp_all add: displayable_def is_control_def is_format_def format_ranges_def ellipsis_def scalar_def)

lemma render_rune_runes:
  assumes "scalar r"
  shows "\<exists>rs. runes (render_rune r @ y) = rs @ runes y \<and> list_all displayable rs"
proof (cases "r = 10 \<or> r = 9 \<or> (\<not> is_control r \<and> \<not> is_format r)")
  case True
  then have "render_rune r = encode_rune r" by (auto simp: render_rune_def)
  then show ?thesis using assms True by (intro exI[of _ "[r]"]) (simp add: runes_encode displayable_def)
next
  case False
  let ?xs = "CHR 0x5C # CHR ''u'' # hex04 r"
  have "render_rune r = ?xs" using False by (simp add: render_rune_def)
  moreover have "list_all (\<lambda>c. code c < 128) ?xs" "list_all displayable (map code ?xs)"
    using hex04_chars[of r] displayable_ascii by (auto simp: list_all_iff)
  ultimately show ?thesis using runes_ascii_append[of ?xs y] by (intro exI[of _ "map code ?xs"]) simp
qed

lemma render_runes_displayable:
  "list_all scalar rs \<Longrightarrow> list_all displayable (runes (render_runes limit count rs))"
proof (induction rs arbitrary: count)
  case Nil
  then show ?case by (simp add: runes.simps)
next
  case (Cons r rs)
  show ?case
  proof (cases "count \<ge> limit")
    case True
    then show ?thesis using runes_encode[of ellipsis "[]"] displayable_ellipsis by (simp add: runes.simps)
  next
    case False
    obtain xs where "runes (render_rune r @ render_runes limit (count + 1) rs) = xs @ runes (render_runes limit (count + 1) rs)"
        "list_all displayable xs"
      using render_rune_runes Cons.prems by force
    then show ?thesis using Cons False by simp
  qed
qed

text \<open>Nothing is escaped or cut when there is no reason to.\<close>

lemma concat_runes: "valid_utf8 s \<Longrightarrow> concat (map encode_rune (runes s)) = s"
proof (induction s rule: runes.induct)
  case (1 s)
  show ?case
  proof (cases "s = []")
    case False
    from valid_utf8_step[OF "1.prems" False] have v: "\<not> bad_rune s" "valid_utf8 (drop (snd (decode_rune s)) s)" by auto
    from encode_decode_rune[OF False v(1)] "1.IH"[OF False v(2)] False show ?thesis
      by (subst runes.simps) simp
  qed (simp add: runes.simps)
qed

lemma render_runes_id:
  "list_all displayable rs \<Longrightarrow> count + int (length rs) \<le> limit \<Longrightarrow> render_runes limit count rs = concat (map encode_rune rs)"
proof (induction rs arbitrary: count)
  case (Cons r rs)
  then have "render_rune r = encode_rune r" by (auto simp: displayable_def render_rune_def)
  with Cons show ?case by simp
qed simp

section \<open>ContentValidator\<close>

record content_validator =
  carry :: string
  nul :: bool
  invalid :: bool

definition new_validator :: content_validator where
  "new_validator = \<lparr>carry = [], nul = False, invalid = False\<rparr>"

text \<open>The decoding loop of Write: whether a malformed rune was met, and the incomplete rest.\<close>

function scan_content :: "string \<Rightarrow> bool \<times> string" where
  "scan_content d =
     (if d = [] then (False, [])
      else if \<not> full_rune d then (False, d)
      else (case scan_content (drop (snd (decode_rune d)) d) of
          (bad, c) \<Rightarrow> (bad_rune d \<or> bad, c)))"
  by pat_completeness auto
termination
  by (relation "measure length") (use decode_rune_size in auto)

declare scan_content.simps [simp del]

definition validator_write :: "string \<Rightarrow> content_validator \<Rightarrow> content_validator" where
  "validator_write chunk v = (case scan_content (carry v @ chunk) of
     (bad, c) \<Rightarrow> \<lparr>carry = c, nul = (nul v \<or> CHR 0x00 \<in> set chunk), invalid = (invalid v \<or> bad)\<rparr>)"

definition validator_finish :: "content_validator \<Rightarrow> content_validator" where
  "validator_finish v = v\<lparr>invalid := invalid v \<or> carry v \<noteq> []\<rparr>"

lemma full_rune_append:
  assumes "full_rune a" shows "decode_rune (a @ b) = decode_rune a \<and> full_rune (a @ b)"
proof -
  obtain c r where a: "a = c # r" using assms by (cases a) (auto simp: full_rune_def)
  show ?thesis
  proof (cases "first_byte (code c)")
    case None
    then show ?thesis by (simp add: a full_rune_def decode_rune_def)
  next
    case (Some t)
    obtain n lo hi where t: "t = (n, lo, hi)" by (cases t)
    have n: "n = 1 \<or> n = 2 \<or> n = 3 \<or> n = 4" using Some t first_byte_size by blast
    with assms Some t show ?thesis
      by (elim disjE; cases r; cases "tl r"; cases "tl (tl r)")
        (auto simp: a full_rune_def decode_rune_def Let_def split: if_splits)
  qed
qed

lemma scan_content_step:
  "full_rune d \<Longrightarrow> scan_content d =
     (bad_rune d \<or> fst (scan_content (drop (snd (decode_rune d)) d)), snd (scan_content (drop (snd (decode_rune d)) d)))"
  by (subst scan_content.simps) (auto simp: full_rune_def split: prod.split list.splits)

lemma scan_content_stop: "\<not> full_rune d \<Longrightarrow> scan_content d = (False, d)"
  by (subst scan_content.simps) simp

lemma scan_content_append:
  "scan_content (a @ b) =
     (fst (scan_content a) \<or> fst (scan_content (snd (scan_content a) @ b)), snd (scan_content (snd (scan_content a) @ b)))"
proof (induction a rule: scan_content.induct)
  case (1 d)
  show ?case
  proof (cases "full_rune d")
    case False
    then show ?thesis by (simp add: scan_content_stop)
  next
    case True
    then have "d \<noteq> []" by (auto simp: full_rune_def)
    moreover have "snd (decode_rune d) \<le> length d" using decode_rune_size \<open>d \<noteq> []\<close> by blast
    ultimately show ?thesis
      using 1 True scan_content_step[of "d @ b"] scan_content_step[of d] full_rune_append[OF True, of b]
      by (simp add: bad_rune_def)
  qed
qed

lemma not_full_invalid: "\<not> full_rune s \<Longrightarrow> s \<noteq> [] \<Longrightarrow> bad_rune s"
  by (cases s; cases "tl s"; cases "tl (tl s)"; cases "tl (tl (tl s))") (auto simp: full_rune_def bad_rune_def decode_rune_def first_byte_def split: option.splits if_splits)

lemma scan_content_valid: "valid_utf8 s \<longleftrightarrow> scan_content s = (False, [])"
proof (induction s rule: scan_content.induct)
  case (1 d)
  show ?case
  proof (cases "full_rune d")
    case False
    then show ?thesis using not_full_invalid[of d]
      by (cases "d = []") (auto simp: scan_content_stop valid_utf8.simps)
  next
    case True
    then have "d \<noteq> []" by (auto simp: full_rune_def)
    with 1 True show ?thesis
      by (subst valid_utf8.simps) (auto simp: scan_content_step prod_eq_iff)
  qed
qed

lemma validator_writes:
  "foldl (\<lambda>v c. validator_write c v) v chunks =
     \<lparr>carry = snd (scan_content (carry v @ concat chunks)),
      nul = (nul v \<or> CHR 0x00 \<in> set (concat chunks)),
      invalid = (invalid v \<or> fst (scan_content (carry v @ concat chunks)))\<rparr>"
  if "scan_content (carry v) = (False, carry v)"
  using that
proof (induction chunks arbitrary: v)
  case Nil
  then show ?case by simp
next
  case (Cons c chunks)
  have idem: "scan_content (snd (scan_content x)) = (False, snd (scan_content x))" for x
  proof (induction x rule: scan_content.induct)
    case (1 d)
    have "full_rune d \<Longrightarrow> d \<noteq> []" by (auto simp: full_rune_def)
    with 1 show ?case
      by (cases "full_rune d") (simp_all add: scan_content_step scan_content_stop)
  qed
  have w: "validator_write c v = \<lparr>carry = snd (scan_content (carry v @ c)), nul = (nul v \<or> CHR 0x00 \<in> set c),
      invalid = (invalid v \<or> fst (scan_content (carry v @ c)))\<rparr>"
    by (simp add: validator_write_def split: prod.split)
  show ?case
    using Cons.IH[of "validator_write c v"] idem[of "carry v @ c"] scan_content_append[of "carry v @ c" "concat chunks"]
    by (auto simp: w)
qed

lemma runes_Nil: "runes [] = []"
  by (simp add: runes.simps)

section \<open>Well-formed text\<close>

text \<open>strings.ToValidUTF8 with the replacement character, one per run of malformed bytes.\<close>

function to_valid_utf8 :: "bool \<Rightarrow> string \<Rightarrow> string" where
  "to_valid_utf8 bad s = (if s = [] then []
     else if bad_rune s then (if bad then [] else encode_rune rune_error) @ to_valid_utf8 True (drop 1 s)
     else take (snd (decode_rune s)) s @ to_valid_utf8 False (drop (snd (decode_rune s)) s))"
  by pat_completeness auto
termination
  by (relation "measure (\<lambda>(bad, s). length s)") (use decode_rune_size in auto)

declare to_valid_utf8.simps [simp del]

definition valid_utf8_or_replacement :: "string \<Rightarrow> string" where
  "valid_utf8_or_replacement raw = (if valid_utf8 raw then raw else to_valid_utf8 False raw)"

text \<open>The replacement leaves the lines where they are: newlines and a final newline stay.\<close>

lemma replacement_bytes: "encode_rune rune_error = [CHR 0xEF, CHR 0xBF, CHR 0xBD]"
  by code_simp

lemma bad_rune_hd: "bad_rune (c # s) \<Longrightarrow> c \<noteq> CHR 0x0A"
  by (auto simp: bad_rune_def decode_rune_ascii rune_error_def)

lemma to_valid_empty: "to_valid_utf8 False s = [] \<longleftrightarrow> s = []"
  using decode_rune_size[of s] by (subst to_valid_utf8.simps) (auto simp: replacement_bytes)

lemma to_valid_newlines: "count_list (to_valid_utf8 bad s) (CHR 0x0A) = count_list s (CHR 0x0A)"
proof (induction bad s rule: to_valid_utf8.induct)
  case (1 bad s)
  show ?case
  proof (cases "s = [] \<or> bad_rune s")
    case True
    show ?thesis
    proof (cases s)
      case (Cons c t)
      with True have "c \<noteq> CHR 0x0A" using bad_rune_hd by auto
      with True Cons 1(1) show ?thesis by (subst to_valid_utf8.simps) (simp add: replacement_bytes)
    qed (simp add: to_valid_utf8.simps)
  next
    case False
    have "count_list (take n s) (CHR 0x0A) + count_list (drop n s) (CHR 0x0A) = count_list s (CHR 0x0A)" for n
      by (metis append_take_drop_id count_list_append)
    with False 1(2) show ?thesis by (subst to_valid_utf8.simps) simp
  qed
qed

lemma to_valid_final: "has_suffix (to_valid_utf8 bad s) [CHR 0x0A] \<longleftrightarrow> has_suffix s [CHR 0x0A]"
proof (induction bad s rule: to_valid_utf8.induct)
  case (1 bad s)
  have step: "has_suffix (x @ y) [c] \<longleftrightarrow> has_suffix y [c]" if "y \<noteq> []" for x y :: string and c
    using that by (cases y rule: rev_cases) (simp_all flip: append_assoc)
  have nil: "\<not> has_suffix [] [c]" for c :: char by (simp add: has_suffix_iff)
  show ?case
  proof (cases "s = [] \<or> bad_rune s")
    case True
    show ?thesis
    proof (cases s)
      case (Cons c t)
      with True have c: "c \<noteq> CHR 0x0A" using bad_rune_hd by auto
      have u: "to_valid_utf8 bad s = (if bad then [] else encode_rune rune_error) @ to_valid_utf8 True t"
        using True Cons by (subst to_valid_utf8.simps) simp
      have ih: "has_suffix (to_valid_utf8 True t) [CHR 0x0A] \<longleftrightarrow> has_suffix t [CHR 0x0A]" using True Cons 1(1) by simp
      have t: "has_suffix s [CHR 0x0A] \<longleftrightarrow> has_suffix t [CHR 0x0A]"
        using step[of t "[c]"] c nil has_suffix_snoc[of "[]" c "CHR 0x0A"] by (cases "t = []") (auto simp: Cons)
      show ?thesis
      proof (cases "to_valid_utf8 True t = []")
        case True
        with ih nil have "\<not> has_suffix t [CHR 0x0A]" by simp
        with True u t nil has_suffix_snoc[of "[CHR 0xEF, CHR 0xBF]" "CHR 0xBD"] show ?thesis by (simp add: replacement_bytes)
      next
        case False
        with u step ih t show ?thesis by simp
      qed
    qed (simp add: to_valid_utf8.simps)
  next
    case False
    let ?n = "snd (decode_rune s)"
    have u: "to_valid_utf8 bad s = take ?n s @ to_valid_utf8 False (drop ?n s)"
      using False by (subst to_valid_utf8.simps) simp
    show ?thesis
    proof (cases "drop ?n s = []")
      case True
      then show ?thesis using u by (simp add: to_valid_utf8.simps)
    next
      case rest: False
      then have "has_suffix (to_valid_utf8 bad s) [CHR 0x0A] \<longleftrightarrow> has_suffix (to_valid_utf8 False (drop ?n s)) [CHR 0x0A]"
        using u step to_valid_empty by simp
      also have "\<dots> \<longleftrightarrow> has_suffix (drop ?n s) [CHR 0x0A]" using False 1(2) by simp
      also have "\<dots> \<longleftrightarrow> has_suffix s [CHR 0x0A]" using step[OF rest, of "take ?n s"] by simp
      finally show ?thesis .
    qed
  qed
qed

lemma to_valid_length: "length (to_valid_utf8 bad s) \<le> 3 * length s"
proof (induction bad s rule: to_valid_utf8.induct)
  case (1 bad s)
  show ?case
  proof (cases "s = [] \<or> bad_rune s")
    case True
    with 1(1) show ?thesis by (subst to_valid_utf8.simps) (cases s, auto simp: replacement_bytes)
  next
    case False
    then show ?thesis using 1(2) decode_rune_size[of s] by (subst to_valid_utf8.simps) auto
  qed
qed

lemma replacement_lines:
  "count_list (valid_utf8_or_replacement s) (CHR 0x0A) = count_list s (CHR 0x0A)"
  "has_suffix (valid_utf8_or_replacement s) [CHR 0x0A] \<longleftrightarrow> has_suffix s [CHR 0x0A]"
  "length (valid_utf8_or_replacement s) \<le> 3 * length s"
  using to_valid_length[of False s]
  by (simp_all add: valid_utf8_or_replacement_def to_valid_newlines to_valid_final)

section \<open>Properties\<close>

text \<open>Whatever bytes a package puts into a text, every rune of the rendered text is printable or
  a newline or tab: no control character, no escape sequence and no invisible format character
  reaches the terminal.\<close>

lemma safe_text_displayable:
  "list_all displayable (runes (safe_text s limit))"
  unfolding safe_text_def by (rule render_runes_displayable[OF runes_scalar])

text \<open>Well-formed text of displayable runes within the limit is rendered unchanged.\<close>

lemma safe_text_faithful:
  assumes "valid_utf8 s" "list_all displayable (runes s)" "int (length (runes s)) \<le> limit"
  shows "safe_text s limit = s"
  using assms by (simp add: safe_text_def render_runes_id concat_runes)

text \<open>However a stream is cut into chunks, the validator reports a NUL byte exactly when the
  stream has one, and malformed text exactly when the whole stream is not valid UTF-8.\<close>

lemma validator_chunks:
  "(let v = validator_finish (foldl (\<lambda>v c. validator_write c v) new_validator chunks)
    in nul v = (CHR 0x00 \<in> set (concat chunks)) \<and> invalid v = (\<not> valid_utf8 (concat chunks)))"
proof -
  have "scan_content (carry new_validator) = (False, carry new_validator)"
    by (simp add: new_validator_def scan_content.simps)
  from validator_writes[OF this, of chunks] show ?thesis
    by (auto simp: Let_def validator_finish_def new_validator_def scan_content_valid prod_eq_iff)
qed

end
