(* ===== verification/Safe_Primitives.thy ===== *)
theory Safe_Primitives
  imports Safe_Text Bounded_Sink
begin

text \<open>
  internal/safe: the output buffer of subprocesses, digests, the file hash bound to one inode,
  and the two key-reading loops of security prompts. What the kernel answers - stat results,
  reads, polls - is an argument of the model.
\<close>

section \<open>LimitedBuffer\<close>

record limited_buffer =
  buffer :: bytes
  buf_limit :: int

definition new_limited_buffer :: "int \<Rightarrow> limited_buffer" where
  "new_limited_buffer l = \<lparr>buffer = [], buf_limit = l\<rparr>"

definition limited_write :: "bytes \<Rightarrow> limited_buffer \<Rightarrow> bool \<times> limited_buffer" where
  "limited_write v b =
     (if buf_limit b \<le> 0 \<or> int (length v) > buf_limit b - int (length (buffer b)) then (False, b)
      else (True, b\<lparr>buffer := buffer b @ v\<rparr>))"

definition limited_offer :: "nat \<Rightarrow> limited_buffer \<Rightarrow> bool \<times> limited_buffer" where
  "limited_offer n b = limited_write (replicate n 0) b"

interpretation limited: bounded_sink limited_offer "\<lambda>b. int (length (buffer b))" buf_limit "\<lambda>m b. True"
  by unfold_locales (auto simp: limited_offer_def limited_write_def)

text \<open>The verdicts and the length of the buffer depend on the lengths of the chunks only.\<close>

fun limited_writes :: "bytes list \<Rightarrow> limited_buffer \<Rightarrow> bool list \<times> limited_buffer" where
  "limited_writes [] b = ([], b)"
| "limited_writes (v # vs) b =
     (case limited_write v b of (ok, b') \<Rightarrow> (case limited_writes vs b' of (oks, b'') \<Rightarrow> (ok # oks, b'')))"

lemma limited_writes_Cons:
  "fst (limited_writes (v # vs) b) = fst (limited_write v b) # fst (limited_writes vs (snd (limited_write v b)))"
  "snd (limited_writes (v # vs) b) = snd (limited_writes vs (snd (limited_write v b)))"
  by (simp_all split: prod.split)

declare limited_writes.simps(2) [simp del]

lemma limited_writes_content:
  "buffer (snd (limited_writes vs b)) = buffer b @ concat (map fst (filter snd (zip vs (fst (limited_writes vs b)))))"
proof (induction vs arbitrary: b)
  case (Cons v vs)
  then show ?case by (simp add: limited_writes_Cons) (simp add: limited_write_def)
qed simp

lemma limited_writes_offers:
  "length (buffer b) = length (buffer b') \<Longrightarrow> buf_limit b = buf_limit b' \<Longrightarrow>
   fst (limited_writes vs b) = fst (run_puts limited_offer (map length vs) b') \<and>
   length (buffer (snd (limited_writes vs b))) = length (buffer (snd (run_puts limited_offer (map length vs) b')))"
proof (induction vs arbitrary: b b')
  case (Cons v vs)
  have s: "fst (limited_write v b) = fst (limited_offer (length v) b')"
      "length (buffer (snd (limited_write v b))) = length (buffer (snd (limited_offer (length v) b')))"
      "buf_limit (snd (limited_write v b)) = buf_limit (snd (limited_offer (length v) b'))"
    using Cons.prems by (auto simp: limited_offer_def limited_write_def)
  from Cons.IH[OF s(2,3)] s(1) show ?case by (simp add: limited_writes_Cons)
qed simp

section \<open>Digests and files\<close>

definition valid_hex_digest :: "string \<Rightarrow> bool" where
  "valid_hex_digest v = (length v = 64 \<and> list_all (\<lambda>c.
     \<not> ((c < CHR ''0'' \<or> c > CHR ''9'') \<and> (c < CHR ''a'' \<or> c > CHR ''f''))) v)"

record unix_stat =
  st_dev :: int
  st_ino :: int
  st_size :: int
  st_mtim :: "int \<times> int"
  st_ctim :: "int \<times> int"
  st_mode :: "32 word"
  st_uid :: int
  st_gid :: int
  st_nlink :: int

definition same_stat :: "unix_stat \<Rightarrow> unix_stat \<Rightarrow> bool" where
  "same_stat a b = (st_dev a = st_dev b \<and> st_ino a = st_ino b \<and> st_size a = st_size b \<and>
     st_mtim a = st_mtim b \<and> st_ctim a = st_ctim b \<and> st_mode a = st_mode b \<and> st_uid a = st_uid b \<and>
     st_gid a = st_gid b \<and> st_nlink a = st_nlink b)"

datatype hash_error = OpenFailed | NotRegular | ReadFailed | StatFailed | ChangedWhileHashing

unbundle bit_operations_syntax

text \<open>
  HashFileNoFollow: opened says that the open without following links succeeded; before, content
  and after are what fstat, the copy and the second fstat of that descriptor gave; \<open>digest\<close> is SHA-256.
\<close>

definition hash_file_no_follow ::
  "(bytes \<Rightarrow> string) \<Rightarrow> bool \<Rightarrow> unix_stat option \<Rightarrow> bytes option \<Rightarrow> unix_stat option \<Rightarrow> hash_error + string" where
  "hash_file_no_follow digest opened before content after =
     (if \<not> opened then Inl OpenFailed
      else (case before of
          None \<Rightarrow> Inl NotRegular
        | Some b \<Rightarrow> if st_mode b AND 0xF000 \<noteq> 0x8000 then Inl NotRegular
            else (case content of
                None \<Rightarrow> Inl ReadFailed
              | Some c \<Rightarrow> (case after of
                    None \<Rightarrow> Inl StatFailed
                  | Some a \<Rightarrow> if \<not> same_stat b a \<or> int (length c) \<noteq> st_size a then Inl ChangedWhileHashing
                              else Inr (digest c)))))"

lemma same_stat_eq: "same_stat a b \<longleftrightarrow> (a :: unix_stat) = b"
  by (cases a; cases b) (auto simp: same_stat_def)

section \<open>Reading a choice\<close>

text \<open>One round of the loop: what poll and read gave.\<close>

datatype key_event = Key u8 | Interrupted | PollFailed | PromptTimeout | KeyReadFailed | EndOfInput

datatype prompt_error = PromptInvalid | PromptTimedOut | PromptIO

definition lower_byte :: "u8 \<Rightarrow> u8" where
  "lower_byte b = (if 65 \<le> b \<and> b \<le> 90 then b + 32 else b)"

definition choice_letter :: "u8 \<Rightarrow> bool" where
  "choice_letter b = (97 \<le> b \<and> b \<le> 122)"

text \<open>
  The read loop of ReadChoice: the answer and what is echoed. The list of events stands for the
  life of the prompt; a prompt that never ends has events left over but no answer, so the end of
  the list is the timeout.
\<close>

fun choice_loop :: "bytes \<Rightarrow> u8 \<Rightarrow> key_event list \<Rightarrow> (prompt_error + u8) \<times> bytes" where
  "choice_loop choices dflt [] = (Inl PromptTimedOut, [])"
| "choice_loop choices dflt (e # es) = (case e of
      Interrupted \<Rightarrow> choice_loop choices dflt es
    | PollFailed \<Rightarrow> (Inl PromptIO, [])
    | PromptTimeout \<Rightarrow> (Inl PromptTimedOut, [])
    | KeyReadFailed \<Rightarrow> (Inl PromptIO, [])
    | EndOfInput \<Rightarrow> (Inl PromptIO, [])
    | Key k \<Rightarrow>
        (let choice = lower_byte k in
         if choice \<in> set choices then (Inr choice, [choice, 10])
         else if k = 13 \<or> k = 10 then (Inr dflt, [10])
         else choice_loop choices dflt es))"

definition read_choice :: "bytes \<Rightarrow> u8 \<Rightarrow> key_event list \<Rightarrow> (prompt_error + u8) \<times> bytes" where
  "read_choice choices dflt es =
     (if \<not> choice_letter dflt \<or> dflt \<notin> set choices then (Inl PromptInvalid, [])
      else if \<not> list_all choice_letter choices then (Inl PromptInvalid, [])
      else choice_loop choices dflt es)"

definition read_yes_no :: "key_event list \<Rightarrow> bool" where
  "read_yes_no es = (fst (read_choice [121, 110] 110 es) = Inr 121)"

text \<open>ReadChoiceOrLine; the accumulator is the answer collected so far.\<close>

fun line_loop :: "bytes \<Rightarrow> u8 \<Rightarrow> bytes \<Rightarrow> nat \<Rightarrow> bytes \<Rightarrow> key_event list \<Rightarrow> (prompt_error + bytes) \<times> bytes" where
  "line_loop imm dflt chars max_bytes answer [] = (Inl PromptTimedOut, [])"
| "line_loop imm dflt chars max_bytes answer (e # es) = (case e of
      Interrupted \<Rightarrow> line_loop imm dflt chars max_bytes answer es
    | PollFailed \<Rightarrow> (Inl PromptIO, [])
    | PromptTimeout \<Rightarrow> (Inl PromptTimedOut, [])
    | KeyReadFailed \<Rightarrow> (Inl PromptIO, [])
    | EndOfInput \<Rightarrow> (Inl PromptIO, [])
    | Key k \<Rightarrow>
        (let normalized = lower_byte k in
         if answer = [] \<and> normalized \<in> set imm then (Inr [normalized], [normalized, 10])
         else if k = 13 \<or> k = 10 then (Inr (if answer = [] then [dflt] else answer), [10])
         else if k = 0x7f \<or> k = 8 then
           (if answer \<noteq> [] then
              (case line_loop imm dflt chars max_bytes (butlast answer) es of (r, out) \<Rightarrow> (r, [8, 32, 8] @ out))
            else line_loop imm dflt chars max_bytes answer es)
         else if k \<in> set chars \<and> length answer < max_bytes then
           (case line_loop imm dflt chars max_bytes (answer @ [k]) es of (r, out) \<Rightarrow> (r, k # out))
         else line_loop imm dflt chars max_bytes answer es))"

definition read_choice_or_line ::
  "bytes \<Rightarrow> u8 \<Rightarrow> bytes \<Rightarrow> nat \<Rightarrow> key_event list \<Rightarrow> (prompt_error + bytes) \<times> bytes" where
  "read_choice_or_line imm dflt chars max_bytes es =
     (if max_bytes < 1 then (Inl PromptInvalid, [])
      else if \<not> choice_letter dflt \<or> dflt \<notin> set imm then (Inl PromptInvalid, [])
      else if \<not> list_all choice_letter imm then (Inl PromptInvalid, [])
      else if \<not> list_all (\<lambda>c. 0x20 \<le> c \<and> c \<le> 0x7e \<and> c \<notin> set imm) chars then (Inl PromptInvalid, [])
      else line_loop imm dflt chars max_bytes [] es)"

section \<open>What a prompt can return\<close>

lemma choice_loop_result:
  "fst (choice_loop choices dflt es) = Inr c \<Longrightarrow>
     (\<exists>k. Key k \<in> set es \<and> ((lower_byte k = c \<and> c \<in> set choices) \<or> (c = dflt \<and> (k = 13 \<or> k = 10))))"
  by (induction choices dflt es rule: choice_loop.induct)
    (auto simp: Let_def split: key_event.splits if_splits)

lemma line_loop_result:
  "fst (line_loop imm dflt chars m answer es) = Inr a \<Longrightarrow> set answer \<subseteq> set chars \<Longrightarrow> length answer \<le> m \<Longrightarrow>
     (\<exists>c \<in> set imm. a = [c]) \<or> a = [dflt] \<or> (a \<noteq> [] \<and> set a \<subseteq> set chars \<and> length a \<le> m)"
proof (induction imm dflt chars m answer es rule: line_loop.induct)
  case (2 imm dflt chars m answer e es)
  have "set (butlast answer) \<subseteq> set chars" "length (butlast answer) \<le> m"
    using "2.prems" by (auto dest: in_set_butlastD)
  with 2 show ?case
    by (cases e) (auto simp: Let_def split: if_splits prod.splits)
qed simp

section \<open>Properties\<close>

text \<open>The output buffer holds exactly the chunks it accepted, in order, and never more than its
  limit.\<close>

lemma limited_buffer_holds:
  assumes "0 \<le> l"
  shows "(case limited_writes vs (new_limited_buffer l) of (oks, b) \<Rightarrow>
     buffer b = concat (map fst (filter snd (zip vs oks))) \<and> int (length (buffer b)) \<le> l)"
proof -
  define b0 where "b0 = new_limited_buffer l"
  obtain oks b where w: "limited_writes vs b0 = (oks, b)" by (cases "limited_writes vs b0")
  have "int (length (buffer (snd (run_puts limited_offer (map length vs) b0)))) \<le> l"
    using limited.run_bound[where ns = "map length vs" and s = b0] assms by (simp add: b0_def new_limited_buffer_def)
  moreover have "length (buffer b) = length (buffer (snd (run_puts limited_offer (map length vs) b0)))"
    using limited_writes_offers[of b0 b0 vs] w by simp
  ultimately have "int (length (buffer b)) \<le> l" by simp
  moreover have "buffer b = concat (map fst (filter snd (zip vs oks)))"
    using limited_writes_content[of vs b0] w by (simp add: b0_def new_limited_buffer_def)
  ultimately show ?thesis by (simp add: w flip: b0_def)
qed

text \<open>C9: a digest is returned only for content read from a regular file whose whole stat result,
  change time included, is the same before and after reading and whose size is the number of
  bytes read.\<close>

theorem hash_binds_inode:
  assumes "hash_file_no_follow digest opened before content after = Inr d"
  shows "\<exists>st c. opened \<and> before = Some st \<and> after = Some st \<and> content = Some c \<and> d = digest c \<and>
    int (length c) = st_size st \<and> st_mode st AND 0xF000 = 0x8000"
  using assms by (auto simp: hash_file_no_follow_def same_stat_eq split: option.splits if_splits)

theorem hash_binds_inode_witness:
  "\<exists>st c. True \<and> Some \<lparr>st_dev = 1, st_ino = 2, st_size = 1, st_mtim = (3, 4), st_ctim = (5, 6), st_mode = 0x81A4,
       st_uid = 0, st_gid = 0, st_nlink = 1\<rparr> = Some st \<and>
     Some \<lparr>st_dev = 1, st_ino = 2, st_size = 1, st_mtim = (3, 4), st_ctim = (5, 6), st_mode = 0x81A4,
       st_uid = 0, st_gid = 0, st_nlink = 1\<rparr> = Some st \<and>
     Some [7 :: u8] = Some c \<and> ''d'' = (\<lambda>_. ''d'') c \<and> int (length c) = st_size st \<and> st_mode st AND 0xF000 = 0x8000"
proof (rule hash_binds_inode)
  show "hash_file_no_follow (\<lambda>_. ''d'') True
     (Some \<lparr>st_dev = 1, st_ino = 2, st_size = 1, st_mtim = (3, 4), st_ctim = (5, 6), st_mode = 0x81A4,
       st_uid = 0, st_gid = 0, st_nlink = 1\<rparr>) (Some [7])
     (Some \<lparr>st_dev = 1, st_ino = 2, st_size = 1, st_mtim = (3, 4), st_ctim = (5, 6), st_mode = 0x81A4,
       st_uid = 0, st_gid = 0, st_nlink = 1\<rparr>) = Inr ''d''"
    by (simp add: hash_file_no_follow_def same_stat_def)
qed

text \<open>A yes/no prompt is answered yes only if the person typed y or Y after it was opened: no
  other key, no timeout, no closed input and no read error is consent.\<close>

lemma yes_needs_the_key:
  assumes "read_yes_no es"
  shows "Key 121 \<in> set es \<or> Key 89 \<in> set es"
proof -
  from assms have "fst (choice_loop [121, 110] 110 es) = Inr 121"
    by (auto simp: read_yes_no_def read_choice_def choice_letter_def split: if_splits)
  from choice_loop_result[OF this] obtain k where k: "Key k \<in> set es" "lower_byte k = 121" by auto
  have "k = 89" if "k + 32 = 121"
  proof -
    from that have "k = 121 - 32" by (simp only: eq_diff_eq)
    then show ?thesis by simp
  qed
  with k(2) have "k = 121 \<or> k = 89" by (auto simp: lower_byte_def split: if_splits)
  with k(1) show ?thesis by blast
qed

text \<open>A menu prompt returns one of its immediate choices, its default, or a non-empty selection
  of at most the allowed length made only of the line characters.\<close>

lemma line_choice_bounded:
  assumes "fst (read_choice_or_line imm dflt chars m es) = Inr a"
  shows "(\<exists>c \<in> set imm. a = [c]) \<or> (a \<noteq> [] \<and> set a \<subseteq> set chars \<and> length a \<le> m)"
proof -
  from assms have "fst (line_loop imm dflt chars m [] es) = Inr a" "dflt \<in> set imm"
    by (auto simp: read_choice_or_line_def split: if_splits)
  with line_loop_result[OF this(1)] show ?thesis by auto
qed

end
