(* ===== verification/Surfaces.thy ===== *)
theory Surfaces
  imports Go_Path Go_Utf8
begin

text \<open>
  internal/brief/surfaces.go: the registry of paths through which an installed package gets code
  executed as root, and the classification of archive members against it.
\<close>

datatype surface_kind =
    SurfaceScriptlet | SurfaceHook | SurfaceUnit | SurfaceGenerator | SurfaceSysusers | SurfaceTmpfiles
  | SurfaceUdev | SurfacePAM | SurfacePolkit | SurfaceDBus | SurfaceSudoers | SurfaceCron | SurfaceKernel
  | SurfaceLoader | SurfaceServiceHook

text \<open>An activation is a string in the code; any other value than the four is \<open>OtherActivation\<close>.\<close>

datatype surface_activation =
    ActivationAutomatic | ActivationEnabled | ActivationSession | ActivationPassive | OtherActivation string

definition requires_decision :: "surface_activation \<Rightarrow> bool" where
  "requires_decision a = (a \<noteq> ActivationEnabled \<and> a \<noteq> ActivationSession \<and> a \<noteq> ActivationPassive)"

record surface =
  surf_prefix :: string
  surf_member :: string
  surf_kind :: surface_kind
  surf_activation :: surface_activation
  surf_when :: string

definition systemd_roots :: "string list" where
  "systemd_roots = [''usr/lib/systemd/'', ''usr/local/lib/systemd/'', ''etc/systemd/'', ''run/systemd/'']"

definition config_roots :: "string list" where
  "config_roots = [''usr/lib/'', ''usr/local/lib/'', ''etc/'', ''run/'']"

definition polkit_roots :: "string list" where
  "polkit_roots = [''usr/share/'', ''usr/local/share/'', ''etc/'', ''run/'']"

definition dbus_service_roots :: "string list" where
  "dbus_service_roots = [''usr/share/'', ''usr/local/share/'', ''usr/lib/'', ''etc/'', ''run/'']"

definition network_manager_roots :: "string list" where
  "network_manager_roots = [''etc/'', ''usr/lib/'']"

definition at_prefix :: "string \<Rightarrow> surface_kind \<Rightarrow> surface_activation \<Rightarrow> string \<Rightarrow> surface" where
  "at_prefix p k a w = \<lparr>surf_prefix = p, surf_member = [], surf_kind = k, surf_activation = a, surf_when = w\<rparr>"

definition at_member :: "string \<Rightarrow> surface_kind \<Rightarrow> surface_activation \<Rightarrow> string \<Rightarrow> surface" where
  "at_member m k a w = \<lparr>surf_prefix = [], surf_member = m, surf_kind = k, surf_activation = a, surf_when = w\<rparr>"

definition add_roots :: "string list \<Rightarrow> string \<Rightarrow> surface_kind \<Rightarrow> surface_activation \<Rightarrow> string \<Rightarrow> surface list" where
  "add_roots roots suffix k a w = map (\<lambda>root. at_prefix (root @ suffix) k a w) roots"

definition when_enabled :: string where "when_enabled = ''runs as root once enabled or triggered''"

definition when_hook :: string where
  "when_hook = ''runs as root on EVERY subsequent pacman transaction; no pacman flag can suppress it''"

definition when_scheduled :: string where "when_scheduled = ''runs as root on a schedule''"

definition when_bus_policy :: string where
  "when_bus_policy = ''declares who may talk to a service on the system bus; runs nothing itself''"

definition single_surfaces :: "surface list" where
  "single_surfaces =
    [at_member ''.INSTALL'' SurfaceScriptlet ActivationAutomatic ''runs as root during this pacman transaction'',
     at_prefix ''usr/share/libalpm/hooks/'' SurfaceHook ActivationAutomatic when_hook,
     at_prefix ''etc/pacman.d/hooks/'' SurfaceHook ActivationAutomatic when_hook,
     at_prefix ''etc/systemd/system.control/'' SurfaceUnit ActivationEnabled when_enabled,
     at_prefix ''run/systemd/system.control/'' SurfaceUnit ActivationEnabled when_enabled,
     at_prefix ''etc/systemd/system.attached/'' SurfaceUnit ActivationEnabled when_enabled,
     at_prefix ''run/systemd/system.attached/'' SurfaceUnit ActivationEnabled when_enabled,
     at_prefix ''run/systemd/transient/'' SurfaceUnit ActivationEnabled when_enabled,
     at_prefix ''run/systemd/generator/'' SurfaceUnit ActivationEnabled when_enabled,
     at_prefix ''run/systemd/generator.early/'' SurfaceUnit ActivationEnabled when_enabled,
     at_prefix ''run/systemd/generator.late/'' SurfaceUnit ActivationEnabled when_enabled,
     at_prefix ''usr/lib/security/'' SurfacePAM ActivationPassive
       ''a PAM module, loaded only where a PAM configuration references it'',
     at_prefix ''etc/pam.d/'' SurfacePAM ActivationAutomatic
       ''decides how authentication is performed, from the next login onwards'',
     at_prefix ''etc/sudoers.d/'' SurfaceSudoers ActivationAutomatic ''grants privilege directly'',
     at_prefix ''etc/cron.d/'' SurfaceCron ActivationAutomatic when_scheduled,
     at_prefix ''etc/cron.daily/'' SurfaceCron ActivationAutomatic when_scheduled,
     at_prefix ''etc/cron.hourly/'' SurfaceCron ActivationAutomatic when_scheduled,
     at_prefix ''etc/cron.weekly/'' SurfaceCron ActivationAutomatic when_scheduled,
     at_prefix ''etc/cron.monthly/'' SurfaceCron ActivationAutomatic when_scheduled,
     at_prefix ''usr/share/dbus-1/system.d/'' SurfaceDBus ActivationPassive when_bus_policy,
     at_prefix ''etc/dbus-1/system.d/'' SurfaceDBus ActivationPassive when_bus_policy,
     at_prefix ''etc/profile.d/'' SurfaceKernel ActivationAutomatic ''runs in every login shell, including root's'',
     at_member ''etc/ld.so.preload'' SurfaceLoader ActivationAutomatic
       ''loads package-named libraries into every dynamically linked process, root ones included'']"

definition privileged_surfaces :: "surface list" where
  "privileged_surfaces = single_surfaces @
     add_roots systemd_roots ''system/'' SurfaceUnit ActivationEnabled when_enabled @
     add_roots systemd_roots ''user/'' SurfaceUnit ActivationSession
       ''runs in the user's systemd session, not as root'' @
     add_roots systemd_roots ''system-generators/'' SurfaceGenerator ActivationAutomatic
       ''runs as root very early, on every boot and daemon-reload, with no enablement step'' @
     add_roots systemd_roots ''user-generators/'' SurfaceGenerator ActivationSession
       ''runs in the user's systemd session on every reload, not as root'' @
     add_roots systemd_roots ''system-environment-generators/'' SurfaceGenerator ActivationAutomatic
       ''runs as root and sets the system manager's environment'' @
     add_roots systemd_roots ''user-environment-generators/'' SurfaceGenerator ActivationSession
       ''runs in the user's session and sets its environment, not as root'' @
     add_roots config_roots ''sysusers.d/'' SurfaceSysusers ActivationAutomatic
       ''creates accounts and groups as root at install time'' @
     add_roots config_roots ''tmpfiles.d/'' SurfaceTmpfiles ActivationAutomatic
       ''creates and chowns paths as root at install time and on boot'' @
     add_roots config_roots ''udev/rules.d/'' SurfaceUdev ActivationAutomatic ''runs as root on matching device events'' @
     add_roots config_roots ''sysctl.d/'' SurfaceKernel ActivationAutomatic ''sets kernel parameters as root at boot'' @
     add_roots config_roots ''modules-load.d/'' SurfaceKernel ActivationAutomatic ''loads kernel modules as root at boot'' @
     add_roots config_roots ''modprobe.d/'' SurfaceKernel ActivationAutomatic ''changes how kernel modules are loaded'' @
     add_roots config_roots ''binfmt.d/'' SurfaceKernel ActivationAutomatic
       ''registers an interpreter the kernel invokes for matching binaries'' @
     add_roots polkit_roots ''polkit-1/rules.d/'' SurfacePolkit ActivationAutomatic
       ''decides privileged authorisation requests, immediately'' @
     add_roots polkit_roots ''polkit-1/actions/'' SurfacePolkit ActivationAutomatic
       ''can grant rights immediately through <defaults> or org.freedesktop.policykit.imply; inspect both'' @
     add_roots dbus_service_roots ''dbus-1/system-services/'' SurfaceDBus ActivationEnabled
       ''can be activated as a system service on request'' @
     add_roots systemd_roots ''system-sleep/'' SurfaceServiceHook ActivationAutomatic
       ''runs as root before and after every suspend or hibernate'' @
     add_roots systemd_roots ''system-shutdown/'' SurfaceServiceHook ActivationAutomatic
       ''runs as root during every power-off, reboot, halt or kexec'' @
     add_roots network_manager_roots ''NetworkManager/dispatcher.d/'' SurfaceServiceHook ActivationAutomatic
       ''runs as root on network events, if NetworkManager is installed''"

section \<open>Member names\<close>

definition normalize_member :: "string \<Rightarrow> string" where
  "normalize_member name =
     (if name = [] then []
      else
        let cleaned = trim_prefix (path_clean name) ''/'' in
        if cleaned = [] \<or> cleaned = ''.'' \<or> cleaned = ''..'' \<or> has_prefix cleaned ''../'' then [] else cleaned)"

section \<open>Classification\<close>

definition nested_activation :: "string \<Rightarrow> string \<Rightarrow> surface option" where
  "nested_activation prefix remainder = (case cut remainder ''/'' of (directory, _, nested) \<Rightarrow>
     if \<not> nested \<or> directory = [] then None
     else if has_suffix directory ''.wants'' \<or> has_suffix directory ''.requires''
     then Some (at_prefix prefix SurfaceUnit ActivationAutomatic
       (''enables a unit at install time: '' @ directory @
        '' participates when that target activates, with no systemctl enable''))
     else if has_suffix directory ''.d''
     then Some (at_prefix prefix SurfaceUnit ActivationAutomatic
       (''modifies '' @ trim_suffix directory ''.d'' @ '', which may already be enabled and running''))
     else Some (at_prefix prefix SurfaceUnit ActivationAutomatic
       ''sits below a systemd unit directory in a structure Prolewatch does not recognise''))"

fun unit_activation :: "string list \<Rightarrow> string \<Rightarrow> surface option" where
  "unit_activation [] name = None"
| "unit_activation (root # roots) name =
     (let prefix = root @ ''system/'' in
      if \<not> has_prefix name prefix then unit_activation roots name
      else nested_activation prefix (trim_prefix name prefix))"

definition systemd_unit_activation :: "string \<Rightarrow> surface option" where
  "systemd_unit_activation = unit_activation systemd_roots"

definition surface_matches :: "string \<Rightarrow> surface \<Rightarrow> bool" where
  "surface_matches name s =
     (if surf_member s \<noteq> [] then name = surf_member s
      else has_prefix name (surf_prefix s) \<and> name \<noteq> trim_suffix (surf_prefix s) ''/'')"

definition classify_surface :: "string \<Rightarrow> surface option" where
  "classify_surface member =
     (let name = normalize_member member in
      if name = [] then None
      else (case systemd_unit_activation name of
          Some s \<Rightarrow> Some s
        | None \<Rightarrow> find (surface_matches name) privileged_surfaces))"

definition is_privileged_surface :: "string \<Rightarrow> bool" where
  "is_privileged_surface member = (classify_surface member \<noteq> None)"

definition surface_prefixes :: "string list" where
  "surface_prefixes = sort (dedupe [] (filter (\<lambda>p. p \<noteq> []) (map surf_prefix privileged_surfaces)))"

section \<open>Normal member names\<close>

text \<open>A normal member name is the join of proper path elements, none of them dot-dot.\<close>

definition normal_elems :: "string list \<Rightarrow> bool" where
  "normal_elems es = (es \<noteq> [] \<and> clean_shape True es)"

lemma last_same: "set xs \<subseteq> {c} \<Longrightarrow> last (c # xs) = c"
  by (induction xs) auto

lemma clean_stack_no_up: "clean_stack False xs \<Longrightarrow> xs = [] \<or> last xs \<noteq> ''..'' \<Longrightarrow> clean_stack True xs"
proof (induction xs)
  case (Cons x xs)
  have "x \<noteq> ''..''"
  proof
    assume x: "x = ''..''"
    with Cons.prems have "set xs \<subseteq> {''..''}" "last (x # xs) \<noteq> ''..''" by auto
    with x last_same[of xs "''..''"] \<open>last (x # xs) \<noteq> ''..''\<close> show False by simp
  qed
  with Cons show ?case by (auto split: if_splits)
qed simp

lemma clean_stack_relax: "clean_stack True xs \<Longrightarrow> clean_stack False xs"
  by (induction xs) auto

lemma clean_shape_relax: "clean_shape True es \<Longrightarrow> clean_shape r es"
  using clean_stack_relax by (cases r) (auto simp: clean_shape_def)

lemma clean_shape_elems: "clean_shape True es \<Longrightarrow> list_all clean_elem es \<and> ''..'' \<notin> set es"
proof -
  have "clean_stack True xs \<Longrightarrow> ''..'' \<notin> set xs" for xs by (induction xs) auto
  then show "clean_shape True es \<Longrightarrow> list_all clean_elem es \<and> ''..'' \<notin> set es"
    using clean_stack_elems[of True "rev es"] by (fastforce simp: clean_shape_def list_all_iff)
qed

lemma join_with_Cons: "es \<noteq> [] \<Longrightarrow> join_with sep (e # es) = e @ sep @ join_with sep es"
  by (cases es) simp_all

lemma join_first: "es \<noteq> [] \<Longrightarrow> \<exists>rest. join_with sep es = hd es @ rest \<and> (rest = [] \<or> has_prefix rest sep)"
  by (cases es; cases "tl es") (auto simp: has_prefix_iff)

lemma elem_boundary:
  assumes "slash \<notin> set e" "rest = [] \<or> has_prefix rest [slash]" "slash \<notin> set f"
  shows "e @ rest = f \<Longrightarrow> e = f" and "has_prefix (e @ rest) (f @ [slash]) \<Longrightarrow> e = f"
proof -
  show "e = f" if "e @ rest = f" using assms that by (auto simp: has_prefix_iff)
  show "e = f" if "has_prefix (e @ rest) (f @ [slash])"
  proof -
    from that obtain t where "e @ rest = f @ slash # t" by (auto simp: has_prefix_iff)
    with assms show ?thesis by (auto simp: has_prefix_iff append_eq_append_conv2 append_eq_Cons_conv Cons_eq_append_conv)
  qed
qed

lemma normal_not_special:
  assumes "normal_elems es"
  defines "n \<equiv> join_with [slash] es"
  shows "n \<noteq> []" "n \<noteq> ''.''" "n \<noteq> ''..''" "\<not> has_prefix n ''../''" "\<not> has_prefix n ''/''"
proof -
  from assms have es: "es \<noteq> []" "clean_elem (hd es)" "hd es \<noteq> ''..''"
    using clean_shape_elems[of es] by (auto simp: normal_elems_def list_all_iff dest: hd_in_set)
  obtain rest where r: "n = hd es @ rest" "rest = [] \<or> has_prefix rest [slash]"
    using join_first[OF es(1), of "[slash]"] n_def by blast
  have h: "slash \<notin> set (hd es)" "hd es \<noteq> []" "hd es \<noteq> ''.''" using es(2) by (auto simp: clean_elem_def)
  note b = elem_boundary[OF h(1) r(2)]
  show "n \<noteq> []" using r(1) h(2) by simp
  show "n \<noteq> ''.''" using b(1)[of "''.''"] r(1) h(3) by auto
  show "n \<noteq> ''..''" using b(1)[of "''..''"] r(1) es(3) by auto
  show "\<not> has_prefix n ''../''" using b(2)[of "''..''"] r(1) es(3) by auto
  show "\<not> has_prefix n ''/''" using r(1) h by (cases "hd es") auto
qed

lemma normalize_from_elems:
  assumes "s \<noteq> []" "clean_elems (path_rooted s) (split_on slash s) = es" "normal_elems es"
  shows "normalize_member s = join_with [slash] es"
proof -
  note n = normal_not_special[OF assms(3)]
  have "path_clean s = (if path_rooted s then [slash] else []) @ join_with [slash] es"
    using assms by (simp add: path_clean_def Let_def normal_elems_def)
  then have "trim_prefix (path_clean s) ''/'' = join_with [slash] es"
    using n(5) by (auto simp: trim_prefix_def)
  with n assms(1) show ?thesis by (simp add: normalize_member_def Let_def)
qed

lemma normalize_member_elems:
  assumes "normalize_member m \<noteq> []"
  shows "m \<noteq> [] \<and> normal_elems (clean_elems (path_rooted m) (split_on slash m)) \<and>
    normalize_member m = join_with [slash] (clean_elems (path_rooted m) (split_on slash m))"
proof -
  let ?r = "path_rooted m" and ?es = "clean_elems (path_rooted m) (split_on slash m)"
  have sh: "clean_shape ?r ?es" by (rule clean_elems_shape)
  have m: "m \<noteq> []" using assms by (auto simp: normalize_member_def)
  have "normal_elems ?es"
  proof (cases ?r)
    case True
    then have "path_clean m = slash # join_with [slash] ?es" by (simp add: path_clean_def Let_def)
    then have "?es \<noteq> []" using assms by (auto simp: normalize_member_def trim_prefix_def split: if_splits)
    with sh True show ?thesis by (simp add: normal_elems_def)
  next
    case False
    have ne: "?es \<noteq> []"
    proof
      assume "?es = []"
      with False have "path_clean m = ''.''" by (simp add: path_clean_def Let_def)
      with assms show False by (simp add: normalize_member_def trim_prefix_def split: if_splits)
    qed
    with False have pc: "path_clean m = join_with [slash] ?es" by (simp add: path_clean_def Let_def)
    have up: "hd ?es \<noteq> ''..''"
    proof
      assume h: "hd ?es = ''..''"
      obtain rest where "path_clean m = ''..'' @ rest" "rest = [] \<or> has_prefix rest [slash]"
        using join_first[OF ne, of "[slash]"] pc h by metis
      then have "normalize_member m = []"
        by (auto simp: normalize_member_def trim_prefix_def has_prefix_iff)
      with assms show False by simp
    qed
    with ne have "last (rev ?es) \<noteq> ''..''" by (simp add: last_rev)
    with sh False ne show ?thesis using clean_stack_no_up[of "rev ?es"] by (simp add: clean_shape_def normal_elems_def)
  qed
  with m normalize_from_elems[OF m refl] show ?thesis by blast
qed

text \<open>The ways an archive can spell the same installed path.\<close>

lemma clean_elems_pad:
  "clean_elems r (''.'' # xs) = clean_elems r xs" "clean_elems r ([] # xs) = clean_elems r xs"
  "clean_elems r (xs @ [[]]) = clean_elems r xs"
  by (simp_all add: clean_elems_def)

lemma split_on_last: "split_on c (s @ [c]) = split_on c s @ [[]]"
proof (induction s)
  case (Cons x s)
  then show ?case using split_on_nonempty[of c s] by (cases "split_on c s") auto
qed simp

lemma normalize_spelling:
  assumes "normalize_member m = n" "n \<noteq> []"
  shows "normalize_member n = n" "normalize_member (''./'' @ n) = n" "normalize_member (''.//'' @ n) = n"
    "normalize_member (''/'' @ n) = n" "normalize_member (n @ ''/'') = n"
proof -
  from normalize_member_elems[of m] assms obtain es where es: "normal_elems es" and n: "n = join_with [slash] es" by auto
  have sh: "clean_elems r es = es" "es \<noteq> []" for r
    using es clean_shape_relax clean_elems_id by (auto simp: normal_elems_def)
  have sp: "split_on slash n = es"
    unfolding n by (rule split_join[OF sh(2)]) (use es clean_shape_no_slash in \<open>auto simp: normal_elems_def\<close>)
  note from_n = normalize_from_elems[OF _ _ es, folded n]
  show "normalize_member n = n" by (rule from_n) (simp_all add: assms(2) sp sh)
  show "normalize_member (''./'' @ n) = n" by (rule from_n) (simp_all add: clean_elems_pad sp sh)
  show "normalize_member (''.//'' @ n) = n" by (rule from_n) (simp_all add: clean_elems_pad sp sh)
  show "normalize_member (''/'' @ n) = n" by (rule from_n) (simp_all add: clean_elems_pad sp sh)
  show "normalize_member (n @ ''/'') = n" by (rule from_n) (simp_all add: clean_elems_pad split_on_last sp sh)
qed

lemma normalize_idem: "normalize_member (normalize_member m) = normalize_member m"
  using normalize_spelling(1)[OF refl, of m] by (cases "normalize_member m = []") (auto simp: normalize_member_def)

section \<open>What classification decides\<close>

lemma unit_activation_prefix:
  "unit_activation roots name = Some s \<Longrightarrow> \<exists>root \<in> set roots. has_prefix name (root @ ''system/'')"
  by (induction roots) (auto simp: Let_def split: if_splits)

lemma registry_prefix_slash:
  "s \<in> set privileged_surfaces \<Longrightarrow> surf_member s = [] \<Longrightarrow> surf_prefix s \<noteq> [] \<and> last (surf_prefix s) = slash"
proof -
  have "list_all (\<lambda>s. surf_member s = [] \<longrightarrow> surf_prefix s \<noteq> [] \<and> last (surf_prefix s) = slash) privileged_surfaces"
    by code_simp
  then show "s \<in> set privileged_surfaces \<Longrightarrow> surf_member s = [] \<Longrightarrow> surf_prefix s \<noteq> [] \<and> last (surf_prefix s) = slash"
    by (simp add: list_all_iff)
qed

text \<open>The test for the directory itself never decides: a prefix ends with a slash.\<close>

lemma surface_matches_registry:
  assumes "s \<in> set privileged_surfaces"
  shows "surface_matches name s \<longleftrightarrow> (if surf_member s \<noteq> [] then name = surf_member s else has_prefix name (surf_prefix s))"
proof (cases "surf_member s = []")
  case True
  from registry_prefix_slash[OF assms True] obtain q where q: "surf_prefix s = q @ [slash]"
    by (metis append_butlast_last_id)
  have "name \<noteq> trim_suffix (surf_prefix s) ''/''" if "has_prefix name (surf_prefix s)"
    using that by (auto simp: q has_prefix_iff)
  with True show ?thesis by (auto simp: surface_matches_def)
qed (simp add: surface_matches_def)

definition in_registry :: "string \<Rightarrow> bool" where
  "in_registry n = (\<exists>s \<in> set privileged_surfaces.
     if surf_member s \<noteq> [] then n = surf_member s else has_prefix n (surf_prefix s))"

lemma in_registry_find: "in_registry n \<longleftrightarrow> find (surface_matches n) privileged_surfaces \<noteq> None"
  unfolding find_None_iff by (auto simp: in_registry_def surface_matches_registry)

lemma unit_roots_registered:
  "root \<in> set systemd_roots \<Longrightarrow> at_prefix (root @ ''system/'') SurfaceUnit ActivationEnabled when_enabled \<in> set privileged_surfaces"
  by (auto simp: privileged_surfaces_def add_roots_def)

lemma unit_activation_registered: "systemd_unit_activation n = Some s \<Longrightarrow> in_registry n"
proof -
  assume "systemd_unit_activation n = Some s"
  then obtain root where r: "root \<in> set systemd_roots" "has_prefix n (root @ ''system/'')"
    using unit_activation_prefix[of systemd_roots n s] by (auto simp: systemd_unit_activation_def)
  from r(2) unit_roots_registered[OF r(1)] show ?thesis
    unfolding in_registry_def by (rule_tac bexI) (simp_all add: at_prefix_def)
qed

lemma has_prefix_append_cases: "has_prefix (p @ u) q \<Longrightarrow> has_prefix p q \<or> has_prefix q p"
  by (auto simp: has_prefix_iff append_eq_append_conv2)

definition elsewhere :: "string \<Rightarrow> surface \<Rightarrow> bool" where
  "elsewhere p s = (if surf_member s = [] then \<not> has_prefix p (surf_prefix s) \<and> \<not> has_prefix (surf_prefix s) p
     else \<not> has_prefix (surf_member s) p)"

lemma elsewhere_no_match: "elsewhere p s \<Longrightarrow> \<not> surface_matches (p @ u) s"
proof (cases "surf_member s = []")
  case True
  then show "elsewhere p s \<Longrightarrow> ?thesis"
    using has_prefix_append_cases[of p u "surf_prefix s"] by (auto simp: elsewhere_def surface_matches_def)
next
  case False
  have "surf_member s = p @ u \<Longrightarrow> has_prefix (surf_member s) p" by (simp add: has_prefix_iff)
  with False show "elsewhere p s \<Longrightarrow> ?thesis" by (auto simp: elsewhere_def surface_matches_def)
qed

lemma single_surfaces_elsewhere:
  assumes "root \<in> set systemd_roots"
  shows "find (surface_matches (root @ ''system/'' @ u)) single_surfaces = None"
proof -
  have "list_all (\<lambda>root. list_all (elsewhere (root @ ''system/'')) single_surfaces) systemd_roots" by code_simp
  with assms have "list_all (elsewhere (root @ ''system/'')) single_surfaces"
    unfolding list_all_iff by (rule bspec[rotated])
  then show ?thesis
    using elsewhere_no_match[of "root @ ''system/''" _ u] unfolding find_None_iff list_all_iff append_assoc by blast
qed

lemma nested_activation_automatic:
  "str_index u ''/'' = Some i \<Longrightarrow> take i u \<noteq> [] \<Longrightarrow>
     \<exists>s. nested_activation prefix u = Some s \<and> surf_activation s = ActivationAutomatic"
  by (simp add: nested_activation_def cut_def at_prefix_def)

lemma systemd_unit_nested:
  "root \<in> set systemd_roots \<Longrightarrow>
     systemd_unit_activation (root @ ''system/'' @ u) = nested_activation (root @ ''system/'') u"
  by (auto simp: systemd_unit_activation_def systemd_roots_def trim_prefix_def)

lemma list_elems:
  "x \<in> set [a, b, c, d] \<Longrightarrow> (x = a \<Longrightarrow> P) \<Longrightarrow> (x = b \<Longrightarrow> P) \<Longrightarrow> (x = c \<Longrightarrow> P) \<Longrightarrow> (x = d \<Longrightarrow> P) \<Longrightarrow> P"
  by auto

lemma surface_matches_unit_root:
  "surface_matches n (at_prefix (root @ ''system/'') k a w) \<longleftrightarrow> has_prefix n (root @ ''system/'')"
proof -
  have "trim_suffix (root @ ''system/'') ''/'' = root @ ''system''"
    using trim_suffix_append[of "root @ ''system''" "''/''"] by simp
  moreover have "\<not> has_prefix (root @ ''system'') (root @ ''system/'')" by (simp add: has_prefix_iff)
  ultimately show ?thesis by (auto simp: surface_matches_def at_prefix_def)
qed

lemma find_unit_root:
  assumes "root \<in> set systemd_roots"
  shows "find (surface_matches (root @ ''system/'' @ u)) privileged_surfaces =
    Some (at_prefix (root @ ''system/'') SurfaceUnit ActivationEnabled when_enabled)"
proof -
  have "find (surface_matches (root @ ''system/'' @ u)) (add_roots systemd_roots ''system/'' SurfaceUnit ActivationEnabled when_enabled) =
    Some (at_prefix (root @ ''system/'') SurfaceUnit ActivationEnabled when_enabled)"
    using assms unfolding add_roots_def systemd_roots_def list.map find.simps surface_matches_unit_root
    by (elim list_elems) simp_all
  then show ?thesis
    unfolding privileged_surfaces_def find_append single_surfaces_elsewhere[OF assms] by simp
qed

lemma split_on_append_sep: "split_on c (a @ c # s) = split_on c a @ split_on c s"
proof (induction a)
  case (Cons x a)
  then show ?case using split_on_nonempty[of c a] by (cases "split_on c a") auto
qed simp

lemma normal_no_empty_elem: "normalize_member m \<noteq> p @ slash # slash # v"
proof
  assume m: "normalize_member m = p @ slash # slash # v"
  with normalize_member_elems[of m] obtain es where es: "normal_elems es" "p @ slash # slash # v = join_with [slash] es" by auto
  have "split_on slash (join_with [slash] es) = es"
    by (rule split_join) (use es(1) clean_shape_no_slash in \<open>auto simp: normal_elems_def\<close>)
  then have "es = split_on slash p @ [] # split_on slash v"
    using es(2) split_on_append_sep[of slash p "slash # v"] by simp
  with es(1) clean_shape_elems[of es] show False by (auto simp: normal_elems_def list_all_iff clean_elem_def)
qed

section \<open>Properties\<close>

text \<open>C27: an archive member is a privileged surface exactly when the path it is installed at is a
  registered member or lies below a registered prefix, however the archive spells that path.\<close>

theorem surface_registry_exact:
  assumes "normalize_member m = n" "n \<noteq> []"
  shows "(is_privileged_surface m \<longleftrightarrow> in_registry n) \<and>
    (\<forall>spelling \<in> {n, ''./'' @ n, ''.//'' @ n, ''/'' @ n, n @ ''/''}. classify_surface spelling = classify_surface m)"
proof
  show "is_privileged_surface m \<longleftrightarrow> in_registry n"
    using assms unit_activation_registered[of n] in_registry_find[of n]
    by (auto simp: is_privileged_surface_def classify_surface_def Let_def split: option.split)
  show "\<forall>spelling \<in> {n, ''./'' @ n, ''.//'' @ n, ''/'' @ n, n @ ''/''}. classify_surface spelling = classify_surface m"
    using normalize_spelling[OF assms] assms(1) by (simp add: classify_surface_def)
qed

theorem surface_registry_exact_witness:
  "(is_privileged_surface ''.//etc/../usr/lib/systemd/system-generators/evil'' \<longleftrightarrow>
      in_registry ''usr/lib/systemd/system-generators/evil'') \<and>
    classify_surface (''./'' @ ''usr/lib/systemd/system-generators/evil'') =
      classify_surface ''.//etc/../usr/lib/systemd/system-generators/evil''"
proof -
  have n: "normalize_member ''.//etc/../usr/lib/systemd/system-generators/evil'' = ''usr/lib/systemd/system-generators/evil''"
    by code_simp
  from surface_registry_exact[OF n] show ?thesis by blast
qed

text \<open>Below a system unit directory a plain unit file is inventory, and everything nested - an
  enablement link, a drop-in, or any other structure - is a question.\<close>

lemma unit_decision:
  assumes "normalize_member m = root @ ''system/'' @ u" "root \<in> set systemd_roots"
  shows "\<exists>s. classify_surface m = Some s \<and> (requires_decision (surf_activation s) \<longleftrightarrow> slash \<in> set u)"
proof -
  define n where "n = root @ ''system/'' @ u"
  have n: "n \<noteq> []" by (simp add: n_def)
  have dir: "u \<noteq> slash # v" for v
    using normal_no_empty_elem[of m "root @ ''system''" v] assms(1) by auto
  have c: "classify_surface m = (case systemd_unit_activation n of Some s \<Rightarrow> Some s
      | None \<Rightarrow> find (surface_matches n) privileged_surfaces)"
    using assms(1) n by (simp add: classify_surface_def Let_def n_def[symmetric] del: append_Cons)
  show ?thesis
  proof (cases "slash \<in> set u")
    case False
    then have "cut u ''/'' = (u, [], False)"
      using str_index_single_None[of u slash] by (simp add: cut_def)
    then have "systemd_unit_activation n = None"
      by (simp add: n_def systemd_unit_nested[OF assms(2), simplified] nested_activation_def)
    moreover have "find (surface_matches n) privileged_surfaces =
        Some (at_prefix (root @ ''system/'') SurfaceUnit ActivationEnabled when_enabled)"
      unfolding n_def by (rule find_unit_root[OF assms(2)])
    ultimately show ?thesis using c False by (simp add: at_prefix_def requires_decision_def)
  next
    case True
    then obtain i where i: "str_index u ''/'' = Some i"
      using str_index_single_None[of u slash] by (cases "str_index u ''/''") auto
    have "take i u \<noteq> []"
    proof
      assume "take i u = []"
      with str_index_Some[OF i] have "u = slash # drop (i + length ''/'') u" by simp
      with dir show False by blast
    qed
    with i have "\<exists>s. systemd_unit_activation n = Some s \<and> surf_activation s = ActivationAutomatic"
      unfolding n_def systemd_unit_nested[OF assms(2)] by (rule nested_activation_automatic)
    with c True show ?thesis by (auto simp: requires_decision_def)
  qed
qed

end
