(* ===== verification/Mtree.thy ===== *)
theory Mtree
  imports Go_Utf8
begin

text \<open>
  internal/brief/mtree.go: the reader of .MTREE text. Records are package-authored, so the mode of
  a record is what its own line or the last /set directive says, and the pathname is decoded from
  libarchive's octal escapes before it is compared with a member name.
\<close>

unbundle bit_operations_syntax

definition nl :: char where "nl = CHR 0x0A"

definition backslash :: char where "backslash = CHR 0x5C"

record mtree_record =
  mt_path :: string
  mt_mode :: int
  mt_explicit :: bool
  mt_capability :: bool

record mtree_defaults =
  md_mode :: int
  md_has_mode :: bool

section \<open>Escaped pathnames\<close>

fun decode_mtree_bytes :: "string \<Rightarrow> string" where
  "decode_mtree_bytes (c # a # b # d # s) =
     (if c \<noteq> backslash then c # decode_mtree_bytes (a # b # d # s)
      else (case parse_uint 8 8 [a, b, d] of
          Some v \<Rightarrow> char_of v # decode_mtree_bytes s
        | None \<Rightarrow> c # decode_mtree_bytes (a # b # d # s)))"
| "decode_mtree_bytes s = s"

definition decode_mtree_path :: "string \<Rightarrow> string" where
  "decode_mtree_path token = (if \<not> str_contains token [backslash] then token else decode_mtree_bytes token)"

section \<open>Directives and records\<close>

definition apply_mtree_field :: "string \<Rightarrow> string \<Rightarrow> mtree_defaults \<Rightarrow> mtree_defaults" where
  "apply_mtree_field directive field d = (case cut field ''='' of (k, v, ok) \<Rightarrow>
     let key = (if directive = ''/unset'' then field else k);
         found = (if directive = ''/unset'' then True else ok) in
     if \<not> found \<or> key \<noteq> ''mode'' then d
     else if directive = ''/unset'' then d\<lparr>md_mode := 0, md_has_mode := False\<rparr>
     else (case parse_int 8 64 v of Some m \<Rightarrow> d\<lparr>md_mode := m, md_has_mode := True\<rparr> | None \<Rightarrow> d))"

definition apply_mtree_directive :: "string \<Rightarrow> string \<Rightarrow> mtree_defaults \<Rightarrow> mtree_defaults" where
  "apply_mtree_directive directive rest d = foldl (\<lambda>d f. apply_mtree_field directive f d) d (Go_Utf8.fields rest)"

definition mtree_field :: "string \<Rightarrow> mtree_record \<Rightarrow> mtree_record" where
  "mtree_field field r = (case cut field ''='' of (key, v, ok) \<Rightarrow>
     if \<not> ok then r
     else if key = ''mode'' then
       (case parse_int 8 64 v of
          Some m \<Rightarrow> r\<lparr>mt_mode := m, mt_explicit := True\<rparr>
        | None \<Rightarrow> r\<lparr>mt_mode := -1, mt_explicit := True\<rparr>)
     else if (has_prefix key ''xattr'' \<and> str_contains v ''security.capability'') \<or> key = ''security.capability''
     then r\<lparr>mt_capability := True\<rparr>
     else r)"

definition parse_mtree_record :: "string \<Rightarrow> mtree_defaults \<Rightarrow> mtree_record" where
  "parse_mtree_record line d =
     (let r0 = \<lparr>mt_path = [], mt_mode = -1, mt_explicit = False, mt_capability = False\<rparr> in
      case Go_Utf8.fields line of
        [] \<Rightarrow> r0
      | f # fs \<Rightarrow>
          (let r1 = r0\<lparr>mt_path := decode_mtree_path f, mt_mode := if md_has_mode d then md_mode d else -1\<rparr>;
               r2 = foldl (\<lambda>r f. mtree_field f r) r1 fs in
           if str_contains line ''security.capability'' then r2\<lparr>mt_capability := True\<rparr> else r2))"

text \<open>The visited records, with the index and the text of their line.\<close>

fun parse_mtree_lines :: "nat \<Rightarrow> mtree_defaults \<Rightarrow> string list \<Rightarrow> (nat \<times> string \<times> mtree_record) list" where
  "parse_mtree_lines i d [] = []"
| "parse_mtree_lines i d (line # ls) =
     (let trimmed = trim_space line in
      if trimmed = [] \<or> has_prefix trimmed ''#'' then parse_mtree_lines (Suc i) d ls
      else (case cut trimmed '' '' of (directive, rest, _) \<Rightarrow>
        if directive = ''/set'' \<or> directive = ''/unset''
        then parse_mtree_lines (Suc i) (apply_mtree_directive directive rest d) ls
        else (i, line, parse_mtree_record trimmed d) # parse_mtree_lines (Suc i) d ls))"

definition parse_mtree :: "string \<Rightarrow> (nat \<times> string \<times> mtree_record) list" where
  "parse_mtree text = parse_mtree_lines 0 \<lparr>md_mode = 0, md_has_mode = False\<rparr> (split_on nl text)"

definition mtree_privileged :: "mtree_record \<Rightarrow> bool" where
  "mtree_privileged r = (mt_capability r \<or> (0 \<le> mt_mode r \<and> mt_mode r AND 3072 \<noteq> 0))"

section \<open>Decoding undoes escaping\<close>

text \<open>What libarchive writes: each byte it does not write as it is becomes a backslash and three octal
  digits.\<close>

definition octal3 :: "nat \<Rightarrow> string" where
  "octal3 n = [char_of (48 + n div 64), char_of (48 + n div 8 mod 8), char_of (48 + n mod 8)]"

definition mtree_escape :: "(char \<Rightarrow> bool) \<Rightarrow> string \<Rightarrow> string" where
  "mtree_escape unsafe s = concat (map (\<lambda>c. if unsafe c then backslash # octal3 (of_char c) else [c]) s)"

lemma parse_octal3: "n < 256 \<Longrightarrow> parse_uint 8 8 (octal3 n) = Some n"
proof -
  assume n: "n < 256"
  have d: "n div 64 < 8" using n by simp
  have v: "(n div 64 * 8 + n div 8 mod 8) * 8 + n mod 8 = n"
  proof -
    have "n div 64 = n div 8 div 8" by (simp add: div_mult2_eq[of n 8 8, simplified])
    then have "n div 64 * 8 + n div 8 mod 8 = n div 8" by simp
    then show ?thesis by simp
  qed
  show ?thesis using n d v by (simp add: parse_uint_def octal3_def digit_val_char_of)
qed

lemma decode_mtree_short: "length s < 4 \<Longrightarrow> decode_mtree_bytes s = s"
  by (cases s rule: decode_mtree_bytes.cases) auto

lemma decode_mtree_Cons: "c \<noteq> backslash \<Longrightarrow> decode_mtree_bytes (c # t) = c # decode_mtree_bytes t"
proof (cases "length t < 3")
  case True
  then show ?thesis by (simp add: decode_mtree_short)
next
  case False
  then obtain a b d s where "t = a # b # d # s" by (cases t rule: decode_mtree_bytes.cases) auto
  then show "c \<noteq> backslash \<Longrightarrow> ?thesis" by simp
qed

lemma decode_mtree_octal: "n < 256 \<Longrightarrow> decode_mtree_bytes (backslash # octal3 n @ t) = char_of n # decode_mtree_bytes t"
  using parse_octal3[of n] by (simp add: octal3_def)

lemma decode_mtree_escape:
  assumes "unsafe backslash"
  shows "decode_mtree_bytes (mtree_escape unsafe s) = s"
proof (induction s)
  case (Cons c s)
  have "c \<noteq> backslash" if "\<not> unsafe c" using assms that by auto
  with Cons show ?case
    using decode_mtree_octal[of "of_char c" "mtree_escape unsafe s"]
    by (auto simp: mtree_escape_def decode_mtree_Cons)
qed (simp add: mtree_escape_def)

lemma decode_mtree_plain: "backslash \<notin> set s \<Longrightarrow> decode_mtree_bytes s = s"
  by (induction s) (auto simp: decode_mtree_Cons)

section \<open>Which mode a record has\<close>

definition mode_fields :: "string list \<Rightarrow> string list" where
  "mode_fields fs = List.map_filter (\<lambda>f. case cut f ''='' of (k, v, ok) \<Rightarrow> if ok \<and> k = ''mode'' then Some v else None) fs"

definition effective_mode :: "int \<Rightarrow> string list \<Rightarrow> int" where
  "effective_mode inherited fs = (if mode_fields fs = [] then inherited
     else (case parse_int 8 64 (last (mode_fields fs)) of Some m \<Rightarrow> m | None \<Rightarrow> -1))"

lemma mode_fields_snoc:
  "mode_fields (fs @ [f]) = mode_fields fs @ (case cut f ''='' of (k, v, ok) \<Rightarrow> if ok \<and> k = ''mode'' then [v] else [])"
  by (auto simp: mode_fields_def map_filter_def split: prod.splits)

lemma mtree_fields_mode: "mt_mode (foldl (\<lambda>r f. mtree_field f r) r fs) = effective_mode (mt_mode r) fs"
proof (induction fs rule: rev_induct)
  case (snoc f fs)
  then show ?case
    by (auto simp: mode_fields_snoc effective_mode_def mtree_field_def split: prod.splits option.splits)
qed (simp add: effective_mode_def mode_fields_def map_filter_simps)

lemma mtree_fields_capability: "mt_capability r \<Longrightarrow> mt_capability (foldl (\<lambda>r f. mtree_field f r) r fs)"
  by (induction fs arbitrary: r) (auto simp: mtree_field_def split: prod.splits option.splits)

section \<open>Properties\<close>

text \<open>Decoding a pathname gives back the member name however much of it libarchive escaped, as
  long as it escaped the backslash.\<close>

lemma mtree_path_roundtrip:
  assumes "unsafe backslash"
  shows "decode_mtree_path (mtree_escape unsafe s) = s"
proof (cases "str_contains (mtree_escape unsafe s) [backslash]")
  case True
  then show ?thesis by (simp add: decode_mtree_path_def decode_mtree_escape[where unsafe = unsafe, OF assms])
next
  case False
  then have "backslash \<notin> set (mtree_escape unsafe s)" by (simp add: str_contains_def str_index_single_None)
  with False show ?thesis
    using decode_mtree_plain decode_mtree_escape[where unsafe = unsafe, OF assms, of s] by (simp add: decode_mtree_path_def)
qed

text \<open>A record is reported as privileged whenever its own last mode field, or the last /set default
  when it has none, carries the setuid or setgid bit, and whenever its line names file capabilities.\<close>

lemma mtree_privileged_seen:
  assumes "Go_Utf8.fields line = f # fs"
    and "m = effective_mode (if md_has_mode d then md_mode d else -1) fs"
    and "(0 \<le> m \<and> m AND 3072 \<noteq> 0) \<or> str_contains line ''security.capability''"
  shows "mtree_privileged (parse_mtree_record line d)"
  using assms by (auto simp: mtree_privileged_def parse_mtree_record_def mtree_fields_mode Let_def)

text \<open>A mode that does not parse is recorded as -1, and such a record is not reported as privileged.\<close>

lemma mtree_unparsable_mode:
  "mtree_privileged (parse_mtree_record ''./usr/bin/x mode=4755,'' \<lparr>md_mode = 0, md_has_mode = False\<rparr>) = False"
  by code_simp

end
