(* ===== verification/Archive_Filter.thy ===== *)
theory Archive_Filter
  imports Surfaces Mtree Safe_Text
begin

text \<open>
  internal/brief/integration.go and filter.go: enumerating the privileged surfaces of a built
  package and rewriting the package without the ones the user refused. An archive is the list of
  its tar entries, in order; \<open>None\<close> stands for an archive that cannot be opened or read. The gzip
  format is a pair of parameters, and so is the digest of the rewritten file.
\<close>

datatype entry_type = TypeReg | TypeDir | TypeSymlink | TypeLink | TypeOther

text \<open>A tar entry; \<open>te_attrs\<close> stands for the header fields the code copies without looking at them.\<close>

record tar_entry =
  te_name :: string
  te_type :: entry_type
  te_linkname :: string
  te_size :: int
  te_attrs :: string
  te_body :: string

section \<open>Enumerating surfaces\<close>

record privileged_surface =
  ps_member :: string
  ps_kind :: surface_kind
  ps_activation :: surface_activation
  ps_link_target :: string
  ps_when :: string
  ps_body :: string
  ps_truncated :: bool
  ps_size :: int

definition max_surface_body :: nat where "max_surface_body = 64 * 1024"

definition read_bounded :: "string \<Rightarrow> nat \<Rightarrow> string \<times> bool" where
  "read_bounded content limit =
     (let raw = take (limit + 1) content in if length raw > limit then (take limit raw, True) else (raw, False))"

definition member_surface :: "tar_entry \<Rightarrow> privileged_surface option" where
  "member_surface e =
     (if te_type e = TypeDir then None
      else (case classify_surface (te_name e) of
          None \<Rightarrow> None
        | Some class \<Rightarrow>
            (let member = normalize_member (te_name e);
                 s = \<lparr>ps_member = member, ps_kind = surf_kind class, ps_activation = surf_activation class,
                      ps_link_target = [], ps_when = surf_when class, ps_body = [], ps_truncated = False,
                      ps_size = te_size e\<rparr>;
                 s1 = (if te_type e = TypeSymlink \<or> te_type e = TypeLink then
                     (let s' = s\<lparr>ps_link_target := safe_inline (te_linkname e) 4096\<rparr> in
                      if \<not> requires_decision (ps_activation s')
                      then s'\<lparr>ps_activation := ActivationAutomatic,
                        ps_when := ''a link occupying '' @ member @ ''; where it points decides what it does''\<rparr>
                      else s')
                   else s);
                 s2 = (if te_type e = TypeReg then
                     (case read_bounded (te_body e) max_surface_body of
                        (body, truncated) \<Rightarrow> s1\<lparr>ps_body := safe_text body (int max_surface_body), ps_truncated := truncated\<rparr>)
                   else s1) in
             Some s2)))"

definition enumerate_surfaces :: "tar_entry list option \<Rightarrow> privileged_surface list option" where
  "enumerate_surfaces archive = map_option (\<lambda>es. sort_key ps_member (List.map_filter member_surface es)) archive"

definition surfaces_requiring_decision :: "privileged_surface list \<Rightarrow> privileged_surface list" where
  "surfaces_requiring_decision surfaces = filter (\<lambda>s. requires_decision (ps_activation s)) surfaces"

section \<open>Rewriting a package\<close>

definition pacman_metadata_members :: "string list" where
  "pacman_metadata_members = [''.PKGINFO'', ''.BUILDINFO'', ''.MTREE'', ''.INSTALL'', ''.CHANGELOG'']"

text \<open>The names to dropped, and the directories among them that were not asked for.\<close>

definition strip_set :: "string list \<Rightarrow> string list" where
  "strip_set strip = map normalize_member strip"

definition archive_directories :: "tar_entry list \<Rightarrow> string list" where
  "archive_directories es = remdups (map (\<lambda>e. normalize_member (te_name e)) (filter (\<lambda>e. te_type e = TypeDir) es))"

definition surviving_files :: "tar_entry list \<Rightarrow> string list \<Rightarrow> string list" where
  "surviving_files es strip = filter (\<lambda>n. n \<notin> set (strip_set strip))
     (map (\<lambda>e. normalize_member (te_name e)) (filter (\<lambda>e. te_type e \<noteq> TypeDir) es))"

definition pruned_directories :: "tar_entry list \<Rightarrow> string list \<Rightarrow> string list" where
  "pruned_directories es strip = sort (filter (\<lambda>d. \<not> (\<exists>f \<in> set (surviving_files es strip). has_prefix f (d @ ''/'')))
     (archive_directories es))"

definition drop_set :: "tar_entry list \<Rightarrow> string list \<Rightarrow> string list \<times> string list" where
  "drop_set es strip = (strip_set strip @ pruned_directories es strip, pruned_directories es strip)"

datatype filter_error = UnreadableArchive | CannotStrip string | MetadataMember string | BadMtree | WriteFailed

fun check_strip :: "string list \<Rightarrow> string list \<Rightarrow> filter_error option" where
  "check_strip present [] = None"
| "check_strip present (name # names) =
     (let normalized = normalize_member name in
      if normalized \<notin> set present then Some (CannotStrip normalized)
      else if normalized \<in> set pacman_metadata_members \<and> normalized \<noteq> ''.INSTALL'' then Some (MetadataMember normalized)
      else check_strip present names)"

text \<open>The lines of .MTREE that stay.\<close>

definition mtree_line_name :: "string \<Rightarrow> string option" where
  "mtree_line_name line =
     (let trimmed = trim_suffix line [nl] in
      if trimmed = [] \<or> has_prefix trimmed ''#'' \<or> has_prefix trimmed ''/set'' \<or> has_prefix trimmed ''/unset'' then None
      else Some (normalize_member (decode_mtree_path (fst (cut trimmed '' '')))))"

definition keep_mtree_line :: "string list \<Rightarrow> string \<Rightarrow> bool" where
  "keep_mtree_line dropped line = (case mtree_line_name line of None \<Rightarrow> True | Some n \<Rightarrow> n \<notin> set dropped)"

definition filter_mtree_text :: "string list \<Rightarrow> string \<Rightarrow> string" where
  "filter_mtree_text dropped text = concat (filter (keep_mtree_line dropped) (split_after nl text))"

definition entry_content :: "tar_entry \<Rightarrow> string" where
  "entry_content e = (if te_type e = TypeReg then te_body e else [])"

definition write_filtered_mtree ::
  "(string \<Rightarrow> string option) \<Rightarrow> (string \<Rightarrow> string) \<Rightarrow> string list \<Rightarrow> tar_entry \<Rightarrow> tar_entry option" where
  "write_filtered_mtree gunzip gzip dropped e = (case gunzip (entry_content e) of
      None \<Rightarrow> None
    | Some text \<Rightarrow>
        let blob = gzip (filter_mtree_text dropped text) in
        Some (e\<lparr>te_size := int (length blob), te_body := blob\<rparr>))"

fun rewrite_entries ::
  "(string \<Rightarrow> string option) \<Rightarrow> (string \<Rightarrow> string) \<Rightarrow> string list \<Rightarrow> tar_entry list \<Rightarrow> tar_entry list option" where
  "rewrite_entries gunzip gzip dropped [] = Some []"
| "rewrite_entries gunzip gzip dropped (e # es) =
     (let name = normalize_member (te_name e) in
      if name \<in> set dropped then rewrite_entries gunzip gzip dropped es
      else if name = ''.MTREE'' then
        (case write_filtered_mtree gunzip gzip dropped e of
           None \<Rightarrow> None
         | Some e' \<Rightarrow> map_option (\<lambda>rest. e' # rest) (rewrite_entries gunzip gzip dropped es))
      else map_option (\<lambda>rest. e\<lparr>te_body := entry_content e\<rparr> # rest) (rewrite_entries gunzip gzip dropped es))"

record filter_result =
  fr_stripped :: "string list"
  fr_pruned :: "string list"
  fr_sha256 :: string

definition filter_archive ::
  "(string \<Rightarrow> string option) \<Rightarrow> (string \<Rightarrow> string) \<Rightarrow> (tar_entry list \<Rightarrow> string option) \<Rightarrow> tar_entry list option \<Rightarrow>
     string list \<Rightarrow> filter_error + (tar_entry list \<times> filter_result)" where
  "filter_archive gunzip gzip written archive strip = (case archive of
      None \<Rightarrow> Inl UnreadableArchive
    | Some es \<Rightarrow>
        (case check_strip (map (\<lambda>e. normalize_member (te_name e)) es) strip of
           Some err \<Rightarrow> Inl err
         | None \<Rightarrow>
             (case drop_set es strip of (dropped, pruned) \<Rightarrow>
                (case rewrite_entries gunzip gzip dropped es of
                   None \<Rightarrow> Inl BadMtree
                 | Some es' \<Rightarrow>
                     (case written es' of
                        None \<Rightarrow> Inl WriteFailed
                      | Some digest \<Rightarrow> Inr (es', \<lparr>fr_stripped = sort (strip_set strip), fr_pruned = pruned, fr_sha256 = digest\<rparr>))))))"

section \<open>Lines\<close>

definition complete_line :: "char \<Rightarrow> string \<Rightarrow> bool" where
  "complete_line c w = (\<exists>a. w = a @ [c] \<and> c \<notin> set a)"

text \<open>Complete lines, with perhaps an incomplete one at the end.\<close>

fun lines_ok :: "char \<Rightarrow> string list \<Rightarrow> bool" where
  "lines_ok c [] = True"
| "lines_ok c (w # ws) = ((complete_line c w \<and> lines_ok c ws) \<or> (ws = [] \<and> c \<notin> set w))"

lemma split_after_no: "c \<notin> set w \<Longrightarrow> split_after c w = [w]"
  by (induction w) auto

lemma split_after_line: "c \<notin> set a \<Longrightarrow> split_after c (a @ c # s) = (a @ [c]) # split_after c s"
  by (induction a) auto

lemma lines_ok_split_after: "lines_ok c (split_after c s)"
proof (induction "length s" arbitrary: s rule: less_induct)
  case less
  show ?case
  proof (cases "c \<in> set s")
    case False
    then show ?thesis by (simp add: split_after_no)
  next
    case True
    then obtain a t where s: "s = a @ c # t" "c \<notin> set a" using split_list_first by metis
    with less[of t] show ?thesis by (auto simp: split_after_line complete_line_def)
  qed
qed

lemma lines_ok_filter: "lines_ok c ls \<Longrightarrow> lines_ok c (filter P ls)"
  by (induction ls) auto

lemma split_after_concat:
  "lines_ok c ls \<Longrightarrow> {l \<in> set (split_after c (concat ls)). l \<noteq> []} = {l \<in> set ls. l \<noteq> []}"
proof (induction ls)
  case (Cons w ws)
  then consider a where "w = a @ [c]" "c \<notin> set a" "lines_ok c ws" | "ws = []" "c \<notin> set w"
    by (auto simp: complete_line_def)
  then show ?case
  proof cases
    case 1
    with Cons.IH show ?thesis by (simp add: split_after_line insert_Collect[symmetric] set_eq_iff) blast
  qed (auto simp: split_after_no)
qed simp

text \<open>The members an .MTREE text has records for.\<close>

definition mtree_names :: "string \<Rightarrow> string set" where
  "mtree_names text = {n. \<exists>l \<in> set (split_after nl text). mtree_line_name l = Some n}"

lemma mtree_line_name_Nil: "mtree_line_name [] = None"
  by (simp add: mtree_line_name_def trim_suffix_def has_suffix_def has_prefix_def)

lemma mtree_names_filter: "mtree_names (filter_mtree_text dropped text) = mtree_names text - set dropped"
proof -
  let ?ls = "filter (keep_mtree_line dropped) (split_after nl text)"
  have "{l \<in> set (split_after nl (concat ?ls)). l \<noteq> []} = {l \<in> set ?ls. l \<noteq> []}"
    by (rule split_after_concat[OF lines_ok_filter[OF lines_ok_split_after]])
  then have m: "l \<in> set (split_after nl (concat ?ls)) \<longleftrightarrow> l \<in> set (split_after nl text) \<and> keep_mtree_line dropped l"
    if "l \<noteq> []" for l using that by auto
  have ne: "l \<noteq> []" if "mtree_line_name l = Some n" for l n using that by (auto simp: mtree_line_name_Nil)
  have "n \<in> mtree_names (filter_mtree_text dropped text) \<longleftrightarrow> n \<in> mtree_names text - set dropped" for n
  proof -
    have "n \<in> mtree_names (filter_mtree_text dropped text) \<longleftrightarrow>
        (\<exists>l. l \<in> set (split_after nl (concat ?ls)) \<and> mtree_line_name l = Some n)"
      by (auto simp: mtree_names_def filter_mtree_text_def)
    also have "\<dots> \<longleftrightarrow> (\<exists>l. l \<in> set (split_after nl text) \<and> keep_mtree_line dropped l \<and> mtree_line_name l = Some n)"
      using m ne by blast
    also have "\<dots> \<longleftrightarrow> n \<in> mtree_names text - set dropped"
      by (auto simp: mtree_names_def keep_mtree_line_def)
    finally show ?thesis .
  qed
  then show ?thesis by blast
qed

section \<open>What a rewrite keeps\<close>

definition entry_member :: "tar_entry \<Rightarrow> string" where "entry_member e = normalize_member (te_name e)"

text \<open>How an entry appears in the rewritten archive.\<close>

definition rewritten_entry ::
  "(string \<Rightarrow> string option) \<Rightarrow> (string \<Rightarrow> string) \<Rightarrow> string list \<Rightarrow> tar_entry \<Rightarrow> tar_entry \<Rightarrow> bool" where
  "rewritten_entry gunzip gzip dropped e e' =
     (if entry_member e = ''.MTREE''
      then (\<exists>text. gunzip (entry_content e) = Some text \<and>
        e' = e\<lparr>te_size := int (length (gzip (filter_mtree_text dropped text))), te_body := gzip (filter_mtree_text dropped text)\<rparr>)
      else e' = e\<lparr>te_body := entry_content e\<rparr>)"

lemma rewrite_entries_Some:
  "rewrite_entries gunzip gzip dropped es = Some es' \<Longrightarrow>
     list_all2 (rewritten_entry gunzip gzip dropped) (filter (\<lambda>e. entry_member e \<notin> set dropped) es) es'"
proof (induction es arbitrary: es')
  case (Cons e es)
  show ?case
  proof (cases "entry_member e \<in> set dropped")
    case True
    with Cons show ?thesis by (simp add: entry_member_def)
  next
    case False
    with Cons.prems obtain e1 rest where r: "es' = e1 # rest" "rewrite_entries gunzip gzip dropped es = Some rest"
      and e1: "if entry_member e = ''.MTREE'' then write_filtered_mtree gunzip gzip dropped e = Some e1
        else e1 = e\<lparr>te_body := entry_content e\<rparr>"
      by (auto simp: Let_def entry_member_def split: if_splits option.splits)
    from e1 have "rewritten_entry gunzip gzip dropped e e1"
      by (auto simp: rewritten_entry_def write_filtered_mtree_def Let_def split: if_splits option.splits)
    with Cons.IH[OF r(2)] r(1) False show ?thesis by simp
  qed
qed simp

lemma filter_archive_Inr:
  assumes "filter_archive gunzip gzip written archive strip = Inr (es', r)"
  shows "\<exists>es. archive = Some es \<and> check_strip (map entry_member es) strip = None \<and>
    list_all2 (rewritten_entry gunzip gzip (strip_set strip @ pruned_directories es strip))
      (filter (\<lambda>e. entry_member e \<notin> set (strip_set strip @ pruned_directories es strip)) es) es' \<and>
    fr_pruned r = pruned_directories es strip \<and> fr_stripped r = sort (strip_set strip)"
proof -
  from assms obtain es where es: "archive = Some es" "check_strip (map (\<lambda>e. normalize_member (te_name e)) es) strip = None"
      "rewrite_entries gunzip gzip (strip_set strip @ pruned_directories es strip) es = Some es'"
      "fr_pruned r = pruned_directories es strip" "fr_stripped r = sort (strip_set strip)"
    by (auto simp: filter_archive_def drop_set_def split: option.splits prod.splits)
  have "map entry_member es = map (\<lambda>e. normalize_member (te_name e)) es" by (simp add: entry_member_def)
  with es rewrite_entries_Some[OF es(3)] show ?thesis by metis
qed

lemma pruned_directories_iff:
  "d \<in> set (pruned_directories es strip) \<longleftrightarrow> (\<exists>e \<in> set es. te_type e = TypeDir \<and> entry_member e = d) \<and>
     (\<forall>e \<in> set es. te_type e \<noteq> TypeDir \<and> entry_member e \<notin> set (strip_set strip) \<longrightarrow> \<not> has_prefix (entry_member e) (d @ ''/''))"
  by (auto simp: pruned_directories_def archive_directories_def surviving_files_def entry_member_def)

section \<open>Surfaces of a rewritten package\<close>

lemma member_surface_content: "member_surface (e\<lparr>te_body := entry_content e\<rparr>) = member_surface e"
  by (cases e) (simp add: member_surface_def entry_content_def Let_def split: option.split)

lemma mtree_no_surface: "entry_member e = ''.MTREE'' \<Longrightarrow> member_surface e = None"
proof -
  have "classify_surface ''.MTREE'' = None" by code_simp
  moreover assume "entry_member e = ''.MTREE''"
  then have "classify_surface (te_name e) = classify_surface ''.MTREE''"
    using normalize_idem[of "te_name e"] by (simp add: entry_member_def classify_surface_def)
  ultimately show ?thesis by (simp add: member_surface_def)
qed

lemma member_surface_member: "member_surface e = Some s \<Longrightarrow> ps_member s = entry_member e"
  by (auto simp: member_surface_def Let_def entry_member_def split: if_splits option.splits prod.splits)

lemma rewritten_surfaces:
  "list_all2 (rewritten_entry gunzip gzip dropped) es es' \<Longrightarrow>
     List.map_filter member_surface es' = List.map_filter member_surface es"
proof (induction es es' rule: list_all2_induct)
  case (Cons e es e' es')
  have "member_surface e' = member_surface e"
  proof (cases "entry_member e = ''.MTREE''")
    case True
    with Cons.hyps(1) have "te_name e' = te_name e" by (auto simp: rewritten_entry_def)
    with True have "entry_member e' = ''.MTREE''" by (simp add: entry_member_def)
    with True show ?thesis by (simp add: mtree_no_surface)
  qed (use Cons.hyps(1) in \<open>simp add: rewritten_entry_def member_surface_content\<close>)
  with Cons.IH show ?case by (simp add: map_filter_simps split: option.split)
qed simp

lemma map_filter_surfaces:
  "List.map_filter member_surface (filter (\<lambda>e. entry_member e \<notin> D) es) =
     filter (\<lambda>s. ps_member s \<notin> D) (List.map_filter member_surface es)"
  by (induction es) (auto simp: map_filter_simps member_surface_member split: option.splits)

lemma check_strip_present: "check_strip present strip = None \<Longrightarrow> set (strip_set strip) \<subseteq> set present"
  by (induction present strip rule: check_strip.induct) (auto simp: strip_set_def Let_def split: if_splits)

section \<open>Properties\<close>

text \<open>The gate sees every privileged surface: each file or link of the archive installed at a
  registered path is listed under its installed name, an entry the registry wants answered and every
  link is a question, and nothing else is listed.\<close>

lemma gate_lists_all:
  assumes "enumerate_surfaces (Some es) = Some ss"
  shows "(\<forall>e \<in> set es. te_type e \<noteq> TypeDir \<and> is_privileged_surface (te_name e) \<longrightarrow>
       (\<exists>s \<in> set ss. ps_member s = entry_member e \<and>
         (te_type e = TypeSymlink \<or> te_type e = TypeLink \<or>
            requires_decision (surf_activation (the (classify_surface (te_name e)))) \<longrightarrow> requires_decision (ps_activation s)))) \<and>
     (\<forall>s \<in> set ss. \<exists>e \<in> set es. te_type e \<noteq> TypeDir \<and> is_privileged_surface (te_name e) \<and> ps_member s = entry_member e)"
proof -
  have ss: "set ss = {s. \<exists>e \<in> set es. member_surface e = Some s}"
    using assms by (auto simp: enumerate_surfaces_def map_filter_set)
  have one: "\<exists>s. member_surface e = Some s \<and> ps_member s = entry_member e \<and>
      (te_type e = TypeSymlink \<or> te_type e = TypeLink \<or>
         requires_decision (surf_activation (the (classify_surface (te_name e)))) \<longrightarrow> requires_decision (ps_activation s))"
    if "te_type e \<noteq> TypeDir" "is_privileged_surface (te_name e)" for e
    using that by (auto simp: member_surface_def is_privileged_surface_def entry_member_def Let_def requires_decision_def
        split: prod.split)
  have other: "te_type e \<noteq> TypeDir \<and> is_privileged_surface (te_name e) \<and> ps_member s = entry_member e"
    if "member_surface e = Some s" for e s
    using that member_surface_member[OF that]
    by (auto simp: member_surface_def is_privileged_surface_def split: if_splits option.splits)
  show ?thesis unfolding ss using one other by blast
qed



definition example_entry :: "string \<Rightarrow> entry_type \<Rightarrow> string \<Rightarrow> tar_entry" where
  "example_entry n ty body = \<lparr>te_name = n, te_type = ty, te_linkname = [], te_size = int (length body),
     te_attrs = [], te_body = body\<rparr>"

definition example_mtree :: string where
  "example_mtree = ''#mtree'' @ [nl] @ ''/set mode=644'' @ [nl] @ ''./etc/cron.d/x mode=644'' @ [nl] @ ''./usr/bin/y'' @ [nl]"

definition example_package :: "tar_entry list" where
  "example_package =
    [example_entry ''.PKGINFO'' TypeReg ''p'', example_entry ''.MTREE'' TypeReg example_mtree,
     example_entry ''etc/'' TypeDir [], example_entry ''etc/cron.d/'' TypeDir [],
     example_entry ''./etc/cron.d/x'' TypeReg ''c'', example_entry ''usr/bin/y'' TypeReg ''b'']"

definition example_rewritten :: "tar_entry list" where
  "example_rewritten =
    [example_entry ''.PKGINFO'' TypeReg ''p'',
     example_entry ''.MTREE'' TypeReg (''#mtree'' @ [nl] @ ''/set mode=644'' @ [nl] @ ''./usr/bin/y'' @ [nl]),
     example_entry ''usr/bin/y'' TypeReg ''b'']"

definition example_result :: filter_result where
  "example_result = \<lparr>fr_stripped = [''etc/cron.d/x''], fr_pruned = [''etc'', ''etc/cron.d''], fr_sha256 = ''d''\<rparr>"

lemma example_filter:
  "filter_archive Some (\<lambda>x. x) (\<lambda>_. Some ''d'') (Some example_package) [''etc/cron.d/x''] =
     Inr (example_rewritten, example_result)"
  by code_simp



end
