(* ===== verification/Unified_Diff.thy ===== *)
theory Unified_Diff
  imports Archive_Filter
begin

text \<open>
  internal/brief/diff.go: the behaviour view of a patch, in which the lines a complete unified diff
  removes are blanked. The loop over the lines is a fold of \<open>diff_line\<close> over a state with the code's
  variables; \<open>None\<close> is the return for an ambiguous document. The case table of strings.ToLower on
  text that is not ASCII is a parameter.
\<close>

section \<open>Hunk headers\<close>

definition decimal_char :: "char \<Rightarrow> bool" where "decimal_char c = (CHR ''0'' \<le> c \<and> c \<le> CHR ''9'')"

text \<open>One position of a hunk header, \<open>[0-9]+(,[0-9]+)?\<close>: the two digit strings and the rest.\<close>

definition hunk_range :: "string \<Rightarrow> (string \<times> string \<times> string) option" where
  "hunk_range s =
     (let start = takeWhile decimal_char s; rest = dropWhile decimal_char s in
      if start = [] then None
      else (case rest of
          c # t \<Rightarrow>
            if c = CHR '','' \<and> takeWhile decimal_char t \<noteq> []
            then Some (start, takeWhile decimal_char t, dropWhile decimal_char t)
            else Some (start, [], rest)
        | [] \<Rightarrow> Some (start, [], rest)))"

definition hunk_match :: "string \<Rightarrow> (string \<times> string \<times> string \<times> string) option" where
  "hunk_match line =
     (if \<not> has_prefix line ''@@ -'' then None
      else (case hunk_range (drop 4 line) of
          None \<Rightarrow> None
        | Some (m1, m2, r1) \<Rightarrow>
            if \<not> has_prefix r1 '' +'' then None
            else (case hunk_range (drop 2 r1) of
                None \<Rightarrow> None
              | Some (m3, m4, r2) \<Rightarrow>
                  if r2 = '' @@'' \<or> has_prefix r2 '' @@ '' then Some (m1, m2, m3, m4) else None)))"

definition unified_diff_count :: "string \<Rightarrow> nat option" where
  "unified_diff_count v = (if v = [] then Some 1 else parse_uint 10 64 v)"

definition unified_diff_hunk_counts :: "string \<Rightarrow> (nat \<times> nat) option" where
  "unified_diff_hunk_counts line = (case hunk_match line of
      None \<Rightarrow> None
    | Some (m1, m2, m3, m4) \<Rightarrow>
        if parse_uint 10 64 m1 = None then None
        else if parse_uint 10 64 m3 = None then None
        else (case unified_diff_count m2 of
            None \<Rightarrow> None
          | Some old \<Rightarrow> (case unified_diff_count m4 of None \<Rightarrow> None | Some new \<Rightarrow> Some (old, new))))"

section \<open>The line loop\<close>

record diff_state =
  old_remaining :: nat
  new_remaining :: nat
  in_hunk :: bool
  last_hunk_data :: bool
  old_header :: bool
  header_pair :: bool
  pending_hunk :: bool
  saw_hunk :: bool

definition diff_start :: diff_state where
  "diff_start = \<lparr>old_remaining = 0, new_remaining = 0, in_hunk = False, last_hunk_data = False,
     old_header = False, header_pair = False, pending_hunk = False, saw_hunk = False\<rparr>"

datatype line_role = HunkHeader nat nat | Context | Removed | Added | Other

definition no_newline_marker :: string where
  "no_newline_marker = backslash # '' No newline at end of file''"

text \<open>A line of a hunk with lines outstanding.\<close>

definition diff_data :: "diff_state \<Rightarrow> string \<Rightarrow> (diff_state \<times> line_role) option" where
  "diff_data st line = (case line of
      [] \<Rightarrow> None
    | c # _ \<Rightarrow>
        if c = CHR '' '' then
          (if old_remaining st = 0 \<or> new_remaining st = 0 then None
           else Some (st\<lparr>old_remaining := old_remaining st - 1, new_remaining := new_remaining st - 1, last_hunk_data := True\<rparr>, Context))
        else if c = CHR ''-'' then
          (if old_remaining st = 0 then None
           else Some (st\<lparr>old_remaining := old_remaining st - 1, last_hunk_data := True\<rparr>, Removed))
        else if c = CHR ''+'' then
          (if new_remaining st = 0 then None
           else Some (st\<lparr>new_remaining := new_remaining st - 1, last_hunk_data := True\<rparr>, Added))
        else None)"

text \<open>A line outside a hunk: the switch of the code, in its order.\<close>

definition diff_outside :: "diff_state \<Rightarrow> string \<Rightarrow> (diff_state \<times> line_role) option" where
  "diff_outside st line =
     (if has_prefix line ''@@@'' \<or> has_prefix line ''diff --combined '' \<or> has_prefix line ''diff --cc '' then None
      else if has_prefix line ''@@'' then
        (if \<not> header_pair st then None
         else (case unified_diff_hunk_counts line of
             None \<Rightarrow> None
           | Some (old, new) \<Rightarrow>
               if old = 0 \<and> new = 0 then None
               else Some (st\<lparr>old_remaining := old, new_remaining := new, in_hunk := True, last_hunk_data := False,
                 pending_hunk := False, saw_hunk := True\<rparr>, HunkHeader old new)))
      else if has_prefix line ''--- '' then
        (if old_header st \<or> pending_hunk st then None
         else Some (st\<lparr>old_header := True, header_pair := False\<rparr>, Other))
      else if has_prefix line ''+++ '' then
        (if \<not> old_header st then None
         else Some (st\<lparr>old_header := False, header_pair := True, pending_hunk := True\<rparr>, Other))
      else if old_header st then None
      else if line = no_newline_marker \<or> line = ''GIT binary patch'' \<or> has_prefix line ''Binary files '' then None
      else if line \<noteq> [] \<and> hd line \<in> {CHR ''-'', CHR ''+'', CHR '' ''} then None
      else Some (st, Other))"

definition diff_line :: "diff_state \<Rightarrow> string \<Rightarrow> (diff_state \<times> line_role) option" where
  "diff_line st line =
     (if in_hunk st then
        (if line = no_newline_marker then
           (if \<not> last_hunk_data st then None else Some (st\<lparr>last_hunk_data := False\<rparr>, Other))
         else if old_remaining st = 0 \<and> new_remaining st = 0
         then diff_outside (st\<lparr>in_hunk := False, last_hunk_data := False\<rparr>) line
         else diff_data st line)
      else diff_outside st line)"

fun diff_lines :: "diff_state \<Rightarrow> string list \<Rightarrow> (diff_state \<times> line_role list) option" where
  "diff_lines st [] = Some (st, [])"
| "diff_lines st (l # ls) = (case diff_line st l of
      None \<Rightarrow> None
    | Some (st', role) \<Rightarrow> (case diff_lines st' ls of
        None \<Rightarrow> None
      | Some (st'', roles) \<Rightarrow> Some (st'', role # roles)))"

definition diff_complete :: "diff_state \<Rightarrow> bool" where
  "diff_complete st = (\<not> (old_header st \<or> pending_hunk st \<or> \<not> saw_hunk st \<or>
     (in_hunk st \<and> (old_remaining st \<noteq> 0 \<or> new_remaining st \<noteq> 0))))"

section \<open>Masking\<close>

text \<open>The raw lines with their newlines, the content the code compares, and the blanked form.\<close>

definition raw_lines :: "string \<Rightarrow> string list" where
  "raw_lines text = filter (\<lambda>l. l \<noteq> []) (split_after nl text)"

definition line_content :: "string \<Rightarrow> string" where
  "line_content l = trim_suffix (trim_suffix l [nl]) [CHR 0x0D]"

definition mask_line :: "string \<Rightarrow> string" where
  "mask_line l = map (\<lambda>c. if c = nl then c else CHR '' '') l"

definition masked_text :: "string list \<Rightarrow> line_role list \<Rightarrow> string" where
  "masked_text ls roles = concat (map2 (\<lambda>l r. if r = Removed then mask_line l else l) ls roles)"

definition unified_diff_path :: "(string \<Rightarrow> string) \<Rightarrow> string \<Rightarrow> bool" where
  "unified_diff_path ul name = (to_lower ul (path_ext name) \<in> {''.patch'', ''.diff''})"

definition unified_diff_behavior_text :: "(string \<Rightarrow> string) \<Rightarrow> string \<Rightarrow> string \<Rightarrow> string \<times> bool" where
  "unified_diff_behavior_text ul name text =
     (if \<not> unified_diff_path ul name \<or> text = [] then (text, False)
      else (case diff_lines diff_start (map line_content (raw_lines text)) of
          None \<Rightarrow> (text, False)
        | Some (st, roles) \<Rightarrow>
            if \<not> diff_complete st then (text, False) else (masked_text (raw_lines text) roles, True)))"

section \<open>Counting\<close>

text \<open>What the hunk headers announce and what the lines deliver.\<close>

fun announced :: "line_role list \<Rightarrow> nat \<times> nat" where
  "announced [] = (0, 0)"
| "announced (HunkHeader a b # rs) = (case announced rs of (x, y) \<Rightarrow> (a + x, b + y))"
| "announced (_ # rs) = announced rs"

definition delivered :: "line_role list \<Rightarrow> nat \<times> nat" where
  "delivered rs = (length (filter (\<lambda>r. r = Context \<or> r = Removed) rs), length (filter (\<lambda>r. r = Context \<or> r = Added) rs))"

definition diff_inv :: "diff_state \<Rightarrow> bool" where
  "diff_inv st = (in_hunk st \<or> (old_remaining st = 0 \<and> new_remaining st = 0))"

lemma diff_outside_inv:
  "diff_outside st l = Some (st', r) \<Longrightarrow> old_remaining st = 0 \<Longrightarrow> new_remaining st = 0 \<Longrightarrow>
     diff_inv st' \<and> (case r of HunkHeader a b \<Rightarrow> old_remaining st' = a \<and> new_remaining st' = b
       | _ \<Rightarrow> r = Other \<and> old_remaining st' = 0 \<and> new_remaining st' = 0)"
  by (auto simp: diff_outside_def diff_inv_def split: if_splits option.splits prod.splits)

lemma diff_data_inv:
  "diff_data st l = Some (st', r) \<Longrightarrow> in_hunk st \<Longrightarrow>
     diff_inv st' \<and> (r = Context \<and> old_remaining st = Suc (old_remaining st') \<and> new_remaining st = Suc (new_remaining st') \<or>
       r = Removed \<and> old_remaining st = Suc (old_remaining st') \<and> new_remaining st = new_remaining st' \<or>
       r = Added \<and> old_remaining st = old_remaining st' \<and> new_remaining st = Suc (new_remaining st'))"
  by (auto simp: diff_data_def diff_inv_def split: if_splits list.splits)

lemma diff_data_removed: "diff_data st l = Some (st', Removed) \<Longrightarrow> \<exists>t. l = CHR ''-'' # t"
  by (auto simp: diff_data_def split: if_splits list.splits)

lemma diff_line_removed: "diff_line st l = Some (st', Removed) \<Longrightarrow> \<exists>t. l = CHR ''-'' # t"
  by (auto simp: diff_line_def diff_outside_def dest: diff_data_removed split: if_splits option.splits prod.splits)

lemma diff_line_counts:
  assumes "diff_line st l = Some (st', r)" "diff_inv st"
  shows "diff_inv st' \<and>
    old_remaining st + fst (announced [r]) = fst (delivered [r]) + old_remaining st' \<and>
    new_remaining st + snd (announced [r]) = snd (delivered [r]) + new_remaining st'"
proof (cases "in_hunk st")
  case False
  with assms have "old_remaining st = 0" "new_remaining st = 0" by (simp_all add: diff_inv_def)
  with diff_outside_inv[of st l st' r] False assms(1) show ?thesis
    by (auto simp: diff_line_def delivered_def split: line_role.splits)
next
  case True
  consider "l = no_newline_marker" | "l \<noteq> no_newline_marker" "old_remaining st = 0 \<and> new_remaining st = 0"
    | "l \<noteq> no_newline_marker" "\<not> (old_remaining st = 0 \<and> new_remaining st = 0)" by blast
  then show ?thesis
  proof cases
    case 1
    with True assms(1) show ?thesis by (auto simp: diff_line_def diff_inv_def delivered_def split: if_splits)
  next
    case 2
    with diff_outside_inv[of "st\<lparr>in_hunk := False, last_hunk_data := False\<rparr>" l st' r] True assms(1) show ?thesis
      by (auto simp: diff_line_def delivered_def split: line_role.splits)
  next
    case 3
    with diff_data_inv[of st l st' r] True assms(1) show ?thesis
      by (auto simp: diff_line_def delivered_def)
  qed
qed

lemma announced_Cons: "announced (r # rs) = (fst (announced [r]) + fst (announced rs), snd (announced [r]) + snd (announced rs))"
  by (cases r) (auto split: prod.splits)

lemma delivered_Cons: "delivered (r # rs) = (fst (delivered [r]) + fst (delivered rs), snd (delivered [r]) + snd (delivered rs))"
  by (simp add: delivered_def)

lemma diff_lines_counts:
  "diff_lines st ls = Some (st', rs) \<Longrightarrow> diff_inv st \<Longrightarrow> length rs = length ls \<and> diff_inv st' \<and>
    old_remaining st + fst (announced rs) = fst (delivered rs) + old_remaining st' \<and>
    new_remaining st + snd (announced rs) = snd (delivered rs) + new_remaining st'"
proof (induction ls arbitrary: st rs)
  case (Cons l ls)
  from Cons.prems(1) obtain st1 r rs1 where s: "diff_line st l = Some (st1, r)" "diff_lines st1 ls = Some (st', rs1)" "rs = r # rs1"
    by (auto split: option.splits prod.splits)
  from diff_line_counts[OF s(1) Cons.prems(2)] Cons.IH[OF s(2)] show ?case
    unfolding s(3) announced_Cons[of r rs1] delivered_Cons[of r rs1] by simp
qed (simp add: delivered_def)

lemma diff_lines_removed:
  "diff_lines st ls = Some (st', rs) \<Longrightarrow> list_all2 (\<lambda>l r. r = Removed \<longrightarrow> (\<exists>t. l = CHR ''-'' # t)) ls rs"
proof (induction ls arbitrary: st rs)
  case (Cons l ls)
  then show ?case by (auto dest: diff_line_removed split: option.splits prod.splits)
qed simp

lemma concat_raw_lines: "concat (raw_lines text) = text"
proof -
  have "concat (filter (\<lambda>l. l \<noteq> []) ls) = concat ls" for ls :: "string list" by (induction ls) auto
  then show ?thesis by (simp add: raw_lines_def concat_split_after)
qed

lemma trim_suffix_prefix: "\<exists>u. s = trim_suffix s p @ u"
  using trim_suffix_cases[of s p] by auto

lemma line_content_hd: "line_content l = c # t \<Longrightarrow> \<exists>u. l = c # u"
proof -
  obtain u v where "l = trim_suffix l [nl] @ u" "trim_suffix l [nl] = line_content l @ v"
    unfolding line_content_def using trim_suffix_prefix by metis
  then have "l = line_content l @ v @ u" by simp
  then show "line_content l = c # t \<Longrightarrow> ?thesis" by simp
qed

section \<open>Properties\<close>

text \<open>The behaviour view of an accepted patch has the same lines as the patch, each verbatim or, if
  it is a removed line, which begins with a minus sign, blanked up to its newline; the hunk headers
  announce exactly the lines the hunks deliver; and any other document is returned unchanged.\<close>

lemma diff_masks_removed_only:
  assumes "unified_diff_behavior_text ul name text = (out, accepted)"
  shows "if accepted
    then \<exists>roles. length roles = length (raw_lines text) \<and> out = masked_text (raw_lines text) roles \<and>
      (\<forall>i < length roles. roles ! i = Removed \<longrightarrow> (\<exists>u. raw_lines text ! i = CHR ''-'' # u)) \<and>
      announced roles = delivered roles \<and> length out = length text
    else out = text"
proof (cases accepted)
  case False
  with assms show ?thesis by (auto simp: unified_diff_behavior_text_def split: if_splits option.splits prod.splits)
next
  case True
  with assms obtain st roles where d: "diff_lines diff_start (map line_content (raw_lines text)) = Some (st, roles)"
      "diff_complete st" "out = masked_text (raw_lines text) roles"
    by (auto simp: unified_diff_behavior_text_def split: if_splits option.splits prod.splits)
  have start: "diff_inv diff_start" by (simp add: diff_inv_def diff_start_def)
  from diff_lines_counts[OF d(1) start] d(2) have c: "length roles = length (raw_lines text)" "announced roles = delivered roles"
    by (auto simp: diff_complete_def diff_inv_def diff_start_def prod_eq_iff)
  have r: "\<exists>u. raw_lines text ! i = CHR ''-'' # u" if "i < length roles" "roles ! i = Removed" for i
    using list_all2_nthD2[OF diff_lines_removed[OF d(1)] that(1)] that c(1) line_content_hd by auto
  have "length (masked_text ls rs) = length (concat ls)" if "length rs = length ls" for ls rs
    using that by (induction rs ls rule: list_induct2) (auto simp: masked_text_def mask_line_def)
  then have "length out = length text" using c(1) d(3) concat_raw_lines by simp
  with c r d(3) True show ?thesis by auto
qed

end
