(* ===== verification/Findings.thy ===== *)
theory Findings
  imports Json Safe_Primitives "HOL-Library.Product_Lexorder"
begin

text \<open>
  internal/brief/models.go and internal/audit/models.go: findings, coverage and the advisory context
  of a report, and the verdicts of the optional reviewer, each with its validation. The vocabulary
  is strings, as in the code: any other string is an invalid value, not an impossible one.
\<close>

section \<open>Findings\<close>

definition severities :: "string list" where
  "severities = [''info'', ''low'', ''medium'', ''high'', ''critical'']"

definition finding_sources :: "string list" where "finding_sources = [''deterministic'', ''ai'']"

definition categories :: "string list" where
  "categories =
    [''archive_escape'', ''build_hook'', ''coverage'', ''credential_access'',
     ''decode_execute'', ''filesystem'', ''integrity'', ''network'',
     ''obfuscation'', ''package_metadata'', ''persistence'', ''process_injection'',
     ''prompt_injection'', ''privilege_escalation'', ''remote_execution'', ''other'']"

definition valid_severity :: "string \<Rightarrow> bool" where "valid_severity v = (v \<in> set severities)"

definition valid_category :: "string \<Rightarrow> bool" where "valid_category v = (v \<in> set categories)"

record finding =
  f_source :: string
  f_severity :: string
  f_category :: string
  f_file :: string
  f_line :: "int option"
  f_evidence :: string
  f_rationale :: string
  f_rule_id :: string
  f_hard_block :: bool

definition finding_validate :: "finding \<Rightarrow> bool" where
  "finding_validate f =
     (f_source f \<in> set finding_sources \<and> valid_severity (f_severity f) \<and> valid_category (f_category f) \<and>
      \<not> (\<exists>l. f_line f = Some l \<and> l < 1) \<and> f_rationale f \<noteq> [])"

lemma finding_validate_code [code]:
  "finding_validate f =
     (f_source f \<in> set finding_sources \<and> valid_severity (f_severity f) \<and> valid_category (f_category f) \<and>
      (case f_line f of None \<Rightarrow> True | Some l \<Rightarrow> 1 \<le> l) \<and> f_rationale f \<noteq> [])"
  by (auto simp: finding_validate_def split: option.splits)

text \<open>The zero value of a map lookup is 0, so an unknown severity ranks with critical in the sort.\<close>

definition severity_order :: "string \<Rightarrow> nat" where
  "severity_order s = (case map_of [(''critical'', 0), (''high'', 1), (''medium'', 2), (''low'', 3), (''info'', 4)] s of
     Some r \<Rightarrow> r | None \<Rightarrow> 0)"

definition source_order :: "string \<Rightarrow> nat" where
  "source_order s = (case map_of [(''deterministic'', 0), (''ai'', 1)] s of Some r \<Rightarrow> r | None \<Rightarrow> 0)"

definition finding_less :: "finding \<Rightarrow> finding \<Rightarrow> bool" where
  "finding_less a b =
     (if severity_order (f_severity a) \<noteq> severity_order (f_severity b)
      then severity_order (f_severity a) < severity_order (f_severity b)
      else if source_order (f_source a) \<noteq> source_order (f_source b)
      then source_order (f_source a) < source_order (f_source b)
      else if f_file a \<noteq> f_file b then f_file a < f_file b
      else
        let line_a = (case f_line a of Some l \<Rightarrow> l | None \<Rightarrow> 0); line_b = (case f_line b of Some l \<Rightarrow> l | None \<Rightarrow> 0) in
        if line_a \<noteq> line_b then line_a < line_b
        else if f_category a \<noteq> f_category b then f_category a < f_category b
        else f_rule_id a < f_rule_id b)"

text \<open>sort.SliceStable with that order: insertion keeps the order of equivalent findings.\<close>

fun insert_finding :: "finding \<Rightarrow> finding list \<Rightarrow> finding list" where
  "insert_finding x [] = [x]"
| "insert_finding x (y # ys) = (if finding_less y x then y # insert_finding x ys else x # y # ys)"

definition sort_findings :: "finding list \<Rightarrow> finding list" where
  "sort_findings fs = foldr insert_finding fs []"

definition finding_key :: "finding \<Rightarrow> nat \<times> nat \<times> string \<times> int \<times> string \<times> string" where
  "finding_key f = (severity_order (f_severity f), source_order (f_source f), f_file f,
     (case f_line f of Some l \<Rightarrow> l | None \<Rightarrow> 0), f_category f, f_rule_id f)"

lemma finding_less_key: "finding_less a b \<longleftrightarrow> finding_key a < finding_key b"
  by (auto simp: finding_less_def finding_key_def Let_def less_prod_def)

lemma insert_finding_key: "insert_finding x ys = insort_key finding_key x ys"
  by (induction ys) (auto simp: finding_less_key not_le)

text \<open>The hand-written order sorts by a key, so the library's sorting theory applies.\<close>

lemma sort_findings_key: "sort_findings fs = sort_key finding_key fs"
proof -
  have "insert_finding = insort_key finding_key" by (intro ext) (rule insert_finding_key)
  then show ?thesis by (simp add: sort_findings_def sort_key_def)
qed

text \<open>The canonical form of a finding, and its identity: the digest of that form.\<close>

definition finding_json :: "finding \<Rightarrow> json" where
  "finding_json f = JObj
     [(''source'', JStr (f_source f)), (''severity'', JStr (f_severity f)), (''category'', JStr (f_category f)),
      (''file'', JStr (f_file f)), (''line'', case f_line f of None \<Rightarrow> JNull | Some l \<Rightarrow> JNum (show_int l)),
      (''evidence'', JStr (f_evidence f)), (''rationale'', JStr (f_rationale f)), (''rule_id'', JStr (f_rule_id f)),
      (''hard_block'', JBool (f_hard_block f))]"

definition finding_guidance_id :: "(string \<Rightarrow> string) \<Rightarrow> finding \<Rightarrow> string" where
  "finding_guidance_id sha f = sha (show_json (finding_json f))"

section \<open>Thresholds\<close>

definition severity_rank :: "string \<Rightarrow> nat" where
  "severity_rank s = (case map_of [(''info'', 1), (''low'', 2), (''medium'', 3), (''high'', 4), (''critical'', 5)] s of
     Some r \<Rightarrow> r | None \<Rightarrow> 0)"

definition severity_at_least :: "string \<Rightarrow> string \<Rightarrow> bool" where
  "severity_at_least actual minimum = (severity_rank actual \<ge> severity_rank minimum \<and> severity_rank minimum \<noteq> 0)"

definition confidence_rank :: "string \<Rightarrow> nat" where
  "confidence_rank s = (case map_of [(''low'', 1), (''medium'', 2), (''high'', 3)] s of Some r \<Rightarrow> r | None \<Rightarrow> 0)"

definition confidence_at_least :: "string \<Rightarrow> string \<Rightarrow> bool" where
  "confidence_at_least actual minimum = (confidence_rank actual \<ge> confidence_rank minimum \<and> confidence_rank minimum \<noteq> 0)"

section \<open>Coverage and context\<close>

record coverage =
  files_seen :: int
  bytes_seen :: int
  text_files :: int
  text_bytes :: int
  selected_files :: int
  selected_bytes :: int
  review_eligible_files :: int
  review_eligible_bytes :: int
  omitted_review_files :: int
  omitted_review_bytes :: int
  binary_files :: int
  binary_bytes :: int
  archives_seen :: int
  archive_entries :: int
  archive_unpacked_bytes :: int
  cov_complete :: bool
  cov_notes :: "string list"

definition validate_coverage :: "coverage \<Rightarrow> bool" where
  "validate_coverage c =
     (list_all (\<lambda>v. 0 \<le> v)
        [files_seen c, bytes_seen c, text_files c, text_bytes c, selected_files c, selected_bytes c,
         review_eligible_files c, review_eligible_bytes c, omitted_review_files c, omitted_review_bytes c,
         binary_files c, binary_bytes c, archives_seen c, archive_entries c, archive_unpacked_bytes c] \<and>
      \<not> (selected_files c > review_eligible_files c \<or> selected_bytes c > review_eligible_bytes c \<or>
         omitted_review_files c > review_eligible_files c \<or> omitted_review_bytes c > review_eligible_bytes c) \<and>
      length (cov_notes c) \<le> 1000 \<and> list_all (\<lambda>n. length n \<le> 2000) (cov_notes c))"

text \<open>The regular expression of a package base: one or more name characters, the first no hyphen.\<close>

definition package_char :: "char \<Rightarrow> bool" where
  "package_char c = ((CHR ''A'' \<le> c \<and> c \<le> CHR ''Z'') \<or> (CHR ''a'' \<le> c \<and> c \<le> CHR ''z'') \<or>
     (CHR ''0'' \<le> c \<and> c \<le> CHR ''9'') \<or> c \<in> set ''@._+'')"

definition validate_package_base :: "string \<Rightarrow> bool" where
  "validate_package_base v = (v \<noteq> [] \<and> package_char (hd v) \<and> list_all (\<lambda>c. package_char c \<or> c = CHR ''-'') (tl v))"

record yay_package_context =
  yp_name :: string
  yp_version :: string
  yp_local_version :: string
  yp_reason :: string
  yp_upgrade :: bool
  yp_devel :: bool

record yay_context =
  yay_version :: string
  yay_last_modified :: int
  yay_installed :: bool
  yay_packages :: "yay_package_context list"
  yay_depends :: "string list"
  yay_make_depends :: "string list"
  yay_check_depends :: "string list"

definition yay_reasons :: "string list" where
  "yay_reasons = [''explicit'', ''dependency'', ''make_dependency'', ''check_dependency'', ''unknown'', []]"

definition valid_dependencies :: "string list \<Rightarrow> bool" where
  "valid_dependencies vs = (list_all (\<lambda>v. v \<noteq> [] \<and> length v \<le> 512 \<and>
     list_all (\<lambda>c. c \<notin> {CHR 0x00, CHR 0x0D, CHR 0x0A}) v) vs \<and> distinct vs)"

definition yay_context_validate :: "yay_context \<Rightarrow> bool" where
  "yay_context_validate y =
     (\<not> (length (yay_version y) > 256 \<or> yay_last_modified y < 0 \<or> length (yay_packages y) > 128 \<or>
         length (yay_depends y) > 4096 \<or> length (yay_make_depends y) > 4096 \<or> length (yay_check_depends y) > 4096) \<and>
      list_all (\<lambda>p. validate_package_base (yp_name p) \<and> length (yp_version p) \<le> 256 \<and>
        length (yp_local_version p) \<le> 256 \<and> yp_reason p \<in> set yay_reasons) (yay_packages y) \<and>
      distinct (map yp_name (yay_packages y)) \<and>
      list_all valid_dependencies [yay_depends y, yay_make_depends y, yay_check_depends y])"

record manifest_change =
  mc_path :: string
  mc_status :: string
  mc_previous :: string
  mc_current :: string

definition manifest_change_validate :: "manifest_change \<Rightarrow> bool" where
  "manifest_change_validate c =
     (\<not> (mc_path c = [] \<or> length (mc_path c) > 4096 \<or>
         (mc_status c \<noteq> ''added'' \<and> mc_status c \<noteq> ''changed'' \<and> mc_status c \<noteq> ''deleted'')) \<and>
      (if mc_status c = ''added'' then \<not> (mc_previous c \<noteq> [] \<or> \<not> valid_hex_digest (mc_current c))
       else if mc_status c = ''deleted'' then \<not> (\<not> valid_hex_digest (mc_previous c) \<or> mc_current c \<noteq> [])
       else \<not> (\<not> valid_hex_digest (mc_previous c) \<or> \<not> valid_hex_digest (mc_current c) \<or> mc_previous c = mc_current c)))"

section \<open>Verdicts\<close>

definition verdict_schema_version :: int where "verdict_schema_version = 3"

definition finding_guidance_limit :: nat where "finding_guidance_limit = 12"

definition finding_guidance_text_limit :: nat where "finding_guidance_text_limit = 2048"

record review_finding =
  rf_severity :: string
  rf_category :: string
  rf_file :: string
  rf_line :: "int option"
  rf_evidence :: string
  rf_rationale :: string

record finding_guidance =
  g_finding_id :: string
  g_assessment :: string
  g_comment :: string
  g_anchor_quote :: string

text \<open>A slice of the code is nil or a list: \<open>None\<close> is nil.\<close>

record verdict =
  v_schema_version :: int
  v_verdict :: string
  v_confidence :: string
  v_summary :: string
  v_prompt_injection :: bool
  v_findings :: "review_finding list option"
  v_guidance :: "finding_guidance list option"
  v_coverage_notes :: "string list option"

definition slice :: "'a list option \<Rightarrow> 'a list" where
  "slice s = (case s of None \<Rightarrow> [] | Some xs \<Rightarrow> xs)"

definition valid_guidance :: "finding_guidance \<Rightarrow> bool" where
  "valid_guidance g = (valid_hex_digest (g_finding_id g) \<and>
     (g_assessment g = ''likely-benign'' \<or> g_assessment g = ''unclear'' \<or> g_assessment g = ''concerning'') \<and>
     g_comment g \<noteq> [] \<and> length (g_comment g) \<le> 1000 \<and> g_anchor_quote g \<noteq> [] \<and>
     length (g_anchor_quote g) \<le> finding_guidance_text_limit)"

definition valid_review_finding :: "review_finding \<Rightarrow> bool" where
  "valid_review_finding f = (valid_severity (rf_severity f) \<and> valid_category (rf_category f) \<and> rf_rationale f \<noteq> [] \<and>
     length (rf_file f) \<le> 4096 \<and> length (rf_evidence f) \<le> 1000 \<and> length (rf_rationale f) \<le> 2000 \<and>
     (case rf_line f of None \<Rightarrow> True | Some l \<Rightarrow> \<not> l < 1))"

definition verdict_validate :: "verdict \<Rightarrow> bool" where
  "verdict_validate v =
     (v_schema_version v = verdict_schema_version \<and> (v_verdict v = ''allow'' \<or> v_verdict v = ''block'') \<and>
      (v_confidence v = ''low'' \<or> v_confidence v = ''medium'' \<or> v_confidence v = ''high'') \<and>
      \<not> (v_summary v = [] \<or> length (v_summary v) > 2000 \<or> v_findings v = None \<or> v_guidance v = None \<or>
         v_coverage_notes v = None \<or> length (slice (v_findings v)) > 200 \<or>
         length (slice (v_guidance v)) > finding_guidance_limit \<or> length (slice (v_coverage_notes v)) > 100) \<and>
      list_all valid_guidance (slice (v_guidance v)) \<and> distinct (map g_finding_id (slice (v_guidance v))) \<and>
      list_all valid_review_finding (slice (v_findings v)) \<and>
      list_all (\<lambda>n. length n \<le> 1000) (slice (v_coverage_notes v)))"

definition verdicts_have_prompt_injection :: "verdict list \<Rightarrow> bool" where
  "verdicts_have_prompt_injection vs = list_ex v_prompt_injection vs"

definition verdicts_have_coverage_notes :: "verdict list \<Rightarrow> bool" where
  "verdicts_have_coverage_notes vs = list_ex (\<lambda>v. slice (v_coverage_notes v) \<noteq> []) vs"

fun lowest_confidence :: "string \<Rightarrow> nat \<Rightarrow> verdict list \<Rightarrow> string" where
  "lowest_confidence lowest rank [] = lowest"
| "lowest_confidence lowest rank (v # vs) =
     (let r = confidence_rank (v_confidence v) in
      if 0 < r \<and> r < rank then lowest_confidence (v_confidence v) r vs else lowest_confidence lowest rank vs)"

definition lowest_verdict_confidence :: "verdict list \<Rightarrow> string" where
  "lowest_verdict_confidence vs = lowest_confidence [] 4 vs"

end
