(* ===== verification/Go_Lines.thy ===== *)
theory Go_Lines
  imports Go_Utf8
begin

text \<open>
  Reading a file line by line: what bufio.Scanner yields with its default split function and its
  default buffer. A line that does not fit the 64 KiB buffer ends the scan with an error; the
  lines before it have been delivered by then.
\<close>

definition max_scan_token_size :: nat where "max_scan_token_size = 64 * 1024"

text \<open>What opening and reading a file gives: its bytes, and whether a read failed after them.\<close>

datatype file_content = NoFile | OpenError | FileData string bool

definition newline :: char where "newline = CHR 0x0A"

definition drop_cr :: "string \<Rightarrow> string" where "drop_cr s = trim_suffix s [CHR 0x0D]"

text \<open>The lines, and whether the scan was cut by a line too long. The last line needs no newline;
  an empty rest is no line.\<close>

fun scan_pieces :: "nat \<Rightarrow> string list \<Rightarrow> string list \<times> bool" where
  "scan_pieces m [] = ([], False)"
| "scan_pieces m [w] = (if w = [] then ([], False)
     else if length w \<ge> m then ([], True) else ([drop_cr w], False))"
| "scan_pieces m (w # v # ws) =
     (if length w \<ge> m then ([], True)
      else (case scan_pieces m (v # ws) of (ls, e) \<Rightarrow> (drop_cr w # ls, e)))"

definition scan_lines_max :: "nat \<Rightarrow> string \<Rightarrow> string list \<times> bool" where
  "scan_lines_max m s = scan_pieces m (split_on newline s)"

definition scan_lines :: "string \<Rightarrow> string list \<times> bool" where
  "scan_lines s = scan_lines_max max_scan_token_size s"

lemma drop_cr_chars: "set (drop_cr s) \<subseteq> set s"
  by (simp add: drop_cr_def set_trim_suffix)

lemma split_on_sep: "w \<in> set (split_on c s) \<Longrightarrow> c \<notin> set w"
proof (induction s arbitrary: w)
  case (Cons x s)
  obtain v vs where "split_on c s = v # vs" using split_on_nonempty neq_Nil_conv by metis
  with Cons show ?case by (auto split: if_splits)
qed simp

lemma scan_pieces_Cons:
  "scan_pieces m (w # v # ws) =
     (if length w \<ge> m then ([], True)
      else (drop_cr w # fst (scan_pieces m (v # ws)), snd (scan_pieces m (v # ws))))"
  by (simp split: prod.split)

declare scan_pieces.simps(3) [simp del]

lemma scan_pieces_lines: "l \<in> set (fst (scan_pieces m ws)) \<Longrightarrow> \<exists>w \<in> set ws. l = drop_cr w"
  by (induction m ws rule: scan_pieces.induct) (auto simp: scan_pieces_Cons split: if_splits)

lemma scan_lines_max_no_newline: "l \<in> set (fst (scan_lines_max m s)) \<Longrightarrow> newline \<notin> set l"
proof -
  assume "l \<in> set (fst (scan_lines_max m s))"
  from scan_pieces_lines[OF this[unfolded scan_lines_max_def]]
  obtain w where w: "w \<in> set (split_on newline s)" "l = drop_cr w" by blast
  with split_on_sep[OF w(1)] drop_cr_chars[of w] show ?thesis by blast
qed

lemma scan_lines_no_newline: "l \<in> set (fst (scan_lines s)) \<Longrightarrow> newline \<notin> set l"
  by (simp add: scan_lines_def scan_lines_max_no_newline)

lemma scan_pieces_complete: "\<not> snd (scan_pieces m ws) \<Longrightarrow> ws \<noteq> [] \<Longrightarrow>
   fst (scan_pieces m ws) = map drop_cr (if last ws = [] then butlast ws else ws)"
  by (induction m ws rule: scan_pieces.induct) (auto simp: scan_pieces_Cons split: if_splits)

end
