(* ===== verification/Source_Records.thy ===== *)
theory Source_Records
  imports Findings Go_Path Go_Lines
begin

text \<open>
  internal/brief/sources.go and network_steps.go, makepkgSourceName of archive_probe.go and the
  file record of models.go: the declared sources of a package with what pins their bytes, and the
  manifest records a report binds. The Unicode case tables \<open>ul\<close> and \<open>uf\<close> and the digest \<open>sha\<close> are
  parameters.
\<close>

section \<open>Strings of a source declaration\<close>

definition is_alpha :: "char \<Rightarrow> bool" where
  "is_alpha c = ((CHR ''A'' \<le> c \<and> c \<le> CHR ''Z'') \<or> (CHR ''a'' \<le> c \<and> c \<le> CHR ''z''))"

definition scheme_char :: "char \<Rightarrow> bool" where
  "scheme_char c = (is_alpha c \<or> is_digit c \<or> c \<in> set ''+.-'')"

text \<open>The regular expression of a remote source: a scheme, or the prefix of a VCS.\<close>

definition remote_source :: "string \<Rightarrow> bool" where
  "remote_source v =
     ((v \<noteq> [] \<and> is_alpha (hd v) \<and> has_prefix (dropWhile scheme_char (tl v)) ''://'') \<or>
      has_prefix v ''git+'' \<or> has_prefix v ''svn+'' \<or> has_prefix v ''hg+'' \<or> has_prefix v ''bzr+'')"

text \<open>What of a text stands before a separator: the first part of strings.SplitN with limit two.\<close>

definition before :: "string \<Rightarrow> string \<Rightarrow> string" where
  "before s sep = fst (cut s sep)"

definition makepkg_source_name :: "string \<Rightarrow> string" where
  "makepkg_source_name value =
     (if str_contains value ''::'' then before value ''::''
      else
        let proto = (case str_index value ''://'' of None \<Rightarrow> ''local'' | Some i \<Rightarrow> before (take i value) ''+'');
            name = trim_suffix (before (before value ''#'') ''?'') ''/''
        in if proto \<in> {''bzr'', ''fossil'', ''git'', ''hg'', ''svn''} then
             let base = path_base name; base = (if proto = ''fossil'' then base @ ''.fossil'' else base)
             in if proto = ''git'' then before base ''.git'' else base
           else path_base name)"

definition vcs_prefixes :: "string list" where
  "vcs_prefixes = [''bzr+'', ''fossil+'', ''git+'', ''hg+'', ''svn+'']"

text \<open>SupportedSourceTransport: the scheme that cannot be carried, if there is one.\<close>

definition supported_source_transport :: "(string \<Rightarrow> string) \<Rightarrow> string \<Rightarrow> bool \<times> string" where
  "supported_source_transport ul url =
     (let lower = foldl trim_prefix (to_lower ul url) vcs_prefixes in
      if has_prefix lower ''http://'' \<or> has_prefix lower ''https://'' then (True, [])
      else if \<not> str_contains lower ''://'' then (True, [])
      else (False, before lower ''://''))"

definition source_transport :: "(string \<Rightarrow> string) \<Rightarrow> string \<Rightarrow> string" where
  "source_transport ul value =
     (case str_index value ''://'' of
        Some (Suc i) \<Rightarrow> to_lower ul (take (Suc i) value)
      | _ \<Rightarrow> (case str_index value ''+'' of
          Some (Suc i) \<Rightarrow> to_lower ul (take (Suc i) value)
        | _ \<Rightarrow> ''remote''))"

text \<open>No name ends in two of the suffixes, so the order in which the map is ranged over is no matter.\<close>

definition archive_suffixes :: "(string \<times> string) list" where
  "archive_suffixes =
    [(''.tar'', ''tar''), (''.tar.gz'', ''gzip''), (''.tgz'', ''gzip''), (''.tar.bz2'', ''bzip2''), (''.tbz2'', ''bzip2''),
     (''.tar.xz'', ''xz''), (''.txz'', ''xz''), (''.tar.zst'', ''zstd''), (''.zip'', ''zip'')]"

definition archive_format_from_name :: "(string \<Rightarrow> string) \<Rightarrow> string \<Rightarrow> string" where
  "archive_format_from_name ul name =
     (case find (\<lambda>(suffix, _). has_suffix (to_lower ul name) suffix) archive_suffixes of
        None \<Rightarrow> [] | Some (_, format) \<Rightarrow> format)"

definition remote_source_kind :: "(string \<Rightarrow> string) \<Rightarrow> string \<Rightarrow> string \<Rightarrow> string" where
  "remote_source_kind ul value name =
     (let lower = to_lower ul value in
      if list_ex (has_prefix lower) vcs_prefixes then ''vcs''
      else
        let remote_name = takeWhile (\<lambda>c. c \<notin> set ''?#'') value;
            ext = to_lower ul (path_ext name); remote_ext = to_lower ul (path_ext remote_name) in
        if ext = ''.sig'' \<or> ext = ''.asc'' \<or> remote_ext = ''.sig'' \<or> remote_ext = ''.asc'' then ''signature''
        else if archive_format_from_name ul name \<noteq> [] \<or> archive_format_from_name ul remote_name \<noteq> [] then ''archive''
        else ''file'')"

definition source_fragment_value :: "string \<Rightarrow> string \<Rightarrow> string" where
  "source_fragment_value value key =
     (let fragment = (case str_index value ''#'' of None \<Rightarrow> [] | Some i \<Rightarrow> drop (Suc i) value) in
      case find (\<lambda>item. case cut item ''='' of (name, _, ok) \<Rightarrow> ok \<and> name = key) (split_on CHR ''&'' fragment) of
        None \<Rightarrow> [] | Some item \<Rightarrow> fst (snd (cut item ''='')))"

definition hex_any :: "char \<Rightarrow> bool" where
  "hex_any c = (is_digit c \<or> (CHR ''a'' \<le> c \<and> c \<le> CHR ''f'') \<or> (CHR ''A'' \<le> c \<and> c \<le> CHR ''F''))"

text \<open>A full commit: forty hexadecimal digits, or sixty-four.\<close>

definition full_commit :: "string \<Rightarrow> bool" where
  "full_commit v = ((length v = 40 \<or> length v = 64) \<and> list_all hex_any v)"

section \<open>Sources\<close>

record source_provenance =
  sp_name :: string
  sp_kind :: string
  sp_url :: string
  sp_transport :: string
  sp_binding :: string
  sp_algorithm :: string
  sp_digest :: string
  sp_observed :: string
  sp_scan_depth :: int
  sp_inspected :: bool

record source_verification =
  sv_checksums :: string
  sv_pgp :: string

definition source_kinds :: "string list" where "source_kinds = [''archive'', ''file'', ''signature'', ''vcs'']"

definition source_bindings :: "string list" where
  "source_bindings = [''fixed-digest'', ''vcs-commit'', ''mutable-vcs'', ''signature-companion'', ''unbound'']"

definition source_provenance_validate :: "source_provenance \<Rightarrow> bool" where
  "source_provenance_validate s =
     (\<not> (sp_name s = [] \<or> length (sp_name s) > 4096 \<or> path_base (sp_name s) \<noteq> sp_name s \<or> length (sp_url s) > 8192 \<or>
         sp_transport s = [] \<or> length (sp_transport s) > 64 \<or> sp_kind s \<notin> set source_kinds \<or>
         sp_binding s \<notin> set source_bindings \<or> sp_scan_depth s < 0 \<or> sp_scan_depth s > 64) \<and>
      \<not> (sp_observed s \<noteq> [] \<and> \<not> valid_hex_digest (sp_observed s)) \<and>
      \<not> ((sp_algorithm s = []) \<noteq> (sp_digest s = []) \<or> length (sp_algorithm s) > 32 \<or> length (sp_digest s) > 256))"

definition source_verification_validate :: "source_verification \<Rightarrow> bool" where
  "source_verification_validate v =
     (sv_checksums v \<in> set [[], ''unknown'', ''passed''] \<and>
      sv_pgp v \<in> set [[], ''unknown'', ''pending'', ''verified'', ''skipped'', ''not-applicable''])"

section \<open>Reading .SRCINFO\<close>

text \<open>A lane: the sources of one architecture suffix and its checksum columns.\<close>

record source_lane =
  lane_sources :: "string list"
  lane_sums :: "string \<Rightarrow> string list"

definition empty_lane :: source_lane where
  "empty_lane = \<lparr>lane_sources = [], lane_sums = (\<lambda>_. [])\<rparr>"

definition algorithms :: "string list" where
  "algorithms = [''b2'', ''sha512'', ''sha384'', ''sha256'', ''sha224'', ''sha1'', ''md5'']"

type_synonym lanes = "string \<Rightarrow> source_lane option"

definition lane_of :: "lanes \<Rightarrow> string \<Rightarrow> source_lane" where
  "lane_of ls suffix = (case ls suffix of None \<Rightarrow> empty_lane | Some l \<Rightarrow> l)"

definition sums_key :: "string \<Rightarrow> string \<Rightarrow> bool" where
  "sums_key key algorithm = (key = algorithm @ ''sums'' \<or> has_prefix key (algorithm @ ''sums_''))"

definition add_srcinfo_line :: "lanes \<Rightarrow> string \<Rightarrow> lanes" where
  "add_srcinfo_line ls line =
     (case cut (trim_space line) '' = '' of (key, value, ok) \<Rightarrow>
        if \<not> ok then ls
        else if key = ''source'' \<or> has_prefix key ''source_'' then
          let suffix = trim_prefix key ''source''; l = lane_of ls suffix in
          ls(suffix \<mapsto> l\<lparr>lane_sources := lane_sources l @ [value]\<rparr>)
        else (case find (sums_key key) algorithms of
            None \<Rightarrow> ls
          | Some a \<Rightarrow>
              let suffix = trim_prefix key (a @ ''sums''); l = lane_of ls suffix in
              ls(suffix \<mapsto> l\<lparr>lane_sums := (lane_sums l)(a := lane_sums l a @ [value])\<rparr>)))"

definition max_srcinfo_line :: nat where "max_srcinfo_line = 4 * 1024 * 1024"

definition srcinfo_lanes :: "string \<Rightarrow> lanes" where
  "srcinfo_lanes raw = foldl add_srcinfo_line Map.empty (fst (scan_lines_max max_srcinfo_line raw))"

text \<open>The strongest checksum declared for a position, SKIP and empty entries aside.\<close>

definition usable_sum :: "(string \<Rightarrow> string \<Rightarrow> bool) \<Rightarrow> source_lane \<Rightarrow> nat \<Rightarrow> string \<Rightarrow> bool" where
  "usable_sum uf l index a =
     (index < length (lane_sums l a) \<and> lane_sums l a ! index \<noteq> [] \<and> \<not> equal_fold uf (lane_sums l a ! index) ''SKIP'')"

definition declared_sum :: "(string \<Rightarrow> string \<Rightarrow> bool) \<Rightarrow> source_lane \<Rightarrow> nat \<Rightarrow> (string \<times> string) option" where
  "declared_sum uf l index = map_option (\<lambda>a. (a, lane_sums l a ! index)) (find (usable_sum uf l index) algorithms)"

definition bind_source ::
  "(string \<Rightarrow> string) \<Rightarrow> (string \<Rightarrow> string \<Rightarrow> bool) \<Rightarrow> source_lane \<Rightarrow> nat \<Rightarrow> string \<Rightarrow> string \<Rightarrow> string \<times> string \<times> string" where
  "bind_source ul uf l index url kind =
     (let (binding, algorithm, digest) = (case declared_sum uf l index of
          None \<Rightarrow> (''unbound'', [], []) | Some (a, d) \<Rightarrow> (''fixed-digest'', a, d)) in
      if kind = ''vcs'' then
        let commit = source_fragment_value url ''commit'' in
        if full_commit commit then (''vcs-commit'', ''commit'', to_lower ul commit)
        else if binding \<noteq> ''fixed-digest'' then (''mutable-vcs'', algorithm, digest)
        else (binding, algorithm, digest)
      else if kind = ''signature'' \<and> binding = ''unbound'' then (''signature-companion'', algorithm, digest)
      else (binding, algorithm, digest))"

definition source_url :: "string \<Rightarrow> string" where
  "source_url declared = (case cut declared ''::'' of (_, value, ok) \<Rightarrow> if ok then value else declared)"

text \<open>The entry of one declared source; local sources and names that are no file name have none.\<close>

definition source_entry ::
  "(string \<Rightarrow> string) \<Rightarrow> (string \<Rightarrow> string \<Rightarrow> bool) \<Rightarrow> int \<Rightarrow> source_lane \<Rightarrow> nat \<Rightarrow> source_provenance option" where
  "source_entry ul uf depth l index =
     (let declared = lane_sources l ! index; url = source_url declared; name = makepkg_source_name declared;
          kind = remote_source_kind ul url name in
      if \<not> remote_source url then None
      else (case bind_source ul uf l index url kind of (binding, algorithm, digest) \<Rightarrow>
        if name \<noteq> [] \<and> path_base name = name
        then Some \<lparr>sp_name = name, sp_kind = kind, sp_url = url, sp_transport = source_transport ul url,
          sp_binding = binding, sp_algorithm = algorithm, sp_digest = digest, sp_observed = [],
          sp_scan_depth = depth, sp_inspected = False\<rparr>
        else None))"

definition lane_entries ::
  "(string \<Rightarrow> string) \<Rightarrow> (string \<Rightarrow> string \<Rightarrow> bool) \<Rightarrow> int \<Rightarrow> source_lane \<Rightarrow> source_provenance list" where
  "lane_entries ul uf depth l = List.map_filter (source_entry ul uf depth l) [0..<length (lane_sources l)]"

text \<open>
  The lanes are a Go map, ranged over in an unspecified order, given as \<open>suffixes\<close>. The sort is
  not stable either; entries with the same name and address may come in any order, and the
  stable sort stands for one of them.
\<close>

definition source_key :: "source_provenance \<Rightarrow> string \<times> string" where
  "source_key s = (sp_name s, sp_url s)"

definition parse_source_provenance ::
  "(string \<Rightarrow> string) \<Rightarrow> (string \<Rightarrow> string \<Rightarrow> bool) \<Rightarrow> string list \<Rightarrow> string \<Rightarrow> int \<Rightarrow> source_provenance list" where
  "parse_source_provenance ul uf suffixes raw depth =
     (let ls = srcinfo_lanes raw in
      sort_key source_key (concat (map (\<lambda>s. lane_entries ul uf depth (lane_of ls s)) suffixes)))"

section \<open>Findings about sources\<close>

definition scan_finding :: "string \<Rightarrow> string \<Rightarrow> string \<Rightarrow> string \<Rightarrow> string \<Rightarrow> finding" where
  "scan_finding severity category evidence rationale rule =
     \<lparr>f_source = [], f_severity = severity, f_category = category, f_file = ''.SRCINFO'', f_line = None,
      f_evidence = evidence, f_rationale = rationale, f_rule_id = rule, f_hard_block = False\<rparr>"

definition unsupported_transport_findings :: "(string \<Rightarrow> string) \<Rightarrow> source_provenance list \<Rightarrow> finding list" where
  "unsupported_transport_findings ul ss = List.map_filter (\<lambda>s.
     case supported_source_transport ul (sp_url s) of (ok, scheme) \<Rightarrow>
       if ok then None
       else Some (scan_finding ''medium'' ''coverage'' (sp_name s @ '': '' @ scheme)
         ''this release fetches declared sources over HTTP(S) only, so the build cannot retrieve this source; install the package without Prolewatch or ask upstream for an HTTP(S) source''
         ''source-transport-unsupported'')) ss"

definition source_provenance_findings :: "source_provenance list \<Rightarrow> finding list" where
  "source_provenance_findings ss = List.map_filter (\<lambda>s.
     if sp_binding s \<noteq> ''unbound'' \<and> sp_binding s \<noteq> ''mutable-vcs'' then None
     else Some (scan_finding ''medium'' ''integrity'' (sp_name s @ '': '' @ sp_binding s)
       ''vendor source provenance is mutable or lacks a fixed content binding; local policy accepts it with a warning''
       ''vendor-provenance-weak'')) ss"

text \<open>The checksums learned from stale metadata are dropped; the warnings are for those entries only.\<close>

definition unbind_source :: "source_provenance \<Rightarrow> source_provenance" where
  "unbind_source s = s\<lparr>sp_binding := ''unbound'', sp_algorithm := [], sp_digest := []\<rparr>"

definition invalidate_fixed_digest_bindings :: "source_provenance list \<Rightarrow> source_provenance list \<times> finding list" where
  "invalidate_fixed_digest_bindings ss =
     (map (\<lambda>s. if sp_binding s \<noteq> ''fixed-digest'' then s else unbind_source s) ss,
      source_provenance_findings (map unbind_source (filter (\<lambda>s. sp_binding s = ''fixed-digest'') ss)))"

definition source_summary :: "source_provenance list \<Rightarrow> source_verification \<Rightarrow> string" where
  "source_summary ss v =
     (case ss of [] \<Rightarrow> [] | s0 # _ \<Rightarrow>
        let depth = sp_scan_depth s0;
            firm = (\<lambda>s. sp_binding s = ''fixed-digest'' \<or> sp_binding s = ''vcs-commit'' \<or> sp_binding s = ''signature-companion'');
            fixed = length (filter firm ss); weak = length (filter (\<lambda>s. \<not> firm s) ss);
            dot = '' '' @ [CHR 0xC2, CHR 0xB7] @ '' '';
            policy = (if depth > 0 then ''content inspected to depth '' @ show_int depth else ''content accepted uninspected'');
            parts = (if fixed > 0 then [show_nat fixed @ '' pinned to exact bytes''] else []) @
                    (if weak > 0 then [show_nat weak @ '' mutable''] else [])
        in join_with '', '' parts @ dot @ policy @
           (if sv_checksums v \<noteq> [] \<and> sv_checksums v \<noteq> ''unknown'' then dot @ ''checksums '' @ sv_checksums v else []) @
           (if sv_pgp v \<noteq> [] \<and> sv_pgp v \<noteq> ''unknown'' \<and> sv_pgp v \<noteq> ''not-applicable'' then dot @ ''PGP '' @ sv_pgp v else []))"

section \<open>Recognised network steps\<close>

definition step_rule_prefix :: string where "step_rule_prefix = ''shell-known-network-step-''"

definition finding_belongs_to_vendor_source :: "string \<Rightarrow> source_provenance list \<Rightarrow> bool" where
  "finding_belongs_to_vendor_source file ss =
     list_ex (\<lambda>s. file = sp_name s \<or> has_prefix file (sp_name s @ ''!/'')) ss"

definition known_step :: "source_provenance list \<Rightarrow> string \<Rightarrow> finding \<Rightarrow> bool" where
  "known_step ss profile f =
     (\<not> (trim_prefix (f_rule_id f) step_rule_prefix = f_rule_id f \<or>
        (profile \<noteq> [] \<and> f_rule_id f \<noteq> step_rule_prefix @ profile) \<or>
        f_evidence f = [] \<or> finding_belongs_to_vendor_source (f_file f) ss))"

definition known_network_steps :: "finding list \<Rightarrow> source_provenance list \<Rightarrow> string \<Rightarrow> string list" where
  "known_network_steps fs ss profile = sort (dedupe [] (map f_evidence (filter (known_step ss profile) fs)))"

definition contains_step :: "finding list \<Rightarrow> source_provenance list \<Rightarrow> string \<Rightarrow> bool" where
  "contains_step fs ss wanted = list_ex (\<lambda>s. s = wanted) (known_network_steps fs ss [])"

definition uses_persistent_go_cache :: "finding list \<Rightarrow> source_provenance list \<Rightarrow> bool" where
  "uses_persistent_go_cache fs ss = contains_step fs ss ''go mod download''"

definition uses_persistent_cargo_home :: "finding list \<Rightarrow> source_provenance list \<Rightarrow> bool" where
  "uses_persistent_cargo_home fs ss = contains_step fs ss ''cargo fetch --locked''"

section \<open>File records and manifest records\<close>

text \<open>A Go map from strings is given by its members in key order, as the canonical printer writes it.\<close>

type_synonym json_object = "(string \<times> json) list"

record file_record =
  fr_path :: string
  fr_path_b64 :: string
  fr_kind :: string
  fr_mode :: nat
  fr_size :: int
  fr_sha256 :: string
  fr_executable :: bool
  fr_text :: bool
  fr_link_target :: string
  fr_archive_entries :: int
  fr_archive_format :: string
  fr_extractable :: bool
  fr_selected_reason :: string
  fr_binary_metadata :: "json_object option"
  fr_selected_text :: string

definition manifest_value :: "file_record \<Rightarrow> json_object" where
  "manifest_value f =
     [(''archive_entries'', JNum (show_int (fr_archive_entries f))), (''archive_format'', JStr (fr_archive_format f)),
      (''binary_metadata'', case fr_binary_metadata f of None \<Rightarrow> JNull | Some ms \<Rightarrow> JObj ms),
      (''executable'', JBool (fr_executable f)), (''extractable'', JBool (fr_extractable f)),
      (''kind'', JStr (fr_kind f)), (''link_target'', JStr (fr_link_target f)), (''mode'', JNum (show_nat (fr_mode f))),
      (''path'', JStr (fr_path f)), (''path_b64'', JStr (fr_path_b64 f)), (''selected_reason'', JStr (fr_selected_reason f)),
      (''sha256'', JStr (fr_sha256 f)), (''size'', JNum (show_int (fr_size f))), (''text'', JBool (fr_text f))]"

definition manifest_keys :: "string list" where
  "manifest_keys =
    [''path'', ''path_b64'', ''kind'', ''mode'', ''size'', ''sha256'', ''executable'', ''text'', ''link_target'',
     ''archive_entries'', ''archive_format'', ''extractable'', ''selected_reason'', ''binary_metadata'']"

text \<open>base64.URLEncoding.DecodeString succeeds: line breaks are skipped, padding ends the last group.\<close>

definition b64url_char :: "char \<Rightarrow> bool" where
  "b64url_char c = (is_alpha c \<or> is_digit c \<or> c = CHR ''-'' \<or> c = CHR ''_'')"

definition b64url_valid :: "string \<Rightarrow> bool" where
  "b64url_valid s =
     (let t = filter (\<lambda>c. c \<noteq> CHR 0x0A \<and> c \<noteq> CHR 0x0D) s;
          body = trim_suffix (trim_suffix t ''='') ''='' in
      length t mod 4 = 0 \<and> list_all b64url_char body)"

definition uint32_of_json :: "json \<Rightarrow> nat option" where
  "uint32_of_json j = (case j of JNum s \<Rightarrow> parse_uint 10 32 s | _ \<Rightarrow> None)"

definition object_of_json :: "json \<Rightarrow> json_object option option" where
  "object_of_json j = (case j of JObj ms \<Rightarrow> Some (Some ms) | _ \<Rightarrow> None)"

definition decode_file_record :: "(string \<Rightarrow> string \<Rightarrow> bool) \<Rightarrow> string \<Rightarrow> file_record option" where
  "decode_file_record uf raw =
     (case decode_struct uf manifest_keys raw of
        None \<Rightarrow> None
      | Some ms \<Rightarrow>
          (case (assign string_of_json ''path'' [] ms, assign string_of_json ''path_b64'' [] ms,
                 assign string_of_json ''kind'' [] ms, assign uint32_of_json ''mode'' 0 ms,
                 assign int_of_json ''size'' 0 ms, assign string_of_json ''sha256'' [] ms,
                 assign bool_of_json ''executable'' False ms, assign bool_of_json ''text'' False ms,
                 assign string_of_json ''link_target'' [] ms, assign int_of_json ''archive_entries'' 0 ms,
                 assign string_of_json ''archive_format'' [] ms, assign bool_of_json ''extractable'' False ms,
                 assign string_of_json ''selected_reason'' [] ms, assign object_of_json ''binary_metadata'' None ms) of
             (Some p, Some pb, Some k, Some m, Some sz, Some h, Some x, Some t, Some l, Some ae, Some af, Some ex, Some r, Some bm) \<Rightarrow>
               Some \<lparr>fr_path = p, fr_path_b64 = pb, fr_kind = k, fr_mode = m, fr_size = sz, fr_sha256 = h,
                 fr_executable = x, fr_text = t, fr_link_target = l, fr_archive_entries = ae, fr_archive_format = af,
                 fr_extractable = ex, fr_selected_reason = r, fr_binary_metadata = bm, fr_selected_text = []\<rparr>
           | _ \<Rightarrow> None))"

definition manifest_kinds :: "string list" where
  "manifest_kinds = [''file'', ''archive-member'', ''symlink'', ''fifo'', ''char-device'', ''block-device'', ''socket'', ''special'']"

definition selected_reasons :: "string list" where
  "selected_reasons = [[], ''mandatory'', ''archive-member'', ''binary-metadata'', ''executable'']"

definition valid_file_record :: "file_record \<Rightarrow> bool" where
  "valid_file_record d =
     (\<not> (fr_path d = [] \<or> length (fr_path d) > 4096 \<or> length (fr_path_b64 d) > 8192 \<or> fr_kind d \<notin> set manifest_kinds \<or>
         fr_mode d > 0xFFF \<or> fr_size d < 0 \<or> fr_archive_entries d < 0 \<or> length (fr_link_target d) > 4096 \<or>
         fr_selected_reason d \<notin> set selected_reasons \<or> fr_binary_metadata d = None) \<and>
      b64url_valid (fr_path_b64 d) \<and>
      (if fr_kind d = ''file'' \<or> fr_kind d = ''archive-member'' then valid_hex_digest (fr_sha256 d) else fr_sha256 d = []))"

definition validate_manifest_record :: "(string \<Rightarrow> string \<Rightarrow> bool) \<Rightarrow> json_object \<Rightarrow> file_record option" where
  "validate_manifest_record uf ms =
     (if length ms \<noteq> length manifest_keys then None
      else if \<not> list_all (\<lambda>m. fst m \<in> set manifest_keys) ms then None
      else (case decode_file_record uf (show_json (JObj ms)) of
          None \<Rightarrow> None
        | Some d \<Rightarrow> if valid_file_record d then Some d else None))"

section \<open>The binding of a directory\<close>

definition binding_value :: "file_record \<Rightarrow> json" where
  "binding_value f = JObj
     [(''executable'', JBool (fr_executable f)), (''kind'', JStr (fr_kind f)), (''link_target'', JStr (fr_link_target f)),
      (''mode'', JNum (show_nat (fr_mode f))), (''path'', JStr (fr_path f)), (''path_b64'', JStr (fr_path_b64 f)),
      (''sha256'', JStr (fr_sha256 f)), (''size'', JNum (show_int (fr_size f)))]"

definition bound_files :: "file_record list \<Rightarrow> file_record list" where
  "bound_files fs = sort_key fr_path_b64 (filter (\<lambda>f. fr_kind f \<noteq> ''archive-member'') fs)"

definition binding_hash_files :: "(string \<Rightarrow> string) \<Rightarrow> file_record list \<Rightarrow> string" where
  "binding_hash_files sha fs = sha (show_json (JArr (map binding_value (bound_files fs))))"

fun validated_records :: "(string \<Rightarrow> string \<Rightarrow> bool) \<Rightarrow> json_object list \<Rightarrow> file_record list option" where
  "validated_records uf [] = Some []"
| "validated_records uf (m # ms) = (case validate_manifest_record uf m of
     None \<Rightarrow> None | Some f \<Rightarrow> map_option ((#) f) (validated_records uf ms))"

definition binding_hash_manifest :: "(string \<Rightarrow> string \<Rightarrow> bool) \<Rightarrow> (string \<Rightarrow> string) \<Rightarrow> json_object list \<Rightarrow> string option" where
  "binding_hash_manifest uf sha manifest = map_option (binding_hash_files sha) (validated_records uf manifest)"

text \<open>The digest observed for one source: of its file, or of the records below its directory.\<close>

fun observe_source :: "string \<Rightarrow> file_record list \<Rightarrow> file_record list \<Rightarrow> string option \<times> file_record list" where
  "observe_source name [] acc = (None, acc)"
| "observe_source name (r # rs) acc =
     (if fr_kind r = ''archive-member'' then observe_source name rs acc
      else if fr_path r = name then (Some (fr_sha256 r), [])
      else observe_source name rs (if has_prefix (fr_path r) (name @ ''/'') then acc @ [r] else acc))"

definition bind_observed_source :: "(string \<Rightarrow> string) \<Rightarrow> string \<Rightarrow> file_record list \<Rightarrow> source_provenance \<Rightarrow> source_provenance" where
  "bind_observed_source sha phase files s =
     (case observe_source (sp_name s) files [] of (digest, records) \<Rightarrow>
        let observed = (case digest of Some d \<Rightarrow> d | None \<Rightarrow> sp_observed s);
            observed = (if observed = [] \<and> records \<noteq> []
              then sha (show_json (JArr (map binding_value (sort_key fr_path records)))) else observed)
        in s\<lparr>sp_observed := observed, sp_inspected := observed \<noteq> [] \<and> phase = ''post'' \<and> sp_scan_depth s > 0\<rparr>)"

definition bind_observed_sources :: "(string \<Rightarrow> string) \<Rightarrow> string \<Rightarrow> file_record list \<Rightarrow> source_provenance list \<Rightarrow> source_provenance list" where
  "bind_observed_sources sha phase files ss = map (bind_observed_source sha phase files) ss"

section \<open>Records survive the report\<close>

text \<open>
  A record a report can hold: it meets the limits, its strings are UTF-8, and its numbers fit
  their types. Text that is not UTF-8 is changed by the printer, which is why the path is also
  kept in base64.
\<close>

definition storable :: "file_record \<Rightarrow> bool" where
  "storable f =
     (valid_file_record f \<and>
      list_all valid_utf8 [fr_path f, fr_path_b64 f, fr_kind f, fr_sha256 f, fr_link_target f, fr_archive_format f,
        fr_selected_reason f] \<and>
      in_int64 (fr_size f) \<and> in_int64 (fr_archive_entries f) \<and>
      (case fr_binary_metadata f of None \<Rightarrow> True | Some ms \<Rightarrow> wf_members 2 ms))"

lemma wf_show_nat: "wf_json d (JNum (show_nat n))"
  by (simp add: scan_number_show_nat)

lemma wf_manifest_value:
  assumes "storable f" shows "wf_json 0 (JObj (manifest_value f))"
proof -
  have "0 \<le> fr_archive_entries f" "0 \<le> fr_size f" "fr_binary_metadata f \<noteq> None"
    using assms by (auto simp: storable_def valid_file_record_def)
  moreover from this have "wf_json 0 (JNum (show_int (fr_archive_entries f)))" "wf_json 0 (JNum (show_int (fr_size f)))"
    by (simp_all only: wf_show_int)
  ultimately show ?thesis using assms scan_number_show_nat[of "fr_mode f"]
    by (auto simp: manifest_value_def storable_def max_nesting_def valid_utf8_ascii all_ascii_def is_ascii_def split: option.splits)
qed

lemma manifest_value_keys:
  "length (manifest_value f) = length manifest_keys" "list_all (\<lambda>m. fst m \<in> set manifest_keys) (manifest_value f)"
  by (simp_all add: manifest_value_def manifest_keys_def)

lemma decode_manifest_value:
  assumes "storable f"
  shows "decode_file_record uf (show_json (JObj (manifest_value f))) = Some (f\<lparr>fr_selected_text := []\<rparr>)"
proof -
  have d: "decode_struct uf manifest_keys (show_json (JObj (manifest_value f))) = Some (manifest_value f)"
    by (rule decode_show_struct[OF wf_manifest_value[OF assms] manifest_value_keys(2)])
  obtain bm where bm: "fr_binary_metadata f = Some bm" using assms by (auto simp: storable_def valid_file_record_def)
  have n: "parse_int 10 64 (show_int (fr_size f)) = Some (fr_size f)"
    "parse_int 10 64 (show_int (fr_archive_entries f)) = Some (fr_archive_entries f)"
    "parse_uint 10 32 (show_nat (fr_mode f)) = Some (fr_mode f)"
    using assms by (auto simp: storable_def valid_file_record_def parse_int_show_int parse_uint_show_nat)
  show ?thesis
    unfolding decode_file_record_def d option.case
    by (simp add: assign_def manifest_value_def string_of_json_def int_of_json_def
        bool_of_json_def uint32_of_json_def object_of_json_def n bm)
qed

lemma validate_manifest_value:
  "storable f \<Longrightarrow> validate_manifest_record uf (manifest_value f) = Some (f\<lparr>fr_selected_text := []\<rparr>)"
  using decode_manifest_value[of f uf] manifest_value_keys[of f]
  by (simp add: validate_manifest_record_def storable_def valid_file_record_def)

lemma validated_manifest_values:
  "list_all storable fs \<Longrightarrow>
   validated_records uf (map manifest_value fs) = Some (map (\<lambda>f. f\<lparr>fr_selected_text := []\<rparr>) fs)"
  by (induction fs) (simp_all add: validate_manifest_value)

lemma binding_value_select [simp]: "binding_value (f\<lparr>fr_selected_text := t\<rparr>) = binding_value f"
  by (simp add: binding_value_def)

lemma binding_hash_select:
  "binding_hash_files sha (map (\<lambda>f. f\<lparr>fr_selected_text := []\<rparr>) fs) = binding_hash_files sha fs"
proof -
  let ?g = "\<lambda>f :: file_record. f\<lparr>fr_selected_text := []\<rparr>"
  have i: "insort_key fr_path_b64 (?g x) (map ?g xs) = map ?g (insort_key fr_path_b64 x xs)" for x xs
    by (induction xs) auto
  have "sort_key fr_path_b64 (map ?g xs) = map ?g (sort_key fr_path_b64 xs)" for xs
    by (induction xs) (simp_all add: i)
  then have "map binding_value (bound_files (map ?g fs)) = map binding_value (bound_files fs)"
    by (simp add: bound_files_def filter_map o_def)
  then show ?thesis by (simp add: binding_hash_files_def)
qed

lemma wf_binding_value: "storable f \<Longrightarrow> wf_json 1 (binding_value f)"
  using wf_show_nat[of 0 "fr_mode f"] wf_show_int[of "fr_size f" 0]
  by (auto simp: binding_value_def storable_def valid_file_record_def max_nesting_def valid_utf8_ascii all_ascii_def is_ascii_def)

lemma wf_elems_all: "wf_elems d es \<longleftrightarrow> list_all (wf_json d) es"
  by (induction es) simp_all

lemma wf_binding_list: "list_all storable fs \<Longrightarrow> wf_json 0 (JArr (map binding_value (bound_files fs)))"
  by (auto simp: wf_elems_all list_all_iff max_nesting_def bound_files_def wf_binding_value)

text \<open>What of a file the binding fixes.\<close>

definition bound_facts :: "file_record \<Rightarrow> string \<times> string \<times> string \<times> nat \<times> int \<times> string \<times> bool \<times> string" where
  "bound_facts f = (fr_path_b64 f, fr_path f, fr_kind f, fr_mode f, fr_size f, fr_sha256 f, fr_executable f, fr_link_target f)"

lemma show_int_inj: "0 \<le> i \<Longrightarrow> 0 \<le> j \<Longrightarrow> show_int i = show_int j \<longleftrightarrow> i = j"
  using show_nat_inj[of "nat i" "nat j"] by (auto simp: show_int_def)

lemma show_nat_eq [simp]: "show_nat m = show_nat n \<longleftrightarrow> m = n"
  using show_nat_inj[of m n] by auto

lemma binding_value_eq:
  "storable f \<Longrightarrow> storable g \<Longrightarrow> binding_value f = binding_value g \<longleftrightarrow> bound_facts f = bound_facts g"
  by (auto simp: binding_value_def bound_facts_def storable_def valid_file_record_def show_int_inj)

lemma binding_values_eq:
  assumes "list_all storable fs" "list_all storable gs"
  shows "map binding_value fs = map binding_value gs \<longleftrightarrow> map bound_facts fs = map bound_facts gs"
proof -
  have "list_all2 (\<lambda>f g. binding_value f = binding_value g) fs gs = list_all2 (\<lambda>f g. bound_facts f = bound_facts g) fs gs"
    using assms by (intro list.rel_cong_simp refl) (auto simp: list_all_iff simp_implies_def binding_value_eq)
  then show ?thesis by (simp add: list.rel_map list.rel_eq flip: list.rel_eq)
qed

lemma storable_bound: "list_all storable fs \<Longrightarrow> list_all storable (bound_files fs)"
  by (auto simp: bound_files_def list_all_iff)

text \<open>
  What VerifyMarker compares. The binding recomputed from the manifest a report stores is that of the
  files the manifest was made from; and as long as the digest does not collide on the two documents,
  it is the binding of another directory exactly if its files agree in all bound facts.
\<close>

lemma binding_hash_exact:
  assumes "list_all storable fs" "list_all storable gs"
    and "sha (show_json (JArr (map binding_value (bound_files fs)))) = sha (show_json (JArr (map binding_value (bound_files gs))))
       \<Longrightarrow> show_json (JArr (map binding_value (bound_files fs))) = show_json (JArr (map binding_value (bound_files gs)))"
  shows "binding_hash_manifest uf sha (map manifest_value fs) = Some (binding_hash_files sha gs) \<longleftrightarrow>
    map bound_facts (bound_files fs) = map bound_facts (bound_files gs)"
proof -
  have "binding_hash_manifest uf sha (map manifest_value fs) = Some (binding_hash_files sha fs)"
    by (simp add: binding_hash_manifest_def validated_manifest_values[OF assms(1)] binding_hash_select)
  moreover have "show_json (JArr (map binding_value (bound_files fs))) = show_json (JArr (map binding_value (bound_files gs))) \<longleftrightarrow>
      map binding_value (bound_files fs) = map binding_value (bound_files gs)"
    using parse_show_json[OF wf_binding_list[OF assms(1)]] parse_show_json[OF wf_binding_list[OF assms(2)]]
    by (metis json.inject(4) option.inject)
  ultimately show ?thesis
    using assms(3) binding_values_eq[OF storable_bound[OF assms(1)] storable_bound[OF assms(2)]]
    by (auto simp: binding_hash_files_def)
qed

definition example_record :: "string \<Rightarrow> nat \<Rightarrow> file_record" where
  "example_record digest mode =
     \<lparr>fr_path = ''PKGBUILD'', fr_path_b64 = ''UEtHQlVJTEQ='', fr_kind = ''file'', fr_mode = mode, fr_size = 7,
      fr_sha256 = digest, fr_executable = False, fr_text = True, fr_link_target = [], fr_archive_entries = 0,
      fr_archive_format = [], fr_extractable = False, fr_selected_reason = ''mandatory'', fr_binary_metadata = Some [],
      fr_selected_text = ''pkgver''\<rparr>"

section \<open>Properties\<close>

lemma find_first:
  assumes "find P xs = Some x"
  shows "\<exists>zs ys. xs = ys @ x # zs \<and> P x \<and> (\<forall>y \<in> set ys. \<not> P y)"
proof -
  from assms obtain i where i: "i < length xs" "P (xs ! i)" "x = xs ! i" "\<forall>j < i. \<not> P (xs ! j)"
    by (auto simp: find_Some_iff)
  have "xs = take i xs @ x # drop (Suc i) xs" using i by (simp add: id_take_nth_drop)
  moreover have "\<forall>y \<in> set (take i xs). \<not> P y" using i by (auto simp: in_set_conv_nth)
  ultimately show ?thesis using i by blast
qed

text \<open>An algorithm with a usable checksum at a position, while no stronger one has.\<close>

definition strongest_sum :: "(string \<Rightarrow> string \<Rightarrow> bool) \<Rightarrow> source_lane \<Rightarrow> nat \<Rightarrow> string \<Rightarrow> bool" where
  "strongest_sum uf l i a = (usable_sum uf l i a \<and>
     (\<exists>weaker stronger. algorithms = stronger @ a # weaker \<and> (\<forall>b \<in> set stronger. \<not> usable_sum uf l i b)))"

lemma declared_sum_strongest: "declared_sum uf l i = Some (a, d) \<Longrightarrow> strongest_sum uf l i a \<and> d = lane_sums l a ! i"
  by (auto simp: declared_sum_def strongest_sum_def dest!: find_first)

lemma declared_sum_none:
  assumes "declared_sum uf l i = None" shows "\<not> strongest_sum uf l i a"
proof
  assume "strongest_sum uf l i a"
  then have "usable_sum uf l i a" "a \<in> set algorithms"
    by (simp add: strongest_sum_def) (metis \<open>strongest_sum uf l i a\<close> in_set_conv_decomp strongest_sum_def)
  with assms show False by (auto simp: declared_sum_def find_None_iff)
qed

text \<open>Whatever order the lanes are visited in, a source is called pinned exactly if the recipe
  pins it: to a commit if it is a VCS source with a full commit in its fragment; to a digest if
  its own lane has a usable checksum at its own position, and then to the strongest one there.\<close>

lemma pinned_sources_declared:
  assumes "s \<in> set (parse_source_provenance ul uf suffixes raw depth)"
  shows "\<exists>suffix \<in> set suffixes. \<exists>l i. l = lane_of (srcinfo_lanes raw) suffix \<and> i < length (lane_sources l) \<and>
    sp_url s = source_url (lane_sources l ! i) \<and> sp_name s = makepkg_source_name (lane_sources l ! i) \<and>
    (sp_binding s = ''vcs-commit'' \<longleftrightarrow> sp_kind s = ''vcs'' \<and> full_commit (source_fragment_value (sp_url s) ''commit'')) \<and>
    (sp_binding s = ''fixed-digest'' \<longleftrightarrow>
       \<not> (sp_kind s = ''vcs'' \<and> full_commit (source_fragment_value (sp_url s) ''commit'')) \<and>
       (\<exists>a. strongest_sum uf l i a \<and> sp_algorithm s = a \<and> sp_digest s = lane_sums l a ! i))"
proof -
  from assms obtain suffix where x: "suffix \<in> set suffixes"
    and e: "s \<in> set (lane_entries ul uf depth (lane_of (srcinfo_lanes raw) suffix))"
    by (auto simp: parse_source_provenance_def Let_def)
  define l where "l = lane_of (srcinfo_lanes raw) suffix"
  from e obtain i where i: "i < length (lane_sources l)" "source_entry ul uf depth l i = Some s"
    by (auto simp: lane_entries_def map_filter_set l_def)
  show ?thesis
  proof (rule bexI[OF _ x], rule exI[of _ l], rule exI[of _ i], cases "declared_sum uf l i")
    case None
    note n = declared_sum_none[OF None]
    from i None show "l = lane_of (srcinfo_lanes raw) suffix \<and> i < length (lane_sources l) \<and>
      sp_url s = source_url (lane_sources l ! i) \<and> sp_name s = makepkg_source_name (lane_sources l ! i) \<and>
      (sp_binding s = ''vcs-commit'' \<longleftrightarrow> sp_kind s = ''vcs'' \<and> full_commit (source_fragment_value (sp_url s) ''commit'')) \<and>
      (sp_binding s = ''fixed-digest'' \<longleftrightarrow>
         \<not> (sp_kind s = ''vcs'' \<and> full_commit (source_fragment_value (sp_url s) ''commit'')) \<and>
         (\<exists>a. strongest_sum uf l i a \<and> sp_algorithm s = a \<and> sp_digest s = lane_sums l a ! i))"
      by (auto simp: n l_def[symmetric] source_entry_def bind_source_def Let_def split: if_splits)
  next
    case (Some p)
    obtain a d where p: "p = (a, d)" by (cases p)
    note n = declared_sum_strongest[OF Some[unfolded p]]
    from i Some show "l = lane_of (srcinfo_lanes raw) suffix \<and> i < length (lane_sources l) \<and>
      sp_url s = source_url (lane_sources l ! i) \<and> sp_name s = makepkg_source_name (lane_sources l ! i) \<and>
      (sp_binding s = ''vcs-commit'' \<longleftrightarrow> sp_kind s = ''vcs'' \<and> full_commit (source_fragment_value (sp_url s) ''commit'')) \<and>
      (sp_binding s = ''fixed-digest'' \<longleftrightarrow>
         \<not> (sp_kind s = ''vcs'' \<and> full_commit (source_fragment_value (sp_url s) ''commit'')) \<and>
         (\<exists>a. strongest_sum uf l i a \<and> sp_algorithm s = a \<and> sp_digest s = lane_sums l a ! i))"
      by (auto simp: n p l_def[symmetric] source_entry_def bind_source_def Let_def split: if_splits)
  qed
qed

definition example_srcinfo :: string where
  "example_srcinfo = ''pkgbase = x'' @ [newline] @ ''source = x.tar.gz::https://example.org/x.tar.gz'' @ [newline] @
     ''source = x.sig::https://example.org/x.sig'' @ [newline] @ ''md5sums = 0f'' @ [newline] @ ''sha256sums = ab'' @ [newline]"

end
