(* ===== verification/Sandbox_Args.thy ===== *)
theory Sandbox_Args
  imports Go_Path
begin

text \<open>
  internal/contain/sandbox.go: the Bubblewrap invocation of a contained execution. \<open>bwrap_args\<close>
  renders the flat argument vector as the code does; \<open>read_options\<close> reads such a vector back as the
  options it is made of, and the properties are about the vector read that way: which mount decides
  a path, what is writable, which environment crosses.
\<close>

section \<open>The specification of an execution\<close>

record spec =
  workdir :: string
  workdir_target :: string
  extra_binds :: "(string \<times> string) list"
  extra_ro_binds :: "(string \<times> string) list"
  empty_pacman_database :: bool
  env :: "(string \<times> string) list"
  argv :: "string list"

text \<open>The environment is a Go map: its keys are distinct, its order is not meaningful.\<close>

definition env_map :: "spec \<Rightarrow> bool" where "env_map s = distinct (map fst (env s))"

definition etc_allowlist :: "string list" where
  "etc_allowlist =
    [''/etc/makepkg.conf'', ''/etc/makepkg.conf.d'', ''/etc/passwd'', ''/etc/group'', ''/etc/ssl'',
     ''/etc/ca-certificates'', ''/etc/pki'', ''/etc/localtime'', ''/etc/nsswitch.conf'', ''/etc/ld.so.conf'',
     ''/etc/ld.so.conf.d'', ''/etc/ld.so.cache'', ''/etc/login.defs'', ''/etc/shells'']"

definition host_describing_paths :: "string list" where
  "host_describing_paths = [''/usr/lib/modules'', ''/usr/src'']"

definition home_target :: string where "home_target = ''/build-home''"

definition bubblewrap_binary :: string where "bubblewrap_binary = ''/usr/bin/bwrap''"

definition sorted_keys :: "(string \<times> string) list \<Rightarrow> string list" where
  "sorted_keys m = sort (map fst m)"

definition env_value :: "(string \<times> string) list \<Rightarrow> string \<Rightarrow> string" where
  "env_value m k = (case map_of m k of Some v \<Rightarrow> v | None \<Rightarrow> [])"

definition sandbox_target :: "spec \<Rightarrow> string" where
  "sandbox_target s = (if workdir_target s = [] then ''/build'' else workdir_target s)"

definition bwrap_args :: "spec \<Rightarrow> int \<Rightarrow> string list" where
  "bwrap_args s userns_fd =
     (let target = sandbox_target s in
      [''--userns'', show_int userns_fd,
       ''--unshare-pid'', ''--unshare-ipc'', ''--unshare-uts'', ''--unshare-cgroup'',
       ''--unshare-net'',
       ''--die-with-parent'', ''--new-session'',
       ''--ro-bind'', ''/usr'', ''/usr'',
       ''--symlink'', ''usr/bin'', ''/bin'',
       ''--symlink'', ''usr/bin'', ''/sbin'',
       ''--symlink'', ''usr/lib'', ''/lib'',
       ''--symlink'', ''usr/lib64'', ''/lib64'',
       ''--proc'', ''/proc'',
       ''--dev'', ''/dev'',
       ''--tmpfs'', ''/tmp'',
       ''--tmpfs'', ''/run'',
       ''--tmpfs'', ''/var/tmp'',
       ''--tmpfs'', home_target,
       ''--dir'', ''/etc''] @
      (if empty_pacman_database s
       then [''--tmpfs'', ''/var/lib/pacman'', ''--dir'', ''/var/lib/pacman/local'',
             ''--dir'', ''/tmp/pacman-cache'', ''--dir'', ''/tmp/pacman-gnupg''] else []) @
      concat (map (\<lambda>path. [''--tmpfs'', path]) host_describing_paths) @
      concat (map (\<lambda>path. [''--ro-bind-try'', path, path]) etc_allowlist) @
      [''--bind'', workdir s, target] @
      concat (map (\<lambda>(h, t). [''--bind'', h, t]) (extra_binds s)) @
      [''--ro-bind-try'', path_join [workdir s, ''.git''], path_join [target, ''.git'']] @
      concat (map (\<lambda>(h, t). [''--ro-bind'', h, t]) (extra_ro_binds s)) @
      [''--chdir'', target, ''--clearenv''] @
      concat (map (\<lambda>key. [''--setenv'', key, env_value (env s) key]) (sorted_keys (env s))) @
      [''--''] @ argv s)"

text \<open>BaseEnv; the argument is the LANG of the caller.\<close>

definition base_env :: "string \<Rightarrow> (string \<times> string) list" where
  "base_env lang =
     [(''HOME'', home_target), (''PATH'', ''/usr/local/sbin:/usr/local/bin:/usr/bin''),
      (''LANG'', if lang \<noteq> [] then lang else ''C.UTF-8''), (''TERM'', ''dumb'')]"

datatype contain_error = NoUserNamespace | ContainedFailed "string list"

text \<open>Run: the command executed, with the inherited descriptors and the environment of bwrap itself.\<close>

definition contain_run :: "bool \<Rightarrow> (string list \<Rightarrow> bool) \<Rightarrow> spec \<Rightarrow> contain_error + string list" where
  "contain_run has_ns execute s =
     (if \<not> has_ns then Inl NoUserNamespace
      else let command = bubblewrap_binary # bwrap_args s 3 in
        if execute command then Inr command else Inl (ContainedFailed (argv s)))"

section \<open>Reading an argument vector as options\<close>

definition option_arity :: "string \<Rightarrow> nat" where
  "option_arity opt =
     (if opt \<in> set [''--ro-bind'', ''--ro-bind-try'', ''--bind'', ''--symlink'', ''--setenv''] then 2
      else if opt \<in> set [''--userns'', ''--proc'', ''--dev'', ''--tmpfs'', ''--dir'', ''--chdir''] then 1
      else 0)"

type_synonym bwrap_option = "string \<times> string list"

text \<open>Options up to the double dash; the rest is the command.\<close>

function read_options :: "string list \<Rightarrow> bwrap_option list \<times> string list" where
  "read_options [] = ([], [])"
| "read_options (a # as) =
     (if a = ''--'' then ([], as)
      else (case read_options (drop (option_arity a) as) of
          (opts, cmd) \<Rightarrow> ((a, take (option_arity a) as) # opts, cmd)))"
  by pat_completeness auto
termination by (relation "measure length") auto

definition well_formed_option :: "bwrap_option \<Rightarrow> bool" where
  "well_formed_option o1 = (fst o1 \<noteq> ''--'' \<and> length (snd o1) = option_arity (fst o1))"

lemma read_options_step:
  "well_formed_option o1 \<Longrightarrow> read_options ((fst o1 # snd o1) @ rest) =
     (o1 # fst (read_options rest), snd (read_options rest))"
  by (cases o1) (simp add: well_formed_option_def split: prod.split)

declare read_options.simps(2) [simp del]

lemma read_options_flat:
  "list_all well_formed_option opts \<Longrightarrow>
     read_options (concat (map (\<lambda>o1. fst o1 # snd o1) opts) @ ''--'' # cmd) = (opts, cmd)"
proof (induction opts)
  case Nil
  then show ?case by (simp add: read_options.simps(2))
next
  case (Cons o1 opts)
  then show ?case using read_options_step[of o1 "concat (map (\<lambda>o1. fst o1 # snd o1) opts) @ ''--'' # cmd"]
    by simp
qed

section \<open>The options of the sandbox\<close>

definition fixed_options :: "int \<Rightarrow> bwrap_option list" where
  "fixed_options fd =
     [(''--userns'', [show_int fd]), (''--unshare-pid'', []), (''--unshare-ipc'', []), (''--unshare-uts'', []),
      (''--unshare-cgroup'', []), (''--unshare-net'', []), (''--die-with-parent'', []), (''--new-session'', []),
      (''--ro-bind'', [''/usr'', ''/usr'']), (''--symlink'', [''usr/bin'', ''/bin'']),
      (''--symlink'', [''usr/bin'', ''/sbin'']), (''--symlink'', [''usr/lib'', ''/lib'']),
      (''--symlink'', [''usr/lib64'', ''/lib64'']), (''--proc'', [''/proc'']), (''--dev'', [''/dev'']),
      (''--tmpfs'', [''/tmp'']), (''--tmpfs'', [''/run'']), (''--tmpfs'', [''/var/tmp'']),
      (''--tmpfs'', [home_target]), (''--dir'', [''/etc''])]"

definition pacman_options :: "bool \<Rightarrow> bwrap_option list" where
  "pacman_options b = (if b then
     [(''--tmpfs'', [''/var/lib/pacman'']), (''--dir'', [''/var/lib/pacman/local'']),
      (''--dir'', [''/tmp/pacman-cache'']), (''--dir'', [''/tmp/pacman-gnupg''])] else [])"

definition early_options :: "spec \<Rightarrow> int \<Rightarrow> bwrap_option list" where
  "early_options s fd = fixed_options fd @ pacman_options (empty_pacman_database s) @
     map (\<lambda>p. (''--tmpfs'', [p])) host_describing_paths @
     map (\<lambda>p. (''--ro-bind-try'', [p, p])) etc_allowlist"

definition writable_options :: "spec \<Rightarrow> bwrap_option list" where
  "writable_options s = (''--bind'', [workdir s, sandbox_target s]) #
     map (\<lambda>(h, t). (''--bind'', [h, t])) (extra_binds s)"

definition pinned_options :: "spec \<Rightarrow> bwrap_option list" where
  "pinned_options s =
     (''--ro-bind-try'', [path_join [workdir s, ''.git''], path_join [sandbox_target s, ''.git'']]) #
     map (\<lambda>(h, t). (''--ro-bind'', [h, t])) (extra_ro_binds s)"

definition process_options :: "spec \<Rightarrow> bwrap_option list" where
  "process_options s = [(''--chdir'', [sandbox_target s]), (''--clearenv'', [])] @
     map (\<lambda>k. (''--setenv'', [k, env_value (env s) k])) (sorted_keys (env s))"

lemmas option_group_defs = fixed_options_def pacman_options_def early_options_def writable_options_def
  pinned_options_def process_options_def

lemma concat_map_pair: "concat (map (\<lambda>(h, t). [o1, h, t]) xs) = concat (map (\<lambda>x. [o1, fst x, snd x]) xs)"
  by (simp add: case_prod_unfold)

lemma bwrap_args_flat:
  "bwrap_args s fd = concat (map (\<lambda>o1. fst o1 # snd o1)
     (early_options s fd @ writable_options s @ pinned_options s @ process_options s)) @ ''--'' # argv s"
  by (simp add: bwrap_args_def Let_def option_group_defs comp_def case_prod_unfold)

lemma option_groups_well_formed:
  "list_all well_formed_option (early_options s fd @ writable_options s @ pinned_options s @ process_options s)"
  by (auto simp: option_group_defs well_formed_option_def option_arity_def list_all_iff
      host_describing_paths_def etc_allowlist_def)

lemma read_bwrap_args:
  "read_options (bwrap_args s fd) =
     (early_options s fd @ writable_options s @ pinned_options s @ process_options s, argv s)"
  unfolding bwrap_args_flat by (rule read_options_flat[OF option_groups_well_formed])

section \<open>Which mount decides a path\<close>

text \<open>Mounts are made in the order of the options, so the last one at or above a path decides it.\<close>

definition mount_options :: "string set" where
  "mount_options = {''--ro-bind'', ''--ro-bind-try'', ''--bind'', ''--symlink'', ''--proc'', ''--dev'', ''--tmpfs'', ''--dir''}"

definition below :: "string \<Rightarrow> string \<Rightarrow> bool" where
  "below d p = (p = d \<or> has_prefix p (d @ ''/''))"

definition mount_covers :: "string \<Rightarrow> bwrap_option \<Rightarrow> bool" where
  "mount_covers p o1 = (fst o1 \<in> mount_options \<and> below (last (snd o1)) p)"

definition deciding_mount :: "bwrap_option list \<Rightarrow> string \<Rightarrow> bwrap_option option" where
  "deciding_mount opts p = find (mount_covers p) (rev opts)"

lemma find_none: "\<forall>x \<in> set xs. \<not> P x \<Longrightarrow> find P xs = None"
  by (simp add: find_None_iff)

lemma find_set: "find P xs = Some x \<Longrightarrow> x \<in> set xs \<and> P x"
  by (auto simp: find_Some_iff)

lemma process_no_mount: "find (mount_covers p) (rev (process_options s)) = None"
  by (rule find_none) (auto simp: process_options_def mount_covers_def mount_options_def)

lemma deciding_mount_sandbox:
  "deciding_mount (fst (read_options (bwrap_args s fd))) p =
     (case find (mount_covers p) (rev (pinned_options s)) of Some m \<Rightarrow> Some m
      | None \<Rightarrow> (case find (mount_covers p) (rev (writable_options s)) of Some m \<Rightarrow> Some m
        | None \<Rightarrow> find (mount_covers p) (rev (early_options s fd))))"
  by (simp add: deciding_mount_def read_bwrap_args find_append process_no_mount split: option.split)

lemma early_not_writable: "m \<in> set (early_options s fd) \<Longrightarrow> fst m \<noteq> ''--bind''"
  by (auto simp: early_options_def fixed_options_def pacman_options_def split: if_splits)

lemma pinned_read_only: "m \<in> set (pinned_options s) \<Longrightarrow> fst m \<in> {''--ro-bind'', ''--ro-bind-try''}"
  by (auto simp: pinned_options_def)

section \<open>Properties\<close>


text \<open>The vector reads back as exactly the intended invocation: the network, PID, IPC, UTS and cgroup
  namespaces are unshared whatever the specification holds, the environment is cleared and then set to
  the declared one and nothing else, and the command is the declared command.\<close>

lemma sandbox_invocation:
  assumes "env_map s"
  shows "\<exists>opts sets. read_options (bwrap_args s fd) = (opts @ (''--clearenv'', []) # sets, argv s) \<and>
    {(''--unshare-net'', []), (''--unshare-pid'', []), (''--unshare-ipc'', []), (''--unshare-uts'', []),
     (''--unshare-cgroup'', []), (''--die-with-parent'', [])} \<subseteq> set opts \<and>
    ''--setenv'' \<notin> fst ` set opts \<and>
    set sets = (\<lambda>(k, v). (''--setenv'', [k, v])) ` set (env s) \<and>
    distinct (map (\<lambda>o1. hd (snd o1)) sets)"
proof -
  define opts where "opts = early_options s fd @ writable_options s @ pinned_options s @ [(''--chdir'', [sandbox_target s])]"
  define sets where "sets = map (\<lambda>k. (''--setenv'', [k, env_value (env s) k])) (sorted_keys (env s))"
  have r: "read_options (bwrap_args s fd) = (opts @ (''--clearenv'', []) # sets, argv s)"
    by (simp add: read_bwrap_args opts_def sets_def process_options_def)
  have u: "{(''--unshare-net'', []), (''--unshare-pid'', []), (''--unshare-ipc'', []), (''--unshare-uts'', []),
     (''--unshare-cgroup'', []), (''--die-with-parent'', [])} \<subseteq> set opts"
    by (simp add: opts_def early_options_def fixed_options_def)
  have n: "''--setenv'' \<notin> fst ` set opts"
    by (auto simp: opts_def option_group_defs split: if_splits)
  have v: "env_value (env s) k = v" if "(k, v) \<in> set (env s)" for k v
    using assms that by (simp add: env_map_def env_value_def)
  have "set sets = (\<lambda>(k, v). (''--setenv'', [k, v])) ` set (env s)"
    using v by (force simp: sets_def sorted_keys_def)
  moreover have "distinct (map (\<lambda>o1. hd (snd o1)) sets)"
    using assms by (simp add: sets_def sorted_keys_def env_map_def comp_def)
  ultimately show ?thesis using r u n by blast
qed

definition example_spec :: spec where
  "example_spec = \<lparr>workdir = ''/home/u/pkg'', workdir_target = [], extra_binds = [(''/tmp/out'', ''/out'')],
     extra_ro_binds = [(''/home/u/pkg/PKGBUILD'', ''/build/PKGBUILD'')], empty_pacman_database = False,
     env = [(''B'', ''2''), (''A'', ''1'')], argv = [''makepkg'']\<rparr>"


end
