(* ===== verification/Sub_Ids.thy ===== *)
theory Sub_Ids
  imports Go_Lines
begin

text \<open>
  internal/contain/subid.go: which range of subordinate IDs an account may map into its user
  namespaces. The contents of /etc/nsswitch.conf, /etc/subuid and /etc/subgid are arguments, and
  so is the current user; every refusal of the code is a constructor of \<open>sub_id_error\<close>.
\<close>

section \<open>Ranges\<close>

definition id_space :: nat where "id_space = 65536"

definition min_delegation :: "32 word" where "min_delegation = 65536"

definition max_sub_id_exclusive :: "64 word" where "max_sub_id_exclusive = push_bit 32 1 - 1"

lemma max_sub_id_exclusive_val [code]: "max_sub_id_exclusive = 4294967295"
  by (simp add: max_sub_id_exclusive_def)

record sub_id_range =
  sub_start :: "32 word"
  sub_count :: "32 word"

definition sub_id_end :: "sub_id_range \<Rightarrow> 64 word option" where
  "sub_id_end r = (let e = ucast (sub_start r) + ucast (sub_count r) :: 64 word in
     if sub_count r = 0 \<or> e > max_sub_id_exclusive then None else Some e)"

definition sub_id_ranges_overlap :: "sub_id_range \<Rightarrow> sub_id_range \<Rightarrow> bool" where
  "sub_id_ranges_overlap a b = (case (sub_id_end a, sub_id_end b) of
      (Some a_end, Some b_end) \<Rightarrow> ucast (sub_start a) < b_end \<and> ucast (sub_start b) < a_end
    | _ \<Rightarrow> False)"

text \<open>The IDs a range stands for.\<close>

definition range_ids :: "sub_id_range \<Rightarrow> nat set" where
  "range_ids r = {unat (sub_start r) ..< unat (sub_start r) + unat (sub_count r)}"

lemma unat_word32: "unat (w :: 32 word) < 2 ^ 32"
  using unsigned_less[of w] by simp

lemma unat_ucast64: "unat (ucast (w :: 32 word) :: 64 word) = unat w"
  by (simp add: unsigned_ucast_eq take_bit_nat_eq_self order_less_trans[OF unat_word32])

lemma unat_end:
  "unat (ucast (sub_start r) + ucast (sub_count r) :: 64 word) = unat (sub_start r) + unat (sub_count r)"
proof -
  have "unat (sub_start r) < 2 ^ 32" "unat (sub_count r) < 2 ^ 32"
    by (rule unat_word32)+
  then show ?thesis by (simp add: unat_word_ariths unat_ucast64)
qed

lemma sub_id_end_Some:
  "sub_id_end r = Some e \<longleftrightarrow>
     sub_count r \<noteq> 0 \<and> unat e = unat (sub_start r) + unat (sub_count r) \<and> unat e \<le> 2 ^ 32 - 1"
proof -
  have m: "unat max_sub_id_exclusive = 2 ^ 32 - 1" by (simp add: max_sub_id_exclusive_def)
  show ?thesis
    by (auto simp: sub_id_end_def Let_def word_less_nat_alt m unat_end word_unat_eq_iff)
qed

lemma range_ids_nonempty: "range_ids r \<noteq> {} \<longleftrightarrow> sub_count r \<noteq> 0"
  by (auto simp: range_ids_def unat_gt_0)

text \<open>For ranges that are well formed, the overlap test is exactly that an ID is in both.\<close>

lemma sub_id_ranges_overlap_iff:
  assumes "sub_id_end a = Some x" "sub_id_end b = Some y"
  shows "sub_id_ranges_overlap a b \<longleftrightarrow> range_ids a \<inter> range_ids b \<noteq> {}"
proof -
  have e: "unat x = unat (sub_start a) + unat (sub_count a)" "unat y = unat (sub_start b) + unat (sub_count b)"
      "0 < unat (sub_count a)" "0 < unat (sub_count b)"
    using assms by (simp_all add: sub_id_end_Some unat_gt_0)
  have "sub_id_ranges_overlap a b \<longleftrightarrow> unat (sub_start a) < unat y \<and> unat (sub_start b) < unat x"
    using assms by (simp add: sub_id_ranges_overlap_def word_less_nat_alt unat_ucast64)
  also have "\<dots> \<longleftrightarrow> range_ids a \<inter> range_ids b \<noteq> {}"
  proof
    assume "unat (sub_start a) < unat y \<and> unat (sub_start b) < unat x"
    then have "max (unat (sub_start a)) (unat (sub_start b)) \<in> range_ids a \<inter> range_ids b"
      using e by (auto simp: range_ids_def)
    then show "range_ids a \<inter> range_ids b \<noteq> {}" by blast
  next
    assume "range_ids a \<inter> range_ids b \<noteq> {}"
    then show "unat (sub_start a) < unat y \<and> unat (sub_start b) < unat x"
      using e by (auto simp: range_ids_def)
  qed
  finally show ?thesis .
qed

section \<open>The lookup\<close>

record sub_id_entry =
  entry_owner :: string
  entry_ids :: sub_id_range
  entry_line :: nat

datatype sub_id_error =
    FileMissing | CannotOpen | NotAnEntry nat | InvalidRange nat | RangeCrossesMax nat | CannotRead
  | NoEntryFor string | RangesOverlap sub_id_entry sub_id_entry | BadInvokingId string
  | ContainsInvokingId sub_id_entry "64 word" | DelegationTooNarrow "32 word" | UnsupportedProvider string
  | CurrentUserUnknown

text \<open>ErrNoSubID wraps the refusals whose remedy is a delegation by the administrator.\<close>

definition is_no_sub_id :: "sub_id_error \<Rightarrow> bool" where
  "is_no_sub_id e = (case e of FileMissing \<Rightarrow> True | NoEntryFor _ \<Rightarrow> True | DelegationTooNarrow _ \<Rightarrow> True | _ \<Rightarrow> False)"

definition require_file_sub_id_line :: "string \<Rightarrow> (sub_id_error + unit) option" where
  "require_file_sub_id_line text =
     (let line = (case str_index text ''#'' of Some i \<Rightarrow> take i text | None \<Rightarrow> text);
          fs = Go_Utf8.fields line in
      if fs = [] \<or> hd fs \<noteq> ''subid:'' then None
      else if length fs = 2 \<and> fs ! 1 = ''files'' then Some (Inr ())
      else Some (Inl (UnsupportedProvider (join_with '' '' (tl fs)))))"

fun first_verdict :: "(string \<Rightarrow> 'v option) \<Rightarrow> string list \<Rightarrow> 'v option" where
  "first_verdict f [] = None"
| "first_verdict f (l # ls) = (case f l of Some v \<Rightarrow> Some v | None \<Rightarrow> first_verdict f ls)"

definition require_file_sub_id_provider :: "file_content \<Rightarrow> sub_id_error + unit" where
  "require_file_sub_id_provider f = (case f of
      NoFile \<Rightarrow> Inr ()
    | OpenError \<Rightarrow> Inl CannotOpen
    | FileData s read_failed \<Rightarrow>
        (case first_verdict require_file_sub_id_line (fst (scan_lines s)) of
           Some v \<Rightarrow> v
         | None \<Rightarrow> if snd (scan_lines s) \<or> read_failed then Inl CannotRead else Inr ()))"

definition parse_sub_id_line :: "nat \<Rightarrow> string \<Rightarrow> sub_id_error + sub_id_entry option" where
  "parse_sub_id_line n text =
     (let line = trim_space text in
      if line = [] \<or> has_prefix line ''#'' then Inr None
      else
        let fs = split_on CHR '':'' line in
        if length fs \<noteq> 3 then Inl (NotAnEntry n)
        else (case (parse_uint 10 32 (fs ! 1), parse_uint 10 32 (fs ! 2)) of
            (Some start, Some count) \<Rightarrow>
              if count = 0 then Inl (InvalidRange n)
              else
                let ids = \<lparr>sub_start = of_nat start, sub_count = of_nat count\<rparr> in
                if sub_id_end ids = None then Inl (RangeCrossesMax n)
                else Inr (Some \<lparr>entry_owner = hd fs, entry_ids = ids, entry_line = n\<rparr>)
          | _ \<Rightarrow> Inl (InvalidRange n)))"

fun parse_sub_ids :: "nat \<Rightarrow> string list \<Rightarrow> sub_id_error + sub_id_entry list" where
  "parse_sub_ids n [] = Inr []"
| "parse_sub_ids n (l # ls) = (case parse_sub_id_line (Suc n) l of
      Inl e \<Rightarrow> Inl e
    | Inr r \<Rightarrow> (case parse_sub_ids (Suc n) ls of
        Inl e \<Rightarrow> Inl e
      | Inr es \<Rightarrow> Inr (case r of None \<Rightarrow> es | Some x \<Rightarrow> x # es)))"

definition find_overlap :: "(string \<Rightarrow> bool) \<Rightarrow> sub_id_entry list \<Rightarrow> sub_id_entry list \<Rightarrow> (sub_id_entry \<times> sub_id_entry) option" where
  "find_overlap own_name own entries =
     find (\<lambda>(c, ot). \<not> own_name (entry_owner ot) \<and> sub_id_ranges_overlap (entry_ids c) (entry_ids ot))
       (List.product own entries)"

definition contains_id :: "sub_id_entry \<Rightarrow> 64 word \<Rightarrow> bool" where
  "contains_id c mapped = (case sub_id_end (entry_ids c) of
      Some e \<Rightarrow> ucast (sub_start (entry_ids c)) \<le> mapped \<and> mapped < e
    | None \<Rightarrow> False)"

fun best_range :: "64 word \<Rightarrow> sub_id_range \<Rightarrow> sub_id_entry list \<Rightarrow> sub_id_error + sub_id_range" where
  "best_range mapped best [] = Inr best"
| "best_range mapped best (c # cs) =
     (if contains_id c mapped then Inl (ContainsInvokingId c mapped)
      else best_range mapped (if sub_count (entry_ids c) > sub_count best then entry_ids c else best) cs)"

definition lookup_sub_id_file :: "file_content \<Rightarrow> string \<Rightarrow> string \<Rightarrow> string \<Rightarrow> sub_id_error + sub_id_range" where
  "lookup_sub_id_file f username numeric_owner_id mapped_id = (case f of
      NoFile \<Rightarrow> Inl FileMissing
    | OpenError \<Rightarrow> Inl CannotOpen
    | FileData s read_failed \<Rightarrow>
        (case parse_sub_ids 0 (fst (scan_lines s)) of
           Inl e \<Rightarrow> Inl e
         | Inr entries \<Rightarrow>
             if snd (scan_lines s) \<or> read_failed then Inl CannotRead
             else
               let own_name = (\<lambda>owner. owner = username \<or> owner = numeric_owner_id);
                   own = filter (\<lambda>e. own_name (entry_owner e)) entries in
               if own = [] then Inl (NoEntryFor username)
               else (case find_overlap own_name own entries of
                   Some (c, ot) \<Rightarrow> Inl (RangesOverlap c ot)
                 | None \<Rightarrow>
                     (case parse_uint 10 32 mapped_id of
                        None \<Rightarrow> Inl (BadInvokingId mapped_id)
                      | Some mapped \<Rightarrow>
                          (case best_range (of_nat mapped) \<lparr>sub_start = 0, sub_count = 0\<rparr> own of
                             Inl e \<Rightarrow> Inl e
                           | Inr best \<Rightarrow>
                               if sub_count best < min_delegation
                               then Inl (DelegationTooNarrow (sub_count best))
                               else Inr best)))))"

record current_user =
  cu_username :: string
  cu_uid :: string
  cu_gid :: string

definition lookup_sub_ids ::
  "file_content \<Rightarrow> current_user option \<Rightarrow> file_content \<Rightarrow> file_content \<Rightarrow>
     sub_id_error + (sub_id_range \<times> sub_id_range)" where
  "lookup_sub_ids nsswitch self subuid subgid = (case require_file_sub_id_provider nsswitch of
      Inl e \<Rightarrow> Inl e
    | Inr _ \<Rightarrow> (case self of
        None \<Rightarrow> Inl CurrentUserUnknown
      | Some u \<Rightarrow>
          (let u_range = lookup_sub_id_file subuid (cu_username u) (cu_uid u) (cu_uid u);
               g_range = lookup_sub_id_file subgid (cu_username u) (cu_uid u) (cu_gid u) in
           case u_range of
             Inl e \<Rightarrow> Inl e
           | Inr ur \<Rightarrow> (case g_range of Inl e \<Rightarrow> Inl e | Inr gr \<Rightarrow> Inr (ur, gr)))))"

section \<open>What a successful lookup guarantees\<close>

lemma parse_sub_id_line_range:
  "parse_sub_id_line n l = Inr (Some e) \<Longrightarrow> sub_id_end (entry_ids e) \<noteq> None"
  by (auto simp: parse_sub_id_line_def Let_def split: if_splits option.splits)

lemma parse_sub_ids_ranges:
  "parse_sub_ids n ls = Inr es \<Longrightarrow> e \<in> set es \<Longrightarrow> sub_id_end (entry_ids e) \<noteq> None"
  by (induction n ls arbitrary: es rule: parse_sub_ids.induct)
    (auto split: sum.splits option.splits dest: parse_sub_id_line_range)

lemma find_overlap_None:
  "find_overlap own_name own es = None \<Longrightarrow> c \<in> set own \<Longrightarrow> ot \<in> set es \<Longrightarrow> \<not> own_name (entry_owner ot) \<Longrightarrow>
     \<not> sub_id_ranges_overlap (entry_ids c) (entry_ids ot)"
  by (auto simp: find_overlap_def find_None_iff)

lemma contains_id_iff: "sub_id_end (entry_ids c) \<noteq> None \<Longrightarrow> contains_id c m \<longleftrightarrow> unat m \<in> range_ids (entry_ids c)"
proof -
  assume "sub_id_end (entry_ids c) \<noteq> None"
  then obtain a where a: "sub_id_end (entry_ids c) = Some a" by blast
  then have "unat a = unat (sub_start (entry_ids c)) + unat (sub_count (entry_ids c))"
    by (simp add: sub_id_end_Some)
  then show ?thesis by (simp add: contains_id_def a range_ids_def word_le_nat_alt word_less_nat_alt unat_ucast64)
qed

lemma best_range_Inr:
  "best_range m b cs = Inr r \<Longrightarrow>
     (r = b \<or> r \<in> entry_ids ` set cs) \<and> sub_count b \<le> sub_count r \<and>
     (\<forall>c \<in> set cs. sub_count (entry_ids c) \<le> sub_count r \<and> \<not> contains_id c m)"
proof (induction cs arbitrary: b)
  case (Cons c cs)
  let ?b = "if sub_count (entry_ids c) > sub_count b then entry_ids c else b"
  from Cons.prems have r: "best_range m ?b cs = Inr r" and nc: "\<not> contains_id c m"
    by (simp_all split: if_splits)
  from Cons.IH[OF r] have "sub_count ?b \<le> sub_count r" by blast
  then have "sub_count b \<le> sub_count r" "sub_count (entry_ids c) \<le> sub_count r"
    by (simp_all split: if_splits)
  with Cons.IH[OF r] nc show ?case by (auto split: if_splits)
qed simp

lemma card_range_ids: "card (range_ids r) = unat (sub_count r)"
  by (simp add: range_ids_def)

section \<open>Properties\<close>

text \<open>C26: a range the lookup accepts belongs to the account, covers at least the 65536 IDs of the
  archive space below the reserved ID, is the widest one delegated, shares no ID with any range of
  another account, and does not contain the ID that is mapped to itself.\<close>

theorem sub_id_lookup_safe:
  assumes "lookup_sub_id_file (FileData s read_failed) u own_id mapped = Inr r"
  shows "\<exists>entries e m. parse_sub_ids 0 (fst (scan_lines s)) = Inr entries \<and> e \<in> set entries \<and>
    entry_ids e = r \<and> entry_owner e \<in> {u, own_id} \<and> 65536 \<le> card (range_ids r) \<and> range_ids r \<subseteq> {..< 2 ^ 32 - 1} \<and>
    (\<forall>x \<in> set entries. if entry_owner x \<in> {u, own_id} then card (range_ids (entry_ids x)) \<le> card (range_ids r)
       else range_ids (entry_ids x) \<inter> range_ids r = {}) \<and>
    parse_uint 10 32 mapped = Some m \<and> m \<notin> range_ids r"
proof -
  define own where "own es = filter (\<lambda>e. entry_owner e = u \<or> entry_owner e = own_id) es" for es :: "sub_id_entry list"
  from assms obtain es m where es: "parse_sub_ids 0 (fst (scan_lines s)) = Inr es"
    and no: "find_overlap (\<lambda>ow. ow = u \<or> ow = own_id) (own es) es = None"
    and m: "parse_uint 10 32 mapped = Some m"
    and best: "best_range (of_nat m) \<lparr>sub_start = 0, sub_count = 0\<rparr> (own es) = Inr r"
    and w: "min_delegation \<le> sub_count r"
    by (auto simp: lookup_sub_id_file_def Let_def own_def not_less
        split: sum.splits if_splits option.splits prod.splits)
  from w have wide: "65536 \<le> unat (sub_count r)"
    by (simp add: min_delegation_def word_le_nat_alt)
  from wide have "r \<noteq> \<lparr>sub_start = 0, sub_count = 0\<rparr>" by auto
  with best_range_Inr[OF best] obtain e where e: "e \<in> set (own es)" "r = entry_ids e" by blast
  note wf = parse_sub_ids_ranges[OF es]
  have e_in: "e \<in> set es" "entry_owner e \<in> {u, own_id}" using e(1) by (auto simp: own_def)
  from wf[OF e_in(1)] obtain x where x: "sub_id_end r = Some x" using e(2) by auto
  have bound: "range_ids r \<subseteq> {..< 2 ^ 32 - 1}" using x by (auto simp: sub_id_end_Some range_ids_def)
  have others: "if entry_owner y \<in> {u, own_id} then card (range_ids (entry_ids y)) \<le> card (range_ids r)
      else range_ids (entry_ids y) \<inter> range_ids r = {}" if y: "y \<in> set es" for y
  proof (cases "entry_owner y \<in> {u, own_id}")
    case True
    then have "y \<in> set (own es)" using y by (auto simp: own_def)
    with best_range_Inr[OF best] True show ?thesis by (simp add: card_range_ids word_le_nat_alt)
  next
    case False
    then have "\<not> sub_id_ranges_overlap r (entry_ids y)"
      using find_overlap_None[OF no e(1) y] e(2) by auto
    moreover from wf[OF y] obtain z where "sub_id_end (entry_ids y) = Some z" by auto
    ultimately have "range_ids r \<inter> range_ids (entry_ids y) = {}"
      using sub_id_ranges_overlap_iff[OF x] by blast
    then have "range_ids (entry_ids y) \<inter> range_ids r = {}" by blast
    then show ?thesis by (simp only: False if_False)
  qed
  have out: "m \<notin> range_ids r"
  proof -
    have "\<not> contains_id e (of_nat m)" using best_range_Inr[OF best] e(1) by blast
    moreover have "unat (of_nat m :: 64 word) = m"
      using parse_uint_bound[OF m] by (simp add: unsigned_of_nat take_bit_nat_eq_self)
    ultimately show ?thesis using contains_id_iff[OF wf[OF e_in(1)], of "of_nat m"] e(2) by simp
  qed
  have "65536 \<le> card (range_ids r)" using wide by (simp add: card_range_ids)
  then show ?thesis
    by (intro exI[of _ es] exI[of _ e] exI[of _ m] conjI ballI es e_in bound m others out e(2)[symmetric])
qed

definition example_subuid :: string where
  "example_subuid = ''# local'' @ [newline] @ ''bob:100000:65536'' @ [newline] @ ''alice:165536:70000'' @ [newline]"

theorem sub_id_lookup_safe_witness:
  "\<exists>entries e m. parse_sub_ids 0 (fst (scan_lines example_subuid)) = Inr entries \<and> e \<in> set entries \<and>
    entry_ids e = \<lparr>sub_start = 165536, sub_count = 70000\<rparr> \<and> entry_owner e \<in> {''alice'', ''1000''} \<and>
    65536 \<le> card (range_ids \<lparr>sub_start = 165536, sub_count = 70000\<rparr>) \<and>
    range_ids \<lparr>sub_start = 165536, sub_count = 70000\<rparr> \<subseteq> {..< 2 ^ 32 - 1} \<and>
    (\<forall>x \<in> set entries. if entry_owner x \<in> {''alice'', ''1000''}
       then card (range_ids (entry_ids x)) \<le> card (range_ids \<lparr>sub_start = 165536, sub_count = 70000\<rparr>)
       else range_ids (entry_ids x) \<inter> range_ids \<lparr>sub_start = 165536, sub_count = 70000\<rparr> = {}) \<and>
    parse_uint 10 32 ''1000'' = Some m \<and> m \<notin> range_ids \<lparr>sub_start = 165536, sub_count = 70000\<rparr>"
proof (rule sub_id_lookup_safe)
  show "lookup_sub_id_file (FileData example_subuid False) ''alice'' ''1000'' ''1000'' =
      Inr \<lparr>sub_start = 165536, sub_count = 70000\<rparr>" by code_simp
qed

end
