(* ===== verification/Userns_Map.thy ===== *)
theory Userns_Map
  imports Sub_Ids
begin

text \<open>
  internal/contain/userns.go: the user namespace of the sandbox. The arguments of unshare(1) and
  the anchor script are written out as the code writes them; the text the kernel shows in
  /proc/<pid>/uid_map and gid_map is an argument of the check that reads it back.
\<close>

section \<open>The command that creates the namespace\<close>

definition ns_user_max_namespaces :: string where
  "ns_user_max_namespaces = ''/proc/sys/user/max_user_namespaces''"

definition unshare_binary :: string where "unshare_binary = ''/usr/bin/unshare''"

definition show_u32 :: "32 word \<Rightarrow> string" where "show_u32 w = show_int (uint w)"

definition script_lines :: "string list \<Rightarrow> string" where
  "script_lines ls = concat (map (\<lambda>l. l @ [newline]) ls)"

definition anchor_script :: "32 word \<Rightarrow> 32 word \<Rightarrow> string" where
  "anchor_script uid gid = script_lines
    [''set -u'',
     ''if ! echo 0 > '' @ ns_user_max_namespaces @ '' 2>/dev/null; then'',
     ''  echo \"clamp-write-failed\" >&2'',
     ''  exit 3'',
     ''fi'',
     ''read_back=$(cat '' @ ns_user_max_namespaces @ '' 2>/dev/null || echo unreadable)'',
     ''if [ \"$read_back\" != 0 ]; then'',
     ''  echo \"clamp-readback=$read_back\" >&2'',
     ''  exit 4'',
     ''fi'',
     ''echo ready'',
     ''if command -v setpriv >/dev/null 2>&1; then'',
     ''  exec setpriv --reuid '' @ show_u32 uid @ '' --regid '' @ show_u32 gid @ '' --clear-groups cat > /dev/null'',
     ''fi'',
     ''exec cat > /dev/null'']"

definition map_args :: "string \<Rightarrow> 32 word \<Rightarrow> sub_id_range \<Rightarrow> string list" where
  "map_args flag i sub =
     (let count = min (sub_count sub) 65536;
          count = (if i = count then count + 1 else count) in
      [trim_suffix flag ''s'', show_u32 i, flag, show_u32 (sub_start sub) @ '',0,'' @ show_u32 count])"

definition unshare_args :: "32 word \<Rightarrow> 32 word \<Rightarrow> sub_id_range \<Rightarrow> sub_id_range \<Rightarrow> string list" where
  "unshare_args uid gid uid_range gid_range =
     [''--user''] @ map_args ''--map-users'' uid uid_range @ map_args ''--map-groups'' gid gid_range @
     [''--setuid'', ''0'', ''--setgid'', ''0''] @ [''--'', ''/bin/sh'', ''-c'', anchor_script uid gid]"

section \<open>Reading the mapping back\<close>

record id_span =
  ns_start :: "64 word"
  host_start :: "64 word"
  span_count :: "64 word"

text \<open>
  fmt.Sscanf with three decimal verbs separated by a blank: each number may follow white space, the
  blank in the format wants white space or the end of the input, and what follows is ignored.
\<close>

definition digit_or_underscore :: "char \<Rightarrow> bool" where
  "digit_or_underscore c = ((CHR ''0'' \<le> c \<and> c \<le> CHR ''9'') \<or> c = CHR ''_'')"

definition scan_uint :: "string \<Rightarrow> (64 word \<times> string) option" where
  "scan_uint s =
     (let t = trim_space_left s; tok = takeWhile digit_or_underscore t in
      map_option (\<lambda>n. (of_nat n, dropWhile digit_or_underscore t)) (parse_uint 10 64 tok))"

definition scan_blank :: "string \<Rightarrow> string option" where
  "scan_blank s = (if s = [] \<or> is_space_rune (fst (decode_rune s)) then Some s else None)"

definition sscanf_span :: "string \<Rightarrow> id_span option" where
  "sscanf_span s =
     Option.bind (scan_uint s) (\<lambda>(a, s1). Option.bind (scan_blank s1) (\<lambda>s1.
     Option.bind (scan_uint s1) (\<lambda>(b, s2). Option.bind (scan_blank s2) (\<lambda>s2.
     Option.bind (scan_uint s2) (\<lambda>(c, _). Some \<lparr>ns_start = a, host_start = b, span_count = c\<rparr>)))))"

definition parse_span :: "string \<Rightarrow> id_span option" where
  "parse_span line = (case sscanf_span (trim_space line) of
      Some p \<Rightarrow> if span_count p = 0 then None else Some p
    | None \<Rightarrow> None)"

definition mapping_spans :: "string \<Rightarrow> id_span list" where
  "mapping_spans text = sort_key ns_start (List.map_filter parse_span (split_on newline text))"

text \<open>The walk over the sorted spans stops at the first gap.\<close>

fun walk_spans :: "64 word \<Rightarrow> id_span list \<Rightarrow> 64 word" where
  "walk_spans covered [] = covered"
| "walk_spans covered (p # ps) =
     (if ns_start p > covered then covered
      else walk_spans (if ns_start p + span_count p > covered then ns_start p + span_count p else covered) ps)"

datatype mapping_error = FirstUnmapped "64 word" | NotIdentity "32 word" "64 word" | InvokerUnmapped "32 word" | MapUnreadable

definition span_maps :: "id_span \<Rightarrow> 64 word \<Rightarrow> bool" where
  "span_maps p i = (\<not> (i < ns_start p \<or> i - ns_start p \<ge> span_count p))"

fun check_invoker :: "32 word \<Rightarrow> id_span list \<Rightarrow> mapping_error option" where
  "check_invoker i [] = Some (InvokerUnmapped i)"
| "check_invoker i (p # ps) =
     (if \<not> span_maps p (ucast i) then check_invoker i ps
      else
        let host = host_start p + (ucast i - ns_start p) in
        if host \<noteq> ucast i then Some (NotIdentity i host) else None)"

definition verify_mapping_text :: "string \<Rightarrow> 32 word \<Rightarrow> mapping_error option" where
  "verify_mapping_text text i =
     (let spans = mapping_spans text; covered = walk_spans 0 spans in
      if covered < 65536 then Some (FirstUnmapped covered) else check_invoker i spans)"

definition verify_mapping :: "string option \<Rightarrow> string option \<Rightarrow> 32 word \<Rightarrow> 32 word \<Rightarrow> mapping_error option" where
  "verify_mapping uid_map gid_map uid gid = (case uid_map of
      None \<Rightarrow> Some MapUnreadable
    | Some ut \<Rightarrow> (case verify_mapping_text ut uid of
        Some e \<Rightarrow> Some e
      | None \<Rightarrow> (case gid_map of None \<Rightarrow> Some MapUnreadable | Some gt \<Rightarrow> verify_mapping_text gt gid)))"

section \<open>The anchor's report\<close>

datatype ready_result = Ready | ReadyReadError | ExitedEarly | ReadyTimeout

text \<open>What the anchor printed before its end or the deadline; \<open>None\<close> is the deadline.\<close>

definition wait_ready :: "file_content option \<Rightarrow> ready_result" where
  "wait_ready out = (case out of
      None \<Rightarrow> ReadyTimeout
    | Some (FileData s read_failed) \<Rightarrow>
        if \<exists>l \<in> set (fst (scan_lines s)). trim_space l = ''ready'' then Ready
        else if snd (scan_lines s) \<or> read_failed then ReadyReadError else ExitedEarly
    | Some _ \<Rightarrow> ReadyReadError)"

datatype anchor_failure = TooOldUtilLinux | NewidmapFailed string | ClampWriteFailed | ClampNoEffect string
  | AnchorFailedWith string | AnchorFailed

definition annotate_anchor_failure :: "string \<Rightarrow> anchor_failure" where
  "annotate_anchor_failure stderr =
     (if str_contains stderr ''unrecognized option'' \<and> str_contains stderr ''map-users'' then TooOldUtilLinux
      else if str_contains stderr ''newuidmap'' \<or> str_contains stderr ''newgidmap'' then NewidmapFailed (trim_space stderr)
      else if str_contains stderr ''clamp-write-failed'' then ClampWriteFailed
      else if str_contains stderr ''clamp-readback='' then ClampNoEffect (trim_space stderr)
      else if trim_space stderr \<noteq> [] then AnchorFailedWith (trim_space stderr)
      else AnchorFailed)"

datatype namespace_error = SubIdError sub_id_error | StartFailed | AnchorError ready_result anchor_failure
  | NamespaceUnopenable | MappingError mapping_error

record namespace_world =
  nsw_sub_ids :: "sub_id_error + (sub_id_range \<times> sub_id_range)"
  nsw_started :: bool
  nsw_stdout :: "file_content option"
  nsw_stderr :: string
  nsw_opened :: bool
  nsw_uid_map :: "string option"
  nsw_gid_map :: "string option"

text \<open>NewNamespace: the command it runs and its result; every failure after the start closes the
  anchor, so only success leaves a namespace.\<close>

definition new_namespace :: "namespace_world \<Rightarrow> 32 word \<Rightarrow> 32 word \<Rightarrow> namespace_error + string list" where
  "new_namespace w uid gid = (case nsw_sub_ids w of
      Inl e \<Rightarrow> Inl (SubIdError e)
    | Inr (ur, gr) \<Rightarrow>
        if \<not> nsw_started w then Inl StartFailed
        else if wait_ready (nsw_stdout w) \<noteq> Ready
        then Inl (AnchorError (wait_ready (nsw_stdout w)) (annotate_anchor_failure (nsw_stderr w)))
        else if \<not> nsw_opened w then Inl NamespaceUnopenable
        else (case verify_mapping (nsw_uid_map w) (nsw_gid_map w) uid gid of
            Some e \<Rightarrow> Inl (MappingError e)
          | None \<Rightarrow> Inr (unshare_binary # unshare_args uid gid ur gr)))"

section \<open>The walk covers what it claims\<close>

lemma span_maps_nat:
  "span_maps p i \<longleftrightarrow> unat (ns_start p) \<le> unat i \<and> unat i - unat (ns_start p) < unat (span_count p)"
proof -
  have "unat (i - ns_start p) = unat i - unat (ns_start p)" if "ns_start p \<le> i"
    using that by (simp add: unat_sub)
  then show ?thesis by (auto simp: span_maps_def not_le not_less word_less_nat_alt word_le_nat_alt)
qed

text \<open>An end that wraps around is below the start, so it never extends what is covered.\<close>

lemma span_end_covers:
  assumes "ns_start p \<le> c" "c \<le> j" "j < ns_start p + span_count p"
  shows "span_maps p j"
proof -
  have "unat (ns_start p + span_count p) \<le> unat (ns_start p) + unat (span_count p)"
    by (simp add: unat_word_ariths)
  with assms show ?thesis
    by (simp add: span_maps_nat word_le_nat_alt word_less_nat_alt)
qed

lemma walk_spans_covers:
  "c \<le> j \<Longrightarrow> j < walk_spans c ps \<Longrightarrow> \<exists>p \<in> set ps. span_maps p j"
proof (induction c ps rule: walk_spans.induct)
  case (2 covered p ps)
  show ?case
  proof (cases "ns_start p > covered")
    case True
    with "2.prems" show ?thesis by simp
  next
    case False
    let ?c = "if ns_start p + span_count p > covered then ns_start p + span_count p else covered"
    show ?thesis
    proof (cases "?c \<le> j")
      case True
      from "2.IH"[OF False True] "2.prems" False show ?thesis by auto
    next
      case le: False
      then have "j < ns_start p + span_count p" using "2.prems"(1) by (auto split: if_splits)
      with span_end_covers[of p covered j] False "2.prems"(1) show ?thesis by auto
    qed
  qed
qed simp

lemma check_invoker_None:
  "check_invoker i ps = None \<Longrightarrow> \<exists>p. find (\<lambda>p. span_maps p (ucast i)) ps = Some p \<and> host_start p + (ucast i - ns_start p) = ucast i"
  by (induction ps) (auto simp: Let_def split: if_splits)

lemma verify_mapping_text_None:
  assumes "verify_mapping_text text i = None"
  shows "j < 65536 \<Longrightarrow> \<exists>p \<in> set (mapping_spans text). span_maps p j"
    and "\<exists>p. find (\<lambda>p. span_maps p (ucast i)) (mapping_spans text) = Some p \<and>
      host_start p + (ucast i - ns_start p) = ucast i"
proof -
  from assms have c: "\<not> walk_spans 0 (mapping_spans text) < 65536" "check_invoker i (mapping_spans text) = None"
    by (auto simp: verify_mapping_text_def Let_def split: if_splits)
  from check_invoker_None[OF c(2)]
  show "\<exists>p. find (\<lambda>p. span_maps p (ucast i)) (mapping_spans text) = Some p \<and> host_start p + (ucast i - ns_start p) = ucast i" .
  assume "j < 65536"
  with c(1) have "j < walk_spans 0 (mapping_spans text)" by simp
  from walk_spans_covers[OF _ this] show "\<exists>p \<in> set (mapping_spans text). span_maps p j" by simp
qed

section \<open>Properties\<close>

text \<open>C25: a namespace is handed out only if the kernel's own maps send every ID below 65536 somewhere,
  user and group alike, and the invoking user and group to themselves - whatever the spans, wrapping
  64-bit sums included.\<close>

theorem namespace_fully_mapped:
  assumes "new_namespace w uid gid = Inr cmd"
  shows "\<exists>ut gt. nsw_uid_map w = Some ut \<and> nsw_gid_map w = Some gt \<and>
    (\<forall>(text, i) \<in> {(ut, uid), (gt, gid)}.
      (\<forall>j < 65536. \<exists>p \<in> set (mapping_spans text). span_maps p j) \<and>
      (\<exists>p. find (\<lambda>p. span_maps p (ucast i)) (mapping_spans text) = Some p \<and>
        host_start p + (ucast i - ns_start p) = ucast i))"
proof -
  from assms have "verify_mapping (nsw_uid_map w) (nsw_gid_map w) uid gid = None"
    by (auto simp: new_namespace_def split: sum.splits if_splits option.splits)
  then obtain ut gt where m: "nsw_uid_map w = Some ut" "nsw_gid_map w = Some gt"
      "verify_mapping_text ut uid = None" "verify_mapping_text gt gid = None"
    by (auto simp: verify_mapping_def split: option.splits)
  show ?thesis
    by (intro exI[of _ ut] exI[of _ gt] conjI m)
      (use verify_mapping_text_None[OF m(3)] verify_mapping_text_None[OF m(4)] in simp)
qed

definition example_map :: string where
  "example_map = ''0 165536 1000'' @ [newline] @ ''  1000 1000 1'' @ [newline] @ ''1001 166536 64535'' @ [newline]"

definition example_world :: namespace_world where
  "example_world = \<lparr>nsw_sub_ids = Inr (\<lparr>sub_start = 165536, sub_count = 65536\<rparr>, \<lparr>sub_start = 165536, sub_count = 65536\<rparr>),
     nsw_started = True, nsw_stdout = Some (FileData (''ready'' @ [newline]) False), nsw_stderr = [],
     nsw_opened = True, nsw_uid_map = Some example_map, nsw_gid_map = Some example_map\<rparr>"

lemma example_verified: "verify_mapping_text example_map 1000 = None"
  by code_simp

lemma example_ready: "wait_ready (nsw_stdout example_world) = Ready"
  by code_simp

theorem namespace_fully_mapped_witness:
  "\<exists>ut gt. nsw_uid_map example_world = Some ut \<and> nsw_gid_map example_world = Some gt \<and>
    (\<forall>(text, i) \<in> {(ut, 1000), (gt, 1000)}.
      (\<forall>j < 65536. \<exists>p \<in> set (mapping_spans text). span_maps p j) \<and>
      (\<exists>p. find (\<lambda>p. span_maps p (ucast (i :: 32 word))) (mapping_spans text) = Some p \<and>
        host_start p + (ucast i - ns_start p) = ucast i))"
proof (rule namespace_fully_mapped)
  show "new_namespace example_world 1000 1000 = Inr (unshare_binary # unshare_args 1000 1000
      \<lparr>sub_start = 165536, sub_count = 65536\<rparr> \<lparr>sub_start = 165536, sub_count = 65536\<rparr>)"
    using example_ready example_verified
    by (simp add: new_namespace_def verify_mapping_def example_world_def)
qed

end
