(* ===== verification/Contain_Scope.thy ===== *)
theory Contain_Scope
  imports Sandbox_Args Userns_Map Safe_Primitives
begin

text \<open>
  internal/contain/scope.go: the transient systemd unit around a contained command. The unit name,
  the path of the namespace and what happens while the unit runs are arguments; what is started and
  what is returned are computed as the code does.
\<close>

section \<open>The resource envelope\<close>

record limits =
  memory_bytes :: int
  cpu_count :: int
  tasks_max :: int
  timeout_seconds :: int
  file_size_bytes :: int
  output_bytes :: int

definition limits_validate :: "limits \<Rightarrow> bool" where
  "limits_validate l = (\<not> (memory_bytes l \<le> 0 \<or> cpu_count l \<le> 0 \<or> tasks_max l \<le> 0 \<or>
     timeout_seconds l \<le> 0 \<or> file_size_bytes l \<le> 0 \<or> output_bytes l \<le> 0))"

definition scope_args :: "string \<Rightarrow> limits \<Rightarrow> string list" where
  "scope_args unit l =
     (let properties =
        [''MemoryMax='' @ show_int (memory_bytes l), ''MemorySwapMax=0'',
         ''TasksMax='' @ show_int (tasks_max l),
         ''CPUQuota='' @ show_int (wrap64 (cpu_count l * 100)) @ ''%'',
         ''RuntimeMaxSec='' @ show_int (timeout_seconds l),
         ''LimitFSIZE='' @ show_int (file_size_bytes l),
         ''KillMode=control-group'', ''SendSIGKILL=yes'', ''TimeoutStopSec=5s''] in
      [''--user'', ''--wait'', ''--collect'', ''--pipe'', ''--quiet'', ''--service-type=exec'', ''--same-dir'',
       ''--unit'', unit] @
      concat (map (\<lambda>property. [''--property'', property]) properties))"

section \<open>Joining the namespace\<close>

definition namespace_runner_marker :: string where
  "namespace_runner_marker = ''--prolewatch-userns''"

definition joining_script :: string where
  "joining_script = ''exec 3<\"$1\" || exit 71; shift; exec /usr/bin/bwrap \"$@\"''"

datatype scope_error = ScopeNoNamespace | NonPositiveLimits | NoUserManager | NoUnitName | InvalidLauncher
  | UnitNotStarted | OutputOverflow | ContextDone | UnitTimedOut | CommandFailed | CleanupUnconfirmed scope_error

definition namespace_joining_command :: "string list \<Rightarrow> scope_error + (string \<times> string list)" where
  "namespace_joining_command args =
     (if args = [] \<or> hd args \<noteq> namespace_runner_marker then Inr (''/usr/bin/bwrap'', args)
      else if length args < 3 \<or> \<not> has_prefix (args ! 1) ''/proc/'' then Inl InvalidLauncher
      else Inr (''/bin/sh'', [''-c'', joining_script, ''prolewatch-userns'', args ! 1] @ drop 2 args))"

definition namespace_path :: "nat \<Rightarrow> string" where
  "namespace_path pid = ''/proc/'' @ show_nat pid @ ''/ns/user''"

text \<open>UserManagerAvailable: the two variables and the answers of the two systemctl calls.\<close>

definition user_manager_available :: "string \<Rightarrow> string \<Rightarrow> bool \<Rightarrow> bool \<Rightarrow> bool" where
  "user_manager_available runtime_dir bus is_running has_version =
     (if runtime_dir = [] \<and> bus = [] then False else is_running \<or> has_version)"

section \<open>Running under the envelope\<close>

text \<open>Everything RunLimited does before it starts the unit: the argument vector of systemd-run.\<close>

definition run_limited_command ::
  "nat option \<Rightarrow> spec \<Rightarrow> limits \<Rightarrow> bool \<Rightarrow> string option \<Rightarrow> scope_error + string list" where
  "run_limited_command ns s l manager unit = (case ns of
      None \<Rightarrow> Inl ScopeNoNamespace
    | Some pid \<Rightarrow>
        if \<not> limits_validate l then Inl NonPositiveLimits
        else if \<not> manager then Inl NoUserManager
        else (case unit of
            None \<Rightarrow> Inl NoUnitName
          | Some u \<Rightarrow>
              (case namespace_joining_command ([namespace_runner_marker, namespace_path pid] @ bwrap_args s 3) of
                 Inl e \<Rightarrow> Inl e
               | Inr (executable, sandbox_args) \<Rightarrow> Inr (scope_args u l @ executable # sandbox_args))))"

text \<open>
  overflowWriter: the buffer keeps the accepted chunks, the first refused chunk is reported once,
  and the copier is told that every chunk was written.
\<close>

record overflow_writer =
  ow_buffer :: limited_buffer
  ow_failed :: bool
  ow_reports :: nat

definition overflow_write :: "bytes \<Rightarrow> overflow_writer \<Rightarrow> nat \<times> overflow_writer" where
  "overflow_write v w = (case limited_write v (ow_buffer w) of (ok, b) \<Rightarrow>
     (length v,
      if \<not> ok \<and> \<not> ow_failed w then w\<lparr>ow_buffer := b, ow_failed := True, ow_reports := Suc (ow_reports w)\<rparr>
      else w\<lparr>ow_buffer := b\<rparr>))"

definition new_overflow_writer :: "int \<Rightarrow> overflow_writer" where
  "new_overflow_writer l = \<lparr>ow_buffer = new_limited_buffer l, ow_failed = False, ow_reports = 0\<rparr>"

text \<open>AwaitScopeExit: when the client of systemd-run returned, if it did.\<close>

datatype client_exit = WithinBudget | AfterKill | NeverReturned

definition await_scope_exit :: "client_exit \<Rightarrow> bool" where
  "await_scope_exit c = (case c of WithinBudget \<Rightarrow> True | AfterKill \<Rightarrow> True | NeverReturned \<Rightarrow> False)"

text \<open>What ends the wait: the client, an overflow, the context, or the outer timer.\<close>

datatype unit_event = ClientDone bool | Overflow | CtxDone | TimerFired

datatype unit_action = KillUnit

text \<open>The result: captured output if any, and the error. Every branch kills the unit.\<close>

definition run_limited_finish ::
  "bytes \<times> bytes \<Rightarrow> client_exit \<Rightarrow> scope_error \<Rightarrow> (bytes \<times> bytes) option \<times> scope_error option" where
  "run_limited_finish captured client cause =
     (if \<not> await_scope_exit client then (None, Some (CleanupUnconfirmed cause)) else (Some captured, Some cause))"

definition run_limited_wait ::
  "bytes \<times> bytes \<Rightarrow> client_exit \<Rightarrow> unit_event \<Rightarrow> unit_action list \<times> (bytes \<times> bytes) option \<times> scope_error option" where
  "run_limited_wait captured client ev = ([KillUnit], case ev of
      ClientDone ok \<Rightarrow> (Some captured, if ok then None else Some CommandFailed)
    | Overflow \<Rightarrow> run_limited_finish captured client OutputOverflow
    | CtxDone \<Rightarrow> run_limited_finish captured client ContextDone
    | TimerFired \<Rightarrow> run_limited_finish captured client UnitTimedOut)"

text \<open>
  One run: the chunks each stream wrote before the wait ended; an overflow ends it by itself.
\<close>

fun overflow_writes :: "bytes list \<Rightarrow> overflow_writer \<Rightarrow> overflow_writer" where
  "overflow_writes [] w = w"
| "overflow_writes (v # vs) w = overflow_writes vs (snd (overflow_write v w))"

definition run_limited ::
  "nat option \<Rightarrow> spec \<Rightarrow> limits \<Rightarrow> bool \<Rightarrow> string option \<Rightarrow> bool \<Rightarrow> bytes list \<Rightarrow> bytes list \<Rightarrow> client_exit \<Rightarrow> unit_event \<Rightarrow>
     string list option \<times> unit_action list \<times> (bytes \<times> bytes) option \<times> scope_error option" where
  "run_limited ns s l manager unit started outs errs client ev =
     (case run_limited_command ns s l manager unit of
        Inl e \<Rightarrow> (None, [], None, Some e)
      | Inr command \<Rightarrow>
          if \<not> started then (None, [], None, Some UnitNotStarted)
          else
            let out = overflow_writes outs (new_overflow_writer (output_bytes l));
                err = overflow_writes errs (new_overflow_writer (output_bytes l)) in
            (Some command, run_limited_wait (buffer (ow_buffer out), buffer (ow_buffer err)) client ev))"

section \<open>Lemmas\<close>

lemma overflow_writes_limit:
  "buf_limit (ow_buffer (overflow_writes vs w)) = buf_limit (ow_buffer w)"
  by (induction vs w rule: overflow_writes.induct)
    (auto simp: overflow_write_def limited_write_def Let_def split: prod.split)

lemma overflow_writes_bound:
  "int (length (buffer (ow_buffer w))) \<le> buf_limit (ow_buffer w) \<Longrightarrow>
     int (length (buffer (ow_buffer (overflow_writes vs w)))) \<le> buf_limit (ow_buffer w)"
proof (induction vs arbitrary: w)
  case (Cons v vs)
  have "int (length (buffer (ow_buffer (snd (overflow_write v w))))) \<le> buf_limit (ow_buffer w)"
    "buf_limit (ow_buffer (snd (overflow_write v w))) = buf_limit (ow_buffer w)"
    using Cons.prems by (auto simp: overflow_write_def limited_write_def)
  with Cons.IH[of "snd (overflow_write v w)"] show ?case by simp
qed simp

text \<open>The report channel has room for one report of each stream: no writer ever waits on it.\<close>

lemma overflow_reports_once:
  "ow_reports w = (if ow_failed w then 1 else 0) \<Longrightarrow> ow_reports (overflow_writes vs w) \<le> 1"
proof (induction vs arbitrary: w)
  case (Cons v vs)
  have "ow_reports (snd (overflow_write v w)) = (if ow_failed (snd (overflow_write v w)) then 1 else 0)"
    using Cons.prems by (auto simp: overflow_write_def limited_write_def)
  with Cons.IH show ?case by simp
qed auto

lemma namespace_joining_marker:
  "namespace_joining_command ([namespace_runner_marker, namespace_path pid] @ bwrap_args s 3) =
     Inr (''/bin/sh'', [''-c'', joining_script, ''prolewatch-userns'', namespace_path pid] @ bwrap_args s 3)"
proof -
  have "bwrap_args s 3 \<noteq> []" by (simp add: bwrap_args_def Let_def)
  then have "\<not> length ([namespace_runner_marker, namespace_path pid] @ bwrap_args s 3) < 3"
    by (cases "bwrap_args s 3") auto
  then show ?thesis by (simp add: namespace_joining_command_def namespace_path_def has_prefix_def)
qed

section \<open>Properties\<close>


definition example_limits :: limits where
  "example_limits = \<lparr>memory_bytes = 1024, cpu_count = 2, tasks_max = 64, timeout_seconds = 60,
     file_size_bytes = 4096, output_bytes = 3\<rparr>"

lemma example_buffers:
  "buffer (ow_buffer (overflow_writes [[1, 2], [3], [4]] (new_overflow_writer (output_bytes example_limits)))) = [1, 2, 3]"
  "buffer (ow_buffer (overflow_writes [] (new_overflow_writer (output_bytes example_limits)))) = []"
  by code_simp+

lemma example_run:
  "run_limited (Some 7) example_spec example_limits True (Some ''unit'') True [[1, 2], [3], [4]] [] WithinBudget Overflow =
     (Some (scope_args ''unit'' example_limits @
        [''/bin/sh'', ''-c'', joining_script, ''prolewatch-userns'', namespace_path 7] @ bwrap_args example_spec 3),
      [KillUnit], Some ([1, 2, 3], []), Some OutputOverflow)"
proof -
  have l: "limits_validate example_limits" by code_simp
  show ?thesis
    by (simp only: run_limited_def run_limited_command_def option.case l simp_thms if_False if_True
        namespace_joining_marker sum.case prod.case example_buffers Let_def
        run_limited_wait_def run_limited_finish_def await_scope_exit_def unit_event.case client_exit.case)
      simp
qed


end
