(* ===== verification/Resource.thy ===== *)
theory Resource
  imports Contain_Scope "HOL-Library.Signed_Division"
begin

text \<open>
  internal/audit/resource.go: the limits applied to a build and recorded in its report, the
  narrower limits of a recipe evaluation, the accounting of the workspace, the transcript of the
  output in observed order, and the contained run of a build command. The kernel's answers
  (physical memory, directory walks, statfs, how a run ends) are arguments.
\<close>

section \<open>Recorded limits\<close>

record build_config =
  bc_memory_bytes :: int
  bc_cpu_count :: int
  bc_tasks_max :: int
  bc_timeout_seconds :: int
  bc_workspace_bytes :: int
  bc_workspace_files :: int
  bc_output_bytes :: int
  bc_disk_reserve_bytes :: int

record sandbox_enforcement =
  se_memory_bytes :: int
  se_cpu_count :: int
  se_tasks_max :: int
  se_timeout_seconds :: int
  se_workspace_bytes :: int
  se_workspace_files :: int
  se_output_bytes :: int
  se_network_policy :: string
  se_termination :: string

definition enforcement_limits :: "sandbox_enforcement \<Rightarrow> limits" where
  "enforcement_limits s = \<lparr>memory_bytes = se_memory_bytes s, cpu_count = se_cpu_count s, tasks_max = se_tasks_max s,
     timeout_seconds = se_timeout_seconds s, file_size_bytes = se_workspace_bytes s, output_bytes = se_output_bytes s\<rparr>"

definition terminations :: "string list" where
  "terminations = [[], ''sandbox-setup'', ''workspace-accounting'', ''systemd-start'', ''process-exit'', ''output-limit'',
     ''workspace-limit'', ''timeout'', ''cancelled'', ''network-broker'', ''network-request-limit'']"

definition enforcement_validate :: "sandbox_enforcement \<Rightarrow> bool" where
  "enforcement_validate s =
     (\<not> (se_memory_bytes s \<le> 0 \<or> se_cpu_count s \<le> 0 \<or> se_tasks_max s \<le> 0 \<or> se_timeout_seconds s \<le> 0 \<or>
         se_workspace_bytes s \<le> 0 \<or> se_workspace_files s \<le> 0 \<or> se_output_bytes s \<le> 0) \<and>
      \<not> (se_network_policy s \<noteq> ''isolated'' \<and> se_network_policy s \<noteq> ''public-web-broker'') \<and>
      se_termination s \<in> set terminations)"

text \<open>What the machine has: memory blocks and their unit, if the call succeeds, and processors.\<close>

record machine =
  total_ram :: "(int \<times> int) option"
  num_cpu :: int

definition effective_build_limits :: "machine \<Rightarrow> build_config \<Rightarrow> sandbox_enforcement" where
  "effective_build_limits m cfg =
     (let memory = (case total_ram m of
            None \<Rightarrow> bc_memory_bytes cfg
          | Some (blocks, unit) \<Rightarrow>
              let total = wrap64 (blocks * unit); cap = wrap64 (total * 8) sdiv 10 in
              if cap > 0 \<and> bc_memory_bytes cfg > cap then cap else bc_memory_bytes cfg);
          cpus = min (bc_cpu_count cfg) (num_cpu m);
          cpus = (if cpus < 1 then 1 else cpus)
      in \<lparr>se_memory_bytes = memory, se_cpu_count = cpus, se_tasks_max = bc_tasks_max cfg,
          se_timeout_seconds = bc_timeout_seconds cfg, se_workspace_bytes = bc_workspace_bytes cfg,
          se_workspace_files = bc_workspace_files cfg, se_output_bytes = bc_output_bytes cfg,
          se_network_policy = ''isolated'', se_termination = []\<rparr>)"

definition freeze_max_memory_bytes :: int where "freeze_max_memory_bytes = 2147483648"
definition freeze_max_cpu_count :: int where "freeze_max_cpu_count = 2"
definition freeze_max_tasks :: int where "freeze_max_tasks = 128"
definition freeze_max_timeout_seconds :: int where "freeze_max_timeout_seconds = 60"
definition freeze_max_file_bytes :: int where "freeze_max_file_bytes = 67108864"
definition freeze_max_output_bytes :: int where "freeze_max_output_bytes = 4194304"
definition freeze_min_memory_bytes :: int where "freeze_min_memory_bytes = 536870912"
definition freeze_min_cpu_count :: int where "freeze_min_cpu_count = 1"
definition freeze_min_tasks :: int where "freeze_min_tasks = 64"

definition or_floor :: "int \<Rightarrow> int \<Rightarrow> int" where
  "or_floor v floor = (if v \<le> 0 then floor else v)"

definition freeze_limits :: "machine \<Rightarrow> build_config \<Rightarrow> limits" where
  "freeze_limits m cfg =
     (let build = effective_build_limits m cfg in
      \<lparr>memory_bytes = or_floor (min (se_memory_bytes build) freeze_max_memory_bytes) freeze_min_memory_bytes,
       cpu_count = or_floor (min (se_cpu_count build) freeze_max_cpu_count) freeze_min_cpu_count,
       tasks_max = or_floor (min (se_tasks_max build) freeze_max_tasks) freeze_min_tasks,
       timeout_seconds = or_floor (min (se_timeout_seconds build) freeze_max_timeout_seconds) freeze_max_timeout_seconds,
       file_size_bytes = or_floor (min (se_workspace_bytes build) freeze_max_file_bytes) freeze_max_file_bytes,
       output_bytes = or_floor (min (se_output_bytes build) freeze_max_output_bytes) freeze_max_output_bytes\<rparr>)"

lemmas freeze_constants = freeze_max_memory_bytes_def freeze_max_cpu_count_def freeze_max_tasks_def
  freeze_max_timeout_seconds_def freeze_max_file_bytes_def freeze_max_output_bytes_def
  freeze_min_memory_bytes_def freeze_min_cpu_count_def freeze_min_tasks_def

section \<open>Accounting of the workspace\<close>

text \<open>An error met on the walk, classified as the code does.\<close>

datatype walk_errno = NotExist | Stale | OtherErrno

definition transient_workspace_accounting_error :: "string \<Rightarrow> string \<Rightarrow> walk_errno \<Rightarrow> bool" where
  "transient_workspace_accounting_error root current e =
     (if path_clean current = path_clean root then False else e = NotExist \<or> e = Stale)"

text \<open>
  What the walk delivers for a path: an error with whether the path is the locked directory of
  makepkg, or an entry; a regular file has a size unless it cannot be examined.
\<close>

datatype walk_entry =
    WalkError walk_errno bool
  | RegularEntry "walk_errno + int"
  | OtherEntry

datatype accounting = Accounted | TreeChanging | AccountingError | FileLimit | ByteLimit | ReserveViolated | Unstable

fun account_walk :: "string \<Rightarrow> build_config \<Rightarrow> (string \<times> walk_entry) list \<Rightarrow> int \<Rightarrow> int \<Rightarrow> accounting" where
  "account_walk root cfg [] files bytes = Accounted"
| "account_walk root cfg ((current, e) # es) files bytes =
     (case e of
        WalkError err locked \<Rightarrow>
          if locked then account_walk root cfg es files bytes
          else if transient_workspace_accounting_error root current err then TreeChanging else AccountingError
      | _ \<Rightarrow>
          if current = root then account_walk root cfg es files bytes
          else if files + 1 > bc_workspace_files cfg then FileLimit
          else (case e of
              RegularEntry (Inl err) \<Rightarrow>
                if transient_workspace_accounting_error root current err then TreeChanging else AccountingError
            | RegularEntry (Inr sz) \<Rightarrow>
                if sz < 0 \<or> bytes > wrap64 (bc_workspace_bytes cfg - sz) then ByteLimit
                else account_walk root cfg es (files + 1) (wrap64 (bytes + sz))
            | _ \<Rightarrow> account_walk root cfg es (files + 1) bytes))"

text \<open>The filesystem: blocks, available blocks and block size, if the call succeeds.\<close>

definition reconcile_once ::
  "string \<Rightarrow> build_config \<Rightarrow> (string \<times> walk_entry) list \<Rightarrow> (int \<times> int \<times> int) option \<Rightarrow> accounting" where
  "reconcile_once root cfg walk fs =
     (case account_walk root cfg walk 0 0 of
        Accounted \<Rightarrow>
          (case fs of
             None \<Rightarrow> AccountingError
           | Some (blocks, bavail, bsize) \<Rightarrow>
               let total = wrap64 (blocks * bsize); available = wrap64 (bavail * bsize);
                   reserve = max (bc_disk_reserve_bytes cfg) (total sdiv 10) in
               if available < reserve then ReserveViolated else Accounted)
      | e \<Rightarrow> e)"

text \<open>The retry loop: each attempt with whether the deadline has passed after it.\<close>

fun reconcile :: "(accounting \<times> bool) list \<Rightarrow> accounting option" where
  "reconcile [] = None"
| "reconcile ((r, late) # rs) =
     (if r \<noteq> TreeChanging then Some r else if late then Some Unstable else reconcile rs)"

section \<open>Output in observed order\<close>

record transcript =
  tr_buffer :: bytes
  tr_limit :: int
  tr_dropped :: bool

definition new_output_transcript :: "int \<Rightarrow> transcript" where
  "new_output_transcript limit = \<lparr>tr_buffer = [], tr_limit = (if limit \<le> 0 then 0 else limit), tr_dropped = False\<rparr>"

definition take_last :: "nat \<Rightarrow> 'a list \<Rightarrow> 'a list" where
  "take_last n xs = drop (length xs - n) xs"

definition transcript_observe :: "bytes \<Rightarrow> transcript \<Rightarrow> transcript" where
  "transcript_observe v t =
     (if v = [] \<or> tr_limit t \<le> 0 then t
      else if int (length v) \<ge> tr_limit t then
        t\<lparr>tr_buffer := take_last (nat (tr_limit t)) v, tr_dropped := True\<rparr>
      else
        let b = tr_buffer t @ v in
        if int (length b) \<le> tr_limit t then t\<lparr>tr_buffer := b\<rparr>
        else t\<lparr>tr_buffer := (if int (length b) \<ge> 2 * tr_limit t then take_last (nat (tr_limit t)) b else b),
               tr_dropped := True\<rparr>)"

definition transcript_bytes :: "transcript \<Rightarrow> bytes \<times> bool" where
  "transcript_bytes t =
     (if tr_limit t > 0 \<and> int (length (tr_buffer t)) > tr_limit t
      then (take_last (nat (tr_limit t)) (tr_buffer t), tr_dropped t) else (tr_buffer t, tr_dropped t))"

section \<open>The contained run of a build command\<close>

text \<open>
  notifyingBuffer: the first refused chunk is reported, an accepted one is shown to the observer.
\<close>

record notifying_buffer =
  nb_buffer :: limited_buffer
  nb_failed :: bool
  nb_seen :: "bytes list"

definition notifying_write :: "bytes \<Rightarrow> notifying_buffer \<Rightarrow> bool \<times> notifying_buffer" where
  "notifying_write v w = (case limited_write v (nb_buffer w) of (ok, b) \<Rightarrow>
     (ok, if \<not> ok then w\<lparr>nb_buffer := b, nb_failed := True\<rparr>
          else if v \<noteq> [] then w\<lparr>nb_buffer := b, nb_seen := nb_seen w @ [v]\<rparr> else w\<lparr>nb_buffer := b\<rparr>))"

definition notifying_writes :: "int \<Rightarrow> bytes list \<Rightarrow> notifying_buffer" where
  "notifying_writes l vs = foldl (\<lambda>w v. snd (notifying_write v w))
     \<lparr>nb_buffer = new_limited_buffer l, nb_failed = False, nb_seen = []\<rparr> vs"

datatype build_event = BuildDone bool | BuildOverflow | BuildMonitor accounting | BuildTimer | BuildCancelled

datatype build_error = MonitorFailed accounting | NoBuildUnit | BuildLauncher scope_error | BuildNotStarted
  | BuildExit | BuildOutput | BuildTimedOut | BuildContext | BuildCleanup build_error

definition build_termination :: "build_event \<Rightarrow> string" where
  "build_termination ev = (case ev of
      BuildDone ok \<Rightarrow> if ok then [] else ''process-exit''
    | BuildOverflow \<Rightarrow> ''output-limit''
    | BuildMonitor a \<Rightarrow> if a = ByteLimit \<or> a = FileLimit \<or> a = ReserveViolated then ''workspace-limit'' else ''workspace-accounting''
    | BuildTimer \<Rightarrow> ''timeout''
    | BuildCancelled \<Rightarrow> ''cancelled'')"

definition build_cause :: "build_event \<Rightarrow> build_error option" where
  "build_cause ev = (case ev of
      BuildDone ok \<Rightarrow> if ok then None else Some BuildExit
    | BuildOverflow \<Rightarrow> Some BuildOutput
    | BuildMonitor a \<Rightarrow> Some (MonitorFailed a)
    | BuildTimer \<Rightarrow> Some BuildTimedOut
    | BuildCancelled \<Rightarrow> Some BuildContext)"

text \<open>The result of the wait: the client itself returned, or the unit is killed and waited for.\<close>

definition build_wait ::
  "bytes \<times> bytes \<Rightarrow> client_exit \<Rightarrow> build_event \<Rightarrow> sandbox_enforcement \<Rightarrow>
     (bytes \<times> bytes) option \<times> sandbox_enforcement \<times> build_error option" where
  "build_wait captured client ev effective =
     (let effective = effective\<lparr>se_termination := build_termination ev\<rparr> in
      case ev of
        BuildDone ok \<Rightarrow> (Some captured, effective, build_cause ev)
      | _ \<Rightarrow> if \<not> await_scope_exit client then (None, effective, map_option BuildCleanup (build_cause ev))
             else (Some captured, effective, build_cause ev))"

text \<open>
  runConstrainedCommand: \<open>monitor\<close> is the outcome of starting the workspace monitor, \<open>started\<close> that
  of starting systemd-run. The first component is the command that was started.
\<close>

definition run_constrained_command ::
  "machine \<Rightarrow> build_config \<Rightarrow> string list \<Rightarrow> accounting \<Rightarrow> string option \<Rightarrow> bool \<Rightarrow> bytes list \<Rightarrow> bytes list \<Rightarrow>
     client_exit \<Rightarrow> build_event \<Rightarrow>
     string list option \<times> unit_action list \<times> (bytes \<times> bytes) option \<times> sandbox_enforcement \<times> build_error option" where
  "run_constrained_command m cfg bwrap monitor unit started outs errs client ev =
     (let effective = effective_build_limits m cfg in
      if monitor \<noteq> Accounted then (None, [], None, effective\<lparr>se_termination := ''workspace-accounting''\<rparr>, Some (MonitorFailed monitor))
      else (case unit of
          None \<Rightarrow> (None, [], None, effective, Some NoBuildUnit)
        | Some u \<Rightarrow>
            (case namespace_joining_command bwrap of
               Inl e \<Rightarrow> (None, [], None, effective\<lparr>se_termination := ''sandbox-setup''\<rparr>, Some (BuildLauncher e))
             | Inr (executable, sandbox_args) \<Rightarrow>
                 if \<not> started then (None, [], None, effective\<lparr>se_termination := ''systemd-start''\<rparr>, Some BuildNotStarted)
                 else
                   let captured = (buffer (nb_buffer (notifying_writes (se_output_bytes effective) outs)),
                                   buffer (nb_buffer (notifying_writes (se_output_bytes effective) errs)))
                   in (Some (scope_args u (enforcement_limits effective) @ executable # sandbox_args), [KillUnit],
                       build_wait captured client ev effective))))"

section \<open>Lemmas\<close>

lemma take_last_append: "take_last n (xs @ ys) = take_last n (take_last n xs @ ys)"
proof (cases "length xs \<le> n")
  case False
  then have "length xs + length ys - n = length xs - n + length ys" "length xs + length ys - n - length xs = length ys - n"
    "length (drop (length xs - n) xs) = n" by auto
  then show ?thesis by (simp add: take_last_def add.commute)
qed (simp add: take_last_def)

lemma take_last_all [simp]: "length xs \<le> n \<Longrightarrow> take_last n xs = xs"
  by (simp add: take_last_def)

lemma length_take_last [simp]: "length (take_last n xs) = min n (length xs)"
  by (auto simp: take_last_def)

lemma take_last_idem [simp]: "take_last n (take_last n xs) = take_last n xs"
  by simp

lemma take_last_long: "n \<le> length ys \<Longrightarrow> take_last n (xs @ ys) = take_last n ys"
  by (simp add: take_last_def)

text \<open>The window kept is the last bytes of all that was observed.\<close>

definition window_of :: "int \<Rightarrow> bytes \<Rightarrow> transcript \<Rightarrow> bool" where
  "window_of l seen t \<longleftrightarrow> tr_limit t = l \<and> take_last (nat l) (tr_buffer t) = take_last (nat l) seen \<and>
     length (tr_buffer t) \<le> length seen \<and> (tr_dropped t \<or> tr_buffer t = seen \<and> int (length seen) \<le> l) \<and>
     (tr_dropped t \<longrightarrow> l \<le> int (length seen))"

lemma window_observe:
  assumes "0 < l" "window_of l seen t"
  shows "window_of l (seen @ v) (transcript_observe v t)"
proof -
  have w: "tr_limit t = l" "take_last (nat l) (tr_buffer t) = take_last (nat l) seen" "length (tr_buffer t) \<le> length seen"
    "tr_dropped t \<or> tr_buffer t = seen \<and> int (length seen) \<le> l" "tr_dropped t \<Longrightarrow> l \<le> int (length seen)"
    using assms(2) by (auto simp: window_of_def)
  have app: "take_last (nat l) (tr_buffer t @ v) = take_last (nat l) (seen @ v)"
    using w(2) take_last_append[of "nat l" "tr_buffer t" v] take_last_append[of "nat l" seen v] by simp
  show ?thesis
  proof (cases "v = [] \<or> l \<le> int (length v)")
    case True
    then show ?thesis using w assms(1)
      by (auto simp: window_of_def transcript_observe_def take_last_long nat_le_iff)
  next
    case False
    then show ?thesis using w app assms(1)
      by (auto simp: window_of_def transcript_observe_def Let_def)
  qed
qed

lemma window_observes:
  assumes "0 < l" shows "window_of l seen t \<Longrightarrow> window_of l (seen @ concat vs) (foldl (\<lambda>t v. transcript_observe v t) t vs)"
  using assms window_observe by (induction vs arbitrary: seen t) (simp, fastforce simp flip: append_assoc)

section \<open>Properties\<close>

text \<open>However the two streams are chunked, the transcript ends up as exactly the last bytes of
  the observed output, as many as the limit allows; nothing is missing from it unless it says
  so, and it says so only when the limit was reached.\<close>

lemma transcript_window:
  assumes "0 < l"
  shows "case transcript_bytes (foldl (\<lambda>t v. transcript_observe v t) (new_output_transcript l) vs) of (kept, dropped) \<Rightarrow>
    kept = take_last (nat l) (concat vs) \<and> (\<not> dropped \<longrightarrow> kept = concat vs) \<and> (dropped \<longrightarrow> l \<le> int (length (concat vs)))"
proof -
  have "window_of l [] (new_output_transcript l)"
    using assms by (simp add: window_of_def new_output_transcript_def)
  from window_observes[OF assms this, of vs]
  have "window_of l (concat vs) (foldl (\<lambda>t v. transcript_observe v t) (new_output_transcript l) vs)" by simp
  with assms show ?thesis by (auto simp: window_of_def transcript_bytes_def split: prod.split)
qed

lemma or_floor_bounds: "0 < fl \<Longrightarrow> 0 < or_floor v fl" "0 < v \<Longrightarrow> or_floor v fl = v"
  by (simp_all add: or_floor_def)

text \<open>Every limit of a recipe evaluation is positive whatever the configuration says, so the
  envelope is accepted; and where the limits of the build are usable, none of these exceeds its
  counterpart.\<close>

lemma freeze_limits_narrow:
  assumes "enforcement_validate (effective_build_limits m cfg)"
  shows "limits_validate (freeze_limits m cfg') \<and>
    memory_bytes (freeze_limits m cfg) \<le> se_memory_bytes (effective_build_limits m cfg) \<and>
    cpu_count (freeze_limits m cfg) \<le> se_cpu_count (effective_build_limits m cfg) \<and>
    tasks_max (freeze_limits m cfg) \<le> se_tasks_max (effective_build_limits m cfg) \<and>
    timeout_seconds (freeze_limits m cfg) \<le> se_timeout_seconds (effective_build_limits m cfg) \<and>
    file_size_bytes (freeze_limits m cfg) \<le> se_workspace_bytes (effective_build_limits m cfg) \<and>
    output_bytes (freeze_limits m cfg) \<le> se_output_bytes (effective_build_limits m cfg)"
proof -
  have v: "limits_validate (freeze_limits m cfg')"
    using or_floor_bounds(1) by (simp add: limits_validate_def freeze_limits_def Let_def freeze_constants not_le)
  have "0 < se_memory_bytes (effective_build_limits m cfg)" "0 < se_cpu_count (effective_build_limits m cfg)"
    "0 < se_tasks_max (effective_build_limits m cfg)" "0 < se_timeout_seconds (effective_build_limits m cfg)"
    "0 < se_workspace_bytes (effective_build_limits m cfg)" "0 < se_output_bytes (effective_build_limits m cfg)"
    using assms by (simp_all add: enforcement_validate_def)
  then show ?thesis using v
    by (simp add: freeze_limits_def Let_def or_floor_bounds(2) freeze_constants)
qed

definition example_machine :: machine where
  "example_machine = \<lparr>total_ram = Some (16777216, 1024), num_cpu = 8\<rparr>"

definition example_build :: build_config where
  "example_build = \<lparr>bc_memory_bytes = 8589934592, bc_cpu_count = 4, bc_tasks_max = 512, bc_timeout_seconds = 7200,
     bc_workspace_bytes = 17179869184, bc_workspace_files = 500000, bc_output_bytes = 33554432,
     bc_disk_reserve_bytes = 2147483648\<rparr>"

lemma example_effective: "enforcement_validate (effective_build_limits example_machine example_build)"
  by code_simp

lemma notifying_bound:
  "0 \<le> l \<Longrightarrow> int (length (buffer (nb_buffer (notifying_writes l vs)))) \<le> l"
proof -
  assume l: "0 \<le> l"
  have "buf_limit (nb_buffer w) = l \<Longrightarrow> int (length (buffer (nb_buffer w))) \<le> l \<Longrightarrow>
      int (length (buffer (nb_buffer (foldl (\<lambda>w v. snd (notifying_write v w)) w vs)))) \<le> l" for w
  proof (induction vs arbitrary: w)
    case (Cons v vs)
    then show ?case by (auto simp: notifying_write_def limited_write_def)
  qed simp
  from this[of "\<lparr>nb_buffer = new_limited_buffer l, nb_failed = False, nb_seen = []\<rparr>"] l
  show ?thesis by (simp add: notifying_writes_def new_limited_buffer_def)
qed


lemma example_constrained:
  "\<exists>captured record err. run_constrained_command example_machine example_build [''--unshare-all''] Accounted (Some ''u'') True [[1]] []
     WithinBudget BuildTimer =
   (Some (scope_args ''u'' (enforcement_limits (effective_build_limits example_machine example_build)) @ [''/usr/bin/bwrap'', ''--unshare-all'']),
    [KillUnit], captured, record, err)"
  by (simp add: run_constrained_command_def Let_def namespace_joining_command_def namespace_runner_marker_def build_wait_def await_scope_exit_def)


text \<open>A walk that ends well stayed within the configured files and bytes.\<close>

fun walk_sizes :: "string \<Rightarrow> (string \<times> walk_entry) list \<Rightarrow> int list" where
  "walk_sizes root [] = []"
| "walk_sizes root ((current, e) # es) =
     (case e of RegularEntry (Inr sz) \<Rightarrow> if current = root then walk_sizes root es else sz # walk_sizes root es
      | _ \<Rightarrow> walk_sizes root es)"

lemma account_walk_bytes:
  assumes "account_walk root cfg es files bytes = Accounted" "0 \<le> bytes" "bytes \<le> bc_workspace_bytes cfg"
    "in_int64 (bc_workspace_bytes cfg)" "list_all in_int64 (walk_sizes root es)"
  shows "bytes + sum_list (walk_sizes root es) \<le> bc_workspace_bytes cfg"
  using assms
proof (induction es arbitrary: files bytes)
  case (Cons x es)
  obtain current e where x: "x = (current, e)" by (cases x)
  show ?case
  proof (cases "\<exists>sz. e = RegularEntry (Inr sz) \<and> current \<noteq> root")
    case True
    then obtain sz where e: "e = RegularEntry (Inr sz)" "current \<noteq> root" by blast
    with Cons.prems x have s: "0 \<le> sz" "in_int64 sz" "bytes \<le> wrap64 (bc_workspace_bytes cfg - sz)"
      "account_walk root cfg es (files + 1) (wrap64 (bytes + sz)) = Accounted" "list_all in_int64 (walk_sizes root es)"
      by (auto split: if_splits)
    then have "wrap64 (bc_workspace_bytes cfg - sz) = bc_workspace_bytes cfg - sz"
      using Cons.prems by (intro wrap64_id) (auto simp: in_int64_def)
    with s have b: "bytes + sz \<le> bc_workspace_bytes cfg" by simp
    then have w: "wrap64 (bytes + sz) = bytes + sz" using s Cons.prems by (intro wrap64_id) (auto simp: in_int64_def)
    from Cons.IH[OF s(4)] b w s Cons.prems e x show ?thesis by simp
  next
    case False
    then show ?thesis using Cons.prems x Cons.IH by (auto split: walk_entry.splits sum.splits if_splits)
  qed
qed simp

end
