(* ===== verification/Go_Time.thy ===== *)
theory Go_Time
  imports Go_Utf8
begin

text \<open>
  time.Parse with the layout RFC3339Nano, as far as the reports use it: whether a string is
  accepted. The hour may have one digit and the fraction may follow a comma, as in the library.
\<close>

definition dec :: "char \<Rightarrow> nat option" where
  "dec c = (if CHR ''0'' \<le> c \<and> c \<le> CHR ''9'' then Some (of_char c - 48) else None)"

text \<open>A number of two digits, or of one if that is allowed.\<close>

definition getnum :: "string \<Rightarrow> bool \<Rightarrow> (nat \<times> string) option" where
  "getnum s fixed = (case s of
      [] \<Rightarrow> None
    | a # r \<Rightarrow> (case dec a of
        None \<Rightarrow> None
      | Some x \<Rightarrow> (case (case r of [] \<Rightarrow> None | b # r' \<Rightarrow> map_option (\<lambda>y. (y, r')) (dec b)) of
          Some (y, r') \<Rightarrow> Some (x * 10 + y, r')
        | None \<Rightarrow> if fixed then None else Some (x, r))))"

definition get_year :: "string \<Rightarrow> (nat \<times> string) option" where
  "get_year s = (case getnum s True of
      None \<Rightarrow> None
    | Some (a, r) \<Rightarrow> map_option (\<lambda>(b, r'). (a * 100 + b, r')) (getnum r True))"

definition literal :: "char \<Rightarrow> string \<Rightarrow> string option" where
  "literal c s = (case s of [] \<Rightarrow> None | x # r \<Rightarrow> if x = c then Some r else None)"

definition leap_year :: "nat \<Rightarrow> bool" where
  "leap_year y = (y mod 4 = 0 \<and> (y mod 100 \<noteq> 0 \<or> y mod 400 = 0))"

definition days_in :: "nat \<Rightarrow> nat \<Rightarrow> nat" where
  "days_in m y = (if m = 2 then if leap_year y then 29 else 28 else if m \<in> {4, 6, 9, 11} then 30 else 31)"

definition skip_fraction :: "string \<Rightarrow> string" where
  "skip_fraction s = (case s of
      c # d # r \<Rightarrow> if (c = CHR ''.'' \<or> c = CHR '','') \<and> dec d \<noteq> None then dropWhile (\<lambda>x. dec x \<noteq> None) (d # r) else s
    | _ \<Rightarrow> s)"

definition valid_zone :: "string \<Rightarrow> bool" where
  "valid_zone s =
     (if s = ''Z'' then True
      else if length s \<noteq> 6 \<or> s ! 3 \<noteq> CHR '':'' then False
      else (case (getnum (take 2 (tl s)) True, getnum (drop 4 s) True) of
          (Some (h, _), Some (m, _)) \<Rightarrow> h \<le> 24 \<and> m \<le> 60 \<and> (hd s = CHR ''+'' \<or> hd s = CHR ''-'')
        | _ \<Rightarrow> False))"

text \<open>A field followed by its separator.\<close>

definition field_then :: "(nat \<times> string) option \<Rightarrow> char \<Rightarrow> (nat \<times> string) option" where
  "field_then p c = (case p of None \<Rightarrow> None | Some (n, r) \<Rightarrow> map_option (Pair n) (literal c r))"

definition valid_rfc3339 :: "string \<Rightarrow> bool" where
  "valid_rfc3339 s =
     (case field_then (get_year s) CHR ''-'' of None \<Rightarrow> False | Some (y, s1) \<Rightarrow>
      (case field_then (getnum s1 True) CHR ''-'' of None \<Rightarrow> False | Some (m, s2) \<Rightarrow>
       (case field_then (getnum s2 True) CHR ''T'' of None \<Rightarrow> False | Some (d, s3) \<Rightarrow>
        (case field_then (getnum s3 False) CHR '':'' of None \<Rightarrow> False | Some (h, s4) \<Rightarrow>
         (case field_then (getnum s4 True) CHR '':'' of None \<Rightarrow> False | Some (mi, s5) \<Rightarrow>
          (case getnum s5 True of None \<Rightarrow> False | Some (sec, s6) \<Rightarrow>
            1 \<le> m \<and> m \<le> 12 \<and> h < 24 \<and> mi < 60 \<and> sec < 60 \<and> 1 \<le> d \<and> d \<le> days_in m y \<and>
            valid_zone (skip_fraction s6)))))))"

lemma rfc3339_examples:
  "valid_rfc3339 ''2026-02-28T23:59:59.123456789Z'' \<and> valid_rfc3339 ''2024-02-29T1:00:00,5+02:00'' \<and>
   \<not> valid_rfc3339 ''2026-02-29T00:00:00Z'' \<and> \<not> valid_rfc3339 ''2026-02-28 00:00:00Z''"
  by code_simp

end
