(* ===== verification/Reports.thy ===== *)
theory Reports
  imports Source_Records Resource Surfaces Request_Host Go_Time
begin

text \<open>
  internal/audit/reports.go: the report of one phase and its validation, which every report passes
  before it is stored and after it is loaded. The digest \<open>sha\<close> and the case folding \<open>uf\<close> of the
  JSON decoder are parameters.
\<close>

section \<open>Versions and identities\<close>

definition application_version :: string where "application_version = ''0.12.4''"
definition report_schema_version :: int where "report_schema_version = 16"
definition marker_schema_version :: int where "marker_schema_version = 8"
definition approval_schema_version :: int where "approval_schema_version = 7"
definition scanner_version :: int where "scanner_version = 8"
definition rules_version :: int where "rules_version = 13"

record process_identity =
  pid :: int
  start_time :: string
  boot_id :: string
  uid :: int

record tool_identity =
  tool_path :: string
  tool_version :: string
  tool_sha256 :: string

definition hex_lower :: "char \<Rightarrow> bool" where
  "hex_lower c = (is_digit c \<or> (CHR ''a'' \<le> c \<and> c \<le> CHR ''f''))"

text \<open>The regular expression of a report ID: date, time, twelve and eight hexadecimal digits.\<close>

definition report_id_match :: "string \<Rightarrow> bool" where
  "report_id_match s =
     (length s = 38 \<and> list_all is_digit (take 8 s) \<and> s ! 8 = CHR ''T'' \<and> list_all is_digit (take 6 (drop 9 s)) \<and>
      s ! 15 = CHR ''Z'' \<and> s ! 16 = CHR ''-'' \<and> list_all hex_lower (take 12 (drop 17 s)) \<and> s ! 29 = CHR ''-'' \<and>
      list_all hex_lower (drop 30 s))"

text \<open>validHexDigest trims the digits away; the check of the safe package compares each byte.\<close>

definition trimmed_hex_digest :: "string \<Rightarrow> bool" where
  "trimmed_hex_digest v = (length v = 64 \<and> trim_both (set ''0123456789abcdef'') v = [])"

lemma trim_both_empty: "trim_both A v = [] \<longleftrightarrow> list_all (\<lambda>c. c \<in> A) v"
proof
  let ?d = "dropWhile (\<lambda>c. c \<in> A) v"
  assume "trim_both A v = []"
  then have "rev (dropWhile (\<lambda>c. c \<in> A) (rev ?d)) = []" unfolding trim_both_def trim_left_def trim_right_def .
  then have all: "\<forall>c \<in> set ?d. c \<in> A" by (simp only: rev_is_Nil_conv dropWhile_eq_Nil_conv set_rev)
  have "?d = []"
  proof (rule ccontr)
    assume "?d \<noteq> []"
    then show False using all hd_in_set[of ?d] hd_dropWhile[of "\<lambda>c. c \<in> A" v] by blast
  qed
  then show "list_all (\<lambda>c. c \<in> A) v" by (simp only: dropWhile_eq_Nil_conv list_all_iff)
next
  assume "list_all (\<lambda>c. c \<in> A) v"
  then have "dropWhile (\<lambda>c. c \<in> A) v = []" by (simp only: dropWhile_eq_Nil_conv list_all_iff)
  then show "trim_both A v = []" by (simp only: trim_both_def trim_left_def trim_right_def rev.simps dropWhile.simps)
qed

lemma hex_char_range:
  "(c \<in> set ''0123456789abcdef'') = (\<not> ((c < CHR ''0'' \<or> c > CHR ''9'') \<and> (c < CHR ''a'' \<or> c > CHR ''f'')))"
proof -
  have "list_all (\<lambda>c. (c \<in> set ''0123456789abcdef'') =
    (\<not> ((c < CHR ''0'' \<or> c > CHR ''9'') \<and> (c < CHR ''a'' \<or> c > CHR ''f'')))) (map char_of [0..<256 :: nat])" by code_simp
  moreover have "c \<in> set (map char_of [0..<256 :: nat])"
    by (simp only: set_map set_upt UNIV_char_of_nat[symmetric] UNIV_I)
  ultimately show ?thesis by (simp only: list_all_iff)
qed

lemma trimmed_hex_digest_eq [simp]: "trimmed_hex_digest v = valid_hex_digest v"
  by (simp only: trimmed_hex_digest_def valid_hex_digest_def trim_both_empty hex_char_range)

section \<open>The parts of a report\<close>

record reviewer_report =
  rr_mode :: string
  rr_phases :: "string list"
  rr_minimum_confidence :: string
  rr_provider :: string
  rr_transport :: string
  rr_runtime_version :: string
  rr_model :: string
  rr_model_digest :: string
  rr_context_tokens :: int
  rr_thinking :: bool
  rr_effort :: string
  rr_adapter_policy :: string
  rr_error :: string
  rr_trigger :: string
  rr_skipped :: string
  rr_verdicts :: "verdict list"

record stripped_surfaces =
  ss_package :: string
  ss_members :: "string list"
  ss_sha256 :: string

record carried_binding =
  cb_finding_id :: string
  cb_path :: string
  cb_entry_hash :: string

record carried_decision =
  cd_source_report :: string
  cd_source_phase :: string
  cd_source_content :: string
  cd_findings :: "carried_binding list"

record report =
  r_schema_version :: int
  r_report_id :: string
  r_created_at :: string
  r_transaction :: process_identity
  r_package_base :: string
  r_phase :: string
  r_decision :: string
  r_disposition :: string
  r_summary :: string
  r_content_hash :: string
  r_policy_fingerprint :: string
  r_scanner_version :: int
  r_rules_version :: int
  r_application_version :: string
  r_reviewer :: reviewer_report
  r_coverage :: coverage
  r_exclusions :: "string list"
  r_manifest :: "json_object list option"
  r_review_root :: string
  r_findings :: "finding list"
  r_overridden :: bool
  r_approval_eligible :: bool
  r_network_eligible :: bool
  r_carried :: "carried_decision option"
  r_artifact_bindings :: "(string \<times> string) list"
  r_acquired_hosts :: "string list"
  r_stripped :: "stripped_surfaces list"
  r_archive_probe :: tool_identity
  r_sandbox_runs :: "sandbox_enforcement list"
  r_yay_context :: yay_context
  r_manifest_diff :: "manifest_change list"
  r_sources :: "source_provenance list"
  r_verification :: source_verification

section \<open>Vocabularies\<close>

definition mode_ai :: string where "mode_ai = ''ai''"
definition mode_deterministic :: string where "mode_deterministic = ''deterministic-only''"
definition review_trigger_on_demand :: string where "review_trigger_on_demand = ''on-demand''"

definition valid_confidence :: "string \<Rightarrow> bool" where
  "valid_confidence v = (v = ''low'' \<or> v = ''medium'' \<or> v = ''high'')"

definition valid_effort :: "string \<Rightarrow> bool" where
  "valid_effort v = (v \<in> set [''none'', ''low'', ''medium'', ''high'', ''xhigh'', ''max''])"

definition valid_ollama_reasoning :: "string \<Rightarrow> bool" where
  "valid_ollama_reasoning v = (v \<in> set [''auto'', ''off'', ''low'', ''medium'', ''high''])"

definition valid_ollama_effective_reasoning :: "string \<Rightarrow> bool" where
  "valid_ollama_effective_reasoning v = (v \<in> set [''on'', ''off'', ''low'', ''medium'', ''high''])"

definition validate_reported_review_phases :: "string list \<Rightarrow> bool" where
  "validate_reported_review_phases ps =
     (\<not> (length ps = 0 \<or> length ps > 3) \<and>
      list_all (\<lambda>p. p = ''recipe'' \<or> p = ''sources'' \<or> p = ''artifact'') ps \<and> distinct ps)"

section \<open>What no approval may cross\<close>

definition structural_ids :: "string list" where
  "structural_ids = [''special-file'', ''symlink-escape'', ''source-reference-escape'', ''binary-header-invalid'', ''archive-depth-limit'']"

definition structural_finding :: "finding \<Rightarrow> bool" where
  "structural_finding f =
     (f_hard_block f \<or> f_category f = ''archive_escape'' \<or>
      (f_hard_block f \<and> (f_category f = ''credential_access'' \<or> f_category f = ''process_injection'' \<or> f_category f = ''persistence'')) \<or>
      f_rule_id f \<in> set structural_ids \<or> has_prefix (f_rationale f) ''TOCTOU'')"

text \<open>The findings and coverage of an inventory; \<open>None\<close> is the missing inventory.\<close>

definition structural_block :: "(finding list \<times> coverage) option \<Rightarrow> bool" where
  "structural_block scan = (case scan of
     None \<Rightarrow> True | Some (fs, c) \<Rightarrow> \<not> cov_complete c \<or> list_ex structural_finding fs)"

definition report_has_prompt_injection :: "report \<Rightarrow> bool" where
  "report_has_prompt_injection r = verdicts_have_prompt_injection (rr_verdicts (r_reviewer r))"

section \<open>Validation\<close>

definition id_carries :: "string \<Rightarrow> string \<Rightarrow> bool" where
  "id_carries report_id content = str_contains report_id (''-'' @ take 12 content @ ''-'')"

text \<open>The head of a report: its identity, decision and provenance.\<close>

definition report_head_valid :: "report \<Rightarrow> bool" where
  "report_head_valid r =
     (\<not> (r_schema_version r \<noteq> report_schema_version \<or> \<not> report_id_match (r_report_id r)) \<and>
      valid_rfc3339 (r_created_at r) \<and> validate_package_base (r_package_base r) \<and>
      \<not> ((r_phase r \<noteq> ''pre'' \<and> r_phase r \<noteq> ''post'' \<and> r_phase r \<noteq> ''artifact'') \<or>
         (r_decision r \<noteq> ''allow'' \<and> r_decision r \<noteq> ''block'') \<or>
         (r_disposition r \<noteq> ''allow'' \<and> r_disposition r \<noteq> ''block'' \<and> r_disposition r \<noteq> ''override'') \<or>
         r_summary r = [] \<or> length (r_summary r) > 8192) \<and>
      \<not> (\<not> trimmed_hex_digest (r_policy_fingerprint r) \<or> \<not> trimmed_hex_digest (r_content_hash r) \<or>
         \<not> id_carries (r_report_id r) (r_content_hash r)) \<and>
      \<not> (r_scanner_version r \<noteq> scanner_version \<or> r_rules_version r \<noteq> rules_version \<or>
         r_application_version r \<noteq> application_version \<or> pid (r_transaction r) \<le> 0 \<or>
         start_time (r_transaction r) = [] \<or> boot_id (r_transaction r) = []))"

text \<open>The reviewer section: the two modes have disjoint shapes.\<close>

definition cli_reviewer :: "reviewer_report \<Rightarrow> bool" where
  "cli_reviewer v = (rr_transport v = ''cli'' \<and> (rr_provider v = ''codex'' \<or> rr_provider v = ''anthropic'') \<and>
     rr_model_digest v = [] \<and> rr_context_tokens v = 0 \<and> \<not> rr_thinking v \<and> valid_effort (rr_effort v))"

definition ollama_reviewer :: "reviewer_report \<Rightarrow> bool" where
  "ollama_reviewer v = (rr_transport v = ''http-loopback'' \<and> rr_provider v = ''ollama'' \<and>
     trimmed_hex_digest (rr_model_digest v) \<and> rr_context_tokens v \<ge> 16384 \<and>
     (valid_ollama_effective_reasoning (rr_effort v) \<or> rr_effort v = ''none''))"

definition ollama_unavailable :: "reviewer_report \<Rightarrow> bool" where
  "ollama_unavailable v = (rr_transport v = ''http-loopback'' \<and> rr_provider v = ''ollama'' \<and>
     rr_runtime_version v = ''unavailable'' \<and> rr_model_digest v = [] \<and> rr_context_tokens v \<ge> 16384 \<and> \<not> rr_thinking v \<and>
     (rr_effort v = ''none'' \<or> valid_ollama_reasoning (rr_effort v)) \<and> rr_adapter_policy v = ''unavailable'' \<and> rr_error v \<noteq> [])"

definition reviewer_valid :: "reviewer_report \<Rightarrow> bool" where
  "reviewer_valid v =
     (if rr_mode v = mode_ai then
        validate_reported_review_phases (rr_phases v) \<and> valid_confidence (rr_minimum_confidence v) \<and>
        \<not> ((\<not> cli_reviewer v \<and> \<not> ollama_reviewer v \<and> \<not> ollama_unavailable v) \<or> rr_runtime_version v = [] \<or>
           rr_model v = [] \<or> rr_adapter_policy v = [] \<or> length (rr_error v) > 8192) \<and>
        \<not> (rr_trigger v \<noteq> [] \<and> rr_trigger v \<noteq> review_trigger_on_demand)
      else if rr_mode v = mode_deterministic then
        \<not> (length (rr_phases v) \<noteq> 0 \<or> rr_minimum_confidence v \<noteq> [] \<or> rr_provider v \<noteq> [] \<or> rr_transport v \<noteq> [] \<or>
           rr_runtime_version v \<noteq> [] \<or> rr_model v \<noteq> [] \<or> rr_model_digest v \<noteq> [] \<or> rr_context_tokens v \<noteq> 0 \<or>
           rr_thinking v \<or> rr_effort v \<noteq> [] \<or> rr_adapter_policy v \<noteq> [] \<or> rr_error v \<noteq> [] \<or> rr_trigger v \<noteq> [] \<or>
           length (rr_verdicts v) \<noteq> 0)
      else False)"

definition stripped_valid :: "stripped_surfaces \<Rightarrow> bool" where
  "stripped_valid s = (\<not> (ss_package s = [] \<or> ss_members s = [] \<or> \<not> valid_hex_digest (ss_sha256 s)) \<and>
     list_all (\<lambda>m. classify_surface m \<noteq> None) (ss_members s))"

definition report_counts_valid :: "report \<Rightarrow> bool" where
  "report_counts_valid r =
     (\<not> (length (slice (r_manifest r)) > 200000 \<or> length (r_findings r) > 100000 \<or> length (r_exclusions r) > 100000 \<or>
         length (r_artifact_bindings r) > 10000 \<or> length (r_sandbox_runs r) > 32 \<or> length (r_sources r) > 10000 \<or>
         (case r_carried r of None \<Rightarrow> False | Some c \<Rightarrow> length (cd_findings c) > 100000)))"

text \<open>The evidence sections, up to the archive probe.\<close>

definition evidence_valid :: "report \<Rightarrow> bool" where
  "evidence_valid r =
     (list_all verdict_validate (rr_verdicts (r_reviewer r)) \<and> validate_coverage (r_coverage r) \<and>
      \<not> (r_review_root r \<noteq> [] \<and> (\<not> path_rooted (r_review_root r) \<or> length (r_review_root r) > 8192 \<or>
         CHR 0x00 \<in> set (r_review_root r))) \<and>
      list_all stripped_valid (r_stripped r) \<and> \<not> length (r_acquired_hosts r) > 1000 \<and>
      list_all valid_request_host (r_acquired_hosts r) \<and> report_counts_valid r \<and>
      list_all source_provenance_validate (r_sources r) \<and> source_verification_validate (r_verification r) \<and>
      \<not> (tool_path (r_archive_probe r) \<noteq> ''/usr/bin/bsdtar'' \<or> tool_version (r_archive_probe r) = [] \<or>
         \<not> trimmed_hex_digest (tool_sha256 (r_archive_probe r))))"

text \<open>The manifest: every record valid, every path once; the digest of each record by path.\<close>

definition manifest_entry_hash :: "(string \<Rightarrow> string) \<Rightarrow> json_object \<Rightarrow> string" where
  "manifest_entry_hash sha record = sha (show_json (JObj record))"

fun manifest_index ::
  "(string \<Rightarrow> string \<Rightarrow> bool) \<Rightarrow> (string \<Rightarrow> string) \<Rightarrow> json_object list \<Rightarrow> (string \<rightharpoonup> string) \<Rightarrow> (string \<rightharpoonup> string) option" where
  "manifest_index uf sha [] seen = Some seen"
| "manifest_index uf sha (m # ms) seen = (case validate_manifest_record uf m of
     None \<Rightarrow> None
   | Some d \<Rightarrow> if seen (fr_path d) \<noteq> None then None
       else manifest_index uf sha ms (seen(fr_path d \<mapsto> manifest_entry_hash sha m)))"

definition manifest_json :: "json_object list option \<Rightarrow> json" where
  "manifest_json m = (case m of None \<Rightarrow> JNull | Some rs \<Rightarrow> JArr (map JObj rs))"

text \<open>Deterministic findings by their identity; a later one replaces an earlier one of the same identity.\<close>

definition deterministic_findings :: "(string \<Rightarrow> string) \<Rightarrow> finding list \<Rightarrow> (string \<rightharpoonup> finding)" where
  "deterministic_findings sha fs =
     map_of (rev (map (\<lambda>f. (finding_guidance_id sha f, f)) (filter (\<lambda>f. f_source f = ''deterministic'') fs)))"

definition binding_valid :: "(string \<rightharpoonup> finding) \<Rightarrow> (string \<rightharpoonup> string) \<Rightarrow> carried_binding \<Rightarrow> bool" where
  "binding_valid det entries b = (case det (cb_finding_id b) of
     None \<Rightarrow> False
   | Some f \<Rightarrow> \<not> (cb_path b \<noteq> f_file f \<or> f_hard_block f \<or> f_category f = ''coverage'' \<or>
       \<not> trimmed_hex_digest (cb_entry_hash b) \<or> entries (cb_path b) \<noteq> Some (cb_entry_hash b)))"

definition carried_valid_in :: "report \<Rightarrow> (string \<rightharpoonup> finding) \<Rightarrow> (string \<rightharpoonup> string) \<Rightarrow> carried_decision \<Rightarrow> bool" where
  "carried_valid_in r det entries c =
     (\<not> (r_phase r \<noteq> ''post'' \<or> r_overridden r \<or> cd_source_phase c \<noteq> ''pre'' \<or> \<not> report_id_match (cd_source_report c) \<or>
         \<not> trimmed_hex_digest (cd_source_content c) \<or> \<not> id_carries (cd_source_report c) (cd_source_content c) \<or>
         cd_findings c = []) \<and>
      list_all (binding_valid det entries) (cd_findings c) \<and> distinct (map cb_finding_id (cd_findings c)))"

definition bindings_valid :: "(string \<Rightarrow> string) \<Rightarrow> report \<Rightarrow> (string \<rightharpoonup> string) \<Rightarrow> bool" where
  "bindings_valid sha r entries =
     (let det = deterministic_findings sha (r_findings r) in
      list_all finding_validate (r_findings r) \<and>
      (case r_carried r of None \<Rightarrow> True | Some c \<Rightarrow> carried_valid_in r det entries c) \<and>
      list_all (\<lambda>v. list_all (\<lambda>g. det (g_finding_id g) \<noteq> None) (slice (v_guidance v))) (rr_verdicts (r_reviewer r)))"

definition advisory_valid :: "report \<Rightarrow> bool" where
  "advisory_valid r =
     (list_all (\<lambda>e. e \<noteq> [] \<and> length e \<le> 4096) (r_exclusions r) \<and>
      list_all (\<lambda>(p, h). \<not> (p = [] \<or> length p > 8192 \<or> \<not> path_rooted p \<or> \<not> trimmed_hex_digest h)) (r_artifact_bindings r) \<and>
      list_all enforcement_validate (r_sandbox_runs r) \<and> yay_context_validate (r_yay_context r) \<and>
      length (r_manifest_diff r) \<le> 400000 \<and> list_all manifest_change_validate (r_manifest_diff r))"

text \<open>The eligibility fields, recomputed from the evidence.\<close>

definition eligibility_valid :: "report \<Rightarrow> bool" where
  "eligibility_valid r =
     (\<not> (r_approval_eligible r \<and> (r_content_hash r = [] \<or> structural_block (Some (r_findings r, r_coverage r)) \<or>
         report_has_prompt_injection r)) \<and>
      \<not> (r_approval_eligible r \<and> r_decision r \<noteq> ''block'') \<and>
      r_overridden r = (r_disposition r = ''override'') \<and>
      r_network_eligible r = (r_decision r = ''allow'' \<and> r_phase r = ''post'' \<and> r_content_hash r \<noteq> []))"

definition report_validate :: "(string \<Rightarrow> string \<Rightarrow> bool) \<Rightarrow> (string \<Rightarrow> string) \<Rightarrow> report \<Rightarrow> bool" where
  "report_validate uf sha r =
     (report_head_valid r \<and> reviewer_valid (r_reviewer r) \<and> evidence_valid r \<and>
      (case manifest_index uf sha (slice (r_manifest r)) Map.empty of
         None \<Rightarrow> False
       | Some entries \<Rightarrow> sha (show_json (manifest_json (r_manifest r))) = r_content_hash r \<and>
           bindings_valid sha r entries \<and> advisory_valid r \<and> eligibility_valid r))"

section \<open>A report\<close>

text \<open>A digest of constant value stands for SHA-256 in the examples.\<close>

definition example_digest :: string where "example_digest = replicate 64 CHR ''a''"

definition example_coverage :: coverage where
  "example_coverage = \<lparr>files_seen = 1, bytes_seen = 7, text_files = 1, text_bytes = 7, selected_files = 1, selected_bytes = 7,
     review_eligible_files = 1, review_eligible_bytes = 7, omitted_review_files = 0, omitted_review_bytes = 0,
     binary_files = 0, binary_bytes = 0, archives_seen = 0, archive_entries = 0, archive_unpacked_bytes = 0,
     cov_complete = True, cov_notes = []\<rparr>"

definition example_finding :: finding where
  "example_finding = \<lparr>f_source = ''deterministic'', f_severity = ''high'', f_category = ''remote_execution'', f_file = ''PKGBUILD'',
     f_line = Some 3, f_evidence = ''curl | sh'', f_rationale = ''remote content is run'', f_rule_id = ''shell-remote-pipeline'',
     f_hard_block = False\<rparr>"

definition deterministic_reviewer :: reviewer_report where
  "deterministic_reviewer = \<lparr>rr_mode = mode_deterministic, rr_phases = [], rr_minimum_confidence = [], rr_provider = [],
     rr_transport = [], rr_runtime_version = [], rr_model = [], rr_model_digest = [], rr_context_tokens = 0, rr_thinking = False,
     rr_effort = [], rr_adapter_policy = [], rr_error = [], rr_trigger = [], rr_skipped = [], rr_verdicts = []\<rparr>"

definition example_yay_context :: yay_context where
  "example_yay_context = \<lparr>yay_version = ''13.0.1'', yay_last_modified = 0, yay_installed = False, yay_packages = [], yay_depends = [],
     yay_make_depends = [], yay_check_depends = []\<rparr>"

definition example_report :: report where
  "example_report =
     \<lparr>r_schema_version = report_schema_version, r_report_id = ''20260101T000000Z-aaaaaaaaaaaa-00000001'',
      r_created_at = ''2026-01-01T00:00:00Z'', r_transaction = \<lparr>pid = 7, start_time = ''1'', boot_id = ''b'', uid = 1000\<rparr>,
      r_package_base = ''demo'', r_phase = ''pre'', r_decision = ''block'', r_disposition = ''block'', r_summary = ''1 finding'',
      r_content_hash = example_digest, r_policy_fingerprint = example_digest, r_scanner_version = scanner_version,
      r_rules_version = rules_version, r_application_version = application_version, r_reviewer = deterministic_reviewer,
      r_coverage = example_coverage, r_exclusions = [], r_manifest = Some [manifest_value (example_record example_digest 420)],
      r_review_root = [], r_findings = [example_finding], r_overridden = False, r_approval_eligible = True,
      r_network_eligible = False, r_carried = None, r_artifact_bindings = [], r_acquired_hosts = [], r_stripped = [],
      r_archive_probe = \<lparr>tool_path = ''/usr/bin/bsdtar'', tool_version = ''3.8'', tool_sha256 = example_digest\<rparr>,
      r_sandbox_runs = [], r_yay_context = example_yay_context, r_manifest_diff = [], r_sources = [],
      r_verification = \<lparr>sv_checksums = ''unknown'', sv_pgp = ''unknown''\<rparr>\<rparr>"

lemma example_storable: "storable (example_record example_digest 420)"
proof -
  have "valid_utf8 ''PKGBUILD'' \<and> valid_utf8 ''UEtHQlVJTEQ='' \<and> valid_utf8 ''file'' \<and> valid_utf8 example_digest \<and>
      valid_utf8 [] \<and> valid_utf8 ''mandatory''"
    by (intro conjI valid_utf8_ascii) code_simp+
  moreover have "valid_file_record (example_record example_digest 420)" by code_simp
  ultimately show ?thesis by (simp add: storable_def example_record_def in_int64_def)
qed

lemma example_index:
  "manifest_index uf (\<lambda>_. example_digest) (slice (r_manifest example_report)) Map.empty = Some [''PKGBUILD'' \<mapsto> example_digest]"
  using validate_manifest_value[OF example_storable, of uf]
  by (simp add: example_report_def slice_def manifest_entry_hash_def example_record_def)

lemma example_report_valid: "report_validate uf (\<lambda>_. example_digest) example_report"
proof -
  have "report_head_valid example_report" by code_simp
  moreover have "reviewer_valid (r_reviewer example_report)" by code_simp
  moreover have "evidence_valid example_report" by code_simp
  moreover have "r_content_hash example_report = example_digest" by code_simp
  moreover have "bindings_valid (\<lambda>_. example_digest) example_report [''PKGBUILD'' \<mapsto> example_digest]" by code_simp
  moreover have "advisory_valid example_report \<and> eligibility_valid example_report" by code_simp
  ultimately show ?thesis by (simp add: report_validate_def example_index)
qed

end
