(* ===== verification/Report_Store.thy ===== *)
theory Report_Store
  imports Reports "HOL-Library.AList"
begin

text \<open>
  The stores of internal/audit: reports.go (Save, Load, Replace, IDs, LatestFor, Prune) and the
  directory listings of markers and approvals that pruning consults. A directory is an
  association list from names to what is found there. A document is kept as the value written:
  the JSON of a report whose strings are UTF-8 reads back as that report. Whether a process is
  still running, and whether a write reaches the disk, are arguments.
\<close>

section \<open>Directories\<close>

datatype 'a node = SubDir | Junk | Doc 'a

type_synonym 'a dir = "(string \<times> 'a node) list"

record approval_token =
  at_schema_version :: int
  at_kind :: string
  at_created_at :: string
  at_consumed_at :: string
  at_source_report :: string
  at_package_base :: string
  at_phase :: string
  at_content_hash :: string
  at_policy_fingerprint :: string
  at_reason :: string

record marker =
  m_schema_version :: int
  m_root :: string
  m_phase :: string
  m_package_base :: string
  m_report_id :: string
  m_content_hash :: string
  m_policy_fingerprint :: string
  m_decision :: string
  m_disposition :: string
  m_transaction :: process_identity

record audit_fs =
  fs_reports :: "report dir"
  fs_markers :: "marker dir"
  fs_pending :: "approval_token dir"
  fs_used :: "approval_token dir"

definition json_suffix :: string where "json_suffix = ''.json''"

definition contained_build_log_suffix :: string where "contained_build_log_suffix = ''.makepkg-build.log''"

definition report_retention :: nat where "report_retention = 200"

text \<open>os.ReadDir lists names in order; sort.Reverse of a string slice is the descending order.\<close>

definition descending :: "string list \<Rightarrow> string list" where
  "descending xs = rev (sort xs)"

section \<open>Listing and loading\<close>

definition json_names :: "'a dir \<Rightarrow> string list" where
  "json_names d = map (\<lambda>(n, _). trim_suffix n json_suffix)
     (filter (\<lambda>(n, x). (case x of SubDir \<Rightarrow> False | _ \<Rightarrow> True) \<and> has_suffix n json_suffix) d)"

definition report_ids :: "report dir \<Rightarrow> nat \<Rightarrow> string list" where
  "report_ids d limit =
     (let ids = descending (filter report_id_match (json_names d)) in
      if limit > 0 \<and> length ids > limit then take limit ids else ids)"

definition report_load ::
  "(string \<Rightarrow> string \<Rightarrow> bool) \<Rightarrow> (string \<Rightarrow> string) \<Rightarrow> report dir \<Rightarrow> string \<Rightarrow> report option" where
  "report_load uf sha d rid =
     (if \<not> report_id_match rid then None
      else (case map_of d (rid @ json_suffix) of
          Some (Doc r) \<Rightarrow> if r_report_id r \<noteq> rid then None else if report_validate uf sha r then Some r else None
        | _ \<Rightarrow> None))"

definition report_latest_for ::
  "(string \<Rightarrow> string \<Rightarrow> bool) \<Rightarrow> (string \<Rightarrow> string) \<Rightarrow> report dir \<Rightarrow> string \<Rightarrow> string \<Rightarrow> report option" where
  "report_latest_for uf sha d package_base phase =
     (if \<not> validate_package_base package_base then None
      else Option.bind (find (\<lambda>rid. case report_load uf sha d rid of
             None \<Rightarrow> False | Some r \<Rightarrow> r_package_base r = package_base \<and> r_phase r = phase) (descending (json_names d)))
        (report_load uf sha d))"

definition report_latest :: "(string \<Rightarrow> string \<Rightarrow> bool) \<Rightarrow> (string \<Rightarrow> string) \<Rightarrow> report dir \<Rightarrow> report option" where
  "report_latest uf sha d = (case report_ids d 1 of [] \<Rightarrow> None | rid # _ \<Rightarrow> report_load uf sha d rid)"

section \<open>Pruning\<close>

text \<open>The consumed approvals: only names of the form the store writes are ever removed.\<close>

definition used_approval_name :: "string \<times> approval_token node \<Rightarrow> bool" where
  "used_approval_name e = (case e of (n, x) \<Rightarrow>
     let rid = trim_suffix (trim_prefix n ''approval-'') json_suffix in
     (case x of SubDir \<Rightarrow> False | _ \<Rightarrow> True) \<and> n = ''approval-'' @ rid @ json_suffix \<and> report_id_match rid)"

definition prune_used :: "approval_token dir \<Rightarrow> approval_token dir" where
  "prune_used d =
     (let names = descending (map fst (filter used_approval_name d)) in
      foldl (\<lambda>d n. AList.delete n d) d (drop (min (length names) report_retention) names))"

text \<open>
  liveMarkerReports: the reports the markers of running transactions depend on. The markers of
  ended transactions, and unreadable ones, are removed.
\<close>

definition marker_kept :: "(process_identity \<Rightarrow> bool) \<Rightarrow> string \<times> marker node \<Rightarrow> bool" where
  "marker_kept live e = (case e of (n, x) \<Rightarrow>
     if \<not> has_suffix n json_suffix then True
     else (case x of
         SubDir \<Rightarrow> True
       | Junk \<Rightarrow> False
       | Doc m \<Rightarrow> \<not> (m_schema_version m \<noteq> marker_schema_version \<or> \<not> live (m_transaction m))))"

definition live_marker_reports :: "(process_identity \<Rightarrow> bool) \<Rightarrow> marker dir \<Rightarrow> string list \<times> marker dir" where
  "live_marker_reports live d =
     (List.map_filter (\<lambda>e. case e of
          (n, Doc m) \<Rightarrow> if has_suffix n json_suffix \<and> marker_kept live e \<and> report_id_match (m_report_id m)
            then Some (m_report_id m) else None
        | _ \<Rightarrow> None) d,
      filter (marker_kept live) d)"

definition pending_approval_reports :: "approval_token dir \<Rightarrow> string list" where
  "pending_approval_reports d = List.map_filter (\<lambda>(n, _).
     let name = trim_suffix n json_suffix in
     case str_index name ''-'' of
       None \<Rightarrow> None
     | Some i \<Rightarrow> if report_id_match (drop (Suc i) name) then Some (drop (Suc i) name) else None) d"

definition remove_report :: "report dir \<Rightarrow> string \<Rightarrow> report dir" where
  "remove_report d rid = AList.delete (rid @ contained_build_log_suffix) (AList.delete (rid @ json_suffix) d)"

definition report_prune :: "(process_identity \<Rightarrow> bool) \<Rightarrow> audit_fs \<Rightarrow> audit_fs" where
  "report_prune live fs =
     (let fs = fs\<lparr>fs_used := prune_used (fs_used fs)\<rparr>;
          (marked, markers) = live_marker_reports live (fs_markers fs);
          fs = fs\<lparr>fs_markers := markers\<rparr>;
          protected = marked @ pending_approval_reports (fs_pending fs);
          ids = report_ids (fs_reports fs) 0
      in if length ids \<le> report_retention then fs
         else fs\<lparr>fs_reports := foldl (\<lambda>d rid. if rid \<in> set protected then d else remove_report d rid)
                (fs_reports fs) (drop report_retention ids)\<rparr>)"

section \<open>Writing\<close>

datatype store_error = NilReport | InvalidReport | NoPrivateDir | ReportExists | WriteFailed | NoSuchReport | ContentChanged

text \<open>How far a write gets: the directory cannot be made private, the write fails, or it succeeds.\<close>

datatype disk = DirUnsafe | WriteError | DiskOk

definition write_doc :: "disk \<Rightarrow> string \<Rightarrow> 'a \<Rightarrow> 'a dir \<Rightarrow> 'a dir option" where
  "write_doc k name doc d = (if k = DiskOk then Some (AList.update name (Doc doc) d) else None)"

definition report_save ::
  "(string \<Rightarrow> string \<Rightarrow> bool) \<Rightarrow> (string \<Rightarrow> string) \<Rightarrow> (process_identity \<Rightarrow> bool) \<Rightarrow> disk \<Rightarrow> report option \<Rightarrow> audit_fs \<Rightarrow>
     (store_error + unit) \<times> audit_fs" where
  "report_save uf sha live k ro fs =
     (case ro of
        None \<Rightarrow> (Inl NilReport, fs)
      | Some r \<Rightarrow>
          if \<not> report_validate uf sha r then (Inl InvalidReport, fs)
          else if k = DirUnsafe then (Inl NoPrivateDir, fs)
          else if map_of (fs_reports fs) (r_report_id r @ json_suffix) \<noteq> None then (Inl ReportExists, fs)
          else (case write_doc k (r_report_id r @ json_suffix) r (fs_reports fs) of
              None \<Rightarrow> (Inl WriteFailed, fs)
            | Some d \<Rightarrow> (Inr (), report_prune live (fs\<lparr>fs_reports := d\<rparr>))))"

definition report_replace ::
  "(string \<Rightarrow> string \<Rightarrow> bool) \<Rightarrow> (string \<Rightarrow> string) \<Rightarrow> disk \<Rightarrow> report option \<Rightarrow> audit_fs \<Rightarrow> (store_error + unit) \<times> audit_fs" where
  "report_replace uf sha k ro fs =
     (case ro of
        None \<Rightarrow> (Inl NilReport, fs)
      | Some r \<Rightarrow>
          if \<not> report_validate uf sha r then (Inl InvalidReport, fs)
          else (case report_load uf sha (fs_reports fs) (r_report_id r) of
              None \<Rightarrow> (Inl NoSuchReport, fs)
            | Some current \<Rightarrow>
                if r_content_hash current \<noteq> r_content_hash r then (Inl ContentChanged, fs)
                else (case write_doc k (r_report_id r @ json_suffix) r (fs_reports fs) of
                    None \<Rightarrow> (Inl WriteFailed, fs)
                  | Some d \<Rightarrow> (Inr (), fs\<lparr>fs_reports := d\<rparr>))))"

section \<open>Lemmas\<close>

lemma set_descending [simp]: "set (descending xs) = set xs"
  by (simp add: descending_def)

lemma distinct_descending [simp]: "distinct (descending xs) = distinct xs"
  by (simp add: descending_def)

lemma json_names_suffix: "rid \<in> set (json_names d) \<Longrightarrow> \<exists>x. (rid @ json_suffix, x) \<in> set d"
  by (auto simp: json_names_def has_suffix_iff)

lemma distinct_json_names: "distinct (map fst d) \<Longrightarrow> distinct (json_names d)"
proof (induction d)
  case (Cons e d)
  have "trim_suffix (fst e) json_suffix \<notin> set (json_names d)" if "has_suffix (fst e) json_suffix"
  proof
    assume "trim_suffix (fst e) json_suffix \<in> set (json_names d)"
    moreover from that obtain s where "fst e = s @ json_suffix" by (auto simp: has_suffix_iff)
    ultimately have "fst e \<in> fst ` set d" using json_names_suffix[of s d] by force
    with Cons.prems show False by simp
  qed
  with Cons show ?case by (auto simp: json_names_def split: prod.splits)
qed (simp add: json_names_def)

lemma set_AList_delete: "set (AList.delete k d) = {e \<in> set d. fst e \<noteq> k}"
  by (auto simp: AList.delete_eq)

lemma json_names_delete:
  "set (json_names (AList.delete k d)) = {rid \<in> set (json_names d). rid @ json_suffix \<noteq> k}"
  by (auto simp: json_names_def set_AList_delete has_suffix_iff image_iff)

lemma log_name_no_json: "rid @ json_suffix \<noteq> rid' @ contained_build_log_suffix"
proof
  assume "rid @ json_suffix = rid' @ contained_build_log_suffix"
  then have "last (rid @ json_suffix) = last (rid' @ contained_build_log_suffix)" by simp
  then show False by (simp add: json_suffix_def contained_build_log_suffix_def)
qed

lemma remove_report_names: "set (json_names (remove_report d rid)) = set (json_names d) - {rid}"
  using log_name_no_json by (auto simp: remove_report_def json_names_delete)

lemma remove_report_lookup: "rid \<noteq> rid' \<Longrightarrow> map_of (remove_report d rid') (rid @ json_suffix) = map_of d (rid @ json_suffix)"
  using log_name_no_json[of rid rid'] by (simp add: remove_report_def AList.delete_conv)

lemma remove_reports_names:
  "set (json_names (foldl (\<lambda>d rid. if rid \<in> P then d else remove_report d rid) d rids)) = set (json_names d) - (set rids - P)"
  by (induction rids arbitrary: d) (auto simp: remove_report_names)

lemma remove_reports_lookup:
  "rid \<in> P \<or> rid \<notin> set rids \<Longrightarrow>
     map_of (foldl (\<lambda>d rid. if rid \<in> P then d else remove_report d rid) d rids) (rid @ json_suffix) = map_of d (rid @ json_suffix)"
proof (induction rids arbitrary: d)
  case (Cons a rids)
  then have "a \<notin> P \<Longrightarrow> rid \<noteq> a" by auto
  with Cons show ?case by (auto simp: remove_report_lookup)
qed simp

lemma report_ids_all: "report_ids d 0 = descending (filter report_id_match (json_names d))"
  by (simp add: report_ids_def Let_def)

lemma protected_marker:
  assumes "(n, Doc m) \<in> set d" "has_suffix n json_suffix" "m_schema_version m = marker_schema_version"
    "live (m_transaction m)" "report_id_match (m_report_id m)"
  shows "m_report_id m \<in> set (fst (live_marker_reports live d))"
proof -
  have "(\<lambda>e. case e of (n, Doc m) \<Rightarrow> if has_suffix n json_suffix \<and> marker_kept live e \<and> report_id_match (m_report_id m)
      then Some (m_report_id m) else None | _ \<Rightarrow> None) (n, Doc m) = Some (m_report_id m)"
    using assms by (simp add: marker_kept_def)
  then show ?thesis using assms(1) by (simp only: live_marker_reports_def fst_conv map_filter_set) blast
qed

lemma str_index_approval: "str_index (''approval-'' @ s) ''-'' = Some 8"
  by (simp add: numeral_eq_Suc)

lemma protected_pending:
  assumes "(''approval-'' @ rid @ json_suffix, x) \<in> set d" "report_id_match rid"
  shows "rid \<in> set (pending_approval_reports d)"
proof -
  have t: "trim_suffix (''approval-'' @ rid @ json_suffix) json_suffix = ''approval-'' @ rid"
    using trim_suffix_append[of "''approval-'' @ rid" json_suffix] by simp
  have "(\<lambda>(n, _). let name = trim_suffix n json_suffix in case str_index name ''-'' of None \<Rightarrow> None
     | Some i \<Rightarrow> if report_id_match (drop (Suc i) name) then Some (drop (Suc i) name) else None)
     (''approval-'' @ rid @ json_suffix, x) = Some rid"
    using assms(2) by (simp only: Let_def prod.case t str_index_approval option.case) simp
  then show ?thesis using assms(1) by (simp only: pending_approval_reports_def map_filter_set) blast
qed

text \<open>The reports that pruning may not touch.\<close>

definition protected_reports :: "(process_identity \<Rightarrow> bool) \<Rightarrow> audit_fs \<Rightarrow> string set" where
  "protected_reports live fs =
     {rid. report_id_match rid \<and>
       ((\<exists>n m. (n, Doc m) \<in> set (fs_markers fs) \<and> has_suffix n json_suffix \<and> m_report_id m = rid \<and>
           m_schema_version m = marker_schema_version \<and> live (m_transaction m)) \<or>
        (\<exists>x. (''approval-'' @ rid @ json_suffix, x) \<in> set (fs_pending fs)))}"

definition pruning_protects :: "(process_identity \<Rightarrow> bool) \<Rightarrow> audit_fs \<Rightarrow> string set" where
  "pruning_protects live fs =
     set (fst (live_marker_reports live (fs_markers fs)) @ pending_approval_reports (fs_pending fs))"

lemma protected_reports_subset: "protected_reports live fs \<subseteq> pruning_protects live fs"
  using protected_marker protected_pending by (auto simp: protected_reports_def pruning_protects_def)

lemma prune_fields:
  "fs_pending (report_prune live fs) = fs_pending fs" "fs_used (report_prune live fs) = prune_used (fs_used fs)"
  "fs_markers (report_prune live fs) = filter (marker_kept live) (fs_markers fs)"
  by (simp_all add: report_prune_def Let_def live_marker_reports_def)

lemma prune_reports:
  "fs_reports (report_prune live fs) =
     (if length (report_ids (fs_reports fs) 0) \<le> report_retention then fs_reports fs
      else foldl (\<lambda>d rid. if rid \<in> pruning_protects live fs then d else remove_report d rid) (fs_reports fs)
        (drop report_retention (report_ids (fs_reports fs) 0)))"
  by (simp add: report_prune_def Let_def live_marker_reports_def pruning_protects_def)

lemma prune_lookup:
  assumes "rid \<in> pruning_protects live fs \<or> rid \<notin> set (drop report_retention (report_ids (fs_reports fs) 0))"
  shows "report_load uf sha (fs_reports (report_prune live fs)) rid = report_load uf sha (fs_reports fs) rid"
  using assms by (simp add: report_load_def prune_reports remove_reports_lookup)

lemma distinct_ids: "distinct (map fst d) \<Longrightarrow> distinct (report_ids d 0)"
  by (simp add: report_ids_all distinct_json_names)

lemma take_not_drop: "distinct xs \<Longrightarrow> x \<in> set (take n xs) \<Longrightarrow> x \<notin> set (drop n xs)"
  by (metis IntI append_take_drop_id distinct_append empty_iff)

section \<open>Properties\<close>


definition example_fs :: audit_fs where
  "example_fs = \<lparr>fs_reports = [(r_report_id example_report @ json_suffix, Doc example_report)], fs_markers = [],
     fs_pending = [], fs_used = []\<rparr>"

lemma example_load: "report_load uf (\<lambda>_. example_digest) (fs_reports example_fs) (r_report_id example_report) = Some example_report"
proof -
  have "report_id_match (r_report_id example_report)" by code_simp
  then show ?thesis using example_report_valid[of uf] by (simp add: report_load_def example_fs_def)
qed


text \<open>
  The window is by name, and a name begins with the time of the wall clock. If the clock has been
  set back, a report can be beyond the window the moment it is saved: saving succeeds, and the
  report is gone.
\<close>

lemma descending_take:
  assumes "distinct xs" "ys \<subseteq> set xs" "card ys \<ge> n" "\<forall>y \<in> ys. x < (y :: string)"
  shows "x \<notin> set (take n (descending xs))"
proof
  assume "x \<in> set (take n (descending xs))"
  then obtain i where i: "i < n" "i < length (descending xs)" "descending xs ! i = x" by (auto simp: in_set_conv_nth)
  have d: "sorted_wrt (\<lambda>a b. b \<le> a) (descending xs)" by (simp add: descending_def sorted_wrt_rev)
  have "ys \<subseteq> set (take i (descending xs))"
  proof
    fix y assume y: "y \<in> ys"
    then obtain j where j: "j < length (descending xs)" "descending xs ! j = y"
      using assms(2) by (metis in_set_conv_nth set_descending subsetD)
    have "x < y" using assms(4) y by blast
    then have "j < i" using d i j by (metis leD nat_neq_iff order.refl sorted_wrt_nth_less)
    then show "y \<in> set (take i (descending xs))" using j by (auto simp: in_set_conv_nth)
  qed
  then have "card ys \<le> i" using card_mono[of "set (take i (descending xs))" ys] card_length[of "take i (descending xs)"] i by simp
  then show False using assms(3) i(1) by simp
qed

lemma save_may_drop_own_report:
  assumes "report_save uf sha live k (Some r) fs = (Inr (), fs')" "distinct (map fst (fs_reports fs))"
    and "newer \<subseteq> set (report_ids (fs_reports fs) 0)" "card newer \<ge> report_retention" "\<forall>rid \<in> newer. r_report_id r < rid"
    and "r_report_id r \<notin> pruning_protects live fs"
  shows "report_load uf sha (fs_reports fs') (r_report_id r) = None"
proof -
  let ?fs = "fs\<lparr>fs_reports := AList.update (r_report_id r @ json_suffix) (Doc r) (fs_reports fs)\<rparr>"
  let ?d = "AList.update (r_report_id r @ json_suffix) (Doc r) (fs_reports fs)"
  let ?ids = "report_ids ?d 0"
  from assms(1) have v: "report_validate uf sha r" "map_of (fs_reports fs) (r_report_id r @ json_suffix) = None"
    "fs' = report_prune live ?fs"
    by (auto simp: report_save_def write_doc_def split: if_splits)
  have m: "report_id_match (r_report_id r)" using v(1) by (simp add: report_validate_def report_head_valid_def)
  have new: "r_report_id r @ json_suffix \<notin> fst ` set (fs_reports fs)" using v(2) by (simp add: map_of_eq_None_iff)
  have "AList.update n x d = d @ [(n, x)]" if "n \<notin> fst ` set d" for n and x :: "report node" and d
    using that by (induction d) auto
  from this[OF new] have u: "?d = fs_reports fs @ [(r_report_id r @ json_suffix, Doc r)]" by simp
  have names: "json_names ?d = json_names (fs_reports fs) @ [r_report_id r]"
    using trim_suffix_append[of "r_report_id r" json_suffix] by (simp add: u json_names_def has_suffix_iff)
  have dist: "distinct (filter report_id_match (json_names ?d))"
    using distinct_json_names[of ?d] assms(2) new by (simp add: u)
  have "newer \<subseteq> set (filter report_id_match (json_names ?d))"
    using assms(3) by (auto simp: names report_ids_all)
  from descending_take[OF dist this assms(4,5)] have "r_report_id r \<notin> set (take report_retention ?ids)"
    by (simp add: report_ids_all)
  moreover have "r_report_id r \<in> set ?ids" using m by (simp add: report_ids_all names)
  ultimately have dropped: "r_report_id r \<in> set (drop report_retention ?ids)"
    by (metis UnE append_take_drop_id set_append)
  then have "\<not> length ?ids \<le> report_retention" by auto
  moreover have "pruning_protects live ?fs = pruning_protects live fs" by (simp add: pruning_protects_def)
  ultimately have "r_report_id r \<notin> set (json_names (fs_reports fs'))"
    using dropped assms(6) by (simp add: v(3) prune_reports remove_reports_names)
  moreover have "rid \<in> set (json_names d)" if "map_of d (rid @ json_suffix) = Some (Doc r')" for rid d and r' :: report
    using map_of_SomeD[OF that] trim_suffix_append[of rid json_suffix]
    by (force simp: json_names_def has_suffix_iff image_iff)
  ultimately show ?thesis by (auto simp: report_load_def split: option.splits node.splits)
qed

end
