(* ===== verification/Approvals.thy ===== *)
theory Approvals
  imports Report_Store
begin

text \<open>
  internal/audit/approvals.go: the one-time approvals. Creating, consuming, cancelling, and the
  choice of the question asked; then the store under any number of concurrent processes, as a
  step relation in which a consumer lists, reads, renames and writes in separate steps.
\<close>

section \<open>Creating\<close>

datatype approval_error = InvalidKind | LegacyReport | CannotAuthorize | NotEligible | BadReason | UnsafeStore
  | UnusedExists | NotWritten | NotRenamed | Unreadable

definition approval_name :: "string \<Rightarrow> string \<Rightarrow> string" where
  "approval_name kind report_id = kind @ ''-'' @ report_id @ json_suffix"

definition grantable :: "string \<Rightarrow> string \<Rightarrow> report option \<Rightarrow> approval_error option" where
  "grantable kind reason ro =
     (if kind \<noteq> ''approval'' then Some InvalidKind
      else (case ro of
          None \<Rightarrow> Some LegacyReport
        | Some r \<Rightarrow>
            if r_schema_version r \<noteq> report_schema_version then Some LegacyReport
            else if \<not> report_id_match (r_report_id r) \<or> \<not> validate_package_base (r_package_base r) \<or>
                (r_phase r \<noteq> ''pre'' \<and> r_phase r \<noteq> ''post'' \<and> r_phase r \<noteq> ''artifact'') \<or>
                \<not> trimmed_hex_digest (r_content_hash r) \<or> \<not> trimmed_hex_digest (r_policy_fingerprint r)
              then Some CannotAuthorize
            else if kind = ''approval'' \<and> \<not> r_approval_eligible r then Some NotEligible
            else if length reason < 4 \<or> length reason > 2000 then Some BadReason
            else None))"

definition new_token :: "string \<Rightarrow> string \<Rightarrow> string \<Rightarrow> report \<Rightarrow> approval_token" where
  "new_token now kind reason r =
     \<lparr>at_schema_version = approval_schema_version, at_kind = kind, at_created_at = now, at_consumed_at = [],
      at_source_report = r_report_id r, at_package_base = r_package_base r, at_phase = r_phase r,
      at_content_hash = r_content_hash r, at_policy_fingerprint = r_policy_fingerprint r, at_reason = reason\<rparr>"

text \<open>Create: \<open>k\<close> says how far the directories and the write get. The result is the file name.\<close>

definition approval_create ::
  "string \<Rightarrow> disk \<Rightarrow> string \<Rightarrow> string \<Rightarrow> report option \<Rightarrow> audit_fs \<Rightarrow> (approval_error + string) \<times> audit_fs" where
  "approval_create now k kind reason ro fs =
     (case grantable kind reason ro of
        Some e \<Rightarrow> (Inl e, fs)
      | None \<Rightarrow>
          let r = the ro; name = approval_name kind (r_report_id r) in
          if k = DirUnsafe then (Inl UnsafeStore, fs)
          else if map_of (fs_pending fs) name \<noteq> None then (Inl UnusedExists, fs)
          else (case write_doc k name (new_token now kind reason r) (fs_pending fs) of
              None \<Rightarrow> (Inl NotWritten, fs)
            | Some d \<Rightarrow> (Inr name, fs\<lparr>fs_pending := d\<rparr>)))"

section \<open>Consuming\<close>

record spend_request =
  sr_kind :: string
  sr_package_base :: string
  sr_phase :: string
  sr_content_hash :: string
  sr_fingerprint :: string

definition token_matches :: "spend_request \<Rightarrow> approval_token \<Rightarrow> bool" where
  "token_matches q t =
     (\<not> (at_schema_version t \<noteq> approval_schema_version \<or> at_kind t \<noteq> sr_kind q \<or> at_package_base t \<noteq> sr_package_base q \<or>
         at_phase t \<noteq> sr_phase q \<or> at_content_hash t \<noteq> sr_content_hash q \<or> at_policy_fingerprint t \<noteq> sr_fingerprint q))"

definition approval_candidate :: "spend_request \<Rightarrow> string \<Rightarrow> bool" where
  "approval_candidate q name = (has_prefix name (sr_kind q @ ''-'') \<and> has_suffix name json_suffix)"

text \<open>
  One consumer, between its calls to the kernel: the names still to look at; a token read and
  found to match; the file moved out of the pending directory; the result.
\<close>

datatype consumer =
    Scan "string list"
  | Matched string approval_token "string list"
  | Moved string approval_token
  | Finished "approval_error + approval_token option"

text \<open>What the kernel answers to this consumer: rename failing for another reason, and the write.\<close>

record spend_env =
  env_now :: string
  env_rename_ok :: bool
  env_write_ok :: bool

definition consumer_step ::
  "spend_request \<Rightarrow> spend_env \<Rightarrow> audit_fs \<times> consumer \<Rightarrow> audit_fs \<times> consumer" where
  "consumer_step q kern s = (case s of
      (fs, Scan []) \<Rightarrow> (fs, Finished (Inr None))
    | (fs, Scan (n # ns)) \<Rightarrow>
        (if \<not> approval_candidate q n then (fs, Scan ns)
         else (case map_of (fs_pending fs) n of
             Some (Doc t) \<Rightarrow> if token_matches q t then (fs, Matched n t ns) else (fs, Scan ns)
           | _ \<Rightarrow> (fs, Scan ns)))
    | (fs, Matched n t ns) \<Rightarrow>
        (case map_of (fs_pending fs) n of
           None \<Rightarrow> (fs, Scan ns)
         | Some x \<Rightarrow>
             if \<not> env_rename_ok kern then (fs, Finished (Inl NotRenamed))
             else (fs\<lparr>fs_pending := AList.delete n (fs_pending fs), fs_used := AList.update n x (fs_used fs)\<rparr>, Moved n t))
    | (fs, Moved n t) \<Rightarrow>
        (let t' = t\<lparr>at_consumed_at := env_now kern\<rparr> in
         if \<not> env_write_ok kern then (fs, Finished (Inl NotWritten))
         else (fs\<lparr>fs_used := AList.update n (Doc t') (fs_used fs)\<rparr>, Finished (Inr (Some t'))))
    | (fs, Finished r) \<Rightarrow> (fs, Finished r))"

text \<open>
  Consume as one call, with nobody else at the store: \<open>listing\<close> is how reading the directory
  ends (it is missing, or cannot be read, or the used directory is unsafe).
\<close>

datatype listing = NoPending | ListingError | Listed

fun spend_names :: "spend_request \<Rightarrow> spend_env \<Rightarrow> audit_fs \<Rightarrow> string list \<Rightarrow> (approval_error + approval_token option) \<times> audit_fs" where
  "spend_names q kern fs [] = (Inr None, fs)"
| "spend_names q kern fs (n # ns) =
     (if \<not> approval_candidate q n then spend_names q kern fs ns
      else (case map_of (fs_pending fs) n of
          Some (Doc t) \<Rightarrow>
            if \<not> token_matches q t then spend_names q kern fs ns
            else if \<not> env_rename_ok kern then (Inl NotRenamed, fs)
            else
              let fs = fs\<lparr>fs_pending := AList.delete n (fs_pending fs), fs_used := AList.update n (Doc t) (fs_used fs)\<rparr>;
                  t' = t\<lparr>at_consumed_at := env_now kern\<rparr> in
              if \<not> env_write_ok kern then (Inl NotWritten, fs)
              else (Inr (Some t'), fs\<lparr>fs_used := AList.update n (Doc t') (fs_used fs)\<rparr>)
        | _ \<Rightarrow> spend_names q kern fs ns))"

definition approval_consume ::
  "listing \<Rightarrow> spend_request \<Rightarrow> spend_env \<Rightarrow> audit_fs \<Rightarrow> (approval_error + approval_token option) \<times> audit_fs" where
  "approval_consume l q kern fs = (case l of
      NoPending \<Rightarrow> (Inr None, fs)
    | ListingError \<Rightarrow> (Inl Unreadable, fs)
    | Listed \<Rightarrow> spend_names q kern fs (sort (map fst (fs_pending fs))))"

text \<open>CancelPending: only a file of the pending directory.\<close>

definition cancel_pending :: "string \<Rightarrow> string \<Rightarrow> audit_fs \<Rightarrow> bool \<times> audit_fs" where
  "cancel_pending root path fs =
     (if path_dir path \<noteq> path_join [root, ''pending''] \<or> path_base path = ''.'' \<or> path_ext path \<noteq> json_suffix then (False, fs)
      else (True, fs\<lparr>fs_pending := AList.delete (path_base path) (fs_pending fs)\<rparr>))"

section \<open>Which question is asked\<close>

record review_config =
  rc_mode :: string
  rc_minimum_confidence :: string
  rc_minimum_severity :: string
  rc_timeout_seconds :: int
  rc_kill_grace_seconds :: int
  rc_batch_bytes :: int
  rc_include_recipe_phase :: bool
  rc_phases :: "string list option"

definition confidence_only_verdict :: "review_config \<Rightarrow> verdict \<Rightarrow> bool" where
  "confidence_only_verdict cfg v =
     (v_verdict v = ''allow'' \<and>
      list_all (\<lambda>f. \<not> severity_at_least (rf_severity f) (rc_minimum_severity cfg)) (slice (v_findings v)))"

definition confidence_only_block :: "review_config \<Rightarrow> report option \<Rightarrow> bool" where
  "confidence_only_block cfg ro = (case ro of
      None \<Rightarrow> False
    | Some r \<Rightarrow>
        if rr_mode (r_reviewer r) \<noteq> mode_ai \<or> rr_error (r_reviewer r) \<noteq> [] \<or> rr_verdicts (r_reviewer r) = [] \<or>
           report_has_prompt_injection r \<or> verdicts_have_coverage_notes (rr_verdicts (r_reviewer r))
        then False
        else list_all (confidence_only_verdict cfg) (rr_verdicts (r_reviewer r)) \<and>
          list_ex (\<lambda>v. \<not> confidence_at_least (v_confidence v) (rc_minimum_confidence cfg)) (rr_verdicts (r_reviewer r)))"

definition classify_inline_decision :: "review_config \<Rightarrow> report option \<Rightarrow> string" where
  "classify_inline_decision cfg ro = (case ro of
      None \<Rightarrow> []
    | Some r \<Rightarrow>
        if r_decision r \<noteq> ''block'' then []
        else if r_approval_eligible r \<and> confidence_only_block cfg ro then ''confidence''
        else if r_approval_eligible r then ''override''
        else [])"

definition inline_reason :: "string \<Rightarrow> string" where
  "inline_reason mode = (if mode = ''override'' then ''inline explicit OVERRIDE'' else ''inline confidence approval'')"

definition create_inline_token ::
  "string \<Rightarrow> disk \<Rightarrow> string \<Rightarrow> report option \<Rightarrow> audit_fs \<Rightarrow> (approval_error + string) \<times> audit_fs" where
  "create_inline_token now k mode ro fs = approval_create now k ''approval'' (inline_reason mode) ro fs"

text \<open>
  The standalone approval: the typed confirmation must name the package base and the first twelve
  digits of the digest.
\<close>

datatype interactive_error = NotATerminal | ConfirmationMismatch | NoReason | CreateFailed approval_error

definition interactive_approval ::
  "string \<Rightarrow> disk \<Rightarrow> string \<Rightarrow> string \<Rightarrow> report \<Rightarrow> string \<Rightarrow> audit_fs \<Rightarrow> (interactive_error + string) \<times> audit_fs" where
  "interactive_approval now k confirmation reason r kind fs =
     (if trim_space confirmation \<noteq> r_package_base r @ '' '' @ take 12 (r_content_hash r) then (Inl ConfirmationMismatch, fs)
      else if length (trim_space reason) < 4 then (Inl NoReason, fs)
      else (case approval_create now k kind (trim_space reason) (Some r) fs of
          (Inl e, fs') \<Rightarrow> (Inl (CreateFailed e), fs')
        | (Inr name, fs') \<Rightarrow> (Inr name, fs')))"

section \<open>The store under concurrent processes\<close>

text \<open>
  The log of grants holds the report each token was made from; the log of spends the process, the
  file name and the token it had read when the rename succeeded.
\<close>

record approval_system =
  sys_fs :: audit_fs
  sys_consumers :: "nat \<Rightarrow> (spend_request \<times> consumer) option"
  sys_granted :: "(string \<times> approval_token \<times> report) list"
  sys_spent :: "(nat \<times> string \<times> approval_token) list"

definition approvals_init :: "audit_fs \<Rightarrow> bool" where
  "approvals_init fs = (fs_pending fs = [])"

definition initial_system :: "audit_fs \<Rightarrow> approval_system" where
  "initial_system fs = \<lparr>sys_fs = fs, sys_consumers = (\<lambda>_. None), sys_granted = [], sys_spent = []\<rparr>"

text \<open>
  The check of Create for an unused approval and its write are two calls, so a grant may also
  replace a token written in between: the step makes no use of the check.
\<close>

inductive approval_step :: "approval_system \<Rightarrow> approval_system \<Rightarrow> bool" where
  grant: "grantable kind reason (Some r) = None \<Longrightarrow> name = approval_name kind (r_report_id r) \<Longrightarrow>
    t = new_token now kind reason r \<Longrightarrow>
    approval_step s (s\<lparr>sys_fs := (sys_fs s)\<lparr>fs_pending := AList.update name (Doc t) (fs_pending (sys_fs s))\<rparr>,
      sys_granted := (name, t, r) # sys_granted s\<rparr>)"
| begin_consume: "sys_consumers s p = None \<Longrightarrow>
    approval_step s (s\<lparr>sys_consumers := (sys_consumers s)(p \<mapsto> (q, Scan (sort (map fst (fs_pending (sys_fs s))))))\<rparr>)"
| consume: "sys_consumers s p = Some (q, c) \<Longrightarrow> consumer_step q kern (sys_fs s, c) = (fs', c') \<Longrightarrow>
    spent = (case (c, c') of (Matched n t ns, Moved n' t') \<Rightarrow> (p, n, t) # sys_spent s | _ \<Rightarrow> sys_spent s) \<Longrightarrow>
    approval_step s (s\<lparr>sys_fs := fs', sys_consumers := (sys_consumers s)(p \<mapsto> (q, c')), sys_spent := spent\<rparr>)"
| cancel: "cancel_pending root path (sys_fs s) = (ok, fs') \<Longrightarrow> approval_step s (s\<lparr>sys_fs := fs'\<rparr>)"
| prune: "approval_step s (s\<lparr>sys_fs := report_prune live (sys_fs s)\<rparr>)"

inductive approval_run :: "approval_system \<Rightarrow> approval_system \<Rightarrow> bool" where
  run_refl: "approval_run s s"
| run_step: "approval_run s s' \<Longrightarrow> approval_step s' s'' \<Longrightarrow> approval_run s s''"

inductive_cases approval_stepE: "approval_step s s'"

section \<open>Lemmas\<close>

text \<open>A call with nobody else at the store is a run of the steps of one consumer.\<close>

lemma steps_more: "\<exists>k. (f ^^ k) (f s) = s' \<Longrightarrow> \<exists>k. (f ^^ k) s = s'"
  by (metis comp_apply funpow_Suc_right)

lemma spend_names_run:
  "spend_names q kern fs ns = (r, fs') \<Longrightarrow> \<exists>k. (consumer_step q kern ^^ k) (fs, Scan ns) = (fs', Finished r)"
proof (induction ns arbitrary: fs)
  case Nil
  then show ?case by (intro exI[of _ 1]) (simp add: consumer_step_def)
next
  case (Cons n ns)
  show ?case
  proof (cases "approval_candidate q n \<and> (\<exists>t. map_of (fs_pending fs) n = Some (Doc t) \<and> token_matches q t)")
    case False
    then have "consumer_step q kern (fs, Scan (n # ns)) = (fs, Scan ns)"
      by (auto simp: consumer_step_def split: option.split node.split)
    moreover have "spend_names q kern fs ns = (r, fs')"
      using False Cons.prems by (auto split: option.splits node.splits if_splits)
    ultimately show ?thesis using Cons.IH[of fs] steps_more[of "consumer_step q kern" "(fs, Scan (n # ns))"] by simp
  next
    case True
    then obtain t where t: "approval_candidate q n" "map_of (fs_pending fs) n = Some (Doc t)" "token_matches q t" by blast
    show ?thesis
    proof (cases "env_rename_ok kern")
      case False
      with Cons.prems t show ?thesis by (intro exI[of _ 2]) (simp add: consumer_step_def numeral_2_eq_2)
    next
      case True
      with Cons.prems t show ?thesis
        by (intro exI[of _ 3]) (cases "env_write_ok kern"; simp add: consumer_step_def numeral_3_eq_3 Let_def)
    qed
  qed
qed

text \<open>
  The invariant: for each name, spends and the file still pending together never exceed the
  grants; a process is in the log at most once, and only after it renamed; whatever is pending or
  has been read was granted.
\<close>

definition names_in :: "string \<Rightarrow> (string \<times> 'a) list \<Rightarrow> nat" where
  "names_in n xs = length (filter (\<lambda>x. fst x = n) xs)"

definition is_pending :: "string \<Rightarrow> audit_fs \<Rightarrow> nat" where
  "is_pending n fs = (if map_of (fs_pending fs) n = None then 0 else 1)"

definition granted_token :: "approval_system \<Rightarrow> string \<Rightarrow> approval_token \<Rightarrow> bool" where
  "granted_token s n t = (\<exists>r. (n, t, r) \<in> set (sys_granted s))"

definition same_token :: "approval_token \<Rightarrow> approval_token \<Rightarrow> bool" where
  "same_token t t' = (t' = t\<lparr>at_consumed_at := at_consumed_at t'\<rparr>)"

lemma same_token_consumed [simp]: "same_token t (t\<lparr>at_consumed_at := now\<rparr>)"
  by (simp add: same_token_def)

definition consumer_ok :: "approval_system \<Rightarrow> nat \<Rightarrow> spend_request \<Rightarrow> consumer \<Rightarrow> bool" where
  "consumer_ok s p q c = (case c of
      Scan ns \<Rightarrow> p \<notin> fst ` set (sys_spent s)
    | Matched n t ns \<Rightarrow> p \<notin> fst ` set (sys_spent s) \<and> granted_token s n t \<and> token_matches q t
    | Moved n t \<Rightarrow> (p, n, t) \<in> set (sys_spent s) \<and> granted_token s n t \<and> token_matches q t
    | Finished (Inr (Some t')) \<Rightarrow> (\<exists>n t. (p, n, t) \<in> set (sys_spent s) \<and> granted_token s n t \<and> token_matches q t \<and>
        same_token t t')
    | Finished _ \<Rightarrow> True)"

definition approval_inv :: "approval_system \<Rightarrow> bool" where
  "approval_inv s \<longleftrightarrow>
     (\<forall>n. names_in n (map snd (sys_spent s)) + is_pending n (sys_fs s) \<le> names_in n (sys_granted s)) \<and>
     distinct (map fst (sys_spent s)) \<and>
     (\<forall>p. sys_consumers s p = None \<longrightarrow> p \<notin> fst ` set (sys_spent s)) \<and>
     (\<forall>p q c. sys_consumers s p = Some (q, c) \<longrightarrow> consumer_ok s p q c) \<and>
     (\<forall>n t. map_of (fs_pending (sys_fs s)) n = Some (Doc t) \<longrightarrow> granted_token s n t)"

lemma names_in_Cons [simp]: "names_in n (x # xs) = (if fst x = n then 1 else 0) + names_in n xs"
  by (simp add: names_in_def)

lemma inv_init: "approvals_init fs \<Longrightarrow> approval_inv (initial_system fs)"
  by (simp add: approval_inv_def initial_system_def approvals_init_def names_in_def is_pending_def)

lemma inv_grant:
  assumes "approval_inv s"
  shows "approval_inv (s\<lparr>sys_fs := (sys_fs s)\<lparr>fs_pending := AList.update name (Doc t) (fs_pending (sys_fs s))\<rparr>,
      sys_granted := (name, t, r) # sys_granted s\<rparr>)" (is "approval_inv ?s")
proof -
  have g: "granted_token ?s n t' \<longleftrightarrow> granted_token s n t' \<or> (n = name \<and> t' = t)" for n t'
    by (auto simp: granted_token_def)
  have "consumer_ok ?s p q c" if "consumer_ok s p q c" for p q c
    using that by (auto simp: consumer_ok_def g split: consumer.splits sum.splits option.splits)
  moreover have "names_in n (map snd (sys_spent s)) + is_pending n (sys_fs s) \<le> names_in n (sys_granted s)" for n
    using assms by (simp add: approval_inv_def)
  ultimately show ?thesis using assms
    by (auto simp: approval_inv_def g is_pending_def update_conv' split: if_splits) (metis add_leD1 trans_le_add2)+
qed

lemma inv_fs:
  assumes "approval_inv s" "\<And>n x. map_of (fs_pending fs') n = Some x \<Longrightarrow> map_of (fs_pending (sys_fs s)) n = Some x"
  shows "approval_inv (s\<lparr>sys_fs := fs'\<rparr>)"
proof -
  have "is_pending n fs' \<le> is_pending n (sys_fs s)" for n
    using assms(2)[of n] by (auto simp: is_pending_def)
  then have "names_in n (map snd (sys_spent s)) + is_pending n fs' \<le> names_in n (sys_granted s)" for n
    using assms(1) by (metis (no_types, lifting) add_le_cancel_left approval_inv_def order_trans)
  moreover have "consumer_ok (s\<lparr>sys_fs := fs'\<rparr>) p q c = consumer_ok s p q c" "granted_token (s\<lparr>sys_fs := fs'\<rparr>) n t = granted_token s n t" for p q c n t
    by (auto simp: consumer_ok_def granted_token_def split: consumer.split sum.split option.split)
  ultimately show ?thesis using assms by (auto simp: approval_inv_def)
qed

lemma consumer_ok_cong:
  "sys_granted s' = sys_granted s \<Longrightarrow> sys_spent s' = sys_spent s \<Longrightarrow> consumer_ok s' p q c = consumer_ok s p q c"
  by (auto simp: consumer_ok_def granted_token_def split: consumer.split sum.split option.split)

lemma consumer_ok_other:
  assumes "sys_granted s' = sys_granted s" "set (sys_spent s') = insert (p, x) (set (sys_spent s)) \<or> sys_spent s' = sys_spent s"
    "p' \<noteq> p" "consumer_ok s p' q c"
  shows "consumer_ok s' p' q c"
  using assms by (auto simp: consumer_ok_def granted_token_def split: consumer.splits sum.splits option.splits) blast+

text \<open>One consumer moved: its new state is sound, the log and the directory changed together.\<close>

lemma inv_consumer:
  assumes "approval_inv s" "sys_consumers s p = Some (q, c)" "consumer_ok s' p q c'"
    and "s' = s\<lparr>sys_fs := fs', sys_consumers := (sys_consumers s)(p \<mapsto> (q, c')), sys_spent := sp\<rparr>"
    and "sp = sys_spent s \<or> (\<exists>n t. sp = (p, n, t) # sys_spent s \<and> p \<notin> fst ` set (sys_spent s) \<and>
       is_pending n (sys_fs s) = 1 \<and> is_pending n fs' = 0)"
    and "\<And>n x. map_of (fs_pending fs') n = Some x \<Longrightarrow> map_of (fs_pending (sys_fs s)) n = Some x"
  shows "approval_inv s'"
proof -
  have le: "is_pending n fs' \<le> is_pending n (sys_fs s)" for n
    using assms(6)[of n] by (auto simp: is_pending_def)
  have count: "names_in n (map snd sp) + is_pending n fs' \<le> names_in n (sys_granted s)" for n
  proof -
    have "names_in n (map snd (sys_spent s)) + is_pending n (sys_fs s) \<le> names_in n (sys_granted s)"
      using assms(1) by (simp add: approval_inv_def)
    then show ?thesis using assms(5) le[of n] by auto
  qed
  have "distinct (map fst sp)" using assms(1,5) by (auto simp: approval_inv_def)
  moreover have "p' \<notin> fst ` set sp" if "sys_consumers s' p' = None" for p'
  proof -
    from that assms(4) have "p' \<noteq> p" "sys_consumers s p' = None" by (auto split: if_splits)
    then have "p' \<notin> insert p (fst ` set (sys_spent s))" using assms(1) by (simp add: approval_inv_def)
    moreover have "fst ` set sp \<subseteq> insert p (fst ` set (sys_spent s))" using assms(5) by auto
    ultimately show ?thesis by blast
  qed
  moreover have "consumer_ok s' p' q' c0" if "sys_consumers s' p' = Some (q', c0)" for p' q' c0
  proof (cases "p' = p")
    case True
    then show ?thesis using that assms(3,4) by simp
  next
    case False
    then have "consumer_ok s p' q' c0" using that assms(1,4) by (simp add: approval_inv_def)
    from consumer_ok_other[OF _ _ False this, of s'] show ?thesis using assms(4,5) by auto
  qed
  moreover have "granted_token s' n t" if "map_of (fs_pending fs') n = Some (Doc t)" for n t
    using assms(6)[OF that] assms(1,4) by (simp add: approval_inv_def granted_token_def)
  ultimately show ?thesis using count assms(4) by (simp add: approval_inv_def)
qed

lemma inv_consume:
  assumes "approval_inv s" "sys_consumers s p = Some (q, c)" "consumer_step q kern (sys_fs s, c) = (fs', c')"
    and "sp = (case (c, c') of (Matched n t ns, Moved n' t') \<Rightarrow> (p, n, t) # sys_spent s | _ \<Rightarrow> sys_spent s)"
  shows "approval_inv (s\<lparr>sys_fs := fs', sys_consumers := (sys_consumers s)(p \<mapsto> (q, c')), sys_spent := sp\<rparr>)" (is "approval_inv ?s")
proof -
  have ok: "consumer_ok s p q c" using assms(1,2) by (simp add: approval_inv_def)
  have pend: "map_of (fs_pending (sys_fs s)) n = Some (Doc t) \<Longrightarrow> granted_token s n t" for n t
    using assms(1) by (simp add: approval_inv_def)
  show ?thesis
  proof (cases c)
    case (Scan ns)
    then have "fs' = sys_fs s" "sp = sys_spent s" "consumer_ok ?s p q c'"
      using assms(3,4) ok pend
      by (auto simp: consumer_step_def consumer_ok_def granted_token_def
          split: list.splits if_splits option.splits node.splits)
    then show ?thesis by (intro inv_consumer[OF assms(1,2) _ refl]) simp_all
  next
    case (Matched n t ns)
    show ?thesis
    proof (cases "map_of (fs_pending (sys_fs s)) n")
      case None
      with Matched assms(3,4) ok have "fs' = sys_fs s" "sp = sys_spent s" "consumer_ok ?s p q c'"
        by (auto simp: consumer_step_def consumer_ok_def granted_token_def)
      then show ?thesis by (intro inv_consumer[OF assms(1,2) _ refl]) simp_all
    next
      case (Some x)
      show ?thesis
      proof (cases "env_rename_ok kern")
        case False
        with Matched Some assms(3,4) have "fs' = sys_fs s" "sp = sys_spent s" "consumer_ok ?s p q c'"
          by (auto simp: consumer_step_def consumer_ok_def)
        then show ?thesis by (intro inv_consumer[OF assms(1,2) _ refl]) simp_all
      next
        case True
        with Matched Some assms(3,4) ok
        have r: "fs_pending fs' = AList.delete n (fs_pending (sys_fs s))" "sp = (p, n, t) # sys_spent s" "consumer_ok ?s p q c'"
          "p \<notin> fst ` set (sys_spent s)"
          by (auto simp: consumer_step_def consumer_ok_def granted_token_def)
        moreover have "is_pending n (sys_fs s) = 1" "is_pending n fs' = 0"
          using Some by (simp_all add: is_pending_def r(1) AList.delete_conv)
        ultimately show ?thesis
          by (intro inv_consumer[OF assms(1,2) _ refl]) (auto simp: AList.delete_conv split: if_splits)
      qed
    qed
  next
    case (Moved n t)
    with assms(3,4) ok have "fs_pending fs' = fs_pending (sys_fs s)" "sp = sys_spent s" "consumer_ok ?s p q c'"
      by (auto simp: consumer_step_def consumer_ok_def granted_token_def Let_def intro: same_token_consumed split: if_splits) (use same_token_consumed in blast)
    then show ?thesis by (intro inv_consumer[OF assms(1,2) _ refl]) simp_all
  next
    case (Finished r)
    with assms(3,4) have f: "fs' = sys_fs s" "sp = sys_spent s" "c' = c" by (auto simp: consumer_step_def)
    then have "consumer_ok ?s p q c'" using ok consumer_ok_cong[of ?s s p q c] by simp
    with f have "fs' = sys_fs s" "sp = sys_spent s" "consumer_ok ?s p q c'" by simp_all
    then show ?thesis by (intro inv_consumer[OF assms(1,2) _ refl]) simp_all
  qed
qed

lemma inv_begin:
  assumes "approval_inv s" "sys_consumers s p = None"
  shows "approval_inv (s\<lparr>sys_consumers := (sys_consumers s)(p \<mapsto> (q, Scan ns))\<rparr>)" (is "approval_inv ?s")
proof -
  have "consumer_ok ?s p' q' c = consumer_ok s p' q' c" "granted_token ?s n t = granted_token s n t" for p' q' c n t
    by (auto simp: consumer_ok_def granted_token_def split: consumer.split sum.split option.split)
  moreover have "consumer_ok s p q (Scan ns)" using assms by (simp add: approval_inv_def consumer_ok_def)
  ultimately show ?thesis using assms by (auto simp: approval_inv_def)
qed

lemma inv_step: "approval_step s s' \<Longrightarrow> approval_inv s \<Longrightarrow> approval_inv s'"
proof (induction rule: approval_step.induct)
  case (cancel root path s ok fs')
  then show ?case
    by (intro inv_fs) (auto simp: cancel_pending_def AList.delete_conv split: if_splits)
next
  case (prune s live)
  then show ?case by (intro inv_fs) (auto simp: prune_fields)
qed (simp_all add: inv_grant inv_begin inv_consume)

lemma inv_run: "approval_run s s' \<Longrightarrow> approval_inv s \<Longrightarrow> approval_inv s'"
  by (induction rule: approval_run.induct) (auto dest: inv_step)

text \<open>Every logged grant was made by Create for a report that was eligible.\<close>

definition grants_ok :: "approval_system \<Rightarrow> bool" where
  "grants_ok s \<longleftrightarrow> (\<forall>n t r. (n, t, r) \<in> set (sys_granted s) \<longrightarrow>
     (\<exists>now reason. grantable ''approval'' reason (Some r) = None \<and> n = approval_name ''approval'' (r_report_id r) \<and>
        t = new_token now ''approval'' reason r))"

lemma grants_step: "approval_step s s' \<Longrightarrow> grants_ok s \<Longrightarrow> grants_ok s'"
proof (induction rule: approval_step.induct)
  case (grant kind reason r name t now s)
  then have "kind = ''approval''" by (auto simp: grantable_def split: if_splits)
  with grant show ?case by (auto simp: grants_ok_def)
qed (auto simp: grants_ok_def)

lemma grants_run: "approval_run s s' \<Longrightarrow> grants_ok s \<Longrightarrow> grants_ok s'"
  by (induction rule: approval_run.induct) (auto dest: grants_step)

lemma grants_init: "grants_ok (initial_system fs)"
  by (simp add: grants_ok_def initial_system_def)

lemma approval_name_inj: "approval_name k a = approval_name k b \<Longrightarrow> a = b"
  by (simp add: approval_name_def)

text \<open>What a process that was let through knows.\<close>

lemma winner_facts:
  assumes "approval_inv s" "grants_ok s" "sys_consumers s p = Some (q, Finished (Inr (Some t)))"
  shows "\<exists>t0 r. (p, approval_name ''approval'' (at_source_report t), t0) \<in> set (sys_spent s) \<and>
    (approval_name ''approval'' (at_source_report t), t0, r) \<in> set (sys_granted s) \<and>
    r_report_id r = at_source_report t \<and> r_approval_eligible r \<and> sr_package_base q = r_package_base r \<and>
    sr_phase q = r_phase r \<and> sr_content_hash q = r_content_hash r \<and> sr_fingerprint q = r_policy_fingerprint r"
proof -
  from assms(1,3) have "consumer_ok s p q (Finished (Inr (Some t)))" by (simp add: approval_inv_def)
  then obtain n t0 r where g: "(p, n, t0) \<in> set (sys_spent s)" "(n, t0, r) \<in> set (sys_granted s)"
    "token_matches q t0" "same_token t0 t" by (auto simp: consumer_ok_def granted_token_def)
  with assms(2) obtain now reason where r: "grantable ''approval'' reason (Some r) = None"
    "n = approval_name ''approval'' (r_report_id r)" "t0 = new_token now ''approval'' reason r"
    unfolding grants_ok_def by blast
  from r(1) have "r_approval_eligible r" by (auto simp: grantable_def split: if_splits)
  moreover from g(4) have "at_source_report t = at_source_report t0" unfolding same_token_def by (metis (no_types, lifting) approval_token.select_convs(5) approval_token.surjective approval_token.update_convs(4))
  ultimately show ?thesis using g r(2,3)
    by (intro exI[of _ t0] exI[of _ r]) (simp add: new_token_def token_matches_def)
qed

section \<open>Properties\<close>

text \<open>C34: whatever processes create, consume, cancel and prune approvals, in whatever interleaving of
  their file operations, an approval is spent at most once: the processes that were let through
  by approvals of one report are never more than the approvals granted for it, and each of them
  asked for exactly the package, phase, content and policy of an eligible report.\<close>

theorem approval_spent_once:
  assumes "approval_run (initial_system fs) s" "approvals_init fs"
    and "finite ps" "\<forall>p \<in> ps. \<exists>q t. sys_consumers s p = Some (q, Finished (Inr (Some t))) \<and> at_source_report t = rid"
  shows "card ps \<le> length (filter (\<lambda>(_, t, _). at_source_report t = rid) (sys_granted s)) \<and>
    (\<forall>p \<in> ps. \<exists>q t r t0. sys_consumers s p = Some (q, Finished (Inr (Some t))) \<and>
      (approval_name ''approval'' rid, t0, r) \<in> set (sys_granted s) \<and> r_report_id r = rid \<and> r_approval_eligible r \<and>
      sr_package_base q = r_package_base r \<and> sr_phase q = r_phase r \<and> sr_content_hash q = r_content_hash r \<and>
      sr_fingerprint q = r_policy_fingerprint r)"
proof -
  have inv: "approval_inv s" "grants_ok s"
    using inv_run[OF assms(1) inv_init[OF assms(2)]] grants_run[OF assms(1) grants_init] by blast+
  let ?n = "approval_name ''approval'' rid"
  have w: "\<exists>q t t0 r. sys_consumers s p = Some (q, Finished (Inr (Some t))) \<and> (p, ?n, t0) \<in> set (sys_spent s) \<and>
      (?n, t0, r) \<in> set (sys_granted s) \<and> r_report_id r = rid \<and> r_approval_eligible r \<and> sr_package_base q = r_package_base r \<and>
      sr_phase q = r_phase r \<and> sr_content_hash q = r_content_hash r \<and> sr_fingerprint q = r_policy_fingerprint r" if "p \<in> ps" for p
    using winner_facts[OF inv] assms(4) that by metis
  have "ps \<subseteq> set (map fst (filter (\<lambda>e. fst (snd e) = ?n) (sys_spent s)))"
  proof
    fix p assume "p \<in> ps"
    then obtain t0 where "(p, ?n, t0) \<in> set (sys_spent s)" using w by blast
    then show "p \<in> set (map fst (filter (\<lambda>e. fst (snd e) = ?n) (sys_spent s)))" by force
  qed
  from card_mono[OF finite_set this] have "card ps \<le> length (filter (\<lambda>e. fst (snd e) = ?n) (sys_spent s))"
    using card_length[of "map fst (filter (\<lambda>e. fst (snd e) = ?n) (sys_spent s))"] by simp
  also have "\<dots> = names_in ?n (map snd (sys_spent s))" by (simp add: names_in_def filter_map o_def)
  also have "\<dots> \<le> names_in ?n (sys_granted s)"
    using inv(1) add_leD1 unfolding approval_inv_def by blast
  also have "\<dots> \<le> length (filter (\<lambda>(_, t, _). at_source_report t = rid) (sys_granted s))"
  proof -
    have "filter (\<lambda>e. fst e = ?n) (sys_granted s) = filter (\<lambda>e. fst e = ?n) (filter (\<lambda>(_, t, _). at_source_report t = rid) (sys_granted s))"
      unfolding filter_filter
    proof (rule filter_cong[OF refl])
      fix e assume "e \<in> set (sys_granted s)"
      moreover obtain n t r where e: "e = (n, t, r)" by (cases e)
      ultimately obtain now reason where "n = approval_name ''approval'' (r_report_id r)" "t = new_token now ''approval'' reason r"
        using inv(2) unfolding grants_ok_def by blast
      then show "(fst e = ?n) = ((case e of (_, t, _) \<Rightarrow> at_source_report t = rid) \<and> fst e = ?n)"
        using approval_name_inj by (auto simp: e new_token_def)
    qed
    then show ?thesis unfolding names_in_def by (metis length_filter_le)
  qed
  finally show ?thesis using w by blast
qed

definition example_request :: spend_request where
  "example_request = \<lparr>sr_kind = ''approval'', sr_package_base = ''demo'', sr_phase = ''pre'', sr_content_hash = example_digest,
     sr_fingerprint = example_digest\<rparr>"

definition example_kernel :: spend_env where
  "example_kernel = \<lparr>env_now = ''2026-01-02T00:00:00Z'', env_rename_ok = True, env_write_ok = True\<rparr>"

definition example_token :: approval_token where
  "example_token = new_token ''2026-01-01T00:00:01Z'' ''approval'' ''read it'' example_report"

text \<open>A store without approvals; then one is granted, a process starts, and spends it.\<close>

definition empty_fs :: audit_fs where
  "empty_fs = \<lparr>fs_reports = [], fs_markers = [], fs_pending = [], fs_used = []\<rparr>"

definition example_name :: string where
  "example_name = approval_name ''approval'' (r_report_id example_report)"

definition granted_fs :: audit_fs where
  "granted_fs = empty_fs\<lparr>fs_pending := [(example_name, Doc example_token)]\<rparr>"

lemma example_spend:
  "spend_names example_request example_kernel granted_fs [example_name] =
     (Inr (Some (example_token\<lparr>at_consumed_at := env_now example_kernel\<rparr>)),
      granted_fs\<lparr>fs_pending := [], fs_used := [(example_name, Doc (example_token\<lparr>at_consumed_at := env_now example_kernel\<rparr>))]\<rparr>)"
proof -
  have "approval_candidate example_request example_name" "token_matches example_request example_token" by code_simp+
  then show ?thesis by (simp add: granted_fs_def empty_fs_def example_kernel_def Let_def)
qed

lemma consumer_steps_run:
  assumes "approval_run s0 s" "sys_consumers s p = Some (q, c)"
  shows "\<exists>s'. approval_run s0 s' \<and> (sys_fs s', snd (the (sys_consumers s' p))) = (consumer_step q kern ^^ k) (sys_fs s, c) \<and>
    fst (the (sys_consumers s' p)) = q \<and> sys_consumers s' p \<noteq> None"
proof (induction k)
  case 0
  then show ?case using assms by (intro exI[of _ s]) simp
next
  case (Suc k)
  then obtain s' where s: "approval_run s0 s'" "sys_consumers s' p = Some (q, snd (the (sys_consumers s' p)))"
    "(sys_fs s', snd (the (sys_consumers s' p))) = (consumer_step q kern ^^ k) (sys_fs s, c)" by fastforce
  obtain fs' c' where st: "consumer_step q kern (sys_fs s', snd (the (sys_consumers s' p))) = (fs', c')" by fastforce
  from run_step[OF s(1) approval_step.consume[OF s(2) st refl]] s(3) st show ?case
    by (intro exI conjI) (assumption, auto)
qed

theorem approval_spent_once_witness:
  "\<exists>s. approval_run (initial_system empty_fs) s \<and> card {0 :: nat} \<le> 
    length (filter (\<lambda>(_, t, _). at_source_report t = r_report_id example_report) (sys_granted s)) \<and>
    (\<exists>q t. sys_consumers s 0 = Some (q, Finished (Inr (Some t))))"
proof -
  let ?s1 = "initial_system granted_fs\<lparr>sys_granted := [(example_name, example_token, example_report)]\<rparr>"
  have g: "grantable ''approval'' ''read it'' (Some example_report) = None" by code_simp
  have r1: "approval_run (initial_system empty_fs) ?s1"
    using run_step[OF run_refl approval_step.grant[OF g example_name_def example_token_def, of "initial_system empty_fs"]]
    by (simp add: initial_system_def granted_fs_def empty_fs_def)
  have "sys_consumers ?s1 0 = None" by (simp add: initial_system_def)
  from run_step[OF r1 approval_step.begin_consume[OF this, of example_request]]
  have r2: "approval_run (initial_system empty_fs) (?s1\<lparr>sys_consumers := [0 \<mapsto> (example_request, Scan [example_name])]\<rparr>)"
    by (simp add: initial_system_def granted_fs_def)
  from spend_names_run[OF example_spend] obtain k fs' t where
    k: "(consumer_step example_request example_kernel ^^ k) (granted_fs, Scan [example_name]) = (fs', Finished (Inr (Some t)))"
    "t = example_token\<lparr>at_consumed_at := env_now example_kernel\<rparr>" by metis
  from consumer_steps_run[OF r2, where p = 0 and q = example_request and c = "Scan [example_name]" and kern = example_kernel and k = k] k obtain s where
    s: "approval_run (initial_system empty_fs) s" "sys_consumers s 0 = Some (example_request, Finished (Inr (Some t)))"
    by (auto simp: initial_system_def)
  have "approvals_init empty_fs" by (simp add: approvals_init_def empty_fs_def)
  moreover have "at_source_report t = r_report_id example_report" by (simp add: k(2) example_token_def new_token_def)
  ultimately have "card {0 :: nat} \<le> length (filter (\<lambda>(_, t, _). at_source_report t = r_report_id example_report) (sys_granted s))"
    using approval_spent_once[OF s(1) _ _, of "{0}" "r_report_id example_report"] s(2) by auto
  with s show ?thesis by blast
qed

end
