(* ===== verification/Config.thy ===== *)
theory Config
  imports Approvals Broker_Config "HOL-Library.Monad_Syntax"
begin

text \<open>
  internal/audit/config.go and config_yaml.go, with the limits of internal/brief/config.go: the
  configuration, its defaults, how a file is read, restricted and decoded, what is filled in, and
  which configurations are accepted. The YAML parser is a library: its node tree is an argument.
\<close>

section \<open>The configuration\<close>

record limits_config =
  lim_dispatch_bytes :: int
  lim_files :: int
  lim_total_input_bytes :: int
  lim_archives :: int
  lim_archive_entries :: int
  lim_archive_unpacked_bytes :: int
  lim_archive_depth :: int
  lim_text_per_file :: int
  lim_selected_text_bytes :: int
  lim_binary_strings_bytes :: int
  lim_findings :: int
  lim_scan_timeout_seconds :: int

record brief_config =
  bf_limits :: limits_config
  bf_vendor_depth :: int
  bf_retain_text :: bool

record provider_config =
  pv_model :: string
  pv_effort :: string

record ollama_config =
  ol_model :: string
  ol_context_tokens :: int
  ol_reasoning :: string
  ol_keep_alive :: "int option"
  ol_timeout_seconds :: int

record audit_config =
  cf_provider :: string
  cf_codex :: provider_config
  cf_anthropic :: provider_config
  cf_ollama :: ollama_config
  cf_review :: review_config
  cf_limits :: limits_config
  cf_build :: build_config
  cf_network :: egress_config
  cf_vendor_depth :: int
  cf_style :: string

definition brief_default :: brief_config where
  "brief_default = \<lparr>bf_limits = \<lparr>lim_dispatch_bytes = 20 * 2 ^ 20, lim_files = 200000, lim_total_input_bytes = 16 * 2 ^ 30,
     lim_archives = 1024, lim_archive_entries = 100000, lim_archive_unpacked_bytes = 2 * 2 ^ 30, lim_archive_depth = 4,
     lim_text_per_file = 4 * 2 ^ 20, lim_selected_text_bytes = 16 * 2 ^ 20, lim_binary_strings_bytes = 128 * 2 ^ 10,
     lim_findings = 10000, lim_scan_timeout_seconds = 300\<rparr>, bf_vendor_depth = 0, bf_retain_text = True\<rparr>"

definition default_review :: review_config where
  "default_review = \<lparr>rc_mode = mode_deterministic, rc_minimum_confidence = ''high'', rc_minimum_severity = ''high'',
     rc_timeout_seconds = 180, rc_kill_grace_seconds = 5, rc_batch_bytes = 768000, rc_include_recipe_phase = False,
     rc_phases = Some [''sources'', ''artifact'']\<rparr>"

definition default_build :: build_config where
  "default_build = \<lparr>bc_memory_bytes = 8 * 2 ^ 30, bc_cpu_count = 4, bc_tasks_max = 512, bc_timeout_seconds = 2 * 60 * 60,
     bc_workspace_bytes = 16 * 2 ^ 30, bc_workspace_files = 500000, bc_output_bytes = 32 * 2 ^ 20,
     bc_disk_reserve_bytes = 2 * 2 ^ 30\<rparr>"

definition default_ollama :: ollama_config where
  "default_ollama = \<lparr>ol_model = ''qwen3:14b'', ol_context_tokens = 40960, ol_reasoning = ''off'', ol_keep_alive = Some 300,
     ol_timeout_seconds = 300\<rparr>"

definition default_audit_config :: audit_config where
  "default_audit_config = \<lparr>cf_provider = ''codex'', cf_codex = \<lparr>pv_model = ''gpt-5.6-sol'', pv_effort = ''high''\<rparr>,
     cf_anthropic = \<lparr>pv_model = ''sonnet'', pv_effort = ''high''\<rparr>, cf_ollama = default_ollama, cf_review = default_review,
     cf_limits = bf_limits brief_default, cf_build = default_build, cf_network = default_config,
     cf_vendor_depth = bf_vendor_depth brief_default, cf_style = ''brand''\<rparr>"

section \<open>Missing values\<close>

definition or_default :: "'a \<Rightarrow> 'a \<Rightarrow> 'a \<Rightarrow> 'a" where
  "or_default zero d v = (if v = zero then d else v)"

definition normalize_network :: "egress_config \<Rightarrow> egress_config" where
  "normalize_network n = (let d = cf_network default_audit_config in
     n\<lparr>mode := or_default [] (mode d) (mode n),
       prompt_timeout_seconds := or_default 0 (prompt_timeout_seconds d) (prompt_timeout_seconds n),
       grant_scope := or_default [] (grant_scope d) (grant_scope n),
       max_destinations := or_default 0 (max_destinations d) (max_destinations n),
       max_requests := or_default 0 (max_requests d) (max_requests n),
       max_connections := or_default 0 (max_connections d) (max_connections n),
       connect_timeout_seconds := or_default 0 (connect_timeout_seconds d) (connect_timeout_seconds n),
       idle_timeout_seconds := or_default 0 (idle_timeout_seconds d) (idle_timeout_seconds n),
       max_transfer_bytes := or_default 0 (max_transfer_bytes d) (max_transfer_bytes n),
       disk_reserve_bytes := or_default 0 (disk_reserve_bytes d) (disk_reserve_bytes n)\<rparr>)"

definition normalize_ollama :: "ollama_config \<Rightarrow> ollama_config" where
  "normalize_ollama p = (let d = cf_ollama default_audit_config in
     p\<lparr>ol_reasoning := or_default [] (ol_reasoning d) (ol_reasoning p),
       ol_keep_alive := or_default None (ol_keep_alive d) (ol_keep_alive p),
       ol_timeout_seconds := or_default 0 (ol_timeout_seconds d) (ol_timeout_seconds p)\<rparr>)"

definition normalize_review :: "review_config \<Rightarrow> review_config" where
  "normalize_review r =
     r\<lparr>rc_phases := (case rc_phases r of
          None \<Rightarrow> Some (if rc_include_recipe_phase r then [''recipe'', ''sources'', ''artifact''] else [''sources'', ''artifact''])
        | Some ps \<Rightarrow> Some ps),
       rc_include_recipe_phase := False\<rparr>"

definition normalize_config :: "audit_config \<Rightarrow> audit_config" where
  "normalize_config c =
     c\<lparr>cf_network := normalize_network (cf_network c), cf_ollama := normalize_ollama (cf_ollama c),
       cf_review := normalize_review (cf_review c), cf_style := or_default [] ''brand'' (cf_style c)\<rparr>"

section \<open>Which configurations are accepted\<close>

definition provider_ok :: "provider_config \<Rightarrow> bool" where
  "provider_ok p = (\<not> (pv_model p = [] \<or> length (pv_model p) > 256) \<and> valid_effort (pv_effort p))"

definition ollama_ok :: "string \<Rightarrow> ollama_config \<Rightarrow> bool" where
  "ollama_ok provider p =
     (\<not> (provider = ''ollama'' \<and> (ol_model p = [] \<or> length (ol_model p) > 256 \<or> ol_context_tokens p = 0)) \<and>
      \<not> (ol_context_tokens p \<noteq> 0 \<and> (ol_context_tokens p < 16384 \<or> ol_context_tokens p > 262144)) \<and>
      valid_ollama_reasoning (ol_reasoning p) \<and>
      (case ol_keep_alive p of None \<Rightarrow> False | Some k \<Rightarrow> \<not> (k < 0 \<or> k > 3600)) \<and>
      \<not> (ol_timeout_seconds p \<le> 0 \<or> ol_timeout_seconds p > 1800))"

definition phases_ok :: "string list option \<Rightarrow> bool" where
  "phases_ok po = (\<not> (length (slice po) = 0 \<or> length (slice po) > 3) \<and>
     list_all (\<lambda>p. p = ''recipe'' \<or> p = ''sources'' \<or> p = ''artifact'') (slice po) \<and> distinct (slice po))"

definition positive_limits :: "audit_config \<Rightarrow> int list" where
  "positive_limits c = (let l = cf_limits c; b = cf_build c; n = cf_network c in
     [lim_dispatch_bytes l, lim_files l, lim_total_input_bytes l, lim_archives l, lim_archive_entries l,
      lim_archive_unpacked_bytes l, lim_archive_depth l, lim_text_per_file l, lim_selected_text_bytes l,
      lim_binary_strings_bytes l, lim_findings l, lim_scan_timeout_seconds l,
      bc_memory_bytes b, bc_cpu_count b, bc_tasks_max b, bc_timeout_seconds b, bc_workspace_bytes b, bc_workspace_files b,
      bc_output_bytes b, bc_disk_reserve_bytes b,
      max_connections n, connect_timeout_seconds n, idle_timeout_seconds n, max_transfer_bytes n, prompt_timeout_seconds n,
      max_destinations n, max_requests n])"

definition network_ok :: "egress_config \<Rightarrow> bool" where
  "network_ok n = (\<not> (mode n \<noteq> ''prompt'' \<or> grant_scope n \<noteq> ''transaction'' \<or> max_destinations n > 64 \<or>
     max_requests n > 1000000 \<or> max_connections n > 256 \<or> prompt_timeout_seconds n > 3600 \<or>
     connect_timeout_seconds n > 300 \<or> idle_timeout_seconds n > 3600))"

definition config_validate :: "audit_config \<Rightarrow> bool" where
  "config_validate c =
     ((cf_style c = ''brand'' \<or> cf_style c = ''plain'') \<and>
      (rc_mode (cf_review c) = mode_ai \<or> rc_mode (cf_review c) = mode_deterministic) \<and>
      valid_confidence (rc_minimum_confidence (cf_review c)) \<and> valid_severity (rc_minimum_severity (cf_review c)) \<and>
      (cf_provider c = ''codex'' \<or> cf_provider c = ''anthropic'' \<or> cf_provider c = ''ollama'') \<and>
      provider_ok (cf_codex c) \<and> provider_ok (cf_anthropic c) \<and> ollama_ok (cf_provider c) (cf_ollama c) \<and>
      \<not> (rc_timeout_seconds (cf_review c) \<le> 0 \<or> rc_kill_grace_seconds (cf_review c) \<le> 0 \<or> rc_batch_bytes (cf_review c) \<le> 0) \<and>
      phases_ok (rc_phases (cf_review c)) \<and> \<not> rc_include_recipe_phase (cf_review c) \<and>
      list_all (\<lambda>v. 0 < v) (positive_limits c) \<and>
      \<not> rc_batch_bytes (cf_review c) > lim_selected_text_bytes (cf_limits c) \<and>
      \<not> lim_binary_strings_bytes (cf_limits c) > lim_text_per_file (cf_limits c) \<and>
      \<not> (lim_archive_entries (cf_limits c) > lim_files (cf_limits c) \<or>
         lim_archive_unpacked_bytes (cf_limits c) > lim_total_input_bytes (cf_limits c)) \<and>
      \<not> (cf_vendor_depth c < 0 \<or> cf_vendor_depth c > lim_archive_depth (cf_limits c)) \<and>
      \<not> bc_disk_reserve_bytes (cf_build c) \<ge> bc_workspace_bytes (cf_build c) \<and>
      network_ok (cf_network c))"

section \<open>Readers of the configuration\<close>

definition active_provider :: "audit_config \<Rightarrow> provider_config" where
  "active_provider c =
     (if cf_provider c = ''anthropic'' then cf_anthropic c
      else if cf_provider c = ''ollama'' then \<lparr>pv_model = ol_model (cf_ollama c), pv_effort = ol_reasoning (cf_ollama c)\<rparr>
      else cf_codex c)"

definition provider_timeout_seconds :: "audit_config \<Rightarrow> int" where
  "provider_timeout_seconds c =
     (if cf_provider c = ''ollama'' then ol_timeout_seconds (cf_ollama c) else rc_timeout_seconds (cf_review c))"

definition ollama_keep_alive_seconds :: "audit_config \<Rightarrow> int" where
  "ollama_keep_alive_seconds c = (case ol_keep_alive (cf_ollama c) of None \<Rightarrow> 300 | Some k \<Rightarrow> k)"

definition phase_name :: "string \<Rightarrow> string" where
  "phase_name phase = (case map_of [(''pre'', ''recipe''), (''post'', ''sources''), (''artifact'', ''artifact'')] phase of
     Some n \<Rightarrow> n | None \<Rightarrow> [])"

definition review_phase_enabled :: "audit_config \<Rightarrow> string \<Rightarrow> bool" where
  "review_phase_enabled c phase = list_ex (\<lambda>p. p = phase_name phase) (slice (rc_phases (cf_review c)))"

definition to_upper :: "(string \<Rightarrow> string) \<Rightarrow> string \<Rightarrow> string" where
  "to_upper uu s = (if all_ascii s
     then map (\<lambda>c. if CHR ''a'' \<le> c \<and> c \<le> CHR ''z'' then char_of (of_char c - 32 :: nat) else c) s else uu s)"

definition decision_severity_label :: "(string \<Rightarrow> string) \<Rightarrow> string \<Rightarrow> string" where
  "decision_severity_label uu minimum =
     (if minimum = ''high'' then ''HIGH/CRITICAL''
      else to_upper uu minimum @ (if minimum \<noteq> ''critical'' then ''+'' else []))"

definition narrow_config :: "audit_config \<Rightarrow> brief_config" where
  "narrow_config c = \<lparr>bf_limits = cf_limits c, bf_vendor_depth = cf_vendor_depth c,
     bf_retain_text = (rc_mode (cf_review c) \<noteq> mode_deterministic)\<rparr>"

text \<open>StateRoot and ShareRoot: the environment, and whether the home directory is known.\<close>

definition state_root :: "string \<Rightarrow> string option \<Rightarrow> string" where
  "state_root xdg home =
     (if xdg \<noteq> [] then path_join [xdg, ''prolewatch'']
      else (case home of None \<Rightarrow> path_join [''.'', ''.prolewatch-state'']
        | Some h \<Rightarrow> path_join [h, ''.local'', ''state'', ''prolewatch'']))"

definition share_root :: "bool \<Rightarrow> string \<Rightarrow> string" where
  "share_root installed var =
     (if installed then ''/usr/share/prolewatch'' else if var \<noteq> [] then var else ''/usr/share/prolewatch'')"


section \<open>Reading the file\<close>

text \<open>
  What the kernel answers: the open without following links, the first fstat, the content (read up
  to one byte past the limit), the second fstat.
\<close>

record config_read =
  cr_opened :: bool
  cr_before :: "unix_stat option"
  cr_content :: "string option"
  cr_after :: "unix_stat option"

datatype config_error = NotYamlPath | ConfigUnreadable | UnsafeConfigFile | NotRootOwned | ConfigTooLong | ConfigChanged
  | ConfigSyntax | ConfigRejected

definition system_config_path :: string where "system_config_path = ''/etc/prolewatch/config.yaml''"

definition max_config_bytes :: int where "max_config_bytes = 2 ^ 20"

definition read_config :: "string \<Rightarrow> config_read \<Rightarrow> config_error + string" where
  "read_config path r =
     (if \<not> cr_opened r then Inl ConfigUnreadable
      else (case cr_before r of
          None \<Rightarrow> Inl ConfigUnreadable
        | Some b \<Rightarrow>
            if st_mode b AND 0xF000 \<noteq> 0x8000 \<or> st_size b < 0 \<or> st_size b > max_config_bytes \<or> st_mode b AND 0x12 \<noteq> 0
            then Inl UnsafeConfigFile
            else if path_clean path = system_config_path \<and> st_uid b \<noteq> 0 then Inl NotRootOwned
            else (case cr_content r of
                None \<Rightarrow> Inl ConfigTooLong
              | Some raw \<Rightarrow>
                  if int (length raw) > max_config_bytes then Inl ConfigTooLong
                  else (case cr_after r of
                      None \<Rightarrow> Inl ConfigUnreadable
                    | Some a \<Rightarrow> if \<not> same_stat b a \<or> int (length raw) \<noteq> st_size a then Inl ConfigChanged else Inr raw))))"

section \<open>The YAML subset\<close>

datatype yaml_kind = DocumentNode | MappingNode | SequenceNode | ScalarNode | AliasNode

datatype yaml_node = Yaml (yn_kind: yaml_kind) (yn_tag: string) (yn_value: string) (yn_anchor: string) (yn_content: "yaml_node list")

text \<open>What one call of the decoder gives: the end of the input, an error, a document.\<close>

datatype yaml_result = YamlEnd | YamlBroken | YamlDocument yaml_node

definition config_decimal :: "string \<Rightarrow> bool" where
  "config_decimal s = (s = ''0'' \<or>
     (let d = (if has_prefix s ''-'' then drop 1 s else s) in
      d \<noteq> [] \<and> CHR ''1'' \<le> hd d \<and> hd d \<le> CHR ''9'' \<and> list_all is_digit (tl d)))"

definition config_key :: "string \<Rightarrow> bool" where
  "config_key s = (s \<noteq> [] \<and> CHR ''a'' \<le> hd s \<and> hd s \<le> CHR ''z'' \<and>
     list_all (\<lambda>c. (CHR ''a'' \<le> c \<and> c \<le> CHR ''z'') \<or> is_digit c \<or> c = CHR ''_'') (tl s))"

text \<open>
  configYAMLValue. The members keep the order of the file; the code's map is printed sorted, and
  keys are distinct, so the decoding below gives the same.
\<close>

fun yaml_value :: "(string \<Rightarrow> string \<Rightarrow> bool) \<Rightarrow> yaml_node \<Rightarrow> nat \<Rightarrow> json option"
  and yaml_members :: "(string \<Rightarrow> string \<Rightarrow> bool) \<Rightarrow> yaml_node list \<Rightarrow> nat \<Rightarrow> string list \<Rightarrow> (string \<times> json) list option"
  and yaml_items :: "(string \<Rightarrow> string \<Rightarrow> bool) \<Rightarrow> yaml_node list \<Rightarrow> nat \<Rightarrow> json list option" where
  "yaml_value uf (Yaml kind tag val anchor content) depth =
     (if depth > 32 then None
      else if anchor \<noteq> [] \<or> kind = AliasNode then None
      else if kind = MappingNode then
        (if tag \<noteq> ''!!map'' \<or> length content mod 2 \<noteq> 0 then None
         else map_option JObj (yaml_members uf content (depth + 1) []))
      else if kind = SequenceNode then
        (if tag \<noteq> ''!!seq'' then None else map_option JArr (yaml_items uf content (depth + 1)))
      else if kind = ScalarNode then
        (if tag = ''!!str'' then Some (JStr val)
         else if tag = ''!!int'' then (if config_decimal val then Some (JNum val) else None)
         else if tag = ''!!bool'' then
           (if equal_fold uf val ''true'' then Some (JBool True)
            else if equal_fold uf val ''false'' then Some (JBool False) else None)
         else if tag = ''!!null'' then Some JNull
         else None)
      else None)"
| "yaml_members uf [] depth seen = Some []"
| "yaml_members uf [k] depth seen = None"
| "yaml_members uf (k # v # rest) depth seen =
     (if yn_kind k \<noteq> ScalarNode \<or> yn_tag k \<noteq> ''!!str'' \<or> yn_anchor k \<noteq> [] then None
      else if \<not> config_key (yn_value k) then None
      else if yn_value k \<in> set seen then None
      else (case yaml_value uf v depth of
          None \<Rightarrow> None
        | Some j \<Rightarrow> map_option (\<lambda>ms. (yn_value k, j) # ms) (yaml_members uf rest depth (yn_value k # seen))))"
| "yaml_items uf [] depth = Some []"
| "yaml_items uf (v # rest) depth =
     (case yaml_value uf v depth of None \<Rightarrow> None | Some j \<Rightarrow> map_option (\<lambda>js. j # js) (yaml_items uf rest depth))"

section \<open>Decoding into the configuration\<close>

text \<open>A struct inside a value: unknown members are refused, as at the top level.\<close>

definition object_members :: "(string \<Rightarrow> string \<Rightarrow> bool) \<Rightarrow> string list \<Rightarrow> json \<Rightarrow> (string \<times> json) list option" where
  "object_members uf names j = (case j of
      JObj ms \<Rightarrow> if list_all (\<lambda>m. field_of uf names (fst m) \<noteq> None) ms
        then Some (map (\<lambda>(k, v). (the (field_of uf names k), v)) ms) else None
    | JNull \<Rightarrow> Some []
    | _ \<Rightarrow> None)"

definition strings_of_json :: "json \<Rightarrow> string list option option" where
  "strings_of_json j = (case j of
      JArr es \<Rightarrow> if list_all (\<lambda>e. e = JNull \<or> string_of_json e \<noteq> None) es
        then Some (Some (map (\<lambda>e. case e of JStr s \<Rightarrow> s | _ \<Rightarrow> []) es)) else None
    | _ \<Rightarrow> None)"

definition limits_of_json :: "(string \<Rightarrow> string \<Rightarrow> bool) \<Rightarrow> json \<Rightarrow>
  limits_config option" where
  "limits_of_json uf j = do {
     ms \<leftarrow> object_members uf [''max_dispatch_bytes'', ''max_files'', ''max_total_input_bytes'',
       ''max_archives'', ''max_archive_entries'', ''max_archive_unpacked_bytes'', ''max_archive_depth'',
       ''max_text_per_file'', ''max_selected_text_bytes'', ''binary_strings_bytes'', ''max_findings'',
       ''scan_timeout_seconds''] j;
     v0 \<leftarrow> assign int_of_json ''max_dispatch_bytes'' 0 ms;
     v1 \<leftarrow> assign int_of_json ''max_files'' 0 ms;
     v2 \<leftarrow> assign int_of_json ''max_total_input_bytes'' 0 ms;
     v3 \<leftarrow> assign int_of_json ''max_archives'' 0 ms;
     v4 \<leftarrow> assign int_of_json ''max_archive_entries'' 0 ms;
     v5 \<leftarrow> assign int_of_json ''max_archive_unpacked_bytes'' 0 ms;
     v6 \<leftarrow> assign int_of_json ''max_archive_depth'' 0 ms;
     v7 \<leftarrow> assign int_of_json ''max_text_per_file'' 0 ms;
     v8 \<leftarrow> assign int_of_json ''max_selected_text_bytes'' 0 ms;
     v9 \<leftarrow> assign int_of_json ''binary_strings_bytes'' 0 ms;
     v10 \<leftarrow> assign int_of_json ''max_findings'' 0 ms;
     v11 \<leftarrow> assign int_of_json ''scan_timeout_seconds'' 0 ms;
     Some \<lparr>lim_dispatch_bytes = v0, lim_files = v1, lim_total_input_bytes = v2, lim_archives = v3,
       lim_archive_entries = v4, lim_archive_unpacked_bytes = v5, lim_archive_depth = v6, lim_text_per_file = v7,
       lim_selected_text_bytes = v8, lim_binary_strings_bytes = v9, lim_findings = v10, lim_scan_timeout_seconds =
       v11\<rparr>
   }"

definition provider_of_json :: "(string \<Rightarrow> string \<Rightarrow> bool) \<Rightarrow> json
  \<Rightarrow> provider_config option" where
  "provider_of_json uf j = do {
     ms \<leftarrow> object_members uf [''model'', ''effort''] j;
     v0 \<leftarrow> assign string_of_json ''model'' [] ms;
     v1 \<leftarrow> assign string_of_json ''effort'' [] ms;
     Some \<lparr>pv_model = v0, pv_effort = v1\<rparr>
   }"

definition ollama_of_json :: "(string \<Rightarrow> string \<Rightarrow> bool) \<Rightarrow> json \<Rightarrow>
  ollama_config option" where
  "ollama_of_json uf j = do {
     ms \<leftarrow> object_members uf [''model'', ''context_tokens'', ''reasoning'', ''keep_alive_seconds'',
       ''timeout_seconds''] j;
     v0 \<leftarrow> assign string_of_json ''model'' [] ms;
     v1 \<leftarrow> assign int_of_json ''context_tokens'' 0 ms;
     v2 \<leftarrow> assign string_of_json ''reasoning'' [] ms;
     v3 \<leftarrow> assign (map_option Some \<circ> int_of_json) ''keep_alive_seconds'' None ms;
     v4 \<leftarrow> assign int_of_json ''timeout_seconds'' 0 ms;
     Some \<lparr>ol_model = v0, ol_context_tokens = v1, ol_reasoning = v2, ol_keep_alive = v3, ol_timeout_seconds =
       v4\<rparr>
   }"

definition review_of_json :: "(string \<Rightarrow> string \<Rightarrow> bool) \<Rightarrow> json \<Rightarrow>
  review_config option" where
  "review_of_json uf j = do {
     ms \<leftarrow> object_members uf [''mode'', ''minimum_confidence'', ''manual_review_minimum_severity'',
       ''timeout_seconds'', ''kill_grace_seconds'', ''batch_bytes'', ''include_recipe_phase'', ''phases''] j;
     v0 \<leftarrow> assign string_of_json ''mode'' [] ms;
     v1 \<leftarrow> assign string_of_json ''minimum_confidence'' [] ms;
     v2 \<leftarrow> assign string_of_json ''manual_review_minimum_severity'' [] ms;
     v3 \<leftarrow> assign int_of_json ''timeout_seconds'' 0 ms;
     v4 \<leftarrow> assign int_of_json ''kill_grace_seconds'' 0 ms;
     v5 \<leftarrow> assign int_of_json ''batch_bytes'' 0 ms;
     v6 \<leftarrow> assign bool_of_json ''include_recipe_phase'' False ms;
     v7 \<leftarrow> assign strings_of_json ''phases'' None ms;
     Some \<lparr>rc_mode = v0, rc_minimum_confidence = v1, rc_minimum_severity = v2, rc_timeout_seconds = v3,
       rc_kill_grace_seconds = v4, rc_batch_bytes = v5, rc_include_recipe_phase = v6, rc_phases = v7\<rparr>
   }"

definition build_of_json :: "(string \<Rightarrow> string \<Rightarrow> bool) \<Rightarrow> json \<Rightarrow>
  build_config option" where
  "build_of_json uf j = do {
     ms \<leftarrow> object_members uf [''memory_bytes'', ''cpu_count'', ''tasks_max'', ''timeout_seconds'',
       ''workspace_bytes'', ''workspace_files'', ''output_bytes'', ''disk_reserve_bytes''] j;
     v0 \<leftarrow> assign int_of_json ''memory_bytes'' 0 ms;
     v1 \<leftarrow> assign int_of_json ''cpu_count'' 0 ms;
     v2 \<leftarrow> assign int_of_json ''tasks_max'' 0 ms;
     v3 \<leftarrow> assign int_of_json ''timeout_seconds'' 0 ms;
     v4 \<leftarrow> assign int_of_json ''workspace_bytes'' 0 ms;
     v5 \<leftarrow> assign int_of_json ''workspace_files'' 0 ms;
     v6 \<leftarrow> assign int_of_json ''output_bytes'' 0 ms;
     v7 \<leftarrow> assign int_of_json ''disk_reserve_bytes'' 0 ms;
     Some \<lparr>bc_memory_bytes = v0, bc_cpu_count = v1, bc_tasks_max = v2, bc_timeout_seconds = v3,
       bc_workspace_bytes = v4, bc_workspace_files = v5, bc_output_bytes = v6, bc_disk_reserve_bytes = v7\<rparr>
   }"

definition network_of_json :: "(string \<Rightarrow> string \<Rightarrow> bool) \<Rightarrow> json \<Rightarrow>
  egress_config option" where
  "network_of_json uf j = do {
     ms \<leftarrow> object_members uf [''mode'', ''prompt_timeout_seconds'', ''grant_scope'', ''max_destinations'',
       ''max_requests'', ''max_connections'', ''connect_timeout_seconds'', ''idle_timeout_seconds'',
       ''max_transfer_bytes'', ''disk_reserve_bytes''] j;
     v0 \<leftarrow> assign string_of_json ''mode'' [] ms;
     v1 \<leftarrow> assign int_of_json ''prompt_timeout_seconds'' 0 ms;
     v2 \<leftarrow> assign string_of_json ''grant_scope'' [] ms;
     v3 \<leftarrow> assign int_of_json ''max_destinations'' 0 ms;
     v4 \<leftarrow> assign int_of_json ''max_requests'' 0 ms;
     v5 \<leftarrow> assign int_of_json ''max_connections'' 0 ms;
     v6 \<leftarrow> assign int_of_json ''connect_timeout_seconds'' 0 ms;
     v7 \<leftarrow> assign int_of_json ''idle_timeout_seconds'' 0 ms;
     v8 \<leftarrow> assign int_of_json ''max_transfer_bytes'' 0 ms;
     v9 \<leftarrow> assign int_of_json ''disk_reserve_bytes'' 0 ms;
     Some (zero_config\<lparr>mode := v0, prompt_timeout_seconds := v1, grant_scope := v2, max_destinations := v3, max_requests := v4,
       max_connections := v5, connect_timeout_seconds := v6, idle_timeout_seconds := v7, max_transfer_bytes := v8,
       disk_reserve_bytes := v9\<rparr>)
   }"

definition zero_limits :: limits_config where
  "zero_limits = \<lparr>lim_dispatch_bytes = 0, lim_files = 0, lim_total_input_bytes = 0, lim_archives = 0, lim_archive_entries = 0,
     lim_archive_unpacked_bytes = 0, lim_archive_depth = 0, lim_text_per_file = 0, lim_selected_text_bytes = 0,
     lim_binary_strings_bytes = 0, lim_findings = 0, lim_scan_timeout_seconds = 0\<rparr>"

definition zero_provider :: provider_config where "zero_provider = \<lparr>pv_model = [], pv_effort = []\<rparr>"

definition zero_ollama :: ollama_config where
  "zero_ollama = \<lparr>ol_model = [], ol_context_tokens = 0, ol_reasoning = [], ol_keep_alive = None, ol_timeout_seconds = 0\<rparr>"

definition zero_review :: review_config where
  "zero_review = \<lparr>rc_mode = [], rc_minimum_confidence = [], rc_minimum_severity = [], rc_timeout_seconds = 0,
     rc_kill_grace_seconds = 0, rc_batch_bytes = 0, rc_include_recipe_phase = False, rc_phases = None\<rparr>"

definition zero_build :: build_config where
  "zero_build = \<lparr>bc_memory_bytes = 0, bc_cpu_count = 0, bc_tasks_max = 0, bc_timeout_seconds = 0, bc_workspace_bytes = 0,
     bc_workspace_files = 0, bc_output_bytes = 0, bc_disk_reserve_bytes = 0\<rparr>"

definition providers_of_json ::
  "(string \<Rightarrow> string \<Rightarrow> bool) \<Rightarrow> json \<Rightarrow> (provider_config \<times> provider_config \<times> ollama_config) option" where
  "providers_of_json uf j = do {
     ms \<leftarrow> object_members uf [''codex'', ''anthropic'', ''ollama''] j;
     c \<leftarrow> assign (provider_of_json uf) ''codex'' zero_provider ms;
     a \<leftarrow> assign (provider_of_json uf) ''anthropic'' zero_provider ms;
     p \<leftarrow> assign (ollama_of_json uf) ''ollama'' zero_ollama ms;
     Some (c, a, p)
   }"

definition depth_of_json :: "(string \<Rightarrow> string \<Rightarrow> bool) \<Rightarrow> json \<Rightarrow> int option" where
  "depth_of_json uf j = do { ms \<leftarrow> object_members uf [''scan_depth''] j; assign int_of_json ''scan_depth'' 0 ms }"

definition style_of_json :: "(string \<Rightarrow> string \<Rightarrow> bool) \<Rightarrow> json \<Rightarrow> string option" where
  "style_of_json uf j = do { ms \<leftarrow> object_members uf [''style''] j; assign string_of_json ''style'' [] ms }"

definition config_of_json :: "(string \<Rightarrow> string \<Rightarrow> bool) \<Rightarrow> json \<Rightarrow> audit_config option" where
  "config_of_json uf j = do {
     ms \<leftarrow> object_members uf [''provider'', ''providers'', ''review'', ''limits'', ''build'', ''network'', ''vendor'', ''terminal''] j;
     p \<leftarrow> assign string_of_json ''provider'' [] ms;
     ps \<leftarrow> assign (providers_of_json uf) ''providers'' (zero_provider, zero_provider, zero_ollama) ms;
     r \<leftarrow> assign (review_of_json uf) ''review'' zero_review ms;
     l \<leftarrow> assign (limits_of_json uf) ''limits'' zero_limits ms;
     b \<leftarrow> assign (build_of_json uf) ''build'' zero_build ms;
     n \<leftarrow> assign (network_of_json uf) ''network'' zero_config ms;
     d \<leftarrow> assign (depth_of_json uf) ''vendor'' 0 ms;
     t \<leftarrow> assign (style_of_json uf) ''terminal'' [] ms;
     Some \<lparr>cf_provider = p, cf_codex = fst ps, cf_anthropic = fst (snd ps), cf_ollama = snd (snd ps), cf_review = r,
       cf_limits = l, cf_build = b, cf_network = n, cf_vendor_depth = d, cf_style = t\<rparr>
   }"

text \<open>decodeConfigYAML on the first two results of the YAML decoder.\<close>

definition decode_config_yaml :: "(string \<Rightarrow> string \<Rightarrow> bool) \<Rightarrow> yaml_result \<times> yaml_result \<Rightarrow> audit_config option" where
  "decode_config_yaml uf results = (case results of
      (YamlDocument document, YamlEnd) \<Rightarrow>
        if yn_kind document \<noteq> DocumentNode \<or> length (yn_content document) \<noteq> 1 \<or> yn_kind (hd (yn_content document)) \<noteq> MappingNode
        then None
        else Option.bind (yaml_value uf (hd (yn_content document)) 0) (config_of_json uf)
    | _ \<Rightarrow> None)"

definition load_config ::
  "(string \<Rightarrow> string \<Rightarrow> bool) \<Rightarrow> (string \<Rightarrow> yaml_result \<times> yaml_result) \<Rightarrow> string \<Rightarrow> config_read \<Rightarrow> config_error + audit_config" where
  "load_config uf yaml path r =
     (let path = (if path = [] then system_config_path else path) in
      if path_ext path \<noteq> ''.yaml'' then Inl NotYamlPath
      else (case read_config path r of
          Inl e \<Rightarrow> Inl e
        | Inr raw \<Rightarrow> (case decode_config_yaml uf (yaml raw) of
              None \<Rightarrow> Inl ConfigSyntax
            | Some c \<Rightarrow> if config_validate (normalize_config c) then Inr (normalize_config c) else Inl ConfigRejected)))"

section \<open>The shipped configuration\<close>

definition ys :: "string \<Rightarrow> yaml_node" where "ys v = Yaml ScalarNode ''!!str'' v [] []"

definition yi :: "string \<Rightarrow> yaml_node" where "yi v = Yaml ScalarNode ''!!int'' v [] []"

definition ym :: "(string \<times> yaml_node) list \<Rightarrow> yaml_node" where
  "ym ms = Yaml MappingNode ''!!map'' [] [] (concat (map (\<lambda>(k, v). [ys k, v]) ms))"

text \<open>The nodes of share/default-config.yaml.\<close>

definition shipped_document :: yaml_node where
  "shipped_document = Yaml DocumentNode [] [] [] [ym
     [(''provider'', ys ''codex''),
      (''providers'', ym
        [(''codex'', ym [(''model'', ys ''gpt-5.6-sol''), (''effort'', ys ''high'')]),
         (''anthropic'', ym [(''model'', ys ''sonnet''), (''effort'', ys ''high'')]),
         (''ollama'', ym [(''model'', ys ''qwen3:14b''), (''context_tokens'', yi ''40960''), (''reasoning'', ys ''off''),
            (''keep_alive_seconds'', yi ''300''), (''timeout_seconds'', yi ''300'')])]),
      (''review'', ym
        [(''mode'', ys ''deterministic-only''), (''minimum_confidence'', ys ''high''),
         (''manual_review_minimum_severity'', ys ''high''), (''timeout_seconds'', yi ''180''),
         (''kill_grace_seconds'', yi ''5''), (''batch_bytes'', yi ''768000''),
         (''phases'', Yaml SequenceNode ''!!seq'' [] [] [ys ''sources'', ys ''artifact''])]),
      (''limits'', ym
        [(''max_dispatch_bytes'', yi ''20971520''), (''max_files'', yi ''200000''),
         (''max_total_input_bytes'', yi ''17179869184''), (''max_archives'', yi ''1024''),
         (''max_archive_entries'', yi ''100000''), (''max_archive_unpacked_bytes'', yi ''2147483648''),
         (''max_archive_depth'', yi ''4''), (''max_text_per_file'', yi ''4194304''),
         (''max_selected_text_bytes'', yi ''16777216''), (''binary_strings_bytes'', yi ''131072''),
         (''max_findings'', yi ''10000''), (''scan_timeout_seconds'', yi ''300'')]),
      (''build'', ym
        [(''memory_bytes'', yi ''8589934592''), (''cpu_count'', yi ''4''), (''tasks_max'', yi ''512''),
         (''timeout_seconds'', yi ''7200''), (''workspace_bytes'', yi ''17179869184''), (''workspace_files'', yi ''500000''),
         (''output_bytes'', yi ''33554432''), (''disk_reserve_bytes'', yi ''2147483648'')]),
      (''network'', ym
        [(''mode'', ys ''prompt''), (''prompt_timeout_seconds'', yi ''300''), (''grant_scope'', ys ''transaction''),
         (''max_destinations'', yi ''8''), (''max_requests'', yi ''100000''), (''max_connections'', yi ''32''),
         (''connect_timeout_seconds'', yi ''15''), (''idle_timeout_seconds'', yi ''60''),
         (''max_transfer_bytes'', yi ''8589934592''), (''disk_reserve_bytes'', yi ''2147483648'')]),
      (''vendor'', ym [(''scan_depth'', yi ''0'')]),
      (''terminal'', ym [(''style'', ys ''brand'')])]]"

text \<open>The shipped file decodes to the built-in defaults, which are accepted and need no filling in.\<close>

lemma shipped_decodes: "decode_config_yaml uf (YamlDocument shipped_document, YamlEnd) = Some default_audit_config"
  by code_simp

lemma default_accepted: "config_validate default_audit_config"
  by code_simp

lemma default_normal: "normalize_config default_audit_config = default_audit_config"
  by code_simp

section \<open>Properties\<close>

lemma load_config_valid: "load_config uf yaml path r = Inr c \<Longrightarrow> config_validate c"
  by (auto simp: load_config_def Let_def split: if_splits sum.splits option.splits)

lemma validate_network: "config_validate c \<Longrightarrow> valid_broker_config (cf_network c\<lparr>allowed_hosts := hs\<rparr>)"
  by (simp add: config_validate_def valid_broker_config_def network_ok_def positive_limits_def Let_def)

lemma validate_build: "config_validate c \<Longrightarrow> enforcement_validate (effective_build_limits m (cf_build c))"
  by (simp add: config_validate_def enforcement_validate_def effective_build_limits_def positive_limits_def Let_def
      terminations_def split: option.splits)

text \<open>A configuration file that loads cannot stop a build half-way: whatever closed set of ASCII
  hosts (none ending in two dots) a phase has, if the launcher accepts it the broker it starts finds
  nothing to refuse in the policy, and on every machine the sandbox limits computed from the file
  are ones a report may record.\<close>

lemma loaded_config_runs:
  assumes "load_config uf yaml path r = Inr c"
    and "allowed_argument ul (cf_network c\<lparr>allowed_hosts := hosts\<rparr>) = Inr a"
    and "\<forall>h \<in> set hosts. all_ascii h \<and> \<not> has_suffix h ''..''"
  shows "broker_start ul True True True ''/broker-client/proxy.sock'' ''/broker-control/prompt.sock''
      (carried_config ul (cf_network c\<lparr>allowed_hosts := hosts\<rparr>)) = None \<and>
    enforcement_validate (effective_build_limits m (cf_build c))"
proof
  have v: "config_validate c" using assms(1) by (rule load_config_valid)
  show "broker_start ul True True True ''/broker-client/proxy.sock'' ''/broker-control/prompt.sock''
      (carried_config ul (cf_network c\<lparr>allowed_hosts := hosts\<rparr>)) = None"
    using broker_launch_accepted[OF validate_network[OF v] assms(2)] assms(3) by simp
  show "enforcement_validate (effective_build_limits m (cf_build c))" using v by (rule validate_build)
qed

end
