(* ===== verification/Policy.thy ===== *)
theory Policy
  imports Config
begin

text \<open>
  internal/audit/policy.go: the decision about one phase of one package. The deterministic
  assessment, what the optional reviewer may add, the one-time approval, the report that records
  all of it, and the exit status. SHA-256 is \<open>sha\<close>; the reviewer, the clock, the disk and the
  process table are arguments.
\<close>

section \<open>What is decided about\<close>

record inventory =
  iv_root :: string
  iv_phase :: string
  iv_files :: "file_record list"
  iv_findings :: "finding list"
  iv_exclusions :: "string list"
  iv_manifest_hash :: string
  iv_coverage :: coverage
  iv_yay_context :: yay_context
  iv_manifest_diff :: "manifest_change list"
  iv_sources :: "source_provenance list"
  iv_verification :: source_verification

definition iv_scan :: "inventory \<Rightarrow> finding list \<times> coverage" where
  "iv_scan iv = (iv_findings iv, iv_coverage iv)"

section \<open>The deterministic assessment\<close>

record assessment =
  as_decision :: string
  as_approval_eligible :: bool
  as_hard_block :: bool
  as_decision_block :: bool
  as_structural_block :: bool

definition assess_deterministic_at ::
  "(string \<Rightarrow> string) \<Rightarrow> inventory option \<Rightarrow> string \<Rightarrow> string list \<Rightarrow> assessment" where
  "assess_deterministic_at sha io minimum carried =
     (let structural = structural_block (map_option iv_scan io);
          a0 = \<lparr>as_decision = ''block'', as_approval_eligible = False, as_hard_block = False, as_decision_block = False,
            as_structural_block = structural\<rparr> in
      case io of
        None \<Rightarrow> a0
      | Some iv \<Rightarrow>
          if \<not> valid_severity minimum then a0
          else
            let hard = list_ex f_hard_block (iv_findings iv);
                deciding = list_ex (\<lambda>f. finding_guidance_id sha f \<notin> set carried \<and> severity_at_least (f_severity f) minimum)
                  (iv_findings iv);
                decision = (if cov_complete (iv_coverage iv) \<and> \<not> hard \<and> \<not> deciding then ''allow'' else ''block'')
            in \<lparr>as_decision = decision,
                as_approval_eligible = (decision = ''block'' \<and> iv_manifest_hash iv \<noteq> [] \<and> \<not> structural),
                as_hard_block = hard, as_decision_block = deciding, as_structural_block = structural\<rparr>)"

definition assess_deterministic :: "(string \<Rightarrow> string) \<Rightarrow> inventory option \<Rightarrow> assessment" where
  "assess_deterministic sha io = assess_deterministic_at sha io ''high'' []"

section \<open>The reviewer's part\<close>

record provider_metadata =
  pm_provider :: string
  pm_transport :: string
  pm_runtime_version :: string
  pm_model :: string
  pm_model_digest :: string
  pm_context_tokens :: int
  pm_thinking :: bool
  pm_effort :: string
  pm_adapter_policy :: string
  pm_warning :: string

definition no_metadata :: provider_metadata where
  "no_metadata = \<lparr>pm_provider = [], pm_transport = [], pm_runtime_version = [], pm_model = [], pm_model_digest = [],
     pm_context_tokens = 0, pm_thinking = False, pm_effort = [], pm_adapter_policy = [], pm_warning = []\<rparr>"

text \<open>What makes two findings the same to a reader.\<close>

definition content_key :: "finding \<Rightarrow> string \<times> string \<times> string \<times> string \<times> string \<times> int option" where
  "content_key f = (f_severity f, f_category f, f_file f, f_evidence f, f_rationale f, f_line f)"

definition model_finding :: "review_finding \<Rightarrow> finding" where
  "model_finding rf = \<lparr>f_source = ''ai'', f_severity = rf_severity rf, f_category = rf_category rf, f_file = rf_file rf,
     f_line = rf_line rf, f_evidence = rf_evidence rf, f_rationale = rf_rationale rf, f_rule_id = ''ai-review'',
     f_hard_block = False\<rparr>"

fun model_findings ::
  "(string \<times> string \<times> string \<times> string \<times> string \<times> int option) list \<Rightarrow> review_finding list \<Rightarrow> finding list" where
  "model_findings seen [] = []"
| "model_findings seen (rf # rfs) =
     (let f = model_finding rf in
      if content_key f \<in> set seen then model_findings seen rfs else f # model_findings (content_key f # seen) rfs)"

definition verdict_blocks :: "review_config \<Rightarrow> verdict \<Rightarrow> bool" where
  "verdict_blocks cfg v =
     (v_verdict v \<noteq> ''allow'' \<or> \<not> confidence_at_least (v_confidence v) (rc_minimum_confidence cfg) \<or>
      v_prompt_injection v \<or> slice (v_coverage_notes v) \<noteq> [] \<or>
      list_ex (\<lambda>f. severity_at_least (rf_severity f) (rc_minimum_severity cfg)) (slice (v_findings v)))"

definition ai_minimum_confidence :: "review_config \<Rightarrow> string" where
  "ai_minimum_confidence cfg = (if rc_mode cfg = mode_ai then rc_minimum_confidence cfg else [])"

section \<open>The summary\<close>

definition join_degradations :: "string list \<Rightarrow> string" where
  "join_degradations vs = join_with ''; '' (filter (\<lambda>v. v \<noteq> []) (map trim_space vs))"

definition verdict_complaint :: "string \<Rightarrow> verdict \<Rightarrow> string option" where
  "verdict_complaint minimum v =
     (if v_prompt_injection v then Some ''Blocked because AI review detected prompt injection.''
      else if slice (v_coverage_notes v) \<noteq> [] then Some ''Blocked because AI review reported incomplete coverage.''
      else if v_verdict v = ''block'' then Some ''Blocked by AI security review.''
      else if \<not> confidence_at_least (v_confidence v) minimum
      then Some (''Blocked because AI confidence '' @ v_confidence v @ '' is below the configured minimum '' @ minimum @ ''.'')
      else None)"

text \<open>\<open>carried\<close> holds the identities decided at an earlier phase; \<open>uu\<close> is upper-casing outside ASCII.\<close>

definition policy_summary ::
  "(string \<Rightarrow> string) \<Rightarrow> (string \<Rightarrow> string) \<Rightarrow> review_config \<Rightarrow> inventory \<Rightarrow> verdict list \<Rightarrow> string \<Rightarrow> bool \<Rightarrow> string list \<Rightarrow> string" where
  "policy_summary sha uu cfg iv vs review_error overridden carried =
     (let hard = length (filter f_hard_block (iv_findings iv));
          minimum = rc_minimum_severity cfg;
          deciding = length (filter (\<lambda>f. severity_at_least (f_severity f) minimum \<and> finding_guidance_id sha f \<notin> set carried)
            (iv_findings iv));
          carried_count = length (remdups carried);
          carried_text = ''No new decision is required; '' @ show_nat carried_count @
            '' unchanged finding(s) were approved at the recipe gate.'';
          severe = length (filter (\<lambda>f. severity_at_least (rf_severity f) minimum) (concat (map (slice \<circ> v_findings) vs)));
          lowest = lowest_verdict_confidence vs in
      if overridden then ''Allowed by an exact, one-time user approval.''
      else if review_error \<noteq> [] then ''AI review unavailable; this briefing is deterministic only: '' @ review_error
      else if hard > 0 then ''Blocked by '' @ show_nat hard @ '' structural finding(s), which an approval may not cross.''
      else if \<not> cov_complete (iv_coverage iv) then ''Blocked because audit coverage is incomplete.''
      else if rc_mode cfg = mode_deterministic then
        (if deciding > 0 then show_nat deciding @ '' finding(s) at '' @ to_upper uu minimum @
           '' or above need your decision; read them before approving.''
         else if carried_count > 0 then carried_text
         else ''No blocking findings. Medium and low findings below are worth reading.'')
      else (case List.map_filter (verdict_complaint (rc_minimum_confidence cfg)) vs of
          complaint # _ \<Rightarrow> complaint
        | [] \<Rightarrow>
            if deciding > 0 then show_nat deciding @ '' deterministic finding(s) at '' @ to_upper uu minimum @
              '' or above need your decision; read them before approving.''
            else if severe > 0 then show_nat severe @ '' AI finding(s) at '' @ to_upper uu minimum @ '' or above need your decision.''
            else if carried_count > 0 then carried_text
            else if lowest \<noteq> [] \<and> lowest \<noteq> ''high''
            then ''No blocking findings. AI review agreed at '' @ lowest @ '' confidence (minimum '' @ rc_minimum_confidence cfg @
              ''); it did not decide this.''
            else ''No blocking findings. Read the description below before installing.''))"

section \<open>The service\<close>

definition exit_policy_block :: int where "exit_policy_block = 10"
definition exit_bad_invocation :: int where "exit_bad_invocation = 20"
definition exit_inspection_failure :: int where "exit_inspection_failure = 21"
definition exit_review_unavailable :: int where "exit_review_unavailable = 22"
definition exit_state_failure :: int where "exit_state_failure = 23"
definition exit_execution_failure :: int where "exit_execution_failure = 24"

record review_options =
  ro_skip :: "string list"
  ro_trigger :: string

type_synonym reviewer = "string \<Rightarrow> string \<Rightarrow> inventory \<Rightarrow> review_options \<Rightarrow> string + provider_metadata \<times> verdict list"

record audit_service =
  sv_config :: audit_config
  sv_reviewer :: "reviewer option"
  sv_metadata :: provider_metadata
  sv_fingerprint :: string
  sv_archive_probe :: tool_identity
  sv_initialization_error :: string
  sv_coverage_error :: string

section \<open>Evaluating a phase\<close>

text \<open>
  The world during one evaluation: cancellation before it and after the review; the approvals
  directory and the consumer's kernel; the two parts of the report name, if there is randomness;
  the transaction, if it can be read; the clock; the disk; the running processes.
\<close>

record eval_env =
  ee_cancelled :: bool
  ee_review_cancelled :: bool
  ee_listing :: listing
  ee_spend :: spend_env
  ee_stamp :: string
  ee_random :: "string option"
  ee_transaction :: "process_identity option"
  ee_now :: string
  ee_disk :: disk
  ee_live :: "process_identity \<Rightarrow> bool"

definition new_report_id :: "string \<Rightarrow> string option \<Rightarrow> string \<Rightarrow> string option" where
  "new_report_id stamp random content =
     (if length content < 12 then None
      else map_option (\<lambda>r. stamp @ ''-'' @ take 12 content @ ''-'' @ r) random)"

definition authorization_source ::
  "(string \<Rightarrow> string \<Rightarrow> bool) \<Rightarrow> (string \<Rightarrow> string) \<Rightarrow> audit_fs \<Rightarrow> approval_token option \<Rightarrow> string \<Rightarrow> report option" where
  "authorization_source uf sha fs to kind = (case to of
      None \<Rightarrow> None
    | Some t \<Rightarrow>
        if at_kind t \<noteq> kind then None
        else (case report_load uf sha (fs_reports fs) (at_source_report t) of
            None \<Rightarrow> None
          | Some r \<Rightarrow>
              if r_package_base r \<noteq> at_package_base t \<or> r_phase r \<noteq> at_phase t \<or> r_content_hash r \<noteq> at_content_hash t \<or>
                 r_policy_fingerprint r \<noteq> at_policy_fingerprint t then None
              else if kind \<noteq> ''approval'' \<or> \<not> r_approval_eligible r then None
              else Some r))"

text \<open>A nil reviewer that is called ends the process.\<close>

datatype outcome = Crashed | Failed int | Reported report int

definition skip_text :: "string \<Rightarrow> string" where
  "skip_text phase = phase_name phase @ '' phase is not included in AI review '' @ [CHR 0xC2, CHR 0xB7] @
     '' set review.phases to add it''"

definition review_limit :: nat where "review_limit = 4 * 1024"

text \<open>The review, when it takes place: the metadata, verdicts and error that go into the report.\<close>

definition take_review :: "audit_service \<Rightarrow> string + provider_metadata \<times> verdict list \<Rightarrow> provider_metadata \<times> verdict list \<times> string" where
  "take_review svc answer = (case answer of
      Inl e \<Rightarrow> (sv_metadata svc, [], e)
    | Inr (m, vs) \<Rightarrow>
        if m \<noteq> sv_metadata svc
        then (sv_metadata svc, [], ''provider metadata changed between compatibility probe and review'')
        else if vs = [] then (sv_metadata svc, [], ''provider review returned no verdict'')
        else (m, vs, []))"

definition mark_deterministic :: "inventory \<Rightarrow> inventory" where
  "mark_deterministic iv = iv\<lparr>iv_findings := map (\<lambda>f. f\<lparr>f_source := ''deterministic''\<rparr>) (iv_findings iv)\<rparr>"

definition carried_ids_of :: "carried_decision option \<Rightarrow> string list" where
  "carried_ids_of carried = (case carried of None \<Rightarrow> [] | Some c \<Rightarrow> map cb_finding_id (cd_findings c))"

text \<open>The report of one evaluation, from everything that was decided before it is written.\<close>

definition build_report ::
  "(string \<Rightarrow> string) \<Rightarrow> (string \<Rightarrow> string) \<Rightarrow> audit_service \<Rightarrow> eval_env \<Rightarrow> assessment \<Rightarrow> string \<Rightarrow> string \<Rightarrow> inventory \<Rightarrow>
     carried_decision option \<Rightarrow> string \<Rightarrow> bool \<Rightarrow> string \<Rightarrow> process_identity \<Rightarrow> provider_metadata \<Rightarrow> verdict list \<Rightarrow> string \<Rightarrow> string \<Rightarrow> bool \<Rightarrow> report" where
  "build_report sha uu svc world deterministic package_base phase iv carried review_root force report_id transaction metadata vs
       review_error skipped overridden =
     (let cfg = cf_review (sv_config svc);
          carried_ids = carried_ids_of carried;
          found = model_findings (map content_key (iv_findings iv)) (concat (map (slice \<circ> v_findings) vs));
          allowed = (overridden \<or> as_decision deterministic = ''allow'') \<and>
            \<not> (rc_mode cfg = mode_ai \<and> \<not> overridden \<and> list_ex (verdict_blocks cfg) vs)
      in \<lparr>r_schema_version = report_schema_version, r_report_id = report_id, r_created_at = ee_now world,
          r_transaction = transaction, r_package_base = package_base, r_phase = phase,
          r_decision = (if allowed then ''allow'' else ''block''),
          r_disposition = (if allowed then if overridden then ''override'' else ''allow'' else ''block''),
          r_summary = policy_summary sha uu cfg iv vs review_error overridden carried_ids,
          r_content_hash = iv_manifest_hash iv, r_policy_fingerprint = sv_fingerprint svc,
          r_scanner_version = scanner_version, r_rules_version = rules_version, r_application_version = application_version,
          r_reviewer = \<lparr>rr_mode = rc_mode cfg, rr_phases = (if rc_mode cfg = mode_ai then slice (rc_phases cfg) else []),
            rr_minimum_confidence = ai_minimum_confidence cfg, rr_provider = pm_provider metadata,
            rr_transport = pm_transport metadata, rr_runtime_version = pm_runtime_version metadata,
            rr_model = pm_model metadata, rr_model_digest = pm_model_digest metadata,
            rr_context_tokens = pm_context_tokens metadata, rr_thinking = pm_thinking metadata,
            rr_effort = pm_effort metadata, rr_adapter_policy = pm_adapter_policy metadata, rr_error = review_error,
            rr_trigger = (if force then review_trigger_on_demand else []), rr_skipped = skipped, rr_verdicts = vs\<rparr>,
          r_coverage = iv_coverage iv, r_exclusions = iv_exclusions iv,
          r_manifest = Some (map manifest_value (iv_files iv)), r_review_root = review_root,
          r_findings = sort_findings (iv_findings iv @ found), r_overridden = overridden,
          r_approval_eligible = (\<not> allowed \<and> iv_manifest_hash iv \<noteq> [] \<and> \<not> as_structural_block deterministic \<and>
            sv_coverage_error svc = [] \<and> \<not> verdicts_have_prompt_injection vs),
          r_network_eligible = (allowed \<and> phase = ''post'' \<and> iv_manifest_hash iv \<noteq> []),
          r_carried = carried, r_artifact_bindings = [], r_acquired_hosts = [], r_stripped = [],
          r_archive_probe = sv_archive_probe svc, r_sandbox_runs = [], r_yay_context = iv_yay_context iv,
          r_manifest_diff = iv_manifest_diff iv, r_sources = iv_sources iv, r_verification = iv_verification iv\<rparr>)"

definition evaluation_request :: "audit_service \<Rightarrow> string \<Rightarrow> string \<Rightarrow> inventory \<Rightarrow> spend_request" where
  "evaluation_request svc package_base phase iv = \<lparr>sr_kind = ''approval'', sr_package_base = package_base, sr_phase = phase,
     sr_content_hash = iv_manifest_hash iv, sr_fingerprint = sv_fingerprint svc\<rparr>"

text \<open>
  The approval of this very snapshot, if there is one: a token is spent, and the report it came
  from is read again. \<open>None\<close> is an error; the token stays spent.
\<close>

definition evaluation_authority ::
  "(string \<Rightarrow> string \<Rightarrow> bool) \<Rightarrow> (string \<Rightarrow> string) \<Rightarrow> audit_service \<Rightarrow> eval_env \<Rightarrow> string \<Rightarrow> string \<Rightarrow> inventory \<Rightarrow>
     assessment \<Rightarrow> audit_fs \<Rightarrow> report option option \<times> audit_fs" where
  "evaluation_authority uf sha svc world package_base phase iv deterministic fs =
     (if as_structural_block deterministic then (Some None, fs)
      else (case approval_consume (ee_listing world) (evaluation_request svc package_base phase iv) (ee_spend world) fs of
          (Inl e, fs) \<Rightarrow> (None, fs)
        | (Inr token, fs) \<Rightarrow>
            if token \<noteq> None \<and> iv_manifest_hash iv \<noteq> []
            then (case authorization_source uf sha fs token ''approval'' of None \<Rightarrow> (None, fs) | Some source \<Rightarrow> (Some (Some source), fs))
            else (Some None, fs)))"

text \<open>The review: what it contributes, unless the process ends or is cancelled in it.\<close>

datatype review_stage = ReviewCrashed | ReviewCancelled | Reviewed provider_metadata "verdict list" string string

definition evaluation_review ::
  "audit_service \<Rightarrow> eval_env \<Rightarrow> string \<Rightarrow> string \<Rightarrow> inventory \<Rightarrow> assessment \<Rightarrow> carried_decision option \<Rightarrow> bool \<Rightarrow>
     report option \<Rightarrow> review_stage" where
  "evaluation_review svc world package_base phase iv deterministic carried force source =
     (let ai = (rc_mode (cf_review (sv_config svc)) = mode_ai);
          vs = (case source of None \<Rightarrow> [] | Some r \<Rightarrow> rr_verdicts (r_reviewer r));
          error = (case source of None \<Rightarrow> join_degradations [sv_initialization_error svc, sv_coverage_error svc]
            | Some r \<Rightarrow> rr_error (r_reviewer r));
          skipped = (if ai \<and> \<not> force \<and> \<not> review_phase_enabled (sv_config svc) phase then skip_text phase else []) in
      if ai \<and> \<not> as_hard_block deterministic \<and> source = None \<and> error = [] \<and> skipped = [] then
        (case sv_reviewer svc of
           None \<Rightarrow> ReviewCrashed
         | Some ask \<Rightarrow>
             if ee_review_cancelled world then ReviewCancelled
             else (case take_review svc (ask package_base phase iv
                 \<lparr>ro_skip = carried_ids_of carried, ro_trigger = (if force then review_trigger_on_demand else [])\<rparr>) of
               (m, vs, error) \<Rightarrow> Reviewed m vs (take review_limit error) skipped))
      else Reviewed (sv_metadata svc) vs (take review_limit error) skipped)"

text \<open>Recording: the report is built and saved, and the exit status follows from it.\<close>

definition evaluation_record ::
  "(string \<Rightarrow> string \<Rightarrow> bool) \<Rightarrow> (string \<Rightarrow> string) \<Rightarrow> eval_env \<Rightarrow> string \<Rightarrow> (string \<Rightarrow> process_identity \<Rightarrow> report) \<Rightarrow> string \<Rightarrow>
     audit_fs \<Rightarrow> outcome \<times> audit_fs" where
  "evaluation_record uf sha world content draft error fs =
     (case new_report_id (ee_stamp world) (ee_random world) content of
        None \<Rightarrow> (Failed exit_state_failure, fs)
      | Some report_id \<Rightarrow> (case ee_transaction world of
          None \<Rightarrow> (Failed exit_state_failure, fs)
        | Some transaction \<Rightarrow>
            let r = draft report_id transaction in
            (case report_save uf sha (ee_live world) (ee_disk world) (Some r) fs of
               (Inl e, fs) \<Rightarrow> (Failed exit_state_failure, fs)
             | (Inr u, fs) \<Rightarrow>
                 (Reported r (if r_decision r = ''allow'' then 0
                    else if error \<noteq> [] then exit_review_unavailable else exit_policy_block), fs))))"

definition evaluation_assessment :: "(string \<Rightarrow> string) \<Rightarrow> audit_service \<Rightarrow> inventory \<Rightarrow> carried_decision option \<Rightarrow> assessment" where
  "evaluation_assessment sha svc iv carried =
     assess_deterministic_at sha (Some iv) (rc_minimum_severity (cf_review (sv_config svc))) (carried_ids_of carried)"

text \<open>evaluate: the outcome and the store afterwards.\<close>

definition evaluate ::
  "(string \<Rightarrow> string \<Rightarrow> bool) \<Rightarrow> (string \<Rightarrow> string) \<Rightarrow> (string \<Rightarrow> string) \<Rightarrow> audit_service \<Rightarrow> eval_env \<Rightarrow> string \<Rightarrow> string \<Rightarrow>
     inventory \<Rightarrow> carried_decision option \<Rightarrow> string \<Rightarrow> bool \<Rightarrow> audit_fs \<Rightarrow> outcome \<times> audit_fs" where
  "evaluate uf sha uu svc world package_base phase scanned carried review_root force fs =
     (if ee_cancelled world then (Failed exit_execution_failure, fs)
      else if \<not> validate_package_base package_base then (Failed exit_bad_invocation, fs)
      else
        let iv = mark_deterministic scanned; deterministic = evaluation_assessment sha svc iv carried in
        (case evaluation_authority uf sha svc world package_base phase iv deterministic fs of
           (None, fs) \<Rightarrow> (Failed exit_state_failure, fs)
         | (Some source, fs) \<Rightarrow>
             (case evaluation_review svc world package_base phase iv deterministic carried force source of
                ReviewCrashed \<Rightarrow> (Crashed, fs)
              | ReviewCancelled \<Rightarrow> (Failed exit_execution_failure, fs)
              | Reviewed metadata vs error skipped \<Rightarrow>
                  evaluation_record uf sha world (iv_manifest_hash iv)
                    (\<lambda>report_id transaction. build_report sha uu svc world deterministic package_base phase iv
                       (if source = None then carried else None) review_root force report_id transaction metadata vs error
                       skipped (source \<noteq> None)) error fs)))"

section \<open>Lemmas\<close>

lemma evaluation_record_reported:
  "evaluation_record uf sha world content draft error fs = (Reported r status, fs') \<longleftrightarrow>
     (\<exists>rid t. new_report_id (ee_stamp world) (ee_random world) content = Some rid \<and> ee_transaction world = Some t \<and>
        r = draft rid t \<and> report_save uf sha (ee_live world) (ee_disk world) (Some r) fs = (Inr (), fs') \<and>
        status = (if r_decision r = ''allow'' then 0 else if error \<noteq> [] then exit_review_unavailable else exit_policy_block))"
  by (auto simp: evaluation_record_def Let_def split: option.splits prod.splits sum.splits)

lemma evaluate_reported:
  assumes "evaluate uf sha uu svc world pb phase scanned carried root force fs = (Reported r status, fs')"
  obtains source fs1 metadata vs error skipped rid t where
    "validate_package_base pb"
    "evaluation_authority uf sha svc world pb phase (mark_deterministic scanned)
       (evaluation_assessment sha svc (mark_deterministic scanned) carried) fs = (Some source, fs1)"
    "evaluation_review svc world pb phase (mark_deterministic scanned)
       (evaluation_assessment sha svc (mark_deterministic scanned) carried) carried force source = Reviewed metadata vs error skipped"
    "new_report_id (ee_stamp world) (ee_random world) (iv_manifest_hash scanned) = Some rid" "ee_transaction world = Some t"
    "r = build_report sha uu svc world (evaluation_assessment sha svc (mark_deterministic scanned) carried) pb phase
       (mark_deterministic scanned) (if source = None then carried else None) root force rid t metadata vs error skipped (source \<noteq> None)"
    "report_save uf sha (ee_live world) (ee_disk world) (Some r) fs1 = (Inr (), fs')"
    "status = (if r_decision r = ''allow'' then 0 else if error \<noteq> [] then exit_review_unavailable else exit_policy_block)"
proof -
  have h: "iv_manifest_hash (mark_deterministic scanned) = iv_manifest_hash scanned" by (simp add: mark_deterministic_def)
  show thesis using assms that
    by (auto simp: evaluate_def Let_def h evaluation_record_reported split: if_splits prod.splits option.splits review_stage.splits)
qed

text \<open>What spending leaves alone, and what a spent token was.\<close>

lemma spend_names_reports: "spend_names q kern fs ns = (x, fs') \<Longrightarrow> fs_reports fs' = fs_reports fs"
  by (induction q kern fs ns rule: spend_names.induct) (auto simp: Let_def split: if_splits option.splits node.splits)

lemma spend_names_token:
  "spend_names q kern fs ns = (Inr (Some t'), fs') \<Longrightarrow>
     \<exists>n t. map_of (fs_pending fs) n = Some (Doc t) \<and> token_matches q t \<and> t' = t\<lparr>at_consumed_at := env_now kern\<rparr> \<and>
       fs_pending fs' = AList.delete n (fs_pending fs)"
  by (induction q kern fs ns rule: spend_names.induct)
    (simp, fastforce simp: Let_def split: if_splits option.splits node.splits)

lemma consume_reports: "approval_consume l q kern fs = (x, fs') \<Longrightarrow> fs_reports fs' = fs_reports fs"
  using spend_names_reports by (auto simp: approval_consume_def split: listing.splits)

lemma consume_token:
  "approval_consume l q kern fs = (Inr (Some t'), fs') \<Longrightarrow>
     \<exists>n t. map_of (fs_pending fs) n = Some (Doc t) \<and> token_matches q t \<and> t' = t\<lparr>at_consumed_at := env_now kern\<rparr> \<and>
       fs_pending fs' = AList.delete n (fs_pending fs)"
  using spend_names_token by (auto simp: approval_consume_def split: listing.splits)

lemma save_pending: "report_save uf sha live k ro fs = (x, fs') \<Longrightarrow> fs_pending fs' = fs_pending fs"
  by (auto simp: report_save_def prune_fields split: option.splits if_splits)

text \<open>An approval that is used was waiting, names this snapshot under this policy, and comes from an eligible report.\<close>

definition spent_approval ::
  "(string \<Rightarrow> string \<Rightarrow> bool) \<Rightarrow> (string \<Rightarrow> string) \<Rightarrow> spend_request \<Rightarrow> audit_fs \<Rightarrow> audit_fs \<Rightarrow> report \<Rightarrow> bool" where
  "spent_approval uf sha q fs fs' source \<longleftrightarrow>
     (\<exists>n t. map_of (fs_pending fs) n = Some (Doc t) \<and> token_matches q t \<and> map_of (fs_pending fs') n = None \<and>
        report_load uf sha (fs_reports fs) (at_source_report t) = Some source \<and> r_approval_eligible source \<and>
        r_package_base source = sr_package_base q \<and> r_phase source = sr_phase q \<and> r_content_hash source = sr_content_hash q \<and>
        r_policy_fingerprint source = sr_fingerprint q)"

lemma authority_spent:
  assumes "evaluation_authority uf sha svc world pb phase iv det fs = (Some (Some source), fs1)" "fs_pending fs' = fs_pending fs1"
  shows "\<not> as_structural_block det \<and> iv_manifest_hash iv \<noteq> [] \<and> spent_approval uf sha (evaluation_request svc pb phase iv) fs fs' source"
proof -
  from assms(1) obtain tok where c: "\<not> as_structural_block det" "iv_manifest_hash iv \<noteq> []"
    "approval_consume (ee_listing world) (evaluation_request svc pb phase iv) (ee_spend world) fs = (Inr (Some tok), fs1)"
    "authorization_source uf sha fs1 (Some tok) ''approval'' = Some source"
    by (auto simp: evaluation_authority_def split: if_splits prod.splits sum.splits option.splits)
  from consume_token[OF c(3)] obtain n t where t: "map_of (fs_pending fs) n = Some (Doc t)"
    "token_matches (evaluation_request svc pb phase iv) t" "tok = t\<lparr>at_consumed_at := env_now (ee_spend world)\<rparr>"
    "fs_pending fs1 = AList.delete n (fs_pending fs)" by blast
  have "map_of (fs_pending fs') n = None" using t(4) assms(2) by (simp add: AList.delete_conv)
  with c t consume_reports[OF c(3)] show ?thesis
    by (auto simp: spent_approval_def authorization_source_def token_matches_def evaluation_request_def
      intro!: exI[of _ n] exI[of _ t] split: if_splits option.splits)
qed

lemma authority_structural: "as_structural_block det \<Longrightarrow> evaluation_authority uf sha svc world pb phase iv det fs = (Some None, fs)"
  by (simp add: evaluation_authority_def)

lemma build_report_fields:
  "r_decision (build_report sha uu svc world det pb phase iv carried root force rid t m vs e sk overridden) =
     (if (overridden \<or> as_decision det = ''allow'') \<and>
       \<not> (rc_mode (cf_review (sv_config svc)) = mode_ai \<and> \<not> overridden \<and> list_ex (verdict_blocks (cf_review (sv_config svc))) vs)
      then ''allow'' else ''block'')"
  "r_overridden (build_report sha uu svc world det pb phase iv carried root force rid t m vs e sk overridden) = overridden"
  "rr_verdicts (r_reviewer (build_report sha uu svc world det pb phase iv carried root force rid t m vs e sk overridden)) = vs"
  "r_content_hash (build_report sha uu svc world det pb phase iv carried root force rid t m vs e sk overridden) = iv_manifest_hash iv"
  "r_approval_eligible (build_report sha uu svc world det pb phase iv carried root force rid t m vs e sk overridden) \<Longrightarrow>
     \<not> as_structural_block det"
  by (simp_all add: build_report_def Let_def)

lemma assess_allow:
  "as_decision (assess_deterministic_at sha (Some iv) minimum carried) = ''allow'' \<Longrightarrow>
     cov_complete (iv_coverage iv) \<and> (\<forall>f \<in> set (iv_findings iv). \<not> f_hard_block f \<and>
       (severity_at_least (f_severity f) minimum \<longrightarrow> finding_guidance_id sha f \<in> set carried))"
  by (auto simp: assess_deterministic_at_def Let_def list_ex_iff split: if_splits)

lemma assess_structural: "as_structural_block (assess_deterministic_at sha (Some iv) minimum carried) = structural_block (Some (iv_scan iv))"
  by (simp add: assess_deterministic_at_def Let_def)

lemma mark_structural: "structural_block (Some (iv_scan (mark_deterministic iv))) = structural_block (Some (iv_scan iv))"
  by (simp add: structural_block_def iv_scan_def mark_deterministic_def structural_finding_def list.pred_map comp_def list_ex_iff)

section \<open>Properties\<close>

text \<open>C17: a phase is allowed by exactly one of two authorities. Either a one-time approval for this
  package, phase, content and policy was waiting, is now gone, and came from an eligible report of the
  same snapshot; or the scan is complete, no finding is a hard block, every finding at the decision
  threshold was already decided at an earlier phase, and with AI review on no verdict objects - so a
  reviewer can withhold the allowance but never give it. Structural evidence admits no approval, neither
  spent nor offered, and the exit status is 0 exactly for an allowed report.\<close>

theorem allow_needs_authority:
  assumes "evaluate uf sha uu svc world pb phase scanned carried root force fs = (Reported r status, fs')"
  defines "iv \<equiv> mark_deterministic scanned" and "cfg \<equiv> cf_review (sv_config svc)"
  shows "(r_decision r = ''allow'' \<longleftrightarrow> status = 0) \<and>
    (r_decision r = ''allow'' \<longrightarrow>
       (if r_overridden r
        then \<exists>source. spent_approval uf sha (evaluation_request svc pb phase iv) fs fs' source
        else cov_complete (iv_coverage iv) \<and>
          (\<forall>f \<in> set (iv_findings iv). \<not> f_hard_block f \<and>
             (severity_at_least (f_severity f) (rc_minimum_severity cfg) \<longrightarrow> finding_guidance_id sha f \<in> set (carried_ids_of carried))) \<and>
          (rc_mode cfg = mode_ai \<longrightarrow> \<not> list_ex (verdict_blocks cfg) (rr_verdicts (r_reviewer r))))) \<and>
    (structural_block (Some (iv_scan scanned)) \<longrightarrow> \<not> r_overridden r \<and> \<not> r_approval_eligible r)"
proof -
  from assms(1) obtain source fs1 metadata vs error skipped rid t where e:
    "evaluation_authority uf sha svc world pb phase iv (evaluation_assessment sha svc iv carried) fs = (Some source, fs1)"
    "r = build_report sha uu svc world (evaluation_assessment sha svc iv carried) pb phase iv
       (if source = None then carried else None) root force rid t metadata vs error skipped (source \<noteq> None)"
    "report_save uf sha (ee_live world) (ee_disk world) (Some r) fs1 = (Inr (), fs')"
    "status = (if r_decision r = ''allow'' then 0 else if error \<noteq> [] then exit_review_unavailable else exit_policy_block)"
    unfolding iv_def by (rule evaluate_reported)
  have "\<exists>src. spent_approval uf sha (evaluation_request svc pb phase iv) fs fs' src" if "r_overridden r"
  proof (cases source)
    case None
    with that e(2) show ?thesis by (simp add: build_report_fields)
  next
    case (Some a)
    with authority_spent[OF _ save_pending[OF e(3)]] e(1) show ?thesis by blast
  qed
  moreover have "source = None" if "structural_block (Some (iv_scan scanned))"
    using that e(1) authority_structural[of "evaluation_assessment sha svc iv carried"]
    by (simp add: evaluation_assessment_def assess_structural iv_def mark_structural)
  ultimately show ?thesis
    using assess_allow[of sha iv "rc_minimum_severity cfg" "carried_ids_of carried"] e(4)
    by (auto simp: e(2) build_report_fields evaluation_assessment_def cfg_def exit_review_unavailable_def exit_policy_block_def
      assess_structural iv_def mark_structural dest!: build_report_fields(5) split: if_splits)
qed

end
