(* ===== verification/Service.thy ===== *)
theory Service
  imports Policy
begin

text \<open>
  internal/audit/policy.go, ComputePolicyFingerprint and NewAuditService: what the policy identity of
  a decision covers, and which services the start-up can produce when the reviewer, the archive
  parser or the attestation fails.
\<close>

section \<open>The policy fingerprint\<close>

definition jint :: "int \<Rightarrow> json" where "jint i = JNum (show_int i)"

definition limits_json :: "limits_config \<Rightarrow> json" where
  "limits_json l = JObj
     [(''max_dispatch_bytes'', jint (lim_dispatch_bytes l)), (''max_files'', jint (lim_files l)),
      (''max_total_input_bytes'', jint (lim_total_input_bytes l)), (''max_archives'', jint (lim_archives l)),
      (''max_archive_entries'', jint (lim_archive_entries l)), (''max_archive_unpacked_bytes'', jint (lim_archive_unpacked_bytes l)),
      (''max_archive_depth'', jint (lim_archive_depth l)), (''max_text_per_file'', jint (lim_text_per_file l)),
      (''max_selected_text_bytes'', jint (lim_selected_text_bytes l)), (''binary_strings_bytes'', jint (lim_binary_strings_bytes l)),
      (''max_findings'', jint (lim_findings l)), (''scan_timeout_seconds'', jint (lim_scan_timeout_seconds l))]"

definition build_json :: "build_config \<Rightarrow> json" where
  "build_json b = JObj
     [(''memory_bytes'', jint (bc_memory_bytes b)), (''cpu_count'', jint (bc_cpu_count b)), (''tasks_max'', jint (bc_tasks_max b)),
      (''timeout_seconds'', jint (bc_timeout_seconds b)), (''workspace_bytes'', jint (bc_workspace_bytes b)),
      (''workspace_files'', jint (bc_workspace_files b)), (''output_bytes'', jint (bc_output_bytes b)),
      (''disk_reserve_bytes'', jint (bc_disk_reserve_bytes b))]"

definition network_json :: "egress_config \<Rightarrow> json" where
  "network_json n = JObj
     [(''mode'', JStr (mode n)), (''prompt_timeout_seconds'', jint (prompt_timeout_seconds n)), (''grant_scope'', JStr (grant_scope n)),
      (''max_destinations'', jint (max_destinations n)), (''max_requests'', jint (max_requests n)),
      (''max_connections'', jint (max_connections n)), (''connect_timeout_seconds'', jint (connect_timeout_seconds n)),
      (''idle_timeout_seconds'', jint (idle_timeout_seconds n)), (''max_transfer_bytes'', jint (max_transfer_bytes n)),
      (''disk_reserve_bytes'', jint (disk_reserve_bytes n))]"

definition tool_json :: "tool_identity \<Rightarrow> json" where
  "tool_json t = JObj [(''path'', JStr (tool_path t)), (''version'', JStr (tool_version t)), (''sha256'', JStr (tool_sha256 t))]"

definition review_json :: "review_config \<Rightarrow> json" where
  "review_json r = JObj
     ([(''mode'', JStr (rc_mode r)), (''minimum_confidence'', JStr (rc_minimum_confidence r)),
       (''manual_review_minimum_severity'', JStr (rc_minimum_severity r)), (''timeout_seconds'', jint (rc_timeout_seconds r)),
       (''kill_grace_seconds'', jint (rc_kill_grace_seconds r)), (''batch_bytes'', jint (rc_batch_bytes r))] @
      (if rc_include_recipe_phase r then [(''include_recipe_phase'', JBool True)] else []) @
      [(''phases'', case rc_phases r of None \<Rightarrow> JNull | Some ps \<Rightarrow> JArr (map JStr ps))])"

definition provider_json :: "provider_config \<Rightarrow> json" where
  "provider_json p = JObj [(''model'', JStr (pv_model p)), (''effort'', JStr (pv_effort p))]"

definition ollama_json :: "ollama_config \<Rightarrow> json" where
  "ollama_json p = JObj [(''model'', JStr (ol_model p)), (''context_tokens'', jint (ol_context_tokens p)),
     (''reasoning'', JStr (ol_reasoning p)), (''keep_alive_seconds'', case ol_keep_alive p of None \<Rightarrow> JNull | Some k \<Rightarrow> jint k),
     (''timeout_seconds'', jint (ol_timeout_seconds p))]"

definition active_provider_policy :: "audit_config \<Rightarrow> json" where
  "active_provider_policy c = (if cf_provider c = ''ollama'' then ollama_json (cf_ollama c) else provider_json (active_provider c))"

definition review_snapshot_version :: int where "review_snapshot_version = 10"

text \<open>The threat bundle's identity and the digests of the prompt and schema files come from outside.\<close>

record policy_assets =
  pa_bundle :: "json option"
  pa_prompt :: "string option"
  pa_schema :: "string option"

definition base_material :: "audit_config \<Rightarrow> tool_identity \<Rightarrow> json \<Rightarrow> (string \<times> json) list" where
  "base_material c probe bundle =
     [(''application_version'', JStr application_version), (''report_schema_version'', jint report_schema_version),
      (''review_snapshot_version'', jint review_snapshot_version), (''scanner_version'', jint scanner_version),
      (''rules_version'', jint rules_version), (''review_mode'', JStr (rc_mode (cf_review c))),
      (''limits'', limits_json (cf_limits c)), (''build'', build_json (cf_build c)), (''network'', network_json (cf_network c)),
      (''vendor'', JObj [(''scan_depth'', jint (cf_vendor_depth c))]), (''archive_probe'', tool_json probe),
      (''threat_bundle'', bundle)]"

definition ai_material :: "audit_config \<Rightarrow> provider_metadata \<Rightarrow> string \<Rightarrow> string \<Rightarrow> (string \<times> json) list" where
  "ai_material c m prompt schema =
     [(''provider'', JStr (cf_provider c)), (''provider_config'', active_provider_policy c), (''review'', review_json (cf_review c)),
      (''runtime_version'', JStr (pm_runtime_version m)), (''model_digest'', JStr (pm_model_digest m)),
      (''context_tokens'', jint (pm_context_tokens m)), (''thinking'', JBool (pm_thinking m)),
      (''adapter_policy'', JStr (pm_adapter_policy m)), (''prompt_sha256'', JStr prompt), (''schema_sha256'', JStr schema)]"

text \<open>A map is printed with its keys sorted.\<close>

definition compute_policy_fingerprint ::
  "(string \<Rightarrow> string) \<Rightarrow> policy_assets \<Rightarrow> audit_config \<Rightarrow> provider_metadata \<Rightarrow> tool_identity \<Rightarrow> string option" where
  "compute_policy_fingerprint sha assets c m probe =
     (case pa_bundle assets of
        None \<Rightarrow> None
      | Some bundle \<Rightarrow>
          if rc_mode (cf_review c) = mode_ai then
            (case (pa_prompt assets, pa_schema assets) of
               (Some prompt, Some schema) \<Rightarrow>
                 Some (sha (show_json (JObj (sort_key fst (base_material c probe bundle @ ai_material c m prompt schema)))))
             | _ \<Rightarrow> None)
          else Some (sha (show_json (JObj (sort_key fst (base_material c probe bundle))))))"

section \<open>Starting the service\<close>

text \<open>
  What start-up meets: the probe of the reviewer, cancellation after a failed probe, before the
  archive parser and after its failure; the archive parser; the files; the attestation fingerprint;
  the identity of the provider binary; why its attestation cannot be used, if it cannot.
\<close>

record service_world =
  sw_probe :: "string + provider_metadata"
  sw_cancelled :: "bool \<times> bool \<times> bool"
  sw_archive :: "string + tool_identity"
  sw_assets :: policy_assets
  sw_attestation_fingerprint :: "string option"
  sw_binary :: "string + tool_identity"
  sw_unattested :: "string option"

definition unavailable_metadata :: "audit_config \<Rightarrow> provider_metadata" where
  "unavailable_metadata c = no_metadata\<lparr>pm_provider := cf_provider c,
     pm_transport := (if cf_provider c = ''ollama'' then ''http-loopback'' else ''cli''), pm_runtime_version := ''unavailable'',
     pm_model := pv_model (active_provider c), pm_effort := pv_effort (active_provider c), pm_adapter_policy := ''unavailable'',
     pm_context_tokens := (if cf_provider c = ''ollama'' then ol_context_tokens (cf_ollama c) else 0)\<rparr>"

text \<open>The reviewer stage: the error, the reviewer, its metadata, and whether an attestation is required.\<close>

definition probe_stage ::
  "audit_config \<Rightarrow> reviewer option \<Rightarrow> reviewer \<Rightarrow> service_world \<Rightarrow> (string \<times> reviewer option \<times> provider_metadata \<times> bool) option" where
  "probe_stage c given factory w =
     (if rc_mode (cf_review c) = mode_ai then
        (case sw_probe w of
           Inl e \<Rightarrow>
             if fst (sw_cancelled w) then None
             else Some (''provider compatibility probe failed; AI review disabled for this run: '' @ e, None, unavailable_metadata c, False)
         | Inr m \<Rightarrow> Some ([], Some (case given of None \<Rightarrow> factory | Some r \<Rightarrow> r), m, given = None))
      else Some ([], None, no_metadata, False))"

definition archive_stage :: "(string \<Rightarrow> string) \<Rightarrow> service_world \<Rightarrow> (string \<times> tool_identity) option" where
  "archive_stage sha w = (case sw_archive w of
      Inl e \<Rightarrow> if snd (snd (sw_cancelled w)) then None
        else Some (''archive probe unavailable: '' @ e,
          \<lparr>tool_path = ''/usr/bin/bsdtar'', tool_version = ''unavailable'', tool_sha256 = sha e\<rparr>)
    | Inr t \<Rightarrow> Some ([], t))"

text \<open>The attestation stage: an unattested reviewer is dropped, and the reason is kept.\<close>

definition attestation_stage ::
  "service_world \<Rightarrow> string \<times> reviewer option \<times> provider_metadata \<times> bool \<Rightarrow> string \<times> reviewer option" where
  "attestation_stage w s = (case s of (error, reviewer, m, required) \<Rightarrow>
     if \<not> required then (error, reviewer)
     else (case sw_binary w of
         Inl e \<Rightarrow> (''provider identity validation failed; AI review disabled for this run: '' @ e, None)
       | Inr b \<Rightarrow> (case sw_unattested w of
           Some e \<Rightarrow> (''provider attestation validation failed; AI review disabled for this run: '' @ e, None)
         | None \<Rightarrow> (error, reviewer))))"

definition new_audit_service ::
  "(string \<Rightarrow> string) \<Rightarrow> audit_config \<Rightarrow> reviewer option \<Rightarrow> reviewer \<Rightarrow> service_world \<Rightarrow> audit_service option" where
  "new_audit_service sha c given factory w =
     (case probe_stage c given factory w of
        None \<Rightarrow> None
      | Some probed \<Rightarrow>
          if fst (snd (sw_cancelled w)) then None
          else (case archive_stage sha w of
              None \<Rightarrow> None
            | Some (coverage_error, parser) \<Rightarrow>
                let m = fst (snd (snd probed)) in
                (case compute_policy_fingerprint sha (sw_assets w) c m parser of
                   None \<Rightarrow> None
                 | Some fingerprint \<Rightarrow>
                     if rc_mode (cf_review c) = mode_ai \<and> sw_attestation_fingerprint w = None then None
                     else (case attestation_stage w probed of (error, reviewer) \<Rightarrow>
                       Some \<lparr>sv_config = c, sv_reviewer = reviewer, sv_metadata = m, sv_fingerprint = fingerprint,
                         sv_archive_probe = parser, sv_initialization_error = trim_prefix error ''; '',
                         sv_coverage_error = coverage_error\<rparr>))))"

section \<open>Lemmas\<close>

lemma decode_last_rune_shape:
  "snd (decode_last_rune s) \<le> 1 \<or> decode_last_rune s = decode_rune (drop (length s - snd (decode_last_rune s)) s)"
proof -
  define f where "f k = (let d = decode_rune (drop (length s - k) s) in if snd d \<noteq> k then (rune_error, 1) else d)" for k
  have f: "snd (f k) \<le> 1 \<or> f k = decode_rune (drop (length s - snd (f k)) s)" for k
    by (cases "snd (decode_rune (drop (length s - k) s)) = k") (simp_all add: f_def)
  have "decode_last_rune s = (rune_error, 0) \<or> decode_last_rune s = (code (last s), 1) \<or> (\<exists>k. decode_last_rune s = f k)"
    unfolding decode_last_rune_def Let_def f_def by (cases "s = []"; cases "code (last s) < 0x80") (simp_all, blast)
  then show ?thesis using f by (elim disjE exE) (simp, simp, metis)
qed

lemma decode_last_rune_short:
  assumes "code c < 128" "s \<noteq> []" shows "snd (decode_last_rune (c # s)) < length (c # s)"
proof (rule ccontr)
  assume n: "\<not> ?thesis"
  then have l: "snd (decode_last_rune (c # s)) = length (c # s)" using decode_last_rune_size[of "c # s"] by simp
  then have "decode_last_rune (c # s) = decode_rune (c # s)" using decode_last_rune_shape[of "c # s"] assms(2) by simp
  then show False using l decode_rune_ascii[OF assms(1), of s] assms(2) by simp
qed

lemma trim_space_right_keeps:
  assumes "33 \<le> code c" "code c < 127" shows "trim_space_right (c # s) \<noteq> []"
proof (induction "length s" arbitrary: s rule: less_induct)
  case less
  show ?case
  proof (cases "s = []")
    case True
    have "\<not> is_space_rune (code c)" using assms by (auto simp: is_space_rune_def)
    then show ?thesis using assms True by (subst trim_space_right.simps) (simp add: decode_last_rune_def)
  next
    case False
    let ?k = "snd (decode_last_rune (c # s))"
    have k: "0 < ?k" "?k < length (c # s)" using decode_last_rune_size[of "c # s"] decode_last_rune_short[OF _ False] assms by auto
    then have t: "take (length (c # s) - ?k) (c # s) = c # take (length s - ?k) s" by (simp add: Suc_diff_le)
    have "trim_space_right (c # take (length s - ?k) s) \<noteq> []" using k(1) False by (intro less) simp
    then show ?thesis by (subst trim_space_right.simps) (simp add: t[simplified])
  qed
qed

lemma trim_space_keeps: "33 \<le> code c \<Longrightarrow> code c < 127 \<Longrightarrow> trim_space (c # s) \<noteq> []"
proof -
  assume c: "33 \<le> code c" "code c < 127"
  have "\<not> is_space_rune (code c)" using c by (auto simp: is_space_rune_def)
  then have "trim_space_left (c # s) = c # s" using c by (subst trim_space_left.simps) (simp add: decode_rune_ascii)
  then show ?thesis using trim_space_right_keeps[OF c] by (simp add: trim_space_def)
qed

lemma join_degradations_named: "33 \<le> code c \<Longrightarrow> code c < 127 \<Longrightarrow> join_degradations [c # e, x] \<noteq> []"
  by (simp add: join_degradations_def trim_space_keeps)

lemma new_service_fields:
  assumes "new_audit_service sha c given factory w = Some svc"
  shows "sv_config svc = c" and
    "rc_mode (cf_review c) = mode_ai \<Longrightarrow> sv_reviewer svc = None \<Longrightarrow> \<exists>e. sv_initialization_error svc = CHR ''p'' # e" and
    "sv_reviewer svc \<noteq> None \<Longrightarrow> rc_mode (cf_review c) = mode_ai \<and> sw_probe w = Inr (sv_metadata svc) \<and>
       (given = None \<longrightarrow> (\<exists>b. sw_binary w = Inr b) \<and> sw_unattested w = None)"
  using assms
  by (auto simp: new_audit_service_def probe_stage_def attestation_stage_def Let_def trim_prefix_def
    split: option.splits if_splits sum.splits prod.splits)

section \<open>Properties\<close>

text \<open>C21: whatever fails while the service starts, an evaluation never calls a reviewer that is not there,
  and a reviewer it does call was probed successfully and, unless the caller supplied it, has an identity
  and an attestation: a reviewer that could not be attested is dropped, not used with a note.\<close>

theorem only_attested_reviewers:
  assumes "new_audit_service sha c given factory w = Some svc"
  shows "fst (evaluate uf sha uu svc world pb phase scanned carried root force fs) \<noteq> Crashed \<and>
    (sv_reviewer svc \<noteq> None \<longrightarrow> rc_mode (cf_review c) = mode_ai \<and> sw_probe w = Inr (sv_metadata svc) \<and>
       (given = None \<longrightarrow> (\<exists>b. sw_binary w = Inr b) \<and> sw_unattested w = None))"
proof -
  note f = new_service_fields[OF assms]
  have "evaluation_review svc world pb phase iv det carried force source \<noteq> ReviewCrashed" for iv det source
    using f(2) join_degradations_named[of "CHR ''p''"]
    by (auto simp: evaluation_review_def Let_def f(1) split: option.splits prod.splits)
  moreover have "fst (evaluation_record uf sha world content draft error fs') \<noteq> Crashed" for content draft error fs'
    by (simp add: evaluation_record_def Let_def split: option.split prod.split sum.split)
  ultimately have "fst (evaluate uf sha uu svc world pb phase scanned carried root force fs) \<noteq> Crashed"
    by (simp add: evaluate_def Let_def split: option.split prod.split review_stage.split)
  with f(3) show ?thesis by blast
qed

definition example_assets :: policy_assets where
  "example_assets = \<lparr>pa_bundle = Some JNull, pa_prompt = Some example_digest, pa_schema = Some example_digest\<rparr>"

definition ai_config :: audit_config where
  "ai_config = default_audit_config\<lparr>cf_review := default_review\<lparr>rc_mode := mode_ai\<rparr>\<rparr>"

definition attested_world :: service_world where
  "attested_world = \<lparr>sw_probe = Inr no_metadata, sw_cancelled = (False, False, False), sw_archive = Inr (r_archive_probe example_report),
     sw_assets = example_assets, sw_attestation_fingerprint = Some example_digest, sw_binary = Inr (r_archive_probe example_report),
     sw_unattested = None\<rparr>"

theorem only_attested_reviewers_witness:
  "\<exists>svc. new_audit_service (\<lambda>_. example_digest) ai_config None (\<lambda>_ _ _ _. Inl ''down'') attested_world = Some svc \<and>
     sv_reviewer svc \<noteq> None \<and> sw_probe attested_world = Inr (sv_metadata svc)"
proof -
  let ?new = "new_audit_service (\<lambda>_. example_digest) ai_config None (\<lambda>_ _ _ _. Inl ''down'') attested_world"
  have "?new \<noteq> None \<and> sv_reviewer (the ?new) \<noteq> None" by code_simp
  then obtain svc where s: "?new = Some svc" "sv_reviewer svc \<noteq> None" by auto
  with only_attested_reviewers[OF s(1)] show ?thesis by blast
qed

text \<open>
  In the default mode the decision threshold is not part of the fingerprint: two policies that decide
  differently about the same scan have the same identity, so a decision made under one stands under
  the other.
\<close>

lemma fingerprint_ignores_threshold:
  assumes "rc_mode (cf_review c) = mode_deterministic"
  shows "compute_policy_fingerprint sha assets (c\<lparr>cf_review := (cf_review c)\<lparr>rc_minimum_severity := s\<rparr>\<rparr>) m probe =
    compute_policy_fingerprint sha assets c m probe"
  using assms by (cases "pa_bundle assets") (simp_all add: compute_policy_fingerprint_def base_material_def mode_ai_def mode_deterministic_def)

end
