(* ===== verification/Approval_Flow.thy ===== *)
theory Approval_Flow
  imports Policy
begin

text \<open>
  The whole life of a question: a phase is evaluated and needs a decision, the user approves the
  report, and the same snapshot is evaluated again. Also where this breaks: evaluations whose report
  the store refuses.
\<close>

section \<open>A report that differs only in who decided\<close>

lemma str_index_infix: "s = a @ p @ b \<Longrightarrow> str_index s p \<noteq> None"
proof (induction s arbitrary: a)
  case (Cons c s)
  show ?case
  proof (cases a)
    case Nil
    with Cons.prems have "has_prefix (c # s) p" by (simp add: has_prefix_iff)
    then show ?thesis by simp
  next
    case (Cons x a')
    with Cons.prems Cons.IH[of a'] show ?thesis by simp
  qed
qed simp

lemma id_carries_new: "new_report_id stamp random content = Some rid \<Longrightarrow> id_carries rid content"
  using str_index_infix[of _ stamp "''-'' @ take 12 content @ ''-''"]
  by (auto simp: new_report_id_def id_carries_def str_contains_def split: if_splits)

text \<open>The parts of the validation that an approval leaves as they were.\<close>

lemma overridden_validate:
  assumes v: "report_validate uf sha r" and phase: "r_network_eligible r' = (r_phase r = ''post'' \<and> r_content_hash r \<noteq> [])"
    and r': "r' = r\<lparr>r_report_id := rid, r_created_at := now, r_transaction := t, r_decision := ''allow'',
      r_disposition := ''override'', r_summary := s, r_reviewer := (r_reviewer r)\<lparr>rr_trigger := trigger, rr_skipped := skipped\<rparr>,
      r_overridden := True, r_approval_eligible := False, r_network_eligible := r_network_eligible r', r_carried := None\<rparr>"
    and id: "report_id_match rid" "id_carries rid (r_content_hash r)" "valid_rfc3339 now" "s \<noteq> []" "length s \<le> 8192"
    and t: "0 < pid t" "start_time t \<noteq> []" "boot_id t \<noteq> []"
    and trigger: "trigger = [] \<or> trigger = review_trigger_on_demand \<and> rr_trigger (r_reviewer r) = review_trigger_on_demand"
  shows "report_validate uf sha r'"
proof -
  have head: "report_head_valid r'" using v id t by (subst r') (auto simp: report_validate_def report_head_valid_def)
  have tr: "trigger = [] \<or> rr_trigger (r_reviewer r) \<noteq> []" using trigger by (auto simp: review_trigger_on_demand_def)
  have rv: "reviewer_valid (r_reviewer r')"
    using v tr trigger by (subst r') (auto simp: report_validate_def reviewer_valid_def cli_reviewer_def ollama_reviewer_def ollama_unavailable_def
      mode_ai_def mode_deterministic_def split: if_splits)
  have ev: "evidence_valid r'" using v by (subst r') (simp add: report_validate_def evidence_valid_def report_counts_valid_def)
  from v obtain entries where en: "manifest_index uf sha (slice (r_manifest r)) Map.empty = Some entries"
    "sha (show_json (manifest_json (r_manifest r))) = r_content_hash r" "bindings_valid sha r entries" "advisory_valid r"
    by (auto simp: report_validate_def split: option.splits)
  have b: "bindings_valid sha r' entries" using en(3) by (subst r') (auto simp: bindings_valid_def Let_def)
  have a: "advisory_valid r'" using en(4) by (subst r') (simp add: advisory_valid_def)
  have el: "eligibility_valid r'" using phase by (subst r') (simp add: eligibility_valid_def)
  have same: "r_manifest r' = r_manifest r" "r_content_hash r' = r_content_hash r" by (subst r', simp)+
  show ?thesis using head rv ev b a el en(1,2) by (simp add: report_validate_def same)
qed

section \<open>The only matching token is found\<close>

lemma spend_names_finds:
  assumes "map_of (fs_pending fs) n = Some (Doc t)" "approval_candidate q n" "token_matches q t"
    and "\<forall>m u. m \<noteq> n \<and> map_of (fs_pending fs) m = Some (Doc u) \<longrightarrow> \<not> token_matches q u"
    and "env_rename_ok kern" "env_write_ok kern" "n \<in> set ns"
  shows "\<exists>fs'. spend_names q kern fs ns = (Inr (Some (t\<lparr>at_consumed_at := env_now kern\<rparr>)), fs') \<and>
    fs_pending fs' = AList.delete n (fs_pending fs) \<and> fs_reports fs' = fs_reports fs"
  using assms(7)
proof (induction ns)
  case (Cons m ns)
  show ?case
  proof (cases "m = n")
    case True
    then show ?thesis using assms by (simp add: Let_def)
  next
    case False
    with Cons assms(4) show ?thesis by (auto split: option.split node.split)
  qed
qed simp

lemma update_get: "map_of (AList.update n x d) m = (if m = n then Some x else map_of d m)"
  by (simp add: update_conv')

lemma name_listed: "map_of d n = Some x \<Longrightarrow> n \<in> set (sort (map fst d))"
  by (metis domIff dom_map_of_conv_image_fst list.set_map option.discI set_sort)

lemma review_metadata:
  "evaluation_review svc w pb phase iv det carried force source = Reviewed m vs error skipped \<Longrightarrow>
     m = sv_metadata svc \<and> take review_limit error = error"
  by (auto simp: evaluation_review_def take_review_def Let_def split: if_splits option.splits sum.splits prod.splits)

lemma created_token_spends:
  assumes answer: "approval_create now k ''approval'' reason (Some r) fs1 = (Inr name, fs2)"
    and alone: "\<forall>n t. map_of (fs_pending fs1) n = Some (Doc t) \<longrightarrow> \<not> token_matches q t"
    and q: "q = \<lparr>sr_kind = ''approval'', sr_package_base = r_package_base r, sr_phase = r_phase r, sr_content_hash = r_content_hash r,
      sr_fingerprint = r_policy_fingerprint r\<rparr>"
    and kern: "env_rename_ok kern" "env_write_ok kern"
    and source: "r_approval_eligible r" "report_load uf sha (fs_reports fs1) (r_report_id r) = Some r"
  shows "\<exists>tok fs'. approval_consume Listed q kern fs2 = (Inr (Some tok), fs') \<and>
    authorization_source uf sha fs' (Some tok) ''approval'' = Some r \<and> map_of (fs_pending fs') name = None \<and>
    fs_reports fs' = fs_reports fs2"
proof -
  from answer obtain tok where tok: "tok = new_token now ''approval'' reason r" "name = approval_name ''approval'' (r_report_id r)"
    "fs2 = fs1\<lparr>fs_pending := AList.update name (Doc tok) (fs_pending fs1)\<rparr>"
    by (auto simp: approval_create_def write_doc_def Let_def split: option.splits if_splits)
  have cand: "approval_candidate q name" by (simp add: approval_candidate_def q tok(2) approval_name_def has_prefix_iff has_suffix_iff)
  have tm: "token_matches q tok" by (simp add: token_matches_def q tok(1) new_token_def)
  have get: "map_of (fs_pending fs2) name = Some (Doc tok)" by (simp add: tok(3) update_get)
  have others: "\<forall>n u. n \<noteq> name \<and> map_of (fs_pending fs2) n = Some (Doc u) \<longrightarrow> \<not> token_matches q u"
    using alone by (simp add: tok(3) update_get)
  from spend_names_finds[OF get cand tm others kern name_listed[OF get]] obtain fs' where
    sp: "approval_consume Listed q kern fs2 = (Inr (Some (tok\<lparr>at_consumed_at := env_now kern\<rparr>)), fs')"
    "fs_pending fs' = AList.delete name (fs_pending fs2)" "fs_reports fs' = fs_reports fs2"
    by (auto simp: approval_consume_def)
  moreover have "authorization_source uf sha fs' (Some (tok\<lparr>at_consumed_at := env_now kern\<rparr>)) ''approval'' = Some r"
    using source by (simp add: authorization_source_def sp(3) tok new_token_def)
  moreover have "map_of (fs_pending fs') name = None" by (simp add: sp(2) AList.delete_conv)
  ultimately show ?thesis by blast
qed

lemma override_report_valid:
  assumes v: "report_validate uf sha (build_report sha uu svc wa det pb phase iv carried root force rida ta m vs error skipped ov)"
    and id: "new_report_id stamp random (iv_manifest_hash iv) = Some rid" "report_id_match rid" "valid_rfc3339 (ee_now wb)"
    and t: "0 < pid t" "start_time t \<noteq> []" "boot_id t \<noteq> []" and forced: "force' \<longrightarrow> force"
  shows "report_validate uf sha (build_report sha uu svc wb det' pb phase iv None root force' rid t m vs error skipped' True)"
    (is "report_validate uf sha ?r'")
proof (rule overridden_validate[OF v, where rid = rid and now = "ee_now wb" and t = t and skipped = skipped'
      and s = "''Allowed by an exact, one-time user approval.''" and trigger = "if force' then review_trigger_on_demand else []"])
  let ?r = "build_report sha uu svc wa det pb phase iv carried root force rida ta m vs error skipped ov"
  show "r_network_eligible ?r' = (r_phase ?r = ''post'' \<and> r_content_hash ?r \<noteq> [])" by (simp add: build_report_def Let_def)
  show "id_carries rid (r_content_hash ?r)" using id_carries_new[OF id(1)] by (simp add: build_report_fields)
  show "?r' = ?r\<lparr>r_report_id := rid, r_created_at := ee_now wb, r_transaction := t, r_decision := ''allow'',
      r_disposition := ''override'', r_summary := ''Allowed by an exact, one-time user approval.'',
      r_reviewer := (r_reviewer ?r)\<lparr>rr_trigger := if force' then review_trigger_on_demand else [], rr_skipped := skipped'\<rparr>,
      r_overridden := True, r_approval_eligible := False, r_network_eligible := r_network_eligible ?r', r_carried := None\<rparr>"
    by (simp add: build_report_def Let_def policy_summary_def)
qed (use id t forced in \<open>simp_all add: build_report_def Let_def\<close>)

section \<open>Properties\<close>

text \<open>A world in which the second evaluation is not disturbed.\<close>

definition able_world :: "eval_env \<Rightarrow> string \<Rightarrow> audit_fs \<Rightarrow> bool" where
  "able_world w content fs =
     (\<not> ee_cancelled w \<and> ee_listing w = Listed \<and> env_rename_ok (ee_spend w) \<and> env_write_ok (ee_spend w) \<and> ee_disk w = DiskOk \<and>
      valid_rfc3339 (ee_now w) \<and>
      (case ee_transaction w of None \<Rightarrow> False | Some t \<Rightarrow> 0 < pid t \<and> start_time t \<noteq> [] \<and> boot_id t \<noteq> []) \<and>
      (case new_report_id (ee_stamp w) (ee_random w) content of
         None \<Rightarrow> False | Some rid \<Rightarrow> report_id_match rid \<and> map_of (fs_reports fs) (rid @ json_suffix) = None))"


definition example_service :: audit_service where
  "example_service = \<lparr>sv_config = default_audit_config, sv_reviewer = None, sv_metadata = no_metadata, sv_fingerprint = example_digest,
     sv_archive_probe = r_archive_probe example_report, sv_initialization_error = [], sv_coverage_error = []\<rparr>"

definition example_inventory :: inventory where
  "example_inventory = \<lparr>iv_root = [], iv_phase = ''pre'', iv_files = [example_record example_digest 420],
     iv_findings = [example_finding], iv_exclusions = [], iv_manifest_hash = example_digest, iv_coverage = example_coverage,
     iv_yay_context = example_yay_context, iv_manifest_diff = [], iv_sources = [], iv_verification = r_verification example_report\<rparr>"

definition example_world :: "string \<Rightarrow> eval_env" where
  "example_world suffix = \<lparr>ee_cancelled = False, ee_review_cancelled = False, ee_listing = Listed, ee_spend = example_kernel,
     ee_stamp = ''20260101T000000Z'', ee_random = Some suffix, ee_transaction = Some (r_transaction example_report),
     ee_now = ''2026-01-01T00:00:00Z'', ee_disk = DiskOk, ee_live = (\<lambda>_. False)\<rparr>"

definition asked_report :: report where
  "asked_report = example_report\<lparr>r_summary := ''1 finding(s) at HIGH or above need your decision; read them before approving.''\<rparr>"

definition asked_fs :: audit_fs where
  "asked_fs = empty_fs\<lparr>fs_reports := [(r_report_id example_report @ json_suffix, Doc asked_report)]\<rparr>"

lemma asked_valid: "report_validate uf (\<lambda>_. example_digest) asked_report"
proof -
  have "report_head_valid asked_report" by code_simp
  moreover have "reviewer_valid (r_reviewer asked_report)" by code_simp
  moreover have "evidence_valid asked_report" by code_simp
  moreover have "bindings_valid (\<lambda>_. example_digest) asked_report [''PKGBUILD'' \<mapsto> example_digest]" by code_simp
  moreover have "advisory_valid asked_report \<and> eligibility_valid asked_report" by code_simp
  moreover have "r_manifest asked_report = r_manifest example_report" "r_content_hash asked_report = example_digest"
    by (simp_all add: asked_report_def example_report_def)
  ultimately show ?thesis by (simp add: report_validate_def example_index)
qed

lemma asked_draft:
  "build_report (\<lambda>_. example_digest) id example_service (example_world ''00000001'')
     (evaluation_assessment (\<lambda>_. example_digest) example_service (mark_deterministic example_inventory) None) ''demo'' ''pre''
     (mark_deterministic example_inventory) None [] False (r_report_id example_report) (r_transaction example_report) no_metadata [] [] [] False =
   asked_report"
  by code_simp

lemma prune_small:
  "length (report_ids (fs_reports fs) 0) \<le> report_retention \<Longrightarrow> fs_used fs = [] \<Longrightarrow> fs_markers fs = [] \<Longrightarrow> report_prune live fs = fs"
  by (simp add: report_prune_def prune_used_def live_marker_reports_def descending_def Let_def)

text \<open>One evaluation of an example with the example service and an empty store.\<close>

lemma example_evaluation:
  assumes v: "report_validate uf (\<lambda>_. example_digest) r" and id: "r_report_id r = r_report_id example_report"
    and hash: "iv_manifest_hash iv = example_digest"
    and draft: "build_report (\<lambda>_. example_digest) id example_service (example_world ''00000001'')
      (evaluation_assessment (\<lambda>_. example_digest) example_service (mark_deterministic iv) None) ''demo'' ''pre''
      (mark_deterministic iv) None [] False (r_report_id example_report) (r_transaction example_report) no_metadata [] [] [] False = r"
  shows "evaluate uf (\<lambda>_. example_digest) id example_service (example_world ''00000001'') ''demo'' ''pre'' iv None [] False empty_fs =
     (Reported r (if r_decision r = ''allow'' then 0 else 10), empty_fs\<lparr>fs_reports := [(r_report_id example_report @ json_suffix, Doc r)]\<rparr>)"
proof -
  let ?iv = "mark_deterministic iv"
  let ?det = "evaluation_assessment (\<lambda>_. example_digest) example_service ?iv None"
  let ?fs = "empty_fs\<lparr>fs_reports := [(r_report_id example_report @ json_suffix, Doc r)]\<rparr>"
  have p: "validate_package_base ''demo''" by code_simp
  have "report_prune live ?fs = ?fs" for live
    by (rule prune_small) (simp_all add: empty_fs_def report_ids_all json_names_def report_retention_def descending_def)
  then have s: "report_save uf (\<lambda>_. example_digest) live DiskOk (Some r) empty_fs = (Inr (), ?fs)" for live
    by (simp add: report_save_def v write_doc_def empty_fs_def id)
  have a: "evaluation_authority uf (\<lambda>_. example_digest) example_service (example_world ''00000001'') ''demo'' ''pre'' ?iv ?det empty_fs =
      (Some None, empty_fs)"
    by (simp add: evaluation_authority_def example_world_def approval_consume_def empty_fs_def)
  have "rc_mode (cf_review (sv_config example_service)) \<noteq> mode_ai" by code_simp
  moreover have j: "join_degradations [sv_initialization_error example_service, sv_coverage_error example_service] = []" by code_simp
  ultimately have r: "evaluation_review example_service (example_world ''00000001'') ''demo'' ''pre'' ?iv ?det None False None = Reviewed no_metadata [] [] []"
    by (simp add: evaluation_review_def Let_def j) (simp add: example_service_def)
  have i: "new_report_id (ee_stamp (example_world ''00000001'')) (ee_random (example_world ''00000001'')) example_digest =
      Some (r_report_id example_report)" by code_simp
  have w: "\<not> ee_cancelled (example_world ''00000001'')" "ee_transaction (example_world ''00000001'') = Some (r_transaction example_report)"
    "ee_disk (example_world ''00000001'') = DiskOk" by (simp_all add: example_world_def)
  have h: "iv_manifest_hash ?iv = example_digest" by (simp add: mark_deterministic_def hash)
  show ?thesis using p i w by (simp add: evaluate_def Let_def a r h evaluation_record_def draft s exit_policy_block_def)
qed

lemma asked_loads: "report_load uf (\<lambda>_. example_digest) (fs_reports asked_fs) (r_report_id asked_report) = Some asked_report"
proof -
  have "report_id_match (r_report_id asked_report)" "r_report_id asked_report = r_report_id example_report" by code_simp+
  then show ?thesis by (simp add: report_load_def asked_fs_def asked_valid)
qed

text \<open>The example asks; without its finding it is allowed.\<close>

lemma example_asks:
  "evaluate uf (\<lambda>_. example_digest) id example_service (example_world ''00000001'') ''demo'' ''pre'' example_inventory None [] False empty_fs =
     (Reported asked_report 10, asked_fs)"
proof -
  have "r_decision asked_report = ''block''" "iv_manifest_hash example_inventory = example_digest" by code_simp+
  with example_evaluation[OF asked_valid _ _ asked_draft, of uf] show ?thesis by (simp add: asked_report_def asked_fs_def)
qed

definition clean_inventory :: inventory where
  "clean_inventory = example_inventory\<lparr>iv_findings := []\<rparr>"

definition clean_report :: report where
  "clean_report = example_report\<lparr>r_decision := ''allow'', r_disposition := ''allow'', r_findings := [], r_approval_eligible := False,
     r_summary := ''No blocking findings. Medium and low findings below are worth reading.''\<rparr>"

lemma clean_valid: "report_validate uf (\<lambda>_. example_digest) clean_report"
proof -
  have "report_head_valid clean_report" by code_simp
  moreover have "reviewer_valid (r_reviewer clean_report)" by code_simp
  moreover have "evidence_valid clean_report" by code_simp
  moreover have "bindings_valid (\<lambda>_. example_digest) clean_report [''PKGBUILD'' \<mapsto> example_digest]" by code_simp
  moreover have "advisory_valid clean_report \<and> eligibility_valid clean_report" by code_simp
  moreover have "r_manifest clean_report = r_manifest example_report" "r_content_hash clean_report = example_digest"
    by (simp_all add: clean_report_def example_report_def)
  ultimately show ?thesis by (simp add: report_validate_def example_index)
qed

lemma clean_allowed:
  "fst (evaluate uf (\<lambda>_. example_digest) id example_service (example_world ''00000001'') ''demo'' ''pre'' clean_inventory None [] False empty_fs) =
     Reported clean_report 0"
proof -
  have d: "build_report (\<lambda>_. example_digest) id example_service (example_world ''00000001'')
      (evaluation_assessment (\<lambda>_. example_digest) example_service (mark_deterministic clean_inventory) None) ''demo'' ''pre''
      (mark_deterministic clean_inventory) None [] False (r_report_id example_report) (r_transaction example_report) no_metadata [] [] [] False =
      clean_report" by code_simp
  have "iv_manifest_hash clean_inventory = example_digest" by code_simp
  with example_evaluation[OF clean_valid _ _ d, of uf] show ?thesis by (simp add: clean_report_def)
qed

theorem allow_needs_authority_witness:
  "r_decision clean_report = ''allow'' \<and> \<not> r_overridden clean_report \<and> cov_complete (iv_coverage clean_inventory)"
proof -
  obtain fs' where e: "evaluate (\<lambda>_ _. False) (\<lambda>_. example_digest) id example_service (example_world ''00000001'') ''demo'' ''pre''
      clean_inventory None [] False empty_fs = (Reported clean_report 0, fs')"
    using clean_allowed[of "\<lambda>_ _. False"] by (metis prod.collapse)
  have "\<not> r_overridden clean_report" by code_simp
  with allow_needs_authority[OF e] show ?thesis by (simp add: mark_deterministic_def)
qed


section \<open>Reports the store refuses\<close>

lemma save_refused: "\<not> report_validate uf sha r \<Longrightarrow> report_save uf sha live k (Some r) fs = (Inl InvalidReport, fs)"
  by (simp add: report_save_def)

lemma record_refused:
  "(\<And>rid t. \<not> report_validate uf sha (draft rid t)) \<Longrightarrow>
     evaluation_record uf sha world content draft error fs = (Failed exit_state_failure, fs)"
  by (cases "new_report_id (ee_stamp world) (ee_random world) content"; cases "ee_transaction world")
    (simp_all add: evaluation_record_def Let_def save_refused)

text \<open>When the report of an evaluation is not valid, the evaluation fails, whatever it had decided.\<close>

lemma evaluate_refused:
  assumes "\<not> ee_cancelled world" "validate_package_base pb"
    and "evaluation_authority uf sha svc world pb phase (mark_deterministic scanned)
      (evaluation_assessment sha svc (mark_deterministic scanned) carried) fs = (Some None, fs1)"
    and "evaluation_review svc world pb phase (mark_deterministic scanned)
      (evaluation_assessment sha svc (mark_deterministic scanned) carried) carried force None = Reviewed m vs error skipped"
    and "\<And>rid t. \<not> report_validate uf sha (build_report sha uu svc world (evaluation_assessment sha svc (mark_deterministic scanned) carried)
      pb phase (mark_deterministic scanned) carried root force rid t m vs error skipped False)"
  shows "evaluate uf sha uu svc world pb phase scanned carried root force fs = (Failed exit_state_failure, fs1)"
  using assms(1-4) record_refused[OF assms(5)] by (simp add: evaluate_def Let_def)

text \<open>C22: the text of a reviewer decides whether the user is asked at all. Evidence that the deterministic
  pass finds approvable becomes a failed transaction as soon as the reviewer reports one new finding of the
  category archive_escape, or one whose rationale begins with TOCTOU - both allowed by the verdict schema.
  The report calls itself approvable from the deterministic findings, the store recomputes that from all
  findings, and refuses it. So a reply of the optional component ends the phase with a state failure
  instead of a question.\<close>

theorem reviewer_text_fails_phase:
  assumes "\<not> ee_cancelled world" "validate_package_base pb"
    and auth: "evaluation_authority uf sha svc world pb phase (mark_deterministic scanned)
      (evaluation_assessment sha svc (mark_deterministic scanned) carried) fs = (Some None, fs1)"
    and reviewed: "evaluation_review svc world pb phase (mark_deterministic scanned)
      (evaluation_assessment sha svc (mark_deterministic scanned) carried) carried force None = Reviewed m vs error skipped"
    and said: "f \<in> set (model_findings (map content_key (iv_findings scanned)) (concat (map (slice \<circ> v_findings) vs)))" "structural_finding f"
    and approvable: "\<not> structural_block (Some (iv_scan scanned))" "iv_manifest_hash scanned \<noteq> []" "sv_coverage_error svc = []"
      "\<not> verdicts_have_prompt_injection vs"
    and blocked: "as_decision (evaluation_assessment sha svc (mark_deterministic scanned) carried) \<noteq> ''allow''"
  shows "evaluate uf sha uu svc world pb phase scanned carried root force fs = (Failed exit_state_failure, fs1)"
proof (rule evaluate_refused[OF assms(1,2) auth reviewed])
  fix rid t
  let ?r = "build_report sha uu svc world (evaluation_assessment sha svc (mark_deterministic scanned) carried) pb phase
    (mark_deterministic scanned) carried root force rid t m vs error skipped False"
  have keys: "map content_key (iv_findings (mark_deterministic scanned)) = map content_key (iv_findings scanned)"
    by (simp add: mark_deterministic_def content_key_def)
  have "f \<in> set (r_findings ?r)" using said(1) by (simp add: build_report_def Let_def keys sort_findings_key)
  then have "structural_block (Some (r_findings ?r, r_coverage ?r))" using said(2) by (auto simp: structural_block_def list_ex_iff)
  moreover have "r_approval_eligible ?r"
    using approvable blocked
    by (simp add: build_report_def Let_def evaluation_assessment_def assess_structural mark_structural)
      (simp add: mark_deterministic_def)
  ultimately show "\<not> report_validate uf sha ?r" by (auto simp: report_validate_def eligibility_valid_def split: option.splits)
qed

definition escape_remark :: review_finding where
  "escape_remark = \<lparr>rf_severity = ''info'', rf_category = ''archive_escape'', rf_file = ''PKGBUILD'', rf_line = None,
     rf_evidence = ''bsdtar -xf'', rf_rationale = ''unpacks an archive''\<rparr>"

definition remark_verdict :: verdict where
  "remark_verdict = \<lparr>v_schema_version = verdict_schema_version, v_verdict = ''allow'', v_confidence = ''high'',
     v_summary = ''nothing serious'', v_prompt_injection = False, v_findings = Some [escape_remark], v_guidance = Some [],
     v_coverage_notes = Some []\<rparr>"

definition reviewed_service :: audit_service where
  "reviewed_service = example_service\<lparr>
     sv_config := default_audit_config\<lparr>cf_review := default_review\<lparr>rc_mode := mode_ai, rc_phases := Some [''recipe'']\<rparr>\<rparr>,
     sv_reviewer := Some (\<lambda>_ _ _ _. Inr (no_metadata, [remark_verdict]))\<rparr>"

theorem reviewer_text_fails_phase_witness:
  "verdict_validate remark_verdict \<and>
   evaluate (\<lambda>_ _. False) (\<lambda>_. example_digest) id reviewed_service (example_world ''00000001'') ''demo'' ''pre'' example_inventory
     None [] False empty_fs = (Failed exit_state_failure, empty_fs)"
proof
  let ?iv = "mark_deterministic example_inventory"
  let ?det = "evaluation_assessment (\<lambda>_. example_digest) reviewed_service ?iv None"
  show "verdict_validate remark_verdict" by code_simp
  have d: "\<not> as_structural_block ?det" "as_decision ?det \<noteq> ''allow''" by code_simp+
  have auth: "evaluation_authority (\<lambda>_ _. False) (\<lambda>_. example_digest) reviewed_service (example_world ''00000001'') ''demo'' ''pre'' ?iv
      ?det empty_fs = (Some None, empty_fs)"
    using d(1) by (simp add: evaluation_authority_def example_world_def approval_consume_def empty_fs_def)
  have reviewed: "evaluation_review reviewed_service (example_world ''00000001'') ''demo'' ''pre'' ?iv ?det None False None =
      Reviewed no_metadata [remark_verdict] [] []" by code_simp
  have v: "validate_package_base ''demo''" by code_simp
  have w: "\<not> ee_cancelled (example_world ''00000001'')" by (simp add: example_world_def)
  have said: "model_finding escape_remark \<in>
      set (model_findings (map content_key (iv_findings example_inventory)) (concat (map (slice \<circ> v_findings) [remark_verdict])))"
    "structural_finding (model_finding escape_remark)" by code_simp+
  have ok: "\<not> structural_block (Some (iv_scan example_inventory))" "iv_manifest_hash example_inventory \<noteq> []"
    "sv_coverage_error reviewed_service = []" "\<not> verdicts_have_prompt_injection [remark_verdict]" by code_simp+
  show "evaluate (\<lambda>_ _. False) (\<lambda>_. example_digest) id reviewed_service (example_world ''00000001'') ''demo'' ''pre'' example_inventory
     None [] False empty_fs = (Failed exit_state_failure, empty_fs)"
    by (rule reviewer_text_fails_phase[OF w v auth reviewed said ok d(2)])
qed

text \<open>
  A deterministic-only scan whose archive parser is missing fails as well: its report carries the
  reason as a reviewer error, and a deterministic-only report may not carry one.
\<close>

lemma join_degradations_some: "trim_space b \<noteq> [] \<Longrightarrow> join_degradations [a, b] \<noteq> []"
  by (simp add: join_degradations_def)

lemma coverage_error_fails_phase:
  assumes "\<not> ee_cancelled world" "validate_package_base pb"
    and auth: "evaluation_authority uf sha svc world pb phase (mark_deterministic scanned)
      (evaluation_assessment sha svc (mark_deterministic scanned) carried) fs = (Some None, fs1)"
    and mode: "rc_mode (cf_review (sv_config svc)) = mode_deterministic" and missing: "trim_space (sv_coverage_error svc) \<noteq> []"
  shows "evaluate uf sha uu svc world pb phase scanned carried root force fs = (Failed exit_state_failure, fs1)"
proof -
  let ?e = "take review_limit (join_degradations [sv_initialization_error svc, sv_coverage_error svc])"
  have e: "?e \<noteq> []" using join_degradations_some[OF missing] by (simp add: review_limit_def)
  have reviewed: "evaluation_review svc world pb phase (mark_deterministic scanned)
      (evaluation_assessment sha svc (mark_deterministic scanned) carried) carried force None = Reviewed (sv_metadata svc) [] ?e []"
    using mode by (simp add: evaluation_review_def Let_def mode_ai_def mode_deterministic_def)
  show ?thesis
    by (rule evaluate_refused[OF assms(1,2) auth reviewed])
      (use e mode in \<open>simp add: report_validate_def reviewer_valid_def build_report_def Let_def mode_ai_def mode_deterministic_def\<close>)
qed

text \<open>
  The assessment asks only for hard blocks and severities, so a structural finding without a hard
  block - a binary header that cannot be parsed, of severity high - is allowed unseen when the
  threshold is critical, though at the default threshold no approval could cross it.
\<close>

definition header_inventory :: inventory where
  "header_inventory = example_inventory\<lparr>iv_findings := [example_finding\<lparr>f_category := ''coverage'', f_file := ''data.bin'',
     f_line := None, f_evidence := ''invalid ELF identification'',
     f_rationale := ''executable binary header could not be safely parsed'', f_rule_id := ''binary-header-invalid''\<rparr>]\<rparr>"

lemma threshold_crosses_structural:
  "let strict = assess_deterministic_at (\<lambda>_. example_digest) (Some header_inventory) ''high'' [];
       lenient = assess_deterministic_at (\<lambda>_. example_digest) (Some header_inventory) ''critical'' [] in
     as_structural_block lenient \<and> as_decision lenient = ''allow'' \<and>
     as_decision strict = ''block'' \<and> \<not> as_approval_eligible strict"
  by code_simp

end
