(* ===== verification/Markers.thy ===== *)
theory Markers
  imports Approval_Flow
begin

text \<open>
  internal/audit/policy.go and context.go: the marker by which a later phase of the same transaction
  refers to a decision, its verification, the decisions carried from the recipe gate to the source
  gate, and the scan of a directory that ties them together. Resolving paths, walking directories and
  reading processes are arguments.
\<close>

section \<open>The marker\<close>

text \<open>What the file system says about paths: the resolved path, and whether it is a directory.\<close>

record path_world =
  pw_resolve :: "string \<Rightarrow> string option"
  pw_directory :: "string \<Rightarrow> bool"
  pw_state_private :: bool

definition marker_key :: "(string \<Rightarrow> string) \<Rightarrow> string \<Rightarrow> process_identity \<Rightarrow> string" where
  "marker_key sha canonical t =
     sha (canonical @ [CHR 0x00] @ show_int (pid t) @ [CHR 0x00] @ start_time t @ [CHR 0x00] @ boot_id t)"

text \<open>The canonical root and the file name.\<close>

definition marker_location ::
  "(string \<Rightarrow> string) \<Rightarrow> path_world \<Rightarrow> string \<Rightarrow> string \<Rightarrow> process_identity \<Rightarrow> (string \<times> string) option" where
  "marker_location sha pw root phase t =
     (if phase \<noteq> ''pre'' \<and> phase \<noteq> ''post'' then None
      else (case pw_resolve pw root of
          None \<Rightarrow> None
        | Some resolved \<Rightarrow>
            let canonical = path_clean resolved in
            if \<not> pw_directory pw canonical \<or> length canonical > 8192 then None
            else if pid t \<le> 0 \<or> start_time t = [] \<or> boot_id t = [] then None
            else Some (canonical, marker_key sha canonical t @ ''-'' @ phase @ ''.json'')))"

definition new_marker :: "string \<Rightarrow> string \<Rightarrow> report \<Rightarrow> marker" where
  "new_marker canonical phase r =
     \<lparr>m_schema_version = marker_schema_version, m_root = canonical, m_phase = phase, m_package_base = r_package_base r,
      m_report_id = r_report_id r, m_content_hash = r_content_hash r, m_policy_fingerprint = r_policy_fingerprint r,
      m_decision = r_decision r, m_disposition = r_disposition r, m_transaction = r_transaction r\<rparr>"

definition write_marker ::
  "(string \<Rightarrow> string) \<Rightarrow> path_world \<Rightarrow> disk \<Rightarrow> string \<Rightarrow> string \<Rightarrow> report option \<Rightarrow> audit_fs \<Rightarrow> audit_fs option" where
  "write_marker sha pw k root phase ro fs = (case ro of
      None \<Rightarrow> None
    | Some r \<Rightarrow> (case marker_location sha pw root phase (r_transaction r) of
          None \<Rightarrow> None
        | Some (canonical, name) \<Rightarrow>
            map_option (\<lambda>d. fs\<lparr>fs_markers := d\<rparr>) (write_doc k name (new_marker canonical phase r) (fs_markers fs))))"

definition marker_matches :: "marker \<Rightarrow> report \<Rightarrow> bool" where
  "marker_matches m r =
     (\<not> (m_package_base m \<noteq> r_package_base r \<or> m_content_hash m \<noteq> r_content_hash r \<or>
         m_policy_fingerprint m \<noteq> r_policy_fingerprint r \<or> m_decision m \<noteq> r_decision r \<or> m_disposition m \<noteq> r_disposition r))"

definition load_live_marker_report ::
  "(string \<Rightarrow> string \<Rightarrow> bool) \<Rightarrow> (string \<Rightarrow> string) \<Rightarrow> path_world \<Rightarrow> (process_identity \<Rightarrow> bool) \<Rightarrow> audit_service \<Rightarrow>
     process_identity option \<Rightarrow> audit_fs \<Rightarrow> string \<Rightarrow> string \<Rightarrow> (report \<times> string) option" where
  "load_live_marker_report uf sha pw live svc current fs root phase = (case current of
      None \<Rightarrow> None
    | Some t \<Rightarrow> (case marker_location sha pw root phase t of
          None \<Rightarrow> None
        | Some (canonical, name) \<Rightarrow>
            if \<not> pw_state_private pw then None
            else (case map_of (fs_markers fs) name of
                Some (Doc m) \<Rightarrow>
                  if m_schema_version m \<noteq> marker_schema_version \<or> m_root m \<noteq> canonical \<or> m_phase m \<noteq> phase \<or> m_decision m \<noteq> ''allow''
                  then None
                  else (case report_load uf sha (fs_reports fs) (m_report_id m) of
                      None \<Rightarrow> None
                    | Some r \<Rightarrow>
                        if \<not> marker_matches m r then None
                        else if m_policy_fingerprint m \<noteq> sv_fingerprint svc then None
                        else if m_transaction m \<noteq> t \<or> r_transaction r \<noteq> t \<or> \<not> live (m_transaction m) then None
                        else Some (r, canonical))
              | _ \<Rightarrow> None)))"

text \<open>
  VerifyMarker: \<open>source_dir\<close> is the transaction's source store for a checkout, \<open>walk\<close> the records of
  a fresh walk over the checkout and the store.
\<close>

definition verify_marker ::
  "(string \<Rightarrow> string \<Rightarrow> bool) \<Rightarrow> (string \<Rightarrow> string) \<Rightarrow> path_world \<Rightarrow> (process_identity \<Rightarrow> bool) \<Rightarrow> audit_service \<Rightarrow>
     process_identity option \<Rightarrow> audit_fs \<Rightarrow> (string \<Rightarrow> string) \<Rightarrow> (string \<Rightarrow> string \<Rightarrow> string \<Rightarrow> file_record list option) \<Rightarrow>
     string \<Rightarrow> string \<Rightarrow> report option" where
  "verify_marker uf sha pw live svc current fs source_dir walk root phase =
     (case load_live_marker_report uf sha pw live svc current fs root phase of
        None \<Rightarrow> None
      | Some (r, canonical) \<Rightarrow>
          (case walk canonical (if phase = ''post'' then source_dir canonical else []) phase of
             None \<Rightarrow> None
           | Some files \<Rightarrow> (case binding_hash_manifest uf sha (slice (r_manifest r)) of
               None \<Rightarrow> None
             | Some expected \<Rightarrow> if binding_hash_files sha files \<noteq> expected then None else Some r)))"

section \<open>Carried decisions\<close>

text \<open>The digest of each manifest entry by path; a path must not repeat.\<close>

fun manifest_entry_hashes ::
  "(string \<Rightarrow> string \<Rightarrow> bool) \<Rightarrow> (string \<Rightarrow> string) \<Rightarrow> json_object list \<Rightarrow> (string \<rightharpoonup> string) \<Rightarrow> (string \<rightharpoonup> string) option" where
  "manifest_entry_hashes uf sha [] seen = Some seen"
| "manifest_entry_hashes uf sha (m # ms) seen = (case validate_manifest_record uf m of
     None \<Rightarrow> None
   | Some d \<Rightarrow> if seen (fr_path d) \<noteq> None \<and> seen (fr_path d) \<noteq> Some [] then None
       else manifest_entry_hashes uf sha ms (seen(fr_path d \<mapsto> manifest_entry_hash sha m)))"

definition carry_eligible_finding :: "finding \<Rightarrow> string \<Rightarrow> bool" where
  "carry_eligible_finding f minimum =
     (f_source f = ''deterministic'' \<and> severity_at_least (f_severity f) minimum \<and> \<not> f_hard_block f \<and> f_category f \<noteq> ''coverage'')"

text \<open>The findings approved at the earlier phase; of equal identities the last one.\<close>

definition approved_findings :: "(string \<Rightarrow> string) \<Rightarrow> string \<Rightarrow> finding list \<Rightarrow> (string \<rightharpoonup> finding)" where
  "approved_findings sha minimum fs =
     map_of (rev (map (\<lambda>f. (finding_guidance_id sha f, f)) (filter (\<lambda>f. carry_eligible_finding f minimum) fs)))"

definition get_hash :: "(string \<rightharpoonup> string) \<Rightarrow> string \<Rightarrow> string" where
  "get_hash m p = (case m p of None \<Rightarrow> [] | Some h \<Rightarrow> h)"

fun carry_bindings ::
  "(string \<Rightarrow> string) \<Rightarrow> string \<Rightarrow> (string \<rightharpoonup> finding) \<Rightarrow> (string \<rightharpoonup> string) \<Rightarrow> (string \<rightharpoonup> string) \<Rightarrow> finding list \<Rightarrow> string list \<Rightarrow>
     carried_binding list" where
  "carry_bindings sha minimum approved earlier later [] seen = []"
| "carry_bindings sha minimum approved earlier later (f # fs) seen =
     (let i = finding_guidance_id sha f in
      if \<not> carry_eligible_finding f minimum then carry_bindings sha minimum approved earlier later fs seen
      else (case approved i of
          None \<Rightarrow> carry_bindings sha minimum approved earlier later fs seen
        | Some previous \<Rightarrow>
            if i \<in> set seen \<or> f_file previous \<noteq> f_file f \<or> get_hash earlier (f_file f) = [] \<or>
               get_hash earlier (f_file f) \<noteq> get_hash later (f_file f)
            then carry_bindings sha minimum approved earlier later fs seen
            else \<lparr>cb_finding_id = i, cb_path = f_file f, cb_entry_hash = get_hash later (f_file f)\<rparr> #
              carry_bindings sha minimum approved earlier later fs (i # seen)))"

text \<open>Which earlier report may carry its decision at all.\<close>

definition carry_source :: "string \<Rightarrow> report \<Rightarrow> bool" where
  "carry_source package_base r =
     (\<not> (r_package_base r \<noteq> package_base \<or> r_phase r \<noteq> ''pre'' \<or> r_decision r \<noteq> ''allow'' \<or> r_disposition r \<noteq> ''override'' \<or>
         \<not> r_overridden r \<or> \<not> cov_complete (r_coverage r) \<or> structural_block (Some (r_findings r, r_coverage r)) \<or>
         report_has_prompt_injection r))"

definition carried_decision_for ::
  "(string \<Rightarrow> string \<Rightarrow> bool) \<Rightarrow> (string \<Rightarrow> string) \<Rightarrow> path_world \<Rightarrow> (process_identity \<Rightarrow> bool) \<Rightarrow> audit_service \<Rightarrow>
     process_identity option \<Rightarrow> audit_fs \<Rightarrow> string \<Rightarrow> string \<Rightarrow> inventory \<Rightarrow> json_object list \<Rightarrow> carried_decision option" where
  "carried_decision_for uf sha pw live svc current fs root package_base iv manifest =
     (case load_live_marker_report uf sha pw live svc current fs root ''pre'' of
        None \<Rightarrow> None
      | Some (source, _) \<Rightarrow>
          if \<not> carry_source package_base source then None
          else (case (manifest_entry_hashes uf sha (slice (r_manifest source)) Map.empty, manifest_entry_hashes uf sha manifest Map.empty) of
              (Some earlier, Some later) \<Rightarrow>
                let minimum = rc_minimum_severity (cf_review (sv_config svc));
                    bs = carry_bindings sha minimum (approved_findings sha minimum (r_findings source)) earlier later (iv_findings iv) []
                in if bs = [] then None
                   else Some \<lparr>cd_source_report = r_report_id source, cd_source_phase = r_phase source,
                     cd_source_content = r_content_hash source, cd_findings = bs\<rparr>
            | _ \<Rightarrow> None))"

section \<open>Comparing manifests\<close>

definition manifest_digests :: "(string \<Rightarrow> string \<Rightarrow> bool) \<Rightarrow> json_object list \<Rightarrow> (string \<times> string) list" where
  "manifest_digests uf ms = foldl (\<lambda>acc m. case validate_manifest_record uf m of
       Some d \<Rightarrow> if fr_sha256 d \<noteq> [] then AList.update (fr_path d) (fr_sha256 d) acc else acc
     | None \<Rightarrow> acc) [] ms"

definition manifest_change_at :: "(string \<times> string) list \<Rightarrow> (string \<times> string) list \<Rightarrow> string \<Rightarrow> manifest_change option" where
  "manifest_change_at earlier later p = (case (map_of earlier p, map_of later p) of
      (None, Some h) \<Rightarrow> Some \<lparr>mc_path = p, mc_status = ''added'', mc_previous = [], mc_current = h\<rparr>
    | (Some h, None) \<Rightarrow> Some \<lparr>mc_path = p, mc_status = ''deleted'', mc_previous = h, mc_current = []\<rparr>
    | (Some h, Some h') \<Rightarrow> if h \<noteq> h' then Some \<lparr>mc_path = p, mc_status = ''changed'', mc_previous = h, mc_current = h'\<rparr> else None
    | (None, None) \<Rightarrow> None)"

definition compare_manifests :: "(string \<Rightarrow> string \<Rightarrow> bool) \<Rightarrow> json_object list \<Rightarrow> json_object list \<Rightarrow> manifest_change list" where
  "compare_manifests uf previous current =
     (let earlier = manifest_digests uf previous; later = manifest_digests uf current;
          paths = sort (map fst earlier @ filter (\<lambda>p. p \<notin> fst ` set earlier) (map fst later))
      in List.map_filter (manifest_change_at earlier later) paths)"

section \<open>Scanning a directory\<close>

text \<open>What a scan needs besides the evaluation: the walk, and how reading the markers and reports goes.\<close>

record scan_world =
  sc_paths :: path_world
  sc_source_dir :: "string \<Rightarrow> string"
  sc_source_plan :: "string \<Rightarrow> string"
  sc_scan :: "string \<Rightarrow> string \<Rightarrow> string \<Rightarrow> string \<Rightarrow> inventory option"
  sc_marker_disk :: disk

definition inherited_verification ::
  "(string \<Rightarrow> string \<Rightarrow> bool) \<Rightarrow> (string \<Rightarrow> string) \<Rightarrow> process_identity option \<Rightarrow> audit_fs \<Rightarrow> string \<Rightarrow> source_verification \<Rightarrow> source_verification" where
  "inherited_verification uf sha current fs package_base v =
     (case find (\<lambda>phase. case report_latest_for uf sha (fs_reports fs) package_base phase of
          None \<Rightarrow> False | Some r \<Rightarrow> current = Some (r_transaction r)) [''post'', ''pre''] of
        None \<Rightarrow> v
      | Some phase \<Rightarrow> (case report_latest_for uf sha (fs_reports fs) package_base phase of
          None \<Rightarrow> v | Some r \<Rightarrow> r_verification r))"

definition scan_directory ::
  "(string \<Rightarrow> string \<Rightarrow> bool) \<Rightarrow> (string \<Rightarrow> string) \<Rightarrow> (string \<Rightarrow> string) \<Rightarrow> audit_service \<Rightarrow> eval_env \<Rightarrow> scan_world \<Rightarrow> string \<Rightarrow> string \<Rightarrow>
     string \<Rightarrow> yay_context \<Rightarrow> bool \<Rightarrow> audit_fs \<Rightarrow> outcome \<times> audit_fs" where
  "scan_directory uf sha uu svc world sw phase root package_base context_of_yay force fs =
     (if \<not> yay_context_validate context_of_yay then (Failed exit_bad_invocation, fs)
      else
        let post = (phase = ''post'');
            source_root = (if post then sc_source_dir sw root else []);
            plan = (if post then sc_source_plan sw root else []) in
        (case sc_scan sw root source_root plan phase of
           None \<Rightarrow> (Failed exit_inspection_failure, fs)
         | Some walked \<Rightarrow>
             let iv = mark_deterministic (walked\<lparr>iv_yay_context := context_of_yay\<rparr>);
                 iv = (if post then iv\<lparr>iv_verification :=
                   inherited_verification uf sha (ee_transaction world) fs package_base (iv_verification iv)\<rparr> else iv);
                 manifest = map manifest_value (iv_files iv);
                 iv = (case report_latest_for uf sha (fs_reports fs) package_base phase of
                     None \<Rightarrow> iv | Some previous \<Rightarrow> iv\<lparr>iv_manifest_diff := compare_manifests uf (slice (r_manifest previous)) manifest\<rparr>);
                 carried = (if post then carried_decision_for uf sha (sc_paths sw) (ee_live world) svc (ee_transaction world) fs root
                   package_base iv manifest else None)
             in (case evaluate uf sha uu svc world package_base phase iv carried (iv_root iv) force fs of
                   (Reported r status, fs) \<Rightarrow>
                     (case write_marker sha (sc_paths sw) (sc_marker_disk sw) root phase (Some r) fs of
                        None \<Rightarrow> (Failed exit_state_failure, fs)
                      | Some fs \<Rightarrow> (Reported r status, fs))
                 | (other, fs) \<Rightarrow> (other, fs))))"

text \<open>The artifacts of a build: no marker and no carried decision.\<close>

definition scan_artifacts ::
  "(string \<Rightarrow> string \<Rightarrow> bool) \<Rightarrow> (string \<Rightarrow> string) \<Rightarrow> (string \<Rightarrow> string) \<Rightarrow> audit_service \<Rightarrow> eval_env \<Rightarrow> inventory option \<Rightarrow> string \<Rightarrow>
     bool \<Rightarrow> audit_fs \<Rightarrow> outcome \<times> audit_fs" where
  "scan_artifacts uf sha uu svc world scanned package_base force fs = (case scanned of
      None \<Rightarrow> (Failed exit_inspection_failure, fs)
    | Some iv \<Rightarrow> evaluate uf sha uu svc world package_base ''artifact'' iv None [] force fs)"

section \<open>Lemmas\<close>

lemma load_live_facts:
  assumes "load_live_marker_report uf sha pw live svc current fs root phase = Some (r, canonical)"
  shows "report_validate uf sha r \<and> r_decision r = ''allow'' \<and> r_policy_fingerprint r = sv_fingerprint svc \<and>
    current = Some (r_transaction r) \<and> live (r_transaction r)"
  using assms
  by (auto simp: load_live_marker_report_def marker_matches_def report_load_def Let_def
    split: option.splits node.splits if_splits prod.splits)

lemma manifest_entry_hashes_get:
  "manifest_entry_hashes uf sha ms seen = Some m \<Longrightarrow> m p = Some h \<Longrightarrow>
     seen p = Some h \<or> (\<exists>e \<in> set ms. \<exists>d. validate_manifest_record uf e = Some d \<and> fr_path d = p \<and> h = manifest_entry_hash sha e)"
proof (induction ms arbitrary: seen)
  case (Cons e ms)
  then obtain d where d: "validate_manifest_record uf e = Some d"
    "manifest_entry_hashes uf sha ms (seen(fr_path d \<mapsto> manifest_entry_hash sha e)) = Some m"
    by (auto split: option.splits if_splits)
  from Cons.IH[OF d(2) Cons.prems(2)] d(1) show ?case by (auto split: if_splits)
qed simp

text \<open>What one binding says: the same eligible finding before and now, in a file whose entry is the same.\<close>

definition binding_backed ::
  "(string \<Rightarrow> string) \<Rightarrow> string \<Rightarrow> finding list \<Rightarrow> finding list \<Rightarrow> (string \<rightharpoonup> string) \<Rightarrow> (string \<rightharpoonup> string) \<Rightarrow> carried_binding \<Rightarrow> bool" where
  "binding_backed sha minimum old now earlier later b \<longleftrightarrow>
     (\<exists>f \<in> set now. \<exists>g \<in> set old. finding_guidance_id sha f = cb_finding_id b \<and> finding_guidance_id sha g = cb_finding_id b \<and>
        f_file f = cb_path b \<and> f_file g = cb_path b \<and> carry_eligible_finding f minimum \<and> carry_eligible_finding g minimum \<and>
        earlier (cb_path b) = Some (cb_entry_hash b) \<and> later (cb_path b) = Some (cb_entry_hash b))"

lemma approved_findings_get:
  "approved_findings sha minimum fs i = Some g \<Longrightarrow> g \<in> set fs \<and> carry_eligible_finding g minimum \<and> finding_guidance_id sha g = i"
  by (auto simp: approved_findings_def dest!: map_of_SomeD)

lemma get_hash_some: "get_hash m p = h \<Longrightarrow> h \<noteq> [] \<Longrightarrow> m p = Some h"
  by (auto simp: get_hash_def split: option.splits)

lemma carry_bindings_backed:
  "\<forall>b \<in> set (carry_bindings sha minimum (approved_findings sha minimum old) earlier later now seen).
     binding_backed sha minimum old now earlier later b \<and> cb_finding_id b \<notin> set seen"
proof (induction now arbitrary: seen)
  case (Cons f fs)
  have mono: "binding_backed sha minimum old fs earlier later b \<Longrightarrow> binding_backed sha minimum old (f # fs) earlier later b" for b
    by (auto simp: binding_backed_def)
  have IH: "b \<in> set (carry_bindings sha minimum (approved_findings sha minimum old) earlier later fs s) \<Longrightarrow>
      binding_backed sha minimum old (f # fs) earlier later b \<and> cb_finding_id b \<notin> set s" for b s
    using Cons.IH[of s] mono by blast
  have new: "binding_backed sha minimum old (f # fs) earlier later
      \<lparr>cb_finding_id = finding_guidance_id sha f, cb_path = f_file f, cb_entry_hash = get_hash later (f_file f)\<rparr>"
    if "carry_eligible_finding f minimum" "approved_findings sha minimum old (finding_guidance_id sha f) = Some g"
      "f_file g = f_file f" "get_hash earlier (f_file f) \<noteq> []" "get_hash earlier (f_file f) = get_hash later (f_file f)" for g
    using that approved_findings_get[OF that(2)] get_hash_some[OF that(5)] get_hash_some[of later "f_file f", OF refl]
    by (auto simp: binding_backed_def)
  show ?case using new by (auto simp: Let_def dest: IH split: option.splits)
qed simp

lemma carry_bindings_distinct:
  "distinct (map cb_finding_id (carry_bindings sha minimum (approved_findings sha minimum old) earlier later now seen))"
proof (induction now arbitrary: seen)
  case (Cons f fs)
  then show ?case using carry_bindings_backed[of sha minimum old earlier later fs "finding_guidance_id sha f # seen"]
    by (auto simp: Let_def split: option.splits)
qed simp

section \<open>Properties\<close>

text \<open>C18: a verified marker is not cached trust. When verification accepts, the report it returns is valid,
  allows the phase, was made under the policy in force and by the running transaction that asks; and the
  files found now agree with those that were scanned in path, kind, mode, size, digest, executability and
  link target, as long as the digest does not collide on the two bindings.\<close>

theorem verified_marker_unchanged:
  assumes "verify_marker uf sha pw live svc current fs source_dir walk root phase = Some r"
  shows "report_validate uf sha r \<and> r_decision r = ''allow'' \<and> r_policy_fingerprint r = sv_fingerprint svc \<and>
    current = Some (r_transaction r) \<and> live (r_transaction r) \<and>
    (\<exists>canonical files. walk canonical (if phase = ''post'' then source_dir canonical else []) phase = Some files \<and>
       (\<forall>scanned. r_manifest r = Some (map manifest_value scanned) \<and> list_all storable scanned \<and> list_all storable files \<and>
          (sha (show_json (JArr (map binding_value (bound_files scanned)))) = sha (show_json (JArr (map binding_value (bound_files files)))) \<longrightarrow>
             show_json (JArr (map binding_value (bound_files scanned))) = show_json (JArr (map binding_value (bound_files files)))) \<longrightarrow>
          map bound_facts (bound_files files) = map bound_facts (bound_files scanned)))"
proof -
  from assms obtain canonical files where v: "load_live_marker_report uf sha pw live svc current fs root phase = Some (r, canonical)"
    "walk canonical (if phase = ''post'' then source_dir canonical else []) phase = Some files"
    "binding_hash_manifest uf sha (slice (r_manifest r)) = Some (binding_hash_files sha files)"
    by (auto simp: verify_marker_def split: option.splits if_splits)
  have "map bound_facts (bound_files files) = map bound_facts (bound_files scanned)"
    if "r_manifest r = Some (map manifest_value scanned)" "list_all storable scanned" "list_all storable files"
      "sha (show_json (JArr (map binding_value (bound_files scanned)))) = sha (show_json (JArr (map binding_value (bound_files files)))) \<longrightarrow>
         show_json (JArr (map binding_value (bound_files scanned))) = show_json (JArr (map binding_value (bound_files files)))" for scanned
    using binding_hash_exact[OF that(2,3), of sha uf] that(1,4) v(3) by (simp add: slice_def)
  with load_live_facts[OF v(1)] v(2) show ?thesis by blast
qed

definition example_paths :: path_world where
  "example_paths = \<lparr>pw_resolve = Some, pw_directory = (\<lambda>_. True), pw_state_private = True\<rparr>"

definition marked_fs :: "report \<Rightarrow> audit_fs" where
  "marked_fs r = empty_fs\<lparr>fs_reports := [(r_report_id r @ json_suffix, Doc r)],
     fs_markers := [(example_digest @ ''-pre.json'', Doc (new_marker ''/w'' ''pre'' r))]\<rparr>"

text \<open>A marker of an allowed report, of the running transaction, is found again.\<close>

lemma marked_loads:
  assumes v: "report_validate uf (\<lambda>_. example_digest) r" and "r_decision r = ''allow''" "r_policy_fingerprint r = example_digest"
    and t: "r_transaction r = r_transaction example_report"
  shows "load_live_marker_report uf (\<lambda>_. example_digest) example_paths (\<lambda>_. True) example_service (Some (r_transaction example_report))
    (marked_fs r) ''/w'' ''pre'' = Some (r, ''/w'')"
proof -
  have l: "marker_location (\<lambda>_. example_digest) example_paths ''/w'' ''pre'' (r_transaction example_report) =
      Some (''/w'', example_digest @ ''-pre.json'')" by code_simp
  have "report_load uf (\<lambda>_. example_digest) (fs_reports (marked_fs r)) (r_report_id r) = Some r"
    using v by (simp add: report_load_def marked_fs_def report_validate_def report_head_valid_def)
  moreover have "map_of (fs_markers (marked_fs r)) (example_digest @ ''-pre.json'') = Some (Doc (new_marker ''/w'' ''pre'' r))"
    by (simp add: marked_fs_def)
  moreover have "pw_state_private example_paths" "sv_fingerprint example_service = example_digest"
    by (simp_all add: example_paths_def example_service_def)
  ultimately show ?thesis using assms(2-4)
    by (simp add: load_live_marker_report_def l new_marker_def marker_matches_def)
qed

lemma example_manifest: "slice (r_manifest example_report) = map manifest_value [example_record example_digest 420]"
  by (simp add: example_report_def slice_def)

theorem verified_marker_unchanged_witness:
  "\<exists>r. verify_marker (\<lambda>_ _. False) (\<lambda>_. example_digest) example_paths (\<lambda>_. True) example_service (Some (r_transaction example_report))
     (marked_fs clean_report) (\<lambda>_. []) (\<lambda>_ _ _. Some [example_record example_digest 420]) ''/w'' ''pre'' = Some r \<and>
     r_decision r = ''allow'' \<and> Some (r_transaction r) = Some (r_transaction example_report)"
proof -
  have c: "r_decision clean_report = ''allow''" "r_policy_fingerprint clean_report = example_digest"
    "r_transaction clean_report = r_transaction example_report" "slice (r_manifest clean_report) = slice (r_manifest example_report)"
    by (simp_all add: clean_report_def) (simp add: example_report_def)
  note l = marked_loads[OF clean_valid c(1-3), of "\<lambda>_ _. False"]
  have s: "list_all storable [example_record example_digest 420]" using example_storable by simp
  have h: "binding_hash_manifest (\<lambda>_ _. False) (\<lambda>_. example_digest) (slice (r_manifest clean_report)) =
      Some (binding_hash_files (\<lambda>_. example_digest) [example_record example_digest 420])"
    unfolding c(4) example_manifest binding_hash_manifest_def validated_manifest_values[OF s] by (simp add: binding_hash_files_def)
  have v: "verify_marker (\<lambda>_ _. False) (\<lambda>_. example_digest) example_paths (\<lambda>_. True) example_service (Some (r_transaction example_report))
     (marked_fs clean_report) (\<lambda>_. []) (\<lambda>_ _ _. Some [example_record example_digest 420]) ''/w'' ''pre'' = Some clean_report"
    by (simp add: verify_marker_def l h)
  from verified_marker_unchanged[OF v] v show ?thesis by metis
qed

text \<open>C20: a decision carried to the source gate is the user's own. It comes from a report of this running
  transaction and package that a one-time approval allowed at the recipe gate under the policy in force;
  it names each finding once, and each is a finding of that report and of this scan, neither a hard block nor
  about coverage, in a file whose manifest entry has the same digest before and now.\<close>

theorem carried_decision_exact:
  assumes "carried_decision_for uf sha pw live svc current fs root package_base iv manifest = Some c"
  shows "\<exists>source canonical earlier later.
    load_live_marker_report uf sha pw live svc current fs root ''pre'' = Some (source, canonical) \<and>
    current = Some (r_transaction source) \<and> live (r_transaction source) \<and> r_policy_fingerprint source = sv_fingerprint svc \<and>
    r_package_base source = package_base \<and> r_phase source = ''pre'' \<and> r_disposition source = ''override'' \<and> r_overridden source \<and>
    cd_source_report c = r_report_id source \<and> cd_source_content c = r_content_hash source \<and>
    cd_findings c \<noteq> [] \<and> distinct (map cb_finding_id (cd_findings c)) \<and>
    manifest_entry_hashes uf sha (slice (r_manifest source)) Map.empty = Some earlier \<and>
    manifest_entry_hashes uf sha manifest Map.empty = Some later \<and>
    (\<forall>b \<in> set (cd_findings c). binding_backed sha (rc_minimum_severity (cf_review (sv_config svc))) (r_findings source)
       (iv_findings iv) earlier later b)"
proof -
  from assms obtain source canonical earlier later where c:
    "load_live_marker_report uf sha pw live svc current fs root ''pre'' = Some (source, canonical)" "carry_source package_base source"
    "manifest_entry_hashes uf sha (slice (r_manifest source)) Map.empty = Some earlier"
    "manifest_entry_hashes uf sha manifest Map.empty = Some later"
    "cd_findings c = carry_bindings sha (rc_minimum_severity (cf_review (sv_config svc)))
       (approved_findings sha (rc_minimum_severity (cf_review (sv_config svc))) (r_findings source)) earlier later (iv_findings iv) []"
    "cd_findings c \<noteq> []" "cd_source_report c = r_report_id source" "cd_source_content c = r_content_hash source"
    by (auto simp: carried_decision_for_def Let_def split: option.splits prod.splits if_splits)
  show ?thesis
    using c load_live_facts[OF c(1)] carry_bindings_backed[of sha _ "r_findings source" earlier later "iv_findings iv" "[]"]
    by (intro exI[of _ source] exI[of _ canonical] exI[of _ earlier] exI[of _ later])
      (auto simp: carry_source_def c(5) carry_bindings_distinct)
qed

definition override_report :: report where
  "override_report = example_report\<lparr>r_decision := ''allow'', r_disposition := ''override'', r_overridden := True,
     r_approval_eligible := False\<rparr>"

lemma override_valid: "report_validate uf (\<lambda>_. example_digest) override_report"
proof -
  have "report_head_valid override_report" by code_simp
  moreover have "reviewer_valid (r_reviewer override_report)" by code_simp
  moreover have "evidence_valid override_report" by code_simp
  moreover have "bindings_valid (\<lambda>_. example_digest) override_report [''PKGBUILD'' \<mapsto> example_digest]" by code_simp
  moreover have "advisory_valid override_report \<and> eligibility_valid override_report" by code_simp
  moreover have "r_manifest override_report = r_manifest example_report" "r_content_hash override_report = example_digest"
    by (simp_all add: override_report_def example_report_def)
  ultimately show ?thesis by (simp add: report_validate_def example_index)
qed

theorem carried_decision_exact_witness:
  "\<exists>c. carried_decision_for (\<lambda>_ _. False) (\<lambda>_. example_digest) example_paths (\<lambda>_. True) example_service
     (Some (r_transaction example_report)) (marked_fs override_report) ''/w'' ''demo'' example_inventory
     [manifest_value (example_record example_digest 420)] = Some c \<and> cd_source_report c = r_report_id example_report"
proof -
  have o: "r_decision override_report = ''allow''" "r_policy_fingerprint override_report = example_digest"
    "r_transaction override_report = r_transaction example_report" "slice (r_manifest override_report) = slice (r_manifest example_report)"
    "r_report_id override_report = r_report_id example_report" "carry_source ''demo'' override_report"
    by (simp_all add: override_report_def) (simp add: example_report_def, code_simp)
  note l = marked_loads[OF override_valid o(1-3), of "\<lambda>_ _. False"]
  have m: "manifest_entry_hashes (\<lambda>_ _. False) (\<lambda>_. example_digest) [manifest_value (example_record example_digest 420)] Map.empty =
      Some [''PKGBUILD'' \<mapsto> example_digest]"
    using validate_manifest_value[OF example_storable] by (simp add: manifest_entry_hash_def example_record_def)
  have b: "carry_bindings (\<lambda>_. example_digest) (rc_minimum_severity (cf_review (sv_config example_service)))
      (approved_findings (\<lambda>_. example_digest) (rc_minimum_severity (cf_review (sv_config example_service))) (r_findings override_report))
      [''PKGBUILD'' \<mapsto> example_digest] [''PKGBUILD'' \<mapsto> example_digest] (iv_findings example_inventory) [] \<noteq> []" by code_simp
  obtain c where c: "carried_decision_for (\<lambda>_ _. False) (\<lambda>_. example_digest) example_paths (\<lambda>_. True) example_service
     (Some (r_transaction example_report)) (marked_fs override_report) ''/w'' ''demo'' example_inventory
     [manifest_value (example_record example_digest 420)] = Some c"
    using b o(6) by (simp add: carried_decision_for_def l o(4) example_manifest m Let_def del: manifest_entry_hashes.simps)
  from carried_decision_exact[OF c] obtain source where
    s: "cd_source_report c = r_report_id source" "\<exists>canonical. load_live_marker_report (\<lambda>_ _. False) (\<lambda>_. example_digest) example_paths (\<lambda>_. True)
      example_service (Some (r_transaction example_report)) (marked_fs override_report) ''/w'' ''pre'' = Some (source, canonical)" by metis
  then have "source = override_report" by (simp add: l)
  with s(1) c o(5) show ?thesis by auto
qed

end
