(* ===== verification/Go_Url.thy ===== *)
theory Go_Url
  imports Go_Net
begin

text \<open>
  The part of Go's package net/url that source acquisition uses: Parse (without the text of the
  fragment, of which only a malformed escape matters), String, Hostname and Port, with the
  percent encoding below them. An error is None. Strict host colons are as in Go 1.26: a host that is not in
  brackets may hold one colon, and a bracketed one holds an IPv6 literal.
\<close>

section \<open>Percent encoding\<close>

datatype url_mode = EncodePath | EncodeHost | EncodeZone | EncodeUserPassword | EncodeFragment

definition is_alnum_char :: "char \<Rightarrow> bool" where
  "is_alnum_char c = (let n = (of_char c :: nat) in
     (48 \<le> n \<and> n \<le> 57) \<or> (65 \<le> n \<and> n \<le> 90) \<or> (97 \<le> n \<and> n \<le> 122))"

definition should_escape :: "url_mode \<Rightarrow> char \<Rightarrow> bool" where
  "should_escape m c =
     (if is_alnum_char c then False
      else if (m = EncodeHost \<or> m = EncodeZone) \<and> c \<in> set ''!$&()*+,;=:[]<>'' \<union> {CHR 0x27, CHR 0x22} then False
      else if c \<in> set ''-_.~'' then False
      else if c \<in> set ''$&+,/:;=?@'' then (case m of
          EncodePath \<Rightarrow> c = CHR ''?''
        | EncodeUserPassword \<Rightarrow> c \<in> set ''@/?:''
        | EncodeFragment \<Rightarrow> False
        | _ \<Rightarrow> True)
      else if m = EncodeFragment \<and> c \<in> set ''!()*'' then False
      else True)"

definition hex_value :: "char \<Rightarrow> nat" where
  "hex_value c = (case digit_val c of Some d \<Rightarrow> d | None \<Rightarrow> 0)"

definition escaped_byte :: "char \<Rightarrow> char \<Rightarrow> char" where
  "escaped_byte a b = char_of (16 * hex_value a + hex_value b)"

text \<open>Whether a mode admits the escape of two hexadecimal digits, and a byte that is not escaped.\<close>

definition escape_admitted :: "url_mode \<Rightarrow> char \<Rightarrow> char \<Rightarrow> bool" where
  "escape_admitted m a b =
     (is_hex a \<and> is_hex b \<and>
      \<not> (m = EncodeHost \<and> hex_value a < 8 \<and> (a, b) \<noteq> (CHR ''2'', CHR ''5'')) \<and>
      \<not> (m = EncodeZone \<and> (a, b) \<noteq> (CHR ''2'', CHR ''5'') \<and> escaped_byte a b \<noteq> CHR '' '' \<and>
         should_escape EncodeHost (escaped_byte a b)))"

definition plain_admitted :: "url_mode \<Rightarrow> char \<Rightarrow> bool" where
  "plain_admitted m c =
     (\<not> ((m = EncodeHost \<or> m = EncodeZone) \<and> (of_char c :: nat) < 0x80 \<and> should_escape m c))"

fun unescape :: "url_mode \<Rightarrow> string \<Rightarrow> string option" where
  "unescape m [] = Some []"
| "unescape m (c # a # b # s) =
     (if c = CHR ''%'' then
        (if escape_admitted m a b then map_option (Cons (escaped_byte a b)) (unescape m s) else None)
      else if plain_admitted m c then map_option (Cons c) (unescape m (a # b # s)) else None)"
| "unescape m (c # s) =
     (if c \<noteq> CHR ''%'' \<and> plain_admitted m c then map_option (Cons c) (unescape m s) else None)"

definition upper_hex :: "nat \<Rightarrow> char" where
  "upper_hex n = ''0123456789ABCDEF'' ! n"

definition escape_char :: "url_mode \<Rightarrow> char \<Rightarrow> string" where
  "escape_char m c = (if should_escape m c
     then [CHR ''%'', upper_hex (of_char c div 16), upper_hex (of_char c mod 16)] else [c])"

definition url_escape :: "url_mode \<Rightarrow> string \<Rightarrow> string" where
  "url_escape m s = concat (map (escape_char m) s)"

section \<open>Parse\<close>

record go_url =
  gu_scheme :: string
  gu_opaque :: string
  gu_user :: "(string \<times> string option) option"
  gu_host :: string
  gu_path :: string
  gu_raw_path :: string
  gu_omit_host :: bool
  gu_force_query :: bool
  gu_raw_query :: string

definition empty_url :: go_url where
  "empty_url = \<lparr>gu_scheme = [], gu_opaque = [], gu_user = None, gu_host = [], gu_path = [],
     gu_raw_path = [], gu_omit_host = False, gu_force_query = False, gu_raw_query = []\<rparr>"

definition is_letter :: "char \<Rightarrow> bool" where
  "is_letter c = (let n = (of_char c :: nat) in (65 \<le> n \<and> n \<le> 90) \<or> (97 \<le> n \<and> n \<le> 122))"

definition scheme_char :: "char \<Rightarrow> bool" where
  "scheme_char c = (is_alnum_char c \<or> c \<in> set ''+-.'')"

definition get_scheme :: "string \<Rightarrow> (string \<times> string) option" where
  "get_scheme s =
     (let w = takeWhile scheme_char s; r = dropWhile scheme_char s in
      if w \<noteq> [] \<and> \<not> is_letter (hd w) then Some ([], s)
      else (case r of
          c # t \<Rightarrow> if c = CHR '':'' then (if w = [] then None else Some (w, t)) else Some ([], s)
        | [] \<Rightarrow> Some ([], s)))"

definition valid_optional_port :: "string \<Rightarrow> bool" where
  "valid_optional_port p = (case p of
      [] \<Rightarrow> True
    | c # ds \<Rightarrow> c = CHR '':'' \<and> list_all (\<lambda>d. 48 \<le> (of_char d :: nat) \<and> (of_char d :: nat) \<le> 57) ds)"

text \<open>netip.ParseAddr refusing IPv4, with the zone of RFC 6874.\<close>

definition ip_literal :: "string \<Rightarrow> bool" where
  "ip_literal h = (case cut h ''%'' of (a, zone, zoned) \<Rightarrow>
     CHR '':'' \<in> set a \<and> parse_addr a \<noteq> None \<and> (zoned \<longrightarrow> zone \<noteq> []) \<and>
     first_addr_mark a = Some (CHR '':''))"

definition parse_bracketed :: "string \<Rightarrow> string option" where
  "parse_bracketed host = (case last_index host (CHR '']'') of
      None \<Rightarrow> None
    | Some i \<Rightarrow>
        let colon_port = drop (Suc i) host; name = take (i - 1) (drop 1 host) in
        if \<not> valid_optional_port colon_port then None
        else (case (case str_index name ''%25'' of
              Some z \<Rightarrow> (case (unescape EncodeHost (take z name), unescape EncodeZone (drop z name)) of
                  (Some a, Some b) \<Rightarrow> Some (a @ b) | _ \<Rightarrow> None)
            | None \<Rightarrow> unescape EncodeHost name) of
            None \<Rightarrow> None
          | Some h \<Rightarrow> if ip_literal h then Some (CHR ''['' # h @ CHR '']'' # colon_port) else None))"

definition parse_host :: "string \<Rightarrow> string option" where
  "parse_host host = (case last_index host (CHR ''['') of
      Some 0 \<Rightarrow> parse_bracketed host
    | Some (Suc i) \<Rightarrow> None
    | None \<Rightarrow> (case str_index host '':'' of
          None \<Rightarrow> unescape EncodeHost host
        | Some i \<Rightarrow> if CHR '':'' \<notin> set (drop (Suc i) host) \<and> valid_optional_port (drop i host)
            then unescape EncodeHost host else None))"

definition valid_userinfo :: "string \<Rightarrow> bool" where
  "valid_userinfo s = list_all (\<lambda>c. is_alnum_char c \<or> c \<in> set ''-._:~!$&()*+,;=%@'' \<union> {CHR 0x27}) s"

definition parse_userinfo :: "string \<Rightarrow> (string \<times> string option) option" where
  "parse_userinfo s =
     (if \<not> valid_userinfo s then None
      else if CHR '':'' \<notin> set s then map_option (\<lambda>u. (u, None)) (unescape EncodeUserPassword s)
      else (case cut s '':'' of (u, p, found) \<Rightarrow>
         (case (unescape EncodeUserPassword u, unescape EncodeUserPassword p) of
            (Some u1, Some p1) \<Rightarrow> Some (u1, Some p1) | _ \<Rightarrow> None)))"

definition parse_authority :: "string \<Rightarrow> ((string \<times> string option) option \<times> string) option" where
  "parse_authority a = (case last_index a (CHR ''@'') of
      None \<Rightarrow> map_option (Pair None) (parse_host a)
    | Some i \<Rightarrow> (case (parse_host (drop (Suc i) a), parse_userinfo (take i a)) of
          (Some h, Some u) \<Rightarrow> Some (Some u, h) | _ \<Rightarrow> None))"

definition set_path :: "string \<Rightarrow> go_url \<Rightarrow> go_url option" where
  "set_path p u = map_option (\<lambda>q. u\<lparr>gu_path := q,
     gu_raw_path := (if p = url_escape EncodePath q then [] else p)\<rparr>) (unescape EncodePath p)"

definition has_control :: "string \<Rightarrow> bool" where
  "has_control s = list_ex (\<lambda>c. (of_char c :: nat) < 0x20 \<or> (of_char c :: nat) = 0x7F) s"

text \<open>The authority and the path of a hierarchical URL.\<close>

definition parse_rest :: "go_url \<Rightarrow> string \<Rightarrow> go_url option" where
  "parse_rest u r =
     (if \<not> has_prefix r ''/'' \<and> gu_scheme u \<noteq> [] then Some (u\<lparr>gu_opaque := r\<rparr>)
      else if \<not> has_prefix r ''/'' \<and> CHR '':'' \<in> set (fst (cut r ''/'')) then None
      else if (gu_scheme u \<noteq> [] \<or> \<not> has_prefix r ''///'') \<and> has_prefix r ''//'' then
        (let a = drop 2 r; i = (case str_index a ''/'' of Some i \<Rightarrow> i | None \<Rightarrow> length a) in
         case parse_authority (take i a) of
           None \<Rightarrow> None
         | Some (user, host) \<Rightarrow> set_path (drop i a) (u\<lparr>gu_user := user, gu_host := host\<rparr>))
      else set_path r (u\<lparr>gu_omit_host := gu_scheme u \<noteq> [] \<and> has_prefix r ''/''\<rparr>))"

definition parse_no_fragment :: "string \<Rightarrow> go_url option" where
  "parse_no_fragment s =
     (if has_control s then None
      else if s = ''*'' then Some (empty_url\<lparr>gu_path := ''*''\<rparr>)
      else (case get_scheme s of
          None \<Rightarrow> None
        | Some (scheme, r) \<Rightarrow>
            let u = empty_url\<lparr>gu_scheme := map lower_char scheme\<rparr> in
            if has_suffix r ''?'' \<and> count_list r (CHR ''?'') = 1
            then parse_rest (u\<lparr>gu_force_query := True\<rparr>) (butlast r)
            else (case cut r ''?'' of (r1, q, found) \<Rightarrow> parse_rest (u\<lparr>gu_raw_query := q\<rparr>) r1)))"

definition url_parse :: "string \<Rightarrow> go_url option" where
  "url_parse s = (case cut s ''#'' of (u, frag, found) \<Rightarrow>
     (case parse_no_fragment u of
        None \<Rightarrow> None
      | Some r \<Rightarrow> if unescape EncodeFragment frag = None then None else Some r))"

section \<open>String, Hostname and Port\<close>

definition valid_encoded_path :: "string \<Rightarrow> bool" where
  "valid_encoded_path s = list_all (\<lambda>c. c \<in> set ''!$&()*+,;=:@[]%'' \<union> {CHR 0x27} \<or> \<not> should_escape EncodePath c) s"

definition escaped_path :: "go_url \<Rightarrow> string" where
  "escaped_path u =
     (if gu_raw_path u \<noteq> [] \<and> valid_encoded_path (gu_raw_path u) \<and>
         unescape EncodePath (gu_raw_path u) = Some (gu_path u) then gu_raw_path u
      else if gu_path u = ''*'' then ''*''
      else url_escape EncodePath (gu_path u))"

definition userinfo_text :: "string \<times> string option \<Rightarrow> string" where
  "userinfo_text ui = url_escape EncodeUserPassword (fst ui) @
     (case snd ui of Some p \<Rightarrow> CHR '':'' # url_escape EncodeUserPassword p | None \<Rightarrow> [])"

definition url_string :: "go_url \<Rightarrow> string" where
  "url_string u =
     (let scheme = (if gu_scheme u \<noteq> [] then gu_scheme u @ '':'' else []);
          authority =
            (if (gu_scheme u \<noteq> [] \<or> gu_host u \<noteq> [] \<or> gu_user u \<noteq> None) \<and>
                \<not> (gu_omit_host u \<and> gu_host u = [] \<and> gu_user u = None)
             then (if gu_host u \<noteq> [] \<or> gu_path u \<noteq> [] \<or> gu_user u \<noteq> None then ''//'' else []) @
               (case gu_user u of Some ui \<Rightarrow> userinfo_text ui @ ''@'' | None \<Rightarrow> []) @
               url_escape EncodeHost (gu_host u)
             else []);
          p = escaped_path u;
          rooted = (if p \<noteq> [] \<and> \<not> has_prefix p ''/'' \<and> gu_host u \<noteq> [] then ''/'' else []);
          dot = (if scheme @ authority @ rooted = [] \<and> CHR '':'' \<in> set (fst (cut p ''/'')) then ''./'' else [])
      in scheme @ (if gu_opaque u \<noteq> [] then gu_opaque u else authority @ rooted @ dot @ p) @
         (if gu_force_query u \<or> gu_raw_query u \<noteq> [] then CHR ''?'' # gu_raw_query u else []))"

definition split_port :: "string \<Rightarrow> string \<times> string" where
  "split_port hp =
     (let (h, p) = (case last_index hp CHR '':'' of
            Some i \<Rightarrow> if valid_optional_port (drop i hp) then (take i hp, drop (Suc i) hp) else (hp, [])
          | None \<Rightarrow> (hp, []))
      in (if has_prefix h ''['' \<and> has_suffix h '']'' then butlast (drop 1 h) else h, p))"

definition url_hostname :: "go_url \<Rightarrow> string" where "url_hostname u = fst (split_port (gu_host u))"
definition url_port :: "go_url \<Rightarrow> string" where "url_port u = snd (split_port (gu_host u))"

lemma url_parse_examples:
  "map_option url_string (url_parse ''https://example.org:443/a/b.tar.gz?x=1#tag=v1'') =
     Some ''https://example.org:443/a/b.tar.gz?x=1''"
  "map_option gu_host (url_parse ''foo.patch'') = Some []"
  "url_parse ''http://[1]/x'' = None"
  "map_option (\<lambda>u. (url_hostname u, url_port u)) (url_parse ''HTTP://u:p@[2001:db8::1]:8080/%41'') =
     Some (''2001:db8::1'', ''8080'')"
  by code_simp+

end
