(* ===== verification/Allowance.thy ===== *)
theory Allowance
  imports Go_Url Go_Lines Contain_Scope
begin

text \<open>
  The frozen source set of allowance.go: reading the declared sources out of the .SRCINFO text that
  a contained evaluation of the recipe printed, classifying each of them, and deciding whether a
  request lies within the set.
\<close>

section \<open>Model\<close>

datatype source_kind = SourceLocal | SourceExact | SourceVCS

record declared_source =
  ds_raw :: string
  ds_url :: string
  ds_kind :: source_kind

text \<open>\<open>al_frozen\<close> is the time of the freeze; None is the zero time of an Allowance nobody froze.\<close>

record allowance =
  al_sources :: "declared_source list"
  al_derived :: string
  al_frozen :: "int option"
  al_origin :: string

definition max_declared_sources :: nat where "max_declared_sources = 256"
definition max_srcinfo_line_bytes :: nat where "max_srcinfo_line_bytes = 64 * 1024"

definition vcs_schemes :: "string list" where
  "vcs_schemes = [''git+'', ''hg+'', ''svn+'', ''bzr+'', ''fossil+'']"

definition source_target :: "string \<Rightarrow> string" where
  "source_target entry = (case cut entry ''::'' of (a, b, ok) \<Rightarrow> if ok then b else entry)"

definition classify_source :: "string \<Rightarrow> declared_source" where
  "classify_source entry =
     (let t0 = source_target entry;
          plus = find (has_prefix t0) vcs_schemes;
          t = (case plus of Some scheme \<Rightarrow> trim_prefix t0 scheme | None \<Rightarrow> t0);
          bare = (case url_parse t of
              Some u \<Rightarrow> gu_scheme u \<in> {''git'', ''svn'', ''hg'', ''bzr''} | None \<Rightarrow> False);
          kind = (if plus \<noteq> None \<or> bare then SourceVCS else SourceExact)
      in case url_parse t of
           None \<Rightarrow> \<lparr>ds_raw = entry, ds_url = [], ds_kind = SourceLocal\<rparr>
         | Some u \<Rightarrow> if gu_scheme u = [] \<or> gu_host u = []
             then \<lparr>ds_raw = entry, ds_url = [], ds_kind = SourceLocal\<rparr>
             else \<lparr>ds_raw = entry, ds_url = url_string u, ds_kind = kind\<rparr>)"

text \<open>The value of a line that declares a source; None for every other line.\<close>

definition srcinfo_source :: "string \<Rightarrow> string option" where
  "srcinfo_source line = (case cut line ''='' of (k, v, ok) \<Rightarrow>
     if \<not> ok then None
     else if trim_space k \<noteq> ''source'' \<and> \<not> has_prefix (trim_space k) ''source_'' then None
     else if trim_space v = [] then None else Some (trim_space v))"

datatype allowance_error = TooManySources | OverlongLine | NoNamespaceGiven | NoRecipe | EvaluationFailed scope_error
  | NotFrozen | UnparsableRequest

text \<open>The loop over the scanned lines; None: there are more sources than a package may declare.\<close>

fun collect_sources :: "string list \<Rightarrow> declared_source list \<Rightarrow> string list \<Rightarrow> declared_source list option" where
  "collect_sources seen acc [] = Some acc"
| "collect_sources seen acc (l # ls) = (case srcinfo_source l of
      None \<Rightarrow> collect_sources seen acc ls
    | Some v \<Rightarrow>
        if v \<in> set seen then collect_sources seen acc ls
        else if length acc \<ge> max_declared_sources then None
        else collect_sources (v # seen) (acc @ [classify_source v]) ls)"

definition parse_srcinfo_sources :: "string \<Rightarrow> allowance_error + declared_source list" where
  "parse_srcinfo_sources raw = (case scan_lines_max max_srcinfo_line_bytes raw of (ls, overlong) \<Rightarrow>
     (case collect_sources [] [] ls of
        None \<Rightarrow> Inl TooManySources
      | Some ss \<Rightarrow> if overlong then Inl OverlongLine else Inr ss))"

section \<open>Freezing\<close>

definition freeze_spec :: "string \<Rightarrow> string \<Rightarrow> spec" where
  "freeze_spec checkout lang =
     \<lparr>workdir = checkout, workdir_target = [], extra_binds = [], extra_ro_binds = [], empty_pacman_database = False,
      env = base_env lang, argv = [''/usr/bin/makepkg'', ''--printsrcinfo'']\<rparr>"

text \<open>
  FreezeDeclaredSources. The arguments after the limits are those of run_limited: what the system
  answers and what the recipe prints.
\<close>

definition freeze_declared_sources ::
  "nat option \<Rightarrow> string \<Rightarrow> bool \<Rightarrow> string \<Rightarrow> limits \<Rightarrow> bool \<Rightarrow> string option \<Rightarrow> bool \<Rightarrow>
   bytes list \<Rightarrow> bytes list \<Rightarrow> client_exit \<Rightarrow> unit_event \<Rightarrow> int \<Rightarrow> allowance_error + allowance" where
  "freeze_declared_sources ns checkout recipe lang l manager unit started outs errs client ev now =
     (if ns = None then Inl NoNamespaceGiven
      else if \<not> recipe then Inl NoRecipe
      else (case run_limited ns (freeze_spec checkout lang) l manager unit started outs errs client ev of
          (command, actions, captured, Some e) \<Rightarrow> Inl (EvaluationFailed e)
        | (command, actions, captured, None) \<Rightarrow>
            let out = (case captured of Some (o1, e1) \<Rightarrow> map (\<lambda>b. char_of (unat b)) o1 | None \<Rightarrow> []) in
            (case parse_srcinfo_sources out of
               Inl e \<Rightarrow> Inl e
             | Inr ss \<Rightarrow> Inr \<lparr>al_sources = ss, al_derived = out, al_frozen = Some now, al_origin = checkout\<rparr>)))"

definition derived_srcinfo :: "allowance option \<Rightarrow> string" where
  "derived_srcinfo a = (case a of None \<Rightarrow> [] | Some r \<Rightarrow> al_derived r)"

definition declared :: "allowance option \<Rightarrow> declared_source list" where
  "declared a = (case a of None \<Rightarrow> [] | Some r \<Rightarrow> al_sources r)"

section \<open>Requests within the set\<close>

definition normalize_host :: "(string \<Rightarrow> string) \<Rightarrow> go_url \<Rightarrow> string" where
  "normalize_host ul u = (let host = to_lower ul (url_hostname u); port = url_port u in
     if port = [] \<or> (gu_scheme u = ''https'' \<and> port = ''443'') \<or> (gu_scheme u = ''http'' \<and> port = ''80'')
     then host else host @ '':'' @ port)"

definition same_request :: "(string \<Rightarrow> string) \<Rightarrow> string \<Rightarrow> go_url \<Rightarrow> bool" where
  "same_request ul url request = (case url_parse url of None \<Rightarrow> False | Some p \<Rightarrow>
     normalize_host ul p = normalize_host ul request \<and> gu_scheme p = gu_scheme request \<and>
     gu_path p = gu_path request \<and> gu_raw_query p = gu_raw_query request)"

definition under_repository :: "(string \<Rightarrow> string) \<Rightarrow> string \<Rightarrow> go_url \<Rightarrow> bool" where
  "under_repository ul url request = (case url_parse url of None \<Rightarrow> False | Some p \<Rightarrow>
     if normalize_host ul p \<noteq> normalize_host ul request \<or> gu_scheme p \<noteq> gu_scheme request then False
     else let base = trim_suffix (gu_path p) ''/'' in
       if base = [] then gu_path request = [] \<or> gu_path request = ''/''
       else gu_path request = base \<or> has_prefix (gu_path request) (base @ ''/''))"

definition permits_source :: "(string \<Rightarrow> string) \<Rightarrow> go_url \<Rightarrow> declared_source \<Rightarrow> bool" where
  "permits_source ul request s = (case ds_kind s of
      SourceLocal \<Rightarrow> False
    | SourceExact \<Rightarrow> same_request ul (ds_url s) request
    | SourceVCS \<Rightarrow> under_repository ul (ds_url s) request)"

definition permits :: "(string \<Rightarrow> string) \<Rightarrow> allowance option \<Rightarrow> string \<Rightarrow> allowance_error + bool" where
  "permits ul a raw = (case a of
      None \<Rightarrow> Inl NotFrozen
    | Some r \<Rightarrow> if al_frozen r = None then Inl NotFrozen
        else (case url_parse raw of
            None \<Rightarrow> Inl UnparsableRequest
          | Some u \<Rightarrow> Inr (list_ex (permits_source ul u) (al_sources r))))"

section \<open>Properties\<close>

lemma collect_sources_dedupe:
  "collect_sources seen acc ls =
     (let vs = dedupe seen (List.map_filter srcinfo_source ls) in
      if vs \<noteq> [] \<and> length acc + length vs > max_declared_sources then None else Some (acc @ map classify_source vs))"
proof (induction seen acc ls rule: collect_sources.induct)
  case (2 seen acc l ls)
  show ?case
  proof (cases "srcinfo_source l")
    case None
    with 2(1) show ?thesis by (simp add: map_filter_simps)
  next
    case (Some v)
    with 2(2,3)[OF Some] show ?thesis by (auto simp: map_filter_simps Let_def)
  qed
qed (simp add: map_filter_simps)

lemma classify_raw: "ds_raw (classify_source v) = v"
  by (auto simp: classify_source_def Let_def split: option.splits)

text \<open>A declared download is permitted by the set that declares it, whenever its URL parses at all.\<close>

lemma permits_declared:
  "s \<in> set (al_sources a) \<Longrightarrow> ds_kind s = SourceExact \<Longrightarrow> al_frozen a \<noteq> None \<Longrightarrow> url_parse (ds_url s) \<noteq> None \<Longrightarrow>
     permits ul (Some a) (ds_url s) = Inr True"
  by (auto simp: permits_def list_ex_iff permits_source_def same_request_def intro!: bexI[of _ s])

text \<open>
  A repository admits a path that leaves it through a dot-dot element: paths are compared as they
  are written, not cleaned.
\<close>

lemma repository_admits_parent:
  "permits ul (Some \<lparr>al_sources = [classify_source ''git+https://example.org/a/repo.git''], al_derived = [],
       al_frozen = Some 1, al_origin = []\<rparr>) ''https://example.org/a/repo.git/../other'' = Inr True"
  by code_simp

text \<open>C12: the frozen source list is never a partial one. Parsing the text a recipe printed fails
  exactly if it declares more than 256 different sources, or if the scan was cut by an overlong
  line; otherwise the result has one entry for every non-empty value of a source line, in order of first
  appearance and without repetition. So what the user is shown is everything that is declared.\<close>

theorem declared_sources_complete:
  "parse_srcinfo_sources raw =
     (let ls = fst (scan_lines_max max_srcinfo_line_bytes raw);
          vs = dedupe [] (List.map_filter srcinfo_source ls) in
      if length vs > max_declared_sources then Inl TooManySources
      else if snd (scan_lines_max max_srcinfo_line_bytes raw) then Inl OverlongLine
      else Inr (map classify_source vs))"
  by (auto simp: parse_srcinfo_sources_def collect_sources_dedupe Let_def max_declared_sources_def split: prod.split)

end
