(* ===== verification/Acquire.thy ===== *)
theory Acquire
  imports Allowance Address_Policy Broker_Config
begin

text \<open>
  The trusted-side download of the declared sources (acquire.go): the transaction's budget of bytes
  and time, the free space that must stay, the HTTP client with its redirect limit and its checked
  dialer, the file written per source, and the loop over the frozen set. The network, the servers,
  the clock and the file system are functions of everything done before; what acquisition does is
  a trace of events. Progress display is not modelled.
\<close>

section \<open>World and state\<close>

datatype acquire_event =
    FetchResolve string
  | FetchDial bytes int
  | HttpGet go_url
  | WroteFile string int

text \<open>
  What a request is answered with: a redirect (to a Location that does not parse, or to a URL), an
  answer with its status, its content length, the bytes its body delivers and whether the body or the
  file written ended in an error (a stall, a reset, a full disk), or nothing.
\<close>

datatype http_reply = Redirected "go_url option" | Answered int int string bool | NoReply

record fetch_world =
  fw_lookup :: "acquire_event list \<Rightarrow> string \<Rightarrow> bytes list option"
  fw_dial :: "acquire_event list \<Rightarrow> bytes \<Rightarrow> int \<Rightarrow> bool"
  fw_reply :: "acquire_event list \<Rightarrow> go_url \<Rightarrow> http_reply"
  fw_clock :: "acquire_event list \<Rightarrow> int"
  fw_statfs :: "acquire_event list \<Rightarrow> (int \<times> int \<times> int) option"
  fw_open :: "acquire_event list \<Rightarrow> string \<Rightarrow> bool"
  fw_close :: "acquire_event list \<Rightarrow> bool"
  fw_idna :: "string \<Rightarrow> string"
  fw_lower :: "string \<Rightarrow> string"

datatype acquire_error =
    SetNotFrozen | NoSourceDirectory | NoPolicy policy_error | UndeclarableVCS string | NotInFrozenSet string
  | BadSourceName | UnsupportedScheme string | ReserveViolated | TimeExhausted | RequestNotMade
  | TooManyRedirects | HttpStatus int | FileNotOpened | CopyFailed | FileNotClosed
  | ReserveReached int | BudgetExceeded int

record fetch_record =
  fr_declared :: string
  fr_filename :: string
  fr_hosts :: "string list"
  fr_bytes :: int

record acquisition =
  aq_fetched :: "fetch_record list"
  aq_declared :: "declared_source list"
  aq_vcs_hosts :: "string list"

text \<open>Times are nanoseconds, as in a time.Duration.\<close>

record acquire_budget =
  ab_remaining :: int
  ab_deadline :: int
  ab_idle :: int
  ab_reserve :: int
  ab_root :: string

record fetch_state =
  fs_trace :: "acquire_event list"
  fs_files :: "string \<Rightarrow> string option"
  fs_budget :: acquire_budget

section \<open>The budget\<close>

definition second :: int where "second = 1000000000"
definition minute :: int where "minute = 60 * second"
definition hour :: int where "hour = 60 * minute"

definition new_acquire_budget :: "egress_config \<Rightarrow> string \<Rightarrow> int \<Rightarrow> acquire_budget" where
  "new_acquire_budget c srcdest now =
     (let bytes = (if max_transfer_bytes c \<le> 0 then 8 * 1024 * 1024 * 1024 else max_transfer_bytes c);
          idle0 = wrap64 (idle_timeout_seconds c * second);
          idle = (if idle0 \<le> 0 then 60 * second else idle0);
          all0 = wrap64 (int max_declared_sources * idle);
          all1 = (if all0 > 2 * hour then 2 * hour else all0);
          all2 = (if all1 < 10 * minute then 10 * minute else all1)
      in \<lparr>ab_remaining = bytes, ab_deadline = now + all2, ab_idle = idle, ab_reserve = disk_reserve_bytes c,
          ab_root = srcdest\<rparr>)"

text \<open>The integer division of Go truncates toward zero.\<close>

definition tenth_of :: "int \<Rightarrow> int" where
  "tenth_of n = (if n < 0 then - ((- n) div 10) else n div 10)"

text \<open>Free space and the reserve: the larger of the configured one and a tenth of the file system.\<close>

definition fs_space :: "acquire_budget \<Rightarrow> int \<times> int \<times> int \<Rightarrow> int \<times> int" where
  "fs_space b st = (case st of (blocks, bavail, bsize) \<Rightarrow>
     let tot = wrap64 (wrap64 blocks * bsize); avail = wrap64 (wrap64 bavail * bsize);
         reserve = (if tenth_of tot > ab_reserve b then tenth_of tot else ab_reserve b)
     in (avail, reserve))"

definition headroom :: "acquire_budget \<Rightarrow> (int \<times> int \<times> int) option \<Rightarrow> int option" where
  "headroom b st = (if ab_root b = [] then None
     else (case st of None \<Rightarrow> None
       | Some s \<Rightarrow> (case fs_space b s of (avail, reserve) \<Rightarrow> Some (wrap64 (avail - reserve)))))"

definition check_reserve :: "acquire_budget \<Rightarrow> (int \<times> int \<times> int) option \<Rightarrow> bool" where
  "check_reserve b st = (if ab_root b = [] then True
     else (case st of None \<Rightarrow> True
       | Some s \<Rightarrow> (case fs_space b s of (avail, reserve) \<Rightarrow> \<not> avail < reserve)))"

text \<open>The limit of one copy, and whether the reserve set it.\<close>

definition transfer_limit :: "acquire_budget \<Rightarrow> (int \<times> int \<times> int) option \<Rightarrow> int \<times> bool" where
  "transfer_limit b st = (case headroom b st of
      Some h \<Rightarrow> if h < ab_remaining b then (max h 0, True) else (ab_remaining b, False)
    | None \<Rightarrow> (ab_remaining b, False))"

section \<open>Names\<close>

definition valid_source_filename :: "string \<Rightarrow> string option" where
  "valid_source_filename raw = (let name = trim_space raw in
     if name = [] \<or> name = ''.'' \<or> name = ''..'' \<or> name = ''/'' \<or>
        list_ex (\<lambda>c. c = CHR ''/'' \<or> c = CHR 0x5C \<or> c = CHR 0x00) name
     then None else Some name)"

definition source_filename :: "declared_source \<Rightarrow> string option" where
  "source_filename s = (case cut (ds_raw s) ''::'' of (before, b, ok) \<Rightarrow>
     if ok \<and> before \<noteq> [] then valid_source_filename before
     else (case url_parse (ds_url s) of
         None \<Rightarrow> None | Some u \<Rightarrow> valid_source_filename (path_base (gu_path u))))"

definition dedupe_sorted :: "string list \<Rightarrow> string list" where
  "dedupe_sorted vs = sort (dedupe [] (filter (\<lambda>v. v \<noteq> []) vs))"

definition acquisition_hosts :: "acquisition \<Rightarrow> string list" where
  "acquisition_hosts a = sort (dedupe [] (concat (map fr_hosts (aq_fetched a)) @ aq_vcs_hosts a))"

section \<open>The checked dialer and the HTTP client\<close>

text \<open>net.JoinHostPort.\<close>

definition join_host_port :: "string \<Rightarrow> string \<Rightarrow> string" where
  "join_host_port host port = (if CHR '':'' \<in> set host then CHR ''['' # host @ '']:'' @ port
     else host @ '':'' @ port)"

fun dial_checked :: "fetch_world \<Rightarrow> int \<Rightarrow> bytes list \<Rightarrow> acquire_event list \<Rightarrow> bool \<times> acquire_event list" where
  "dial_checked w port [] tr = (False, tr)"
| "dial_checked w port (a # as) tr =
     (if fw_dial w tr a port then (True, tr @ [FetchDial a port])
      else dial_checked w port as (tr @ [FetchDial a port]))"

definition checked_dialer :: "fetch_world \<Rightarrow> address_policy \<Rightarrow> string \<Rightarrow> acquire_event list \<Rightarrow> bool \<times> acquire_event list" where
  "checked_dialer w p address tr = (case split_host_port address of
      None \<Rightarrow> (False, tr)
    | Some (host, port_text) \<Rightarrow> (case atoi port_text of
          None \<Rightarrow> (False, tr)
        | Some port \<Rightarrow>
            if \<not> policy_port (Some p) port then (False, tr)
            else (let tr1 = tr @ [FetchResolve host] in
              case fw_lookup w tr host of
                None \<Rightarrow> (False, tr1)
              | Some as \<Rightarrow> if as = [] then (False, tr1)
                  else if \<not> list_all (policy_public (Some p)) as then (False, tr1)
                  else dial_checked w port as tr1)))"

text \<open>
  One round trip of http.Transport without connection reuse, proxy or decompression. The address is the
  one the transport derives from the URL.
\<close>

definition canonical_address :: "fetch_world \<Rightarrow> go_url \<Rightarrow> string" where
  "canonical_address w u = join_host_port
     (if all_ascii (url_hostname u) then url_hostname u else fw_idna w (url_hostname u))
     (if url_port u \<noteq> [] then url_port u else if gu_scheme u = ''https'' then ''443'' else ''80'')"

definition round_trip :: "fetch_world \<Rightarrow> address_policy \<Rightarrow> go_url \<Rightarrow> acquire_event list \<Rightarrow> http_reply \<times> acquire_event list" where
  "round_trip w p u tr =
     (if (gu_scheme u \<noteq> ''http'' \<and> gu_scheme u \<noteq> ''https'') \<or> gu_host u = [] then (NoReply, tr)
      else (case checked_dialer w p (canonical_address w u) tr of
          (False, tr1) \<Rightarrow> (NoReply, tr1)
        | (True, tr1) \<Rightarrow> (fw_reply w (tr1 @ [HttpGet u]) u, tr1 @ [HttpGet u])))"

definition max_redirect_hops :: nat where "max_redirect_hops = 5"

definition contact_host :: "fetch_world \<Rightarrow> go_url \<Rightarrow> string" where
  "contact_host w u = to_lower (fw_lower w) (url_hostname u)"

text \<open>http.Client.Do with CheckRedirect. \<open>via\<close> counts the requests already made.\<close>

function client_do :: "fetch_world \<Rightarrow> address_policy \<Rightarrow> nat \<Rightarrow> go_url \<Rightarrow> string list \<Rightarrow> acquire_event list \<Rightarrow>
    (acquire_error + int \<times> string \<times> bool) \<times> string list \<times> acquire_event list" where
  "client_do w p via u hosts tr = (case round_trip w p u tr of
      (NoReply, tr1) \<Rightarrow> (Inl RequestNotMade, hosts, tr1)
    | (Redirected None, tr1) \<Rightarrow> (Inl RequestNotMade, hosts, tr1)
    | (Redirected (Some v), tr1) \<Rightarrow>
        if Suc via \<ge> max_redirect_hops then (Inl TooManyRedirects, hosts, tr1)
        else client_do w p (Suc via) v (hosts @ [contact_host w v]) tr1
    | (Answered status len body bad, tr1) \<Rightarrow> (Inr (status, body, bad), hosts, tr1))"
  by pat_completeness auto

termination
  by (relation "measure (\<lambda>(w, p, via, u, hosts, tr). max_redirect_hops - via)") auto

declare client_do.simps [simp del]

section \<open>One source\<close>

text \<open>
  The copy into the open file: at most \<open>limit + 1\<close> bytes are read, an int64 sum; reading one byte past
  the limit is what shows that the body is too long.
\<close>

definition copied :: "int \<Rightarrow> string \<Rightarrow> bool \<Rightarrow> string \<times> bool" where
  "copied limit body bad = (let n = wrap64 (limit + 1) in
     if int (length body) < n then (body, bad) else (take (nat n) body, False))"

definition store_body :: "fetch_world \<Rightarrow> string \<Rightarrow> string \<Rightarrow> bool \<Rightarrow> fetch_state \<Rightarrow> (acquire_error + int) \<times> fetch_state" where
  "store_body w target body bad st =
     (if \<not> fw_open w (fs_trace st) target then (Inl FileNotOpened, st)
      else
        let b = fs_budget st; tr = fs_trace st;
            (limit, reserve_bound) = transfer_limit b (fw_statfs w tr);
            (written, copy_bad) = copied limit body bad;
            n = int (length written);
            tr1 = tr @ [WroteFile target n];
            st1 = st\<lparr>fs_trace := tr1, fs_budget := b\<lparr>ab_remaining := max 0 (ab_remaining b - n)\<rparr>\<rparr>;
            removed = st1\<lparr>fs_files := (fs_files st1)(target := None)\<rparr>
        in if copy_bad then (Inl CopyFailed, removed)
           else if \<not> fw_close w tr1 then (Inl FileNotClosed, removed)
           else if n > limit then (Inl (if reserve_bound then ReserveReached limit else BudgetExceeded limit), removed)
           else (Inr n, st1\<lparr>fs_files := (fs_files st1)(target := Some written)\<rparr>))"

definition fetch_declared :: "fetch_world \<Rightarrow> address_policy \<Rightarrow> string \<Rightarrow> declared_source \<Rightarrow> fetch_state \<Rightarrow>
    (acquire_error + fetch_record) \<times> fetch_state" where
  "fetch_declared w p srcdest s st = (case source_filename s of
      None \<Rightarrow> (Inl BadSourceName, st)
    | Some filename \<Rightarrow> (case url_parse (ds_url s) of
        None \<Rightarrow> (Inl RequestNotMade, st)
      | Some u \<Rightarrow>
          if gu_scheme u \<noteq> ''http'' \<and> gu_scheme u \<noteq> ''https'' then (Inl (UnsupportedScheme (gu_scheme u)), st)
          else if \<not> check_reserve (fs_budget st) (fw_statfs w (fs_trace st)) then (Inl ReserveViolated, st)
          else if ab_deadline (fs_budget st) - fw_clock w (fs_trace st) \<le> 0 then (Inl TimeExhausted, st)
          else (case client_do w p 0 u [contact_host w u] (fs_trace st) of
              (Inl e, hosts, tr) \<Rightarrow> (Inl e, st\<lparr>fs_trace := tr\<rparr>)
            | (Inr (status, body, bad), hosts, tr) \<Rightarrow>
                if status \<noteq> 200 then (Inl (HttpStatus status), st\<lparr>fs_trace := tr\<rparr>)
                else (case store_body w (path_join [srcdest, filename]) body bad (st\<lparr>fs_trace := tr\<rparr>) of
                    (Inl e, st1) \<Rightarrow> (Inl e, st1)
                  | (Inr n, st1) \<Rightarrow> (Inr \<lparr>fr_declared = ds_url s, fr_filename = filename,
                      fr_hosts = dedupe_sorted hosts, fr_bytes = n\<rparr>, st1)))))"

section \<open>The transaction\<close>

fun acquire_loop :: "fetch_world \<Rightarrow> address_policy \<Rightarrow> allowance \<Rightarrow> string \<Rightarrow> declared_source list \<Rightarrow>
    acquisition \<Rightarrow> fetch_state \<Rightarrow> (acquire_error + acquisition) \<times> fetch_state" where
  "acquire_loop w p a srcdest [] result st =
     (Inr (result\<lparr>aq_vcs_hosts := dedupe_sorted (aq_vcs_hosts result)\<rparr>), st)"
| "acquire_loop w p a srcdest (s # ss) result st = (case ds_kind s of
      SourceLocal \<Rightarrow> acquire_loop w p a srcdest ss result st
    | SourceVCS \<Rightarrow> (case url_parse (ds_url s) of
          None \<Rightarrow> (Inl (UndeclarableVCS (ds_raw s)), st)
        | Some u \<Rightarrow> if gu_host u = [] then (Inl (UndeclarableVCS (ds_raw s)), st)
            else acquire_loop w p a srcdest ss
              (result\<lparr>aq_vcs_hosts := aq_vcs_hosts result @ [contact_host w u]\<rparr>) st)
    | SourceExact \<Rightarrow>
        if permits (fw_lower w) (Some a) (ds_url s) \<noteq> Inr True then (Inl (NotInFrozenSet (ds_url s)), st)
        else (case fetch_declared w p srcdest s st of
            (Inl e, st1) \<Rightarrow> (Inl e, st1)
          | (Inr r, st1) \<Rightarrow> acquire_loop w p a srcdest ss (result\<lparr>aq_fetched := aq_fetched result @ [r]\<rparr>) st1))"

text \<open>
  AcquireWithProgress: \<open>made\<close> says whether the directory could be created, \<open>interfaces\<close> is what the
  system says about its network interfaces, \<open>files\<close> what is in the directory.
\<close>

definition acquire :: "fetch_world \<Rightarrow> allowance option \<Rightarrow> string \<Rightarrow> egress_config \<Rightarrow> bool \<Rightarrow>
    (string \<times> string list option) list option \<Rightarrow> (string \<Rightarrow> string option) \<Rightarrow>
    (acquire_error + acquisition) \<times> fetch_state" where
  "acquire w frozen srcdest c made interfaces files =
     (let st = \<lparr>fs_trace = [], fs_files = files, fs_budget = new_acquire_budget c srcdest (fw_clock w [])\<rparr> in
      case frozen of
        None \<Rightarrow> (Inl SetNotFrozen, st)
      | Some a \<Rightarrow>
          if al_frozen a = None then (Inl SetNotFrozen, st)
          else if \<not> made then (Inl NoSourceDirectory, st)
          else (case new_address_policy interfaces of
              Inl e \<Rightarrow> (Inl (NoPolicy e), st)
            | Inr p \<Rightarrow> acquire_loop w p a srcdest (declared frozen)
                \<lparr>aq_fetched = [], aq_declared = declared frozen, aq_vcs_hosts = []\<rparr> st))"

section \<open>What a run leaves in the trace\<close>

definition dialled_ok :: "address_policy \<Rightarrow> acquire_event \<Rightarrow> bool" where
  "dialled_ok p e = (case e of
      FetchDial a port \<Rightarrow> policy_public (Some p) a \<and> policy_port (Some p) port | _ \<Rightarrow> True)"

definition requests_made :: "acquire_event list \<Rightarrow> nat" where
  "requests_made tr = length (filter (\<lambda>e. case e of HttpGet u \<Rightarrow> True | _ \<Rightarrow> False) tr)"

definition bytes_written :: "acquire_event list \<Rightarrow> int" where
  "bytes_written tr = sum_list (map (\<lambda>e. case e of WroteFile t n \<Rightarrow> n | _ \<Rightarrow> 0) tr)"

lemma requests_made_simps [simp]:
  "requests_made [] = 0" "requests_made (tr @ tr') = requests_made tr + requests_made tr'"
  "requests_made [HttpGet u] = 1" "requests_made [FetchResolve h] = 0" "requests_made [FetchDial a q] = 0"
  "requests_made [WroteFile t n] = 0"
  by (simp_all add: requests_made_def)

lemma bytes_written_simps [simp]:
  "bytes_written [] = 0" "bytes_written (tr @ tr') = bytes_written tr + bytes_written tr'"
  "bytes_written [HttpGet u] = 0" "bytes_written [FetchResolve h] = 0" "bytes_written [FetchDial a q] = 0"
  "bytes_written [WroteFile t n] = n"
  by (simp_all add: bytes_written_def)

text \<open>A step that reaches permitted addresses only, makes at most \<open>g\<close> requests and writes \<open>n\<close> bytes.\<close>

definition reaches :: "address_policy \<Rightarrow> nat \<Rightarrow> int \<Rightarrow> acquire_event list \<Rightarrow> acquire_event list \<Rightarrow> bool" where
  "reaches p g n tr tr' =
     (\<exists>es. tr' = tr @ es \<and> list_all (dialled_ok p) es \<and> requests_made es \<le> g \<and> bytes_written es = n)"

lemma reaches_refl [simp]: "reaches p g 0 tr tr"
  by (simp add: reaches_def)

lemma reaches_step: "dialled_ok p e \<Longrightarrow> requests_made [e] \<le> g \<Longrightarrow> bytes_written [e] = n \<Longrightarrow> reaches p g n tr (tr @ [e])"
  by (auto simp: reaches_def)

lemma reaches_trans: "reaches p g n a b \<Longrightarrow> reaches p h m b c \<Longrightarrow> reaches p (g + h) (n + m) a c"
  unfolding reaches_def by (elim exE conjE) (rule exI[of _ "_ @ _"], auto)

lemma reaches_mono: "reaches p g n a b \<Longrightarrow> g \<le> h \<Longrightarrow> reaches p h n a b"
  unfolding reaches_def by auto

lemma reaches_prefix: "reaches p g n a b \<Longrightarrow> has_prefix b a"
  by (auto simp: reaches_def has_prefix_iff)

lemma dial_checked_reaches:
  "list_all (policy_public (Some p)) as \<Longrightarrow> policy_port (Some p) port \<Longrightarrow>
     reaches p 0 0 tr (snd (dial_checked w port as tr))"
proof (induction w port as tr rule: dial_checked.induct)
  case (2 w port a as tr)
  have s: "reaches p 0 0 tr (tr @ [FetchDial a port])"
    using 2 by (intro reaches_step) (auto simp: dialled_ok_def)
  show ?case
  proof (cases "fw_dial w tr a port")
    case False
    with 2 have "reaches p 0 0 (tr @ [FetchDial a port]) (snd (dial_checked w port as (tr @ [FetchDial a port])))"
      by simp
    from reaches_trans[OF s this] False show ?thesis by simp
  qed (use s in simp)
qed simp

lemma checked_dialer_reaches: "reaches p 0 0 tr (snd (checked_dialer w p address tr))"
proof -
  have r: "reaches p 0 0 tr (tr @ [FetchResolve h])" for h by (intro reaches_step) (auto simp: dialled_ok_def)
  have d: "list_all (policy_public (Some p)) as \<Longrightarrow> policy_port (Some p) port \<Longrightarrow>
      reaches p 0 0 tr (snd (dial_checked w port as (tr @ [FetchResolve h])))" for as port h
    using reaches_trans[OF r dial_checked_reaches] by simp
  show ?thesis by (auto simp: checked_dialer_def Let_def r d split: option.split)
qed

lemma round_trip_reaches: "reaches p 1 0 tr (snd (round_trip w p u tr))"
proof -
  obtain ok tr1 where d: "checked_dialer w p (canonical_address w u) tr = (ok, tr1)" by fastforce
  have a: "reaches p 0 0 tr tr1" using checked_dialer_reaches[of p tr w "canonical_address w u"] d by simp
  have "reaches p 1 0 tr1 (tr1 @ [HttpGet u])" by (intro reaches_step) (auto simp: dialled_ok_def)
  from reaches_trans[OF a this] reaches_mono[OF a, of 1] show ?thesis by (cases ok) (auto simp: round_trip_def d)
qed

lemma client_do_reaches:
  "client_do w p via u hosts tr = (r, hosts', tr') \<Longrightarrow> via < max_redirect_hops \<Longrightarrow>
     reaches p (max_redirect_hops - via) 0 tr tr'"
proof (induction w p via u hosts tr arbitrary: r hosts' tr' rule: client_do.induct)
  case (1 w p via u hosts tr)
  obtain x tr1 where t: "round_trip w p u tr = (x, tr1)" by fastforce
  have a: "reaches p 1 0 tr tr1" using round_trip_reaches[of p tr w u] t by simp
  have b: "reaches p (max_redirect_hops - via) 0 tr tr1"
    by (rule reaches_mono[OF a]) (use 1 in simp)
  show ?case
  proof (cases "\<exists>v. x = Redirected (Some v) \<and> Suc via < max_redirect_hops")
    case True
    then obtain v where v: "x = Redirected (Some v)" "Suc via < max_redirect_hops" by blast
    with 1(2) t have "client_do w p (Suc via) v (hosts @ [contact_host w v]) tr1 = (r, hosts', tr')"
      by (simp add: client_do.simps[of w p via])
    from 1(1)[OF t[symmetric] v(1) _ _ this] v
    have "reaches p (max_redirect_hops - Suc via) 0 tr1 tr'" by simp
    from reaches_trans[OF a this] v(2) show ?thesis by (simp add: Suc_diff_Suc)
  next
    case False
    with 1(2) t have "tr' = tr1" by (auto simp: client_do.simps[of w p via] split: http_reply.splits option.splits if_splits)
    with b show ?thesis by simp
  qed
qed

text \<open>The body of an answer comes from the last request made.\<close>

definition answered :: "fetch_world \<Rightarrow> acquire_event list \<Rightarrow> string \<Rightarrow> bool \<Rightarrow> bool" where
  "answered w tr body bad = (\<exists>tr0 u len. has_prefix tr (tr0 @ [HttpGet u]) \<and>
     fw_reply w (tr0 @ [HttpGet u]) u = Answered 200 len body bad)"

lemma answered_mono: "answered w tr body bad \<Longrightarrow> has_prefix tr' tr \<Longrightarrow> answered w tr' body bad"
  unfolding answered_def has_prefix_iff by (elim exE conjE) fastforce

lemma client_do_answered:
  "client_do w p via u hosts tr = (Inr (200, body, bad), hosts', tr') \<Longrightarrow> answered w tr' body bad"
proof (induction w p via u hosts tr arbitrary: hosts' tr' rule: client_do.induct)
  case (1 w p via u hosts tr)
  obtain x tr1 where t: "round_trip w p u tr = (x, tr1)" by fastforce
  show ?case
  proof (cases "\<exists>v. x = Redirected (Some v) \<and> Suc via < max_redirect_hops")
    case True
    then obtain v where v: "x = Redirected (Some v)" "Suc via < max_redirect_hops" by blast
    with 1(2) t have "client_do w p (Suc via) v (hosts @ [contact_host w v]) tr1 = (Inr (200, body, bad), hosts', tr')"
      by (simp add: client_do.simps[of w p via])
    from 1(1)[OF t[symmetric] v(1) _ _ this] v show ?thesis by simp
  next
    case False
    with 1(2) t obtain len where x: "x = Answered 200 len body bad" "tr' = tr1"
      by (auto simp: client_do.simps[of w p via] split: http_reply.splits option.splits if_splits)
    with t obtain tr0 where "tr1 = tr0 @ [HttpGet u]" "fw_reply w (tr0 @ [HttpGet u]) u = Answered 200 len body bad"
      by (auto simp: round_trip_def split: if_splits prod.splits bool.splits)
    with x show ?thesis by (auto simp: answered_def has_prefix_def intro!: exI[of _ tr0] exI[of _ u])
  qed
qed

section \<open>What a run does to the files and the budget\<close>

lemma transfer_limit_bounds:
  "transfer_limit b st = (limit, reserve_bound) \<Longrightarrow> 0 \<le> ab_remaining b \<Longrightarrow> 0 \<le> limit \<and> limit \<le> ab_remaining b"
  by (auto simp: transfer_limit_def split: option.splits if_splits)

lemma copied_length: "copied limit body bad = (written, copy_bad) \<Longrightarrow> 0 \<le> limit \<Longrightarrow> int (length written) \<le> limit + 1"
proof -
  assume c: "copied limit body bad = (written, copy_bad)" and l: "0 \<le> limit"
  have "wrap64 (limit + 1) \<le> limit + 1"
    using l by (simp add: wrap64_def zmod_le_nonneg_dividend)
  with c l show ?thesis by (auto simp: copied_def Let_def split: if_splits)
qed

lemma copied_whole:
  "copied limit body bad = (written, False) \<Longrightarrow> int (length written) \<le> limit \<Longrightarrow> in_int64 (limit + 1) \<Longrightarrow>
     written = body \<and> \<not> bad"
  by (auto simp: copied_def Let_def split: if_splits)

text \<open>
  The invariant of a run with a byte budget \<open>B\<close>: what was written and what remains add up to it, and
  each file that was not there before holds the whole body of an answer to one of the run's own requests, under the
  name of a declared source.
\<close>

definition source_file :: "string \<Rightarrow> declared_source list \<Rightarrow> string \<Rightarrow> bool" where
  "source_file srcdest ss target = (\<exists>s \<in> set ss. ds_kind s = SourceExact \<and>
     (\<exists>name. source_filename s = Some name \<and> target = path_join [srcdest, name]))"

definition files_whole :: "fetch_world \<Rightarrow> string \<Rightarrow> declared_source list \<Rightarrow> (string \<Rightarrow> string option) \<Rightarrow> fetch_state \<Rightarrow> bool" where
  "files_whole w srcdest ss files st = (\<forall>target content. fs_files st target = Some content \<longrightarrow>
     files target = Some content \<or> (source_file srcdest ss target \<and> answered w (fs_trace st) content False))"

definition budget_inv :: "int \<Rightarrow> fetch_state \<Rightarrow> bool" where
  "budget_inv B st = (0 \<le> ab_remaining (fs_budget st) \<and>
     bytes_written (fs_trace st) + ab_remaining (fs_budget st) = B)"

definition step_from :: "address_policy \<Rightarrow> nat \<Rightarrow> fetch_state \<Rightarrow> fetch_state \<Rightarrow> bool" where
  "step_from p g st st' = (\<exists>n. reaches p g n (fs_trace st) (fs_trace st'))"

lemma store_body_reaches:
  "store_body w target body bad st = (r, st') \<Longrightarrow> \<exists>n. reaches p 0 n (fs_trace st) (fs_trace st')"
proof -
  assume "store_body w target body bad st = (r, st')"
  then have "fs_trace st' = fs_trace st \<or> (\<exists>n. fs_trace st' = fs_trace st @ [WroteFile target n])"
    by (auto simp: store_body_def Let_def split: if_splits prod.splits)
  moreover have "reaches p 0 n (fs_trace st) (fs_trace st @ [WroteFile target n])" for n
    by (intro reaches_step) (auto simp: dialled_ok_def)
  ultimately show ?thesis by (metis reaches_refl)
qed

lemma store_body_budget:
  assumes "store_body w target body bad st = (r, st')" and "budget_inv B st"
  shows "bytes_written (fs_trace st') \<le> B + 1" "\<And>n. r = Inr n \<Longrightarrow> budget_inv B st' \<and> 0 \<le> n \<and>
    bytes_written (fs_trace st') = bytes_written (fs_trace st) + n"
proof -
  obtain limit rb where l: "transfer_limit (fs_budget st) (fw_statfs w (fs_trace st)) = (limit, rb)" by fastforce
  obtain written cb where c: "copied limit body bad = (written, cb)" by fastforce
  have b: "0 \<le> limit" "limit \<le> ab_remaining (fs_budget st)"
    using transfer_limit_bounds[OF l] assms(2) by (auto simp: budget_inv_def)
  have n: "int (length written) \<le> limit + 1" using copied_length[OF c b(1)] .
  show "bytes_written (fs_trace st') \<le> B + 1"
    using assms b n by (auto simp: store_body_def l c Let_def budget_inv_def split: if_splits)
  show "budget_inv B st' \<and> 0 \<le> n \<and> bytes_written (fs_trace st') = bytes_written (fs_trace st) + n" if "r = Inr n" for n
    using assms b that by (auto simp: store_body_def l c Let_def budget_inv_def split: if_splits)
qed

lemma store_body_files:
  assumes "store_body w target body bad st = (r, st')" and "files_whole w srcdest ss files st"
    and "answered w (fs_trace st) body bad" and "source_file srcdest ss target"
    and "budget_inv B st" and "in_int64 (B + 1)" and "0 \<le> bytes_written (fs_trace st)"
  shows "files_whole w srcdest ss files st'"
proof -
  obtain limit rb where l: "transfer_limit (fs_budget st) (fw_statfs w (fs_trace st)) = (limit, rb)" by fastforce
  obtain written cb where c: "copied limit body bad = (written, cb)" by fastforce
  have b: "0 \<le> limit" "limit \<le> B"
    using transfer_limit_bounds[OF l] assms(5,7) by (auto simp: budget_inv_def)
  then have i: "in_int64 (limit + 1)" using assms(6) by (auto simp: in_int64_def)
  have whole: "written = body \<and> \<not> bad" if "\<not> cb" "\<not> limit < int (length written)"
    using copied_whole[of limit body bad written] c that i by simp
  have grow: "has_prefix (fs_trace st') (fs_trace st)"
    using store_body_reaches[OF assms(1)] reaches_prefix by blast
  have kept: "fs_files st t = Some v \<or> (t = target \<and> v = body \<and> \<not> bad)" if "fs_files st' t = Some v" for t v
    using that assms(1) whole by (auto simp: store_body_def l c Let_def split: if_splits)
  show ?thesis
    unfolding files_whole_def
  proof (intro allI impI)
    fix t v assume t: "fs_files st' t = Some v"
    show "files t = Some v \<or> (source_file srcdest ss t \<and> answered w (fs_trace st') v False)"
      using kept[OF t]
    proof
      assume "fs_files st t = Some v"
      with assms(2) answered_mono[OF _ grow] show ?thesis unfolding files_whole_def by blast
    next
      assume "t = target \<and> v = body \<and> \<not> bad"
      with assms(3,4) answered_mono[OF _ grow, of w body bad] show ?thesis by simp
    qed
  qed
qed

text \<open>What holds of every state of a run, and what also holds while nothing failed.\<close>

definition run_ok :: "fetch_world \<Rightarrow> address_policy \<Rightarrow> string \<Rightarrow> declared_source list \<Rightarrow> (string \<Rightarrow> string option) \<Rightarrow>
    int \<Rightarrow> fetch_state \<Rightarrow> bool" where
  "run_ok w p srcdest ss files B st =
     (list_all (dialled_ok p) (fs_trace st) \<and> bytes_written (fs_trace st) \<le> B + 1 \<and>
      files_whole w srcdest ss files st)"

definition run_inv :: "fetch_world \<Rightarrow> address_policy \<Rightarrow> string \<Rightarrow> declared_source list \<Rightarrow> (string \<Rightarrow> string option) \<Rightarrow>
    int \<Rightarrow> fetch_state \<Rightarrow> bool" where
  "run_inv w p srcdest ss files B st =
     (run_ok w p srcdest ss files B st \<and> budget_inv B st \<and> 0 \<le> bytes_written (fs_trace st))"

lemma run_inv_trace:
  "run_inv w p srcdest ss files B st \<Longrightarrow> reaches p g 0 (fs_trace st) tr \<Longrightarrow>
     run_inv w p srcdest ss files B (st\<lparr>fs_trace := tr\<rparr>)"
proof -
  assume i: "run_inv w p srcdest ss files B st" and r: "reaches p g 0 (fs_trace st) tr"
  from r have pre: "has_prefix tr (fs_trace st)" by (rule reaches_prefix)
  from i have f: "files_whole w srcdest ss files (st\<lparr>fs_trace := tr\<rparr>)"
    using answered_mono[OF _ pre] by (fastforce simp: run_inv_def run_ok_def files_whole_def)
  from r obtain es where "tr = fs_trace st @ es" "list_all (dialled_ok p) es" "bytes_written es = 0"
    by (auto simp: reaches_def)
  with i f show ?thesis by (simp add: run_inv_def run_ok_def budget_inv_def)
qed

text \<open>A fetch is refused at once, ends with the requests, or stores a body it was answered with.\<close>

lemma fetch_declared_cases:
  assumes "fetch_declared w p srcdest s st = (r, st')"
  obtains (refused) e where "r = Inl e" "st' = st"
    | (asked) e tr where "r = Inl e" "st' = st\<lparr>fs_trace := tr\<rparr>" "reaches p max_redirect_hops 0 (fs_trace st) tr"
    | (stored) name tr body bad x where "source_filename s = Some name" "reaches p max_redirect_hops 0 (fs_trace st) tr"
      "answered w tr body bad" "store_body w (path_join [srcdest, name]) body bad (st\<lparr>fs_trace := tr\<rparr>) = (x, st')"
      "\<And>rec. r = Inr rec \<Longrightarrow> x = Inr (fr_bytes rec) \<and> fr_declared rec = ds_url s \<and> fr_filename rec = name"
proof (cases "\<exists>name u. source_filename s = Some name \<and> url_parse (ds_url s) = Some u \<and>
    (gu_scheme u = ''http'' \<or> gu_scheme u = ''https'') \<and> check_reserve (fs_budget st) (fw_statfs w (fs_trace st)) \<and>
    0 < ab_deadline (fs_budget st) - fw_clock w (fs_trace st)")
  case True
  then obtain name u where u: "source_filename s = Some name" "url_parse (ds_url s) = Some u"
    "gu_scheme u = ''http'' \<or> gu_scheme u = ''https''" "check_reserve (fs_budget st) (fw_statfs w (fs_trace st))"
    "0 < ab_deadline (fs_budget st) - fw_clock w (fs_trace st)" by blast
  obtain x hosts tr where d: "client_do w p 0 u [contact_host w u] (fs_trace st) = (x, hosts, tr)"
    by (cases "client_do w p 0 u [contact_host w u] (fs_trace st)")
  have reach: "reaches p max_redirect_hops 0 (fs_trace st) tr"
    using client_do_reaches[OF d] by (simp add: max_redirect_hops_def)
  show ?thesis
  proof (cases "\<exists>body bad. x = Inr (200, body, bad)")
    case True
    then obtain body bad where x: "x = Inr (200, body, bad)" by blast
    obtain y st1 where y: "store_body w (path_join [srcdest, name]) body bad (st\<lparr>fs_trace := tr\<rparr>) = (y, st1)" by fastforce
    have "fetch_declared w p srcdest s st = (case y of Inl e \<Rightarrow> Inl e | Inr n \<Rightarrow> Inr \<lparr>fr_declared = ds_url s,
        fr_filename = name, fr_hosts = dedupe_sorted hosts, fr_bytes = n\<rparr>, st1)"
      using u d x y by (auto simp: fetch_declared_def split: sum.split)
    with assms y u(1) reach client_do_answered[OF d[unfolded x]] show ?thesis
      by (intro stored[of name tr body bad y]) (auto split: sum.splits)
  next
    case False
    have "\<exists>e. fetch_declared w p srcdest s st = (Inl e, st\<lparr>fs_trace := tr\<rparr>)"
      using u d False by (auto simp: fetch_declared_def split: sum.split)
    with assms reach show ?thesis by (auto intro: asked)
  qed
next
  case False
  then have "\<exists>e. fetch_declared w p srcdest s st = (Inl e, st)"
    by (auto simp: fetch_declared_def split: option.split)
  with assms show ?thesis by (auto intro: refused)
qed

lemma fetch_declared_run:
  assumes f: "fetch_declared w p srcdest s st = (r, st')" and s: "s \<in> set ss" "ds_kind s = SourceExact"
    and i: "run_inv w p srcdest ss files B st" and B: "in_int64 (B + 1)"
  shows "run_ok w p srcdest ss files B st' \<and>
    requests_made (fs_trace st') \<le> requests_made (fs_trace st) + max_redirect_hops \<and>
    (\<forall>rec. r = Inr rec \<longrightarrow> run_inv w p srcdest ss files B st' \<and>
       bytes_written (fs_trace st') = bytes_written (fs_trace st) + fr_bytes rec \<and>
       fr_declared rec = ds_url s \<and> source_filename s = Some (fr_filename rec))"
  using f
proof (cases rule: fetch_declared_cases)
  case refused
  with i show ?thesis by (simp add: run_inv_def)
next
  case (asked e tr)
  from run_inv_trace[OF i asked(3)] asked show ?thesis by (auto simp: run_inv_def reaches_def)
next
  case (stored name tr body bad x)
  let ?st = "st\<lparr>fs_trace := tr\<rparr>"
  have j: "run_inv w p srcdest ss files B ?st" by (rule run_inv_trace[OF i stored(2)])
  have tgt: "source_file srcdest ss (path_join [srcdest, name])"
    using s stored(1) by (auto simp: source_file_def)
  note b = store_body_budget[OF stored(4), of B]
  have w: "files_whole w srcdest ss files st'"
    using store_body_files[OF stored(4) _ _ tgt _ B] j stored(3) by (auto simp: run_inv_def run_ok_def)
  obtain n where n: "reaches p 0 n tr (fs_trace st')" using store_body_reaches[OF stored(4), of p] by auto
  have q: "list_all (dialled_ok p) (fs_trace st')" "requests_made (fs_trace st') \<le> requests_made (fs_trace st) + max_redirect_hops"
    using n stored(2) i by (auto simp: reaches_def run_inv_def run_ok_def)
  have ok: "run_ok w p srcdest ss files B st'" using b(1) j q w by (simp add: run_inv_def run_ok_def)
  have tr: "bytes_written tr = bytes_written (fs_trace st)" using stored(2) by (auto simp: reaches_def)
  show ?thesis
  proof (intro conjI allI impI)
    fix rec assume "r = Inr rec"
    from stored(5)[OF this] have rec: "x = Inr (fr_bytes rec)" "fr_declared rec = ds_url s" "fr_filename rec = name" by auto
    from b(2)[OF _ rec(1)] j have c: "budget_inv B st'" "0 \<le> fr_bytes rec" "bytes_written (fs_trace st') = bytes_written tr + fr_bytes rec"
      by (auto simp: run_inv_def)
    show "run_inv w p srcdest ss files B st'" using c ok j by (simp add: run_inv_def)
    show "bytes_written (fs_trace st') = bytes_written (fs_trace st) + fr_bytes rec" using c tr by simp
    show "fr_declared rec = ds_url s" "source_filename s = Some (fr_filename rec)" using rec stored(1) by simp_all
  qed (use ok q in simp_all)
qed

section \<open>The whole run\<close>

definition exact_sources :: "declared_source list \<Rightarrow> declared_source list" where
  "exact_sources ss = filter (\<lambda>s. ds_kind s = SourceExact) ss"

definition vcs_host :: "fetch_world \<Rightarrow> declared_source \<Rightarrow> string" where
  "vcs_host w s = (case url_parse (ds_url s) of Some u \<Rightarrow> contact_host w u | None \<Rightarrow> [])"

definition vcs_hosts_of :: "fetch_world \<Rightarrow> declared_source list \<Rightarrow> string list" where
  "vcs_hosts_of w ss = map (vcs_host w) (filter (\<lambda>s. ds_kind s = SourceVCS) ss)"

text \<open>What an acquisition that returned a result did for the sources \<open>ss\<close> on top of \<open>result\<close>.\<close>

definition fetched_all :: "fetch_world \<Rightarrow> declared_source list \<Rightarrow> acquisition \<Rightarrow> acquisition \<Rightarrow> bool" where
  "fetched_all w ss result aq =
     (\<exists>rs. aq_fetched aq = aq_fetched result @ rs \<and> map fr_declared rs = map ds_url (exact_sources ss) \<and>
       map (Some \<circ> fr_filename) rs = map source_filename (exact_sources ss) \<and>
       aq_declared aq = aq_declared result \<and>
       aq_vcs_hosts aq = dedupe_sorted (aq_vcs_hosts result @ vcs_hosts_of w ss))"

definition fetched_bytes :: "acquisition \<Rightarrow> int" where
  "fetched_bytes aq = sum_list (map fr_bytes (aq_fetched aq))"

lemma acquire_loop_run:
  "acquire_loop w p a srcdest rest result st = (r, st') \<Longrightarrow> set rest \<subseteq> set ss \<Longrightarrow>
   run_inv w p srcdest ss files B st \<Longrightarrow> in_int64 (B + 1) \<Longrightarrow>
     run_ok w p srcdest ss files B st' \<and>
     requests_made (fs_trace st') \<le> requests_made (fs_trace st) + max_redirect_hops * length (exact_sources rest) \<and>
     (\<forall>aq. r = Inr aq \<longrightarrow> run_inv w p srcdest ss files B st' \<and> fetched_all w rest result aq \<and>
       fetched_bytes aq - fetched_bytes result = bytes_written (fs_trace st') - bytes_written (fs_trace st))"
proof (induction w p a srcdest rest result st arbitrary: r st' rule: acquire_loop.induct)
  case (1 w p a srcdest result st)
  then show ?case
    by (auto simp: run_inv_def fetched_all_def exact_sources_def vcs_hosts_of_def fetched_bytes_def)
next
  case (2 w p a srcdest s rest result st)
  from 2(5) have s: "s \<in> set ss" "set rest \<subseteq> set ss" by auto
  have fail: ?case if "st' = st" "\<forall>aq. r \<noteq> Inr aq"
    using that 2(6) by (auto simp: run_inv_def)
  show ?case
  proof (cases "ds_kind s")
    case SourceLocal
    with 2(1)[OF SourceLocal _ s(2) 2(6,7)] 2(4) show ?thesis
      by (auto simp: exact_sources_def vcs_hosts_of_def fetched_all_def)
  next
    case SourceVCS
    show ?thesis
    proof (cases "\<exists>u. url_parse (ds_url s) = Some u \<and> gu_host u \<noteq> []")
      case True
      then obtain u where u: "url_parse (ds_url s) = Some u" "gu_host u \<noteq> []" by blast
      let ?r = "result\<lparr>aq_vcs_hosts := aq_vcs_hosts result @ [contact_host w u]\<rparr>"
      have "acquire_loop w p a srcdest rest ?r st = (r, st')" using 2(4) SourceVCS u by simp
      from 2(3)[OF SourceVCS u this s(2) 2(6,7)] SourceVCS u show ?thesis
        by (auto simp: exact_sources_def vcs_hosts_of_def vcs_host_def fetched_all_def fetched_bytes_def)
    next
      case False
      with 2(4) SourceVCS show ?thesis by (intro fail) (auto split: option.splits if_splits)
    qed
  next
    case SourceExact
    show ?thesis
    proof (cases "permits (fw_lower w) (Some a) (ds_url s) = Inr True")
      case True
      obtain x st1 where x: "fetch_declared w p srcdest s st = (x, st1)" by fastforce
      note f = fetch_declared_run[OF x s(1) SourceExact 2(6,7)]
      show ?thesis
      proof (cases x)
        case (Inl e)
        with 2(4) SourceExact True x have "st' = st1" "r = Inl e" by auto
        with f SourceExact show ?thesis by (auto simp: exact_sources_def)
      next
        case (Inr rec)
        let ?r = "result\<lparr>aq_fetched := aq_fetched result @ [rec]\<rparr>"
        have l: "acquire_loop w p a srcdest rest ?r st1 = (r, st')" using 2(4) SourceExact True x Inr by simp
        from f Inr have i: "run_inv w p srcdest ss files B st1" by simp
        from 2(2)[OF SourceExact _ x[symmetric] Inr l s(2) i 2(7)] True
        have h: "run_ok w p srcdest ss files B st'"
          "requests_made (fs_trace st') \<le> requests_made (fs_trace st1) + max_redirect_hops * length (exact_sources rest)"
          "\<And>aq. r = Inr aq \<Longrightarrow> run_inv w p srcdest ss files B st' \<and> fetched_all w rest ?r aq \<and>
            fetched_bytes aq - fetched_bytes ?r = bytes_written (fs_trace st') - bytes_written (fs_trace st1)" by auto
        have "fetched_all w (s # rest) result aq" if "fetched_all w rest ?r aq" for aq
        proof -
          from that obtain rs where "aq_fetched aq = aq_fetched result @ rec # rs"
            "map fr_declared rs = map ds_url (exact_sources rest)"
            "map (Some \<circ> fr_filename) rs = map source_filename (exact_sources rest)"
            "aq_declared aq = aq_declared result" "aq_vcs_hosts aq = dedupe_sorted (aq_vcs_hosts result @ vcs_hosts_of w rest)"
            by (auto simp: fetched_all_def)
          then show ?thesis
            using SourceExact f Inr unfolding fetched_all_def
            by (intro exI[of _ "rec # rs"]) (simp add: exact_sources_def vcs_hosts_of_def)
        qed
        with h f Inr SourceExact show ?thesis by (auto simp: exact_sources_def fetched_bytes_def)
      qed
    next
      case False
      with 2(4) SourceExact show ?thesis by (intro fail) auto
    qed
  qed
qed

lemma new_policy_ports: "new_address_policy ifs = Inr p \<Longrightarrow> policy_port (Some p) port \<longleftrightarrow> port = 80 \<or> port = 443"
  by (cases ifs) (auto simp: new_address_policy_def[of None] policy_port_def http_port_def https_port_def
      dest!: new_address_policy_result)

definition byte_budget :: "egress_config \<Rightarrow> int" where
  "byte_budget c = (if max_transfer_bytes c \<le> 0 then 8 * 2 ^ 30 else max_transfer_bytes c)"

lemma acquire_start:
  "run_inv w p srcdest ss files (byte_budget c)
     \<lparr>fs_trace = [], fs_files = files, fs_budget = new_acquire_budget c srcdest (fw_clock w [])\<rparr>"
  by (simp add: run_inv_def run_ok_def budget_inv_def files_whole_def new_acquire_budget_def byte_budget_def Let_def)

lemma acquire_cases:
  assumes "acquire w frozen srcdest c made ifs files = (r, st)" and "max_transfer_bytes c < 2 ^ 63 - 1"
  obtains (refused) e where "r = Inl e" "fs_trace st = []" "fs_files st = files"
    | (run) p a where "frozen = Some a" "new_address_policy ifs = Inr p"
      "run_ok w p srcdest (al_sources a) files (byte_budget c) st"
      "requests_made (fs_trace st) \<le> max_redirect_hops * length (exact_sources (al_sources a))"
      "\<And>aq. r = Inr aq \<Longrightarrow> al_frozen a \<noteq> None \<and> run_inv w p srcdest (al_sources a) files (byte_budget c) st \<and>
         fetched_all w (al_sources a) \<lparr>aq_fetched = [], aq_declared = al_sources a, aq_vcs_hosts = []\<rparr> aq \<and>
         fetched_bytes aq = bytes_written (fs_trace st)"
proof (cases "\<exists>a p. frozen = Some a \<and> al_frozen a \<noteq> None \<and> made \<and> new_address_policy ifs = Inr p")
  case True
  then obtain a p where ap: "frozen = Some a" "al_frozen a \<noteq> None" "made" "new_address_policy ifs = Inr p" by blast
  have l: "acquire_loop w p a srcdest (al_sources a) \<lparr>aq_fetched = [], aq_declared = al_sources a, aq_vcs_hosts = []\<rparr>
      \<lparr>fs_trace = [], fs_files = files, fs_budget = new_acquire_budget c srcdest (fw_clock w [])\<rparr> = (r, st)"
    using assms(1) ap by (auto simp: acquire_def Let_def declared_def)
  have B: "in_int64 (byte_budget c + 1)" using assms(2) by (auto simp: byte_budget_def in_int64_def)
  from acquire_loop_run[OF l order.refl acquire_start[of w p srcdest _ files c] B] ap
  show ?thesis by (intro run[of a p]) (auto simp: fetched_bytes_def)
next
  case False
  then have "\<exists>e. acquire w frozen srcdest c made ifs files =
      (Inl e, \<lparr>fs_trace = [], fs_files = files, fs_budget = new_acquire_budget c srcdest (fw_clock w [])\<rparr>)"
    by (auto simp: acquire_def Let_def split: option.split sum.split)
  with assms(1) show ?thesis by (auto intro!: refused)
qed

section \<open>Properties\<close>

text \<open>C10: whatever the sources declare and the servers answer, and however acquisition ends: it connects only to
  ports 80 and 443 of addresses the fresh address policy calls public, whatever redirects say; it makes at most five
  requests per declared download; it writes at most one byte more than the transfer budget; and a
  file it leaves behind bears the name of a declared download and holds the whole body of an answer with
  status 200 to one of its own requests, never a truncated one.\<close>

theorem acquisition_confined:
  assumes "max_transfer_bytes c < 2 ^ 63 - 1"
  shows "case acquire w frozen srcdest c made ifs files of (r, st) \<Rightarrow>
    (\<forall>a port. FetchDial a port \<in> set (fs_trace st) \<longrightarrow> (port = 80 \<or> port = 443) \<and>
       (\<exists>p. new_address_policy ifs = Inr p \<and> policy_public (Some p) a)) \<and>
    requests_made (fs_trace st) \<le> 5 * length (exact_sources (declared frozen)) \<and>
    bytes_written (fs_trace st) \<le> byte_budget c + 1 \<and>
    (\<forall>target content. fs_files st target = Some content \<and> files target \<noteq> Some content \<longrightarrow>
       source_file srcdest (declared frozen) target \<and> answered w (fs_trace st) content False)"
proof -
  obtain r st where r: "acquire w frozen srcdest c made ifs files = (r, st)" by fastforce
  show ?thesis
    using r assms
  proof (cases rule: acquire_cases)
    case refused
    with r show ?thesis by (simp add: byte_budget_def)
  next
    case (run p a)
    have dial: "policy_public (Some p) x \<and> (port = 80 \<or> port = 443)" if "FetchDial x port \<in> set (fs_trace st)" for x port
      using that run(3) new_policy_ports[OF run(2), of port]
      by (auto simp: run_ok_def list_all_iff dialled_ok_def split: acquire_event.splits)
    from run r dial show ?thesis
      by (auto simp: run_ok_def files_whole_def declared_def max_redirect_hops_def)
  qed
qed


section \<open>An example\<close>

text \<open>A server that answers the first \<open>k\<close> requests with a redirect and every later one with a file.\<close>

definition example_url :: go_url where
  "example_url = empty_url\<lparr>gu_scheme := ''https'', gu_host := ''cdn.example'', gu_path := ''/x''\<rparr>"

definition redirecting :: "nat \<Rightarrow> fetch_world" where
  "redirecting k = \<lparr>fw_lookup = (\<lambda>tr h. Some [[93, 184, 216, 34]]), fw_dial = (\<lambda>tr a p. True),
     fw_reply = (\<lambda>tr u. if requests_made tr \<le> k then Redirected (Some example_url) else Answered 200 4 ''data'' False),
     fw_clock = (\<lambda>tr. 0), fw_statfs = (\<lambda>tr. Some (1000000, 900000, 4096)), fw_open = (\<lambda>tr t. True),
     fw_close = (\<lambda>tr. True), fw_idna = id, fw_lower = id\<rparr>"

definition example_allowance :: allowance where
  "example_allowance = \<lparr>al_sources = map classify_source
       [''fix.patch'', ''demo.tar.gz::https://example.org/v1.tar.gz'', ''git+https://Example.org/demo.git#tag=v1''],
     al_derived = [], al_frozen = Some 1, al_origin = ''/build''\<rparr>"

definition example_budget_config :: egress_config where
  "example_budget_config = default_config\<lparr>disk_reserve_bytes := 1000\<rparr>"

abbreviation example_policy :: address_policy where
  "example_policy \<equiv> \<lparr>addresses = [], subnets = [], permit_all = False\<rparr>"

lemma example_dials:
  "split_host_port address = Some (host, port) \<Longrightarrow> atoi port = Some 443 \<Longrightarrow>
     checked_dialer (redirecting k) example_policy address tr =
       (True, tr @ [FetchResolve host, FetchDial [93, 184, 216, 34] 443])"
  using example_public by (simp add: checked_dialer_def redirecting_def policy_port_def https_port_def)

lemma example_trip:
  "gu_scheme u = ''https'' \<Longrightarrow> gu_host u \<noteq> [] \<Longrightarrow> split_host_port (canonical_address (redirecting k) u) = Some (host, port) \<Longrightarrow>
   atoi port = Some 443 \<Longrightarrow> round_trip (redirecting k) example_policy u tr =
     (if requests_made tr < k then Redirected (Some example_url) else Answered 200 4 ''data'' False,
      tr @ [FetchResolve host, FetchDial [93, 184, 216, 34] 443, HttpGet u])"
  by (simp add: round_trip_def example_dials) (simp add: redirecting_def requests_made_def less_eq_Suc_le)

lemma example_url_trip:
  "round_trip (redirecting k) example_policy example_url tr =
     (if requests_made tr < k then Redirected (Some example_url) else Answered 200 4 ''data'' False,
      tr @ [FetchResolve ''cdn.example'', FetchDial [93, 184, 216, 34] 443, HttpGet example_url])"
proof -
  have "split_host_port (canonical_address (redirecting k) example_url) = Some (''cdn.example'', ''443'')" by code_simp
  moreover have "atoi ''443'' = Some 443" by code_simp
  ultimately show ?thesis by (intro example_trip) (simp_all add: example_url_def empty_url_def)
qed

text \<open>The limit counts requests: a chain of four redirects is followed, one of five is not.\<close>

lemma redirect_limit:
  "fst (client_do (redirecting 4) example_policy 0 example_url [] []) = Inr (200, ''data'', False)"
  "fst (client_do (redirecting 5) example_policy 0 example_url [] []) = Inl TooManyRedirects"
  by (simp_all add: client_do.simps example_url_trip requests_made_def max_redirect_hops_def)

definition example_download :: declared_source where
  "example_download = \<lparr>ds_raw = ''demo.tar.gz::https://example.org/v1.tar.gz'', ds_url = ''https://example.org/v1.tar.gz'',
     ds_kind = SourceExact\<rparr>"

definition example_repository :: declared_source where
  "example_repository = \<lparr>ds_raw = ''git+https://Example.org/demo.git#tag=v1'', ds_url = ''https://Example.org/demo.git'',
     ds_kind = SourceVCS\<rparr>"

definition download_url :: go_url where
  "download_url = empty_url\<lparr>gu_scheme := ''https'', gu_host := ''example.org'', gu_path := ''/v1.tar.gz''\<rparr>"

lemma example_sources:
  "al_sources example_allowance =
     [\<lparr>ds_raw = ''fix.patch'', ds_url = [], ds_kind = SourceLocal\<rparr>, example_download, example_repository]"
  by code_simp

lemma example_urls:
  "url_parse ''https://example.org/v1.tar.gz'' = Some download_url"
  "map_option (contact_host (redirecting k)) (url_parse ''https://Example.org/demo.git'') = Some ''example.org''"
  "map_option gu_host (url_parse ''https://Example.org/demo.git'') = Some ''Example.org''"
  "source_filename example_download = Some ''demo.tar.gz''"
  "contact_host (redirecting k) download_url = ''example.org''"
  "contact_host (redirecting k) example_url = ''cdn.example''"
  "dedupe_sorted [''example.org'', ''cdn.example''] = [''cdn.example'', ''example.org'']"
  by code_simp+

lemma example_download_trip:
  "round_trip (redirecting k) example_policy download_url tr =
     (if requests_made tr < k then Redirected (Some example_url) else Answered 200 4 ''data'' False,
      tr @ [FetchResolve ''example.org'', FetchDial [93, 184, 216, 34] 443, HttpGet download_url])"
proof -
  have "split_host_port (canonical_address (redirecting k) download_url) = Some (''example.org'', ''443'')" by code_simp
  moreover have "atoi ''443'' = Some 443" by code_simp
  ultimately show ?thesis by (intro example_trip) (simp_all add: download_url_def empty_url_def)
qed

lemma example_client:
  "\<exists>tr. client_do (redirecting 1) example_policy 0 download_url [''example.org''] [] =
     (Inr (200, ''data'', False), [''example.org'', ''cdn.example''], tr)"
  by (simp add: client_do.simps example_url_trip example_download_trip requests_made_def max_redirect_hops_def example_urls)

definition example_start :: fetch_state where
  "example_start = \<lparr>fs_trace = [], fs_files = (\<lambda>t. None),
     fs_budget = new_acquire_budget example_budget_config ''/src'' 0\<rparr>"

lemma example_budget:
  "fs_budget example_start = \<lparr>ab_remaining = 8589934592, ab_deadline = 7200000000000, ab_idle = 60000000000,
     ab_reserve = 1000, ab_root = ''/src''\<rparr>"
  by (simp add: example_start_def new_acquire_budget_def example_budget_config_def default_config_def zero_config_def
      second_def minute_def hour_def max_declared_sources_def wrap64_def Let_def)

lemma example_fetch:
  "\<exists>st. fetch_declared (redirecting 1) example_policy ''/src'' example_download example_start =
     (Inr \<lparr>fr_declared = ''https://example.org/v1.tar.gz'', fr_filename = ''demo.tar.gz'',
        fr_hosts = [''cdn.example'', ''example.org''], fr_bytes = 4\<rparr>, st)"
proof -
  obtain tr where c: "client_do (redirecting 1) example_policy 0 download_url [''example.org''] [] =
     (Inr (200, ''data'', False), [''example.org'', ''cdn.example''], tr)" using example_client by blast
  have s: "fs_trace example_start = []" by (simp add: example_start_def)
  have f: "check_reserve (fs_budget example_start) (fw_statfs (redirecting 1) [])"
    by (simp add: check_reserve_def example_budget fs_space_def redirecting_def wrap64_def tenth_of_def)
  have b: "\<exists>st. store_body (redirecting 1) t ''data'' False (example_start\<lparr>fs_trace := tr\<rparr>) = (Inr 4, st)" for t
    by (simp add: store_body_def example_budget redirecting_def transfer_limit_def headroom_def fs_space_def wrap64_def tenth_of_def
        copied_def Let_def)
  then obtain st where b: "store_body (redirecting 1) (path_join [''/src'', ''demo.tar.gz'']) ''data'' False
      (example_start\<lparr>fs_trace := tr\<rparr>) = (Inr 4, st)" by blast
  have d: "source_filename example_download = Some ''demo.tar.gz''" "url_parse (ds_url example_download) = Some download_url"
    "ds_url example_download = ''https://example.org/v1.tar.gz''" "gu_scheme download_url = ''https''"
    "0 < ab_deadline (fs_budget example_start) - fw_clock (redirecting 1) []"
    using example_urls(1,4) by (simp_all add: example_download_def download_url_def example_budget redirecting_def)
  have "fetch_declared (redirecting 1) example_policy ''/src'' example_download example_start =
     (Inr \<lparr>fr_declared = ''https://example.org/v1.tar.gz'', fr_filename = ''demo.tar.gz'',
        fr_hosts = dedupe_sorted [''example.org'', ''cdn.example''], fr_bytes = 4\<rparr>, st)"
    unfolding fetch_declared_def d option.case s example_urls(1)
    using c f b d(4,5) by (simp add: example_urls(5) s del: One_nat_def)
  then show ?thesis unfolding example_urls(7) by blast
qed

lemma example_acquired:
  "\<exists>st. acquire (redirecting 1) (Some example_allowance) ''/src'' example_budget_config True (Some []) (\<lambda>t. None) =
     (Inr \<lparr>aq_fetched = [\<lparr>fr_declared = ''https://example.org/v1.tar.gz'', fr_filename = ''demo.tar.gz'',
            fr_hosts = [''cdn.example'', ''example.org''], fr_bytes = 4\<rparr>],
          aq_declared = al_sources example_allowance, aq_vcs_hosts = [''example.org'']\<rparr>, st)"
proof -
  obtain st where f: "fetch_declared (redirecting 1) example_policy ''/src'' example_download example_start =
     (Inr \<lparr>fr_declared = ''https://example.org/v1.tar.gz'', fr_filename = ''demo.tar.gz'',
        fr_hosts = [''cdn.example'', ''example.org''], fr_bytes = 4\<rparr>, st)" using example_fetch by blast
  have p: "permits (fw_lower (redirecting 1)) (Some example_allowance) (ds_url example_download) = Inr True"
    by (intro permits_declared[of example_download])
      (simp_all add: example_sources example_download_def example_urls, simp add: example_allowance_def)
  have n: "new_address_policy (Some []) = Inr example_policy" by (simp add: new_address_policy_def)
  obtain u where u: "url_parse (ds_url example_repository) = Some u" "gu_host u \<noteq> []"
      "contact_host (redirecting 1) u = ''example.org''"
    using example_urls(2)[of 1] example_urls(3) by (fastforce simp: example_repository_def)
  have k: "ds_kind example_download = SourceExact" "ds_kind example_repository = SourceVCS"
    by (simp_all add: example_download_def example_repository_def)
  have h: "dedupe_sorted [''example.org''] = [''example.org'']" by code_simp
  have st: "\<lparr>fs_trace = [], fs_files = \<lambda>t. None,
      fs_budget = new_acquire_budget example_budget_config ''/src'' (fw_clock (redirecting 1) [])\<rparr> = example_start"
    by (simp add: example_start_def redirecting_def)
  have a: "al_frozen example_allowance \<noteq> None" by (simp add: example_allowance_def)
  show ?thesis
    unfolding acquire_def Let_def st declared_def option.case n sum.case
    using a by (simp add: example_sources p f k u h del: One_nat_def)
qed

text \<open>The run of the example: a redirect followed, a file stored.\<close>

theorem acquisition_confined_witness:
  "case acquire (redirecting 1) (Some example_allowance) ''/src'' example_budget_config True (Some []) (\<lambda>t. None) of (r, st) \<Rightarrow>
    (\<forall>a port. FetchDial a port \<in> set (fs_trace st) \<longrightarrow> (port = 80 \<or> port = 443) \<and>
       (\<exists>p. new_address_policy (Some []) = Inr p \<and> policy_public (Some p) a)) \<and>
    requests_made (fs_trace st) \<le> 5 * length (exact_sources (declared (Some example_allowance))) \<and>
    bytes_written (fs_trace st) \<le> byte_budget example_budget_config + 1 \<and>
    (\<forall>target content. fs_files st target = Some content \<and> (None :: string option) \<noteq> Some content \<longrightarrow>
       source_file ''/src'' (declared (Some example_allowance)) target \<and> answered (redirecting 1) (fs_trace st) content False)"
  by (rule acquisition_confined) (simp add: example_budget_config_def default_config_def zero_config_def)


end
