(* ===== verification/Rules.thy ===== *)
theory Rules
  imports Unified_Diff Findings
begin

text \<open>
  internal/brief/rules.go: the scan of a text with the pattern rules. What a rule's regular
  expression matches in a text is an argument, as are the Unicode letter tables; the masking of shell comments, the
  chunked reader with its overlap, the choice of representative findings and the Unicode checks are
  the code's. The findings carry no severity logic of their own: they are evidence.
\<close>

section \<open>Rules\<close>

record pattern_rule =
  pr_id :: string
  pr_severity :: string
  pr_category :: string
  pr_rationale :: string

definition new_rule :: "string \<Rightarrow> string \<Rightarrow> string \<Rightarrow> string \<Rightarrow> pattern_rule" where
  "new_rule i s c r = \<lparr>pr_id = i, pr_severity = s, pr_category = c, pr_rationale = r\<rparr>"

text \<open>No pattern rule is a hard block. The expressions stay with the matcher.\<close>

definition pattern_rules :: "pattern_rule list" where
  "pattern_rules =
    [new_rule ''remote-pipe-shell'' ''critical'' ''remote_execution'' ''remote content is piped directly to a shell'',
     new_rule ''remote-source'' ''critical'' ''remote_execution'' ''remote content is sourced through process substitution'',
     new_rule ''decode-execute'' ''critical'' ''decode_execute'' ''decoded or decompressed data is immediately executed'',
     new_rule ''credential-path'' ''critical'' ''credential_access'' ''package content accesses user credentials or sensitive profiles'',
     new_rule ''reverse-shell'' ''critical'' ''remote_execution'' ''reverse-shell primitives are present'',
     new_rule ''process-injection'' ''critical'' ''process_injection'' ''process injection or memory modification primitive is present'',
     new_rule ''host-persistence'' ''critical'' ''persistence'' ''direct modification of a persistence or authentication surface is present'',
     new_rule ''dynamic-execution'' ''high'' ''obfuscation'' ''indirect command execution requires review'',
     new_rule ''build-phase-download'' ''high'' ''network'' ''a PKGBUILD build function performs network or package-manager activity'',
     new_rule ''unexpected-network-client'' ''medium'' ''network'' ''network client use requires provenance and phase review'',
     new_rule ''integrity-disabled'' ''medium'' ''integrity'' ''source integrity verification is disabled or bypassed'',
     new_rule ''plain-http-source'' ''low'' ''integrity'' ''unencrypted source URL is present'',
     new_rule ''privileged-mode'' ''high'' ''privilege_escalation'' ''privileged ownership, capability, or set-id mode is requested'',
     new_rule ''package-manager-hook'' ''medium'' ''persistence'' ''package installs a privileged integration or activation hook'',
     new_rule ''language-build-hook'' ''medium'' ''build_hook'' ''language or build-system lifecycle hook can execute code'',
     new_rule ''prompt-injection'' ''high'' ''prompt_injection'' ''content attempts to influence the reviewing model'']"

text \<open>
  The engine: \<open>re_matches id text\<close> are the spans of all matches of the rule's expression, \<open>re_download\<close> is the end of the
  first match of the download expression; \<open>re_word\<close> says which runes are letters, digits or marks and
  \<open>re_lower\<close> is the case table. \<open>re_semantic\<close> stands for SemanticTextFindings on a path, a text and the
  executable and mandatory flags.
\<close>

record rule_engine =
  re_max_findings :: int
  re_threat_error :: "string option"
  re_matches :: "string \<Rightarrow> string \<Rightarrow> (nat \<times> nat) list"
  re_download :: "string \<Rightarrow> nat option"
  re_word :: "nat \<Rightarrow> bool"
  re_lower :: "string \<Rightarrow> string"
  re_semantic :: "string \<Rightarrow> string \<Rightarrow> bool \<Rightarrow> bool \<Rightarrow> finding list"

definition truncate_text :: "string \<Rightarrow> nat \<Rightarrow> string" where
  "truncate_text v n = (if length v > n then take n v else v)"

definition plain_finding :: "string \<Rightarrow> string \<Rightarrow> string \<Rightarrow> int option \<Rightarrow> string \<Rightarrow> string \<Rightarrow> string \<Rightarrow> bool \<Rightarrow> finding" where
  "plain_finding severity category file line evidence rationale rule hard =
     \<lparr>f_source = [], f_severity = severity, f_category = category, f_file = file, f_line = line,
      f_evidence = evidence, f_rationale = rationale, f_rule_id = rule, f_hard_block = hard\<rparr>"

definition scan_semantic :: "rule_engine \<Rightarrow> string \<Rightarrow> string \<Rightarrow> bool \<Rightarrow> bool \<Rightarrow> finding list" where
  "scan_semantic e path text executable mandatory = (case re_threat_error e of
      Some err \<Rightarrow> [plain_finding ''critical'' ''coverage'' path None (truncate_text err 320)
        ''embedded threat intelligence could not be validated'' ''threat-bundle-invalid'' True]
    | None \<Rightarrow> re_semantic e path text executable mandatory)"

definition finding_limit :: "rule_engine \<Rightarrow> int" where
  "finding_limit e = (if re_max_findings e > 0 then re_max_findings e else 10000)"

section \<open>Paths that matter\<close>

definition important_artifact_name :: "string \<Rightarrow> bool" where
  "important_artifact_name name = (name \<in> {''.MTREE'', ''.PKGINFO'', ''.BUILDINFO'', ''.INSTALL''})"

definition mandatory_extensions :: "string list" where
  "mandatory_extensions =
    [''.install'', ''.patch'', ''.diff'', ''.sh'', ''.bash'', ''.zsh'', ''.py'', ''.pl'', ''.rb'', ''.js'', ''.ts'', ''.lua'',
     ''.spec'', ''.service'', ''.socket'', ''.timer'', ''.path'', ''.target'', ''.mount'', ''.automount'', ''.slice'',
     ''.scope'', ''.device'', ''.swap'', ''.rules'', ''.hook'', ''.desktop'', ''.conf'']"

definition mandatory_names :: "string list" where
  "mandatory_names =
    [''pkgbuild'', ''.srcinfo'', ''makefile'', ''cmakelists.txt'', ''meson.build'', ''build.rs'', ''setup.py'',
     ''pyproject.toml'', ''package.json'', ''package-lock.json'', ''npm-shrinkwrap.json'', ''.npmrc'', ''cargo.toml'',
     ''go.mod'', ''pip.conf'']"

definition mandatory_control_path :: "(string \<Rightarrow> string) \<Rightarrow> string \<Rightarrow> bool" where
  "mandatory_control_path ul name =
     (is_privileged_surface name \<or> important_artifact_name (path_base name) \<or>
      to_lower ul (path_ext name) \<in> set mandatory_extensions \<or> to_lower ul (path_base name) \<in> set mandatory_names)"

definition shell_comment_line_path :: "(string \<Rightarrow> string) \<Rightarrow> string \<Rightarrow> bool" where
  "shell_comment_line_path ul name = (let base = to_lower ul (path_base name) in
     base = ''pkgbuild'' \<or> to_lower ul (path_ext base) \<in> {''.install'', ''.sh'', ''.bash'', ''.zsh'', ''.ksh''})"

definition unicode_obfuscation_relevant :: "(string \<Rightarrow> string) \<Rightarrow> string \<Rightarrow> bool" where
  "unicode_obfuscation_relevant ul name =
     (let base = to_lower ul (path_base name) in
      if str_contains (to_lower ul name) ''!/usr/src/debug/'' then False
      else if base = ''copying'' \<or> base = ''notice'' \<or> has_prefix base ''license'' then False
      else to_lower ul (path_ext name) \<notin> {''.po'', ''.pot'', ''.mo'', ''.html'', ''.htm'', ''.md'', ''.rst'', ''.adoc''})"

section \<open>Masking comment lines\<close>

record masker =
  mk_prefix :: bool
  mk_comment :: bool

definition mask_start :: masker where "mask_start = \<lparr>mk_prefix = True, mk_comment = False\<rparr>"

definition mask_char :: "char \<Rightarrow> masker \<Rightarrow> char \<times> masker" where
  "mask_char c m =
     (if mk_comment m then
        (if c = nl then (c, \<lparr>mk_prefix = True, mk_comment = False\<rparr>) else (CHR '' '', m))
      else if c = nl then (c, m\<lparr>mk_prefix := True\<rparr>)
      else if mk_prefix m \<and> (c = CHR '' '' \<or> c = CHR 0x09 \<or> c = CHR 0x0D) then (c, m)
      else if mk_prefix m \<and> c = CHR ''#'' then (CHR '' '', m\<lparr>mk_comment := True\<rparr>)
      else (c, m\<lparr>mk_prefix := False\<rparr>))"

fun mask_text :: "masker \<Rightarrow> string \<Rightarrow> string \<times> masker" where
  "mask_text m [] = ([], m)"
| "mask_text m (c # s) = (case mask_char c m of (d, m1) \<Rightarrow> (case mask_text m1 s of (t, m2) \<Rightarrow> (d # t, m2)))"

section \<open>Unicode findings\<close>

definition confusables :: "nat list" where
  "confusables =
    [0x0391, 0x0392, 0x0395, 0x0396, 0x0397, 0x0399, 0x039A, 0x039C, 0x039D, 0x039F, 0x03A1, 0x03A4, 0x03A5, 0x03A7,
     0x03B1, 0x03B2, 0x03B3, 0x03B4, 0x03B5, 0x03B6, 0x03B7, 0x03B9, 0x03BA,
     0x03BD, 0x043E, 0x043F, 0x0440, 0x0441, 0x0442, 0x0443, 0x0445,
     0x0410, 0x0412, 0x0415, 0x041A, 0x041C, 0x041D, 0x041E, 0x0420, 0x0421, 0x0422, 0x0425,
     0x0430, 0x0435, 0x043E, 0x0440, 0x0441, 0x0443, 0x0445, 0x0456, 0x0458]"

text \<open>The verbs U+%04X and %c=U+%04X, and the format-character table Cf.\<close>

definition code_point :: "nat \<Rightarrow> string" where
  "code_point r = ''U+'' @ map (\<lambda>c. if CHR ''a'' \<le> c \<and> c \<le> CHR ''f'' then char_of (of_char c - (32 :: nat)) else c) (hex04 r)"

definition named_point :: "nat \<Rightarrow> string" where "named_point r = encode_rune r @ ''='' @ code_point r"

definition in_cf :: "nat \<Rightarrow> bool" where "in_cf r = list_ex (\<lambda>(a, b). a \<le> r \<and> r \<le> b) format_ranges"

definition ascii_letter :: "nat \<Rightarrow> bool" where "ascii_letter r = ((97 \<le> r \<and> r \<le> 122) \<or> (65 \<le> r \<and> r \<le> 90))"

text \<open>The rune loop of mixedIdentifierConfusables: the confusables of the current token, and whether it has an ASCII letter.\<close>

fun mixed_loop :: "rule_engine \<Rightarrow> nat list \<Rightarrow> bool \<Rightarrow> nat list \<Rightarrow> nat list" where
  "mixed_loop e token ascii [] = (if ascii then token else [])"
| "mixed_loop e token ascii (r # rs) =
     (if re_word e r \<or> r = 0x5F
      then mixed_loop e (if r \<in> set confusables then token @ [r] else token) (ascii \<or> ascii_letter r) rs
      else (if ascii then token else []) @ mixed_loop e [] False rs)"

definition mixed_identifier_confusables :: "rule_engine \<Rightarrow> string \<Rightarrow> nat list" where
  "mixed_identifier_confusables e line = mixed_loop e [] False (runes line)"

definition hidden_controls :: "int \<Rightarrow> string \<Rightarrow> nat list" where
  "hidden_controls line_number line =
     (let rs = runes line; bom = (line_number = 1 \<and> rs \<noteq> [] \<and> hd rs = 0xFEFF) in
      filter (\<lambda>r. (is_control r \<or> in_cf r) \<and> r \<noteq> 9 \<and> r \<noteq> 13 \<and> r \<noteq> 12) (if bom then tl rs else rs))"

fun unicode_lines :: "rule_engine \<Rightarrow> string \<Rightarrow> int \<Rightarrow> int \<Rightarrow> finding list \<Rightarrow> string list \<Rightarrow> finding list" where
  "unicode_lines e path limit number result [] = result"
| "unicode_lines e path limit number result (line # ls) =
     (if int (length result) \<ge> limit then result
      else
        let controls = hidden_controls number line; confusing = mixed_identifier_confusables e line;
            n = length (runes line);
            r1 = (if controls = [] then result else result @ [(plain_finding ''high'' ''obfuscation'' path (Some number)
               (''hidden control characters: '' @ join_with '', '' (map code_point (take 8 controls)))
               ''invisible control characters can conceal behavior'' ''unicode-control'' False)\<lparr>f_source := ''deterministic''\<rparr>])
        in if int (length r1) \<ge> limit then r1
           else
             let r2 = (if n \<le> 20000 then r1 else r1 @ [(plain_finding ''medium'' ''obfuscation'' path (Some number)
                    (''line length '' @ show_nat n) ''extremely long lines can conceal generated or encoded payloads''
                    ''long-line'' False)\<lparr>f_source := ''deterministic''\<rparr>])
             in if int (length r2) \<ge> limit then r2
                else unicode_lines e path limit (number + 1)
                  (if confusing = [] then r2 else r2 @ [(plain_finding ''high'' ''obfuscation'' path (Some number)
                    (''mixed-script confusables: '' @ join_with '', '' (map named_point (take 8 confusing)))
                    ''mixed Latin and confusable Unicode characters can conceal identifiers'' ''unicode-confusable''
                    False)\<lparr>f_source := ''deterministic''\<rparr>]) ls)"

definition unicode_findings :: "rule_engine \<Rightarrow> string \<Rightarrow> string \<Rightarrow> int \<Rightarrow> int \<Rightarrow> finding list" where
  "unicode_findings e path text offset limit = unicode_lines e path limit (offset + 1) [] (split_on nl text)"

section \<open>Matching the rules\<close>

definition slice :: "nat \<Rightarrow> nat \<Rightarrow> string \<Rightarrow> string" where "slice a b s = take (b - a) (drop a s)"

definition newlines :: "string \<Rightarrow> int" where "newlines s = int (count_list s nl)"

text \<open>The loop over the matches of one rule; \<open>adjust\<close> skips a match or changes its span.\<close>

fun match_findings :: "string \<Rightarrow> pattern_rule \<Rightarrow> string \<Rightarrow> (nat \<times> nat \<Rightarrow> (nat \<times> nat) option) \<Rightarrow> int \<Rightarrow> nat \<Rightarrow>
    (nat \<times> nat) list \<Rightarrow> finding list" where
  "match_findings path r text adjust line previous [] = []"
| "match_findings path r text adjust line previous (loc # locs) = (case adjust loc of
      None \<Rightarrow> match_findings path r text adjust line previous locs
    | Some (a, b) \<Rightarrow>
        let line1 = line + newlines (slice previous a text) in
        plain_finding (pr_severity r) (pr_category r) path (Some line1)
          (truncate_text (join_with '' '' (Go_Utf8.fields (slice a b text))) 320) (pr_rationale r) (pr_id r) False
        # match_findings path r text adjust line1 a locs)"

definition adjust_match :: "rule_engine \<Rightarrow> pattern_rule \<Rightarrow> string \<Rightarrow> nat \<times> nat \<Rightarrow> (nat \<times> nat) option" where
  "adjust_match e r text loc = (case loc of (a, b) \<Rightarrow>
     if pr_id r = ''build-phase-download'' then
       (case re_download e (slice b (min (length text) (b + 12000)) text) of
          None \<Rightarrow> None | Some d \<Rightarrow> Some (a, b + d))
     else if pr_id r = ''plain-http-source'' \<and> 0 < a \<and> (text ! (a - 1) = CHR ''s'' \<or> text ! (a - 1) = CHR ''S'') then None
     else Some (a, b))"

definition control_only :: "string list" where
  "control_only = [''plain-http-source'', ''dynamic-execution'', ''unexpected-network-client'', ''language-build-hook'']"

fun scan_rules :: "rule_engine \<Rightarrow> string \<Rightarrow> string \<Rightarrow> string \<Rightarrow> int \<Rightarrow> pattern_rule list \<Rightarrow> finding list \<Rightarrow> finding list" where
  "scan_rules e path text behavior offset [] acc = acc"
| "scan_rules e path text behavior offset (r # rs) acc =
     (let remaining = finding_limit e + 1 - int (length acc) in
      if remaining \<le> 0 then acc
      else
        let rule_text = (if pr_id r = ''prompt-injection'' then text else behavior) in
        if pr_id r \<in> set control_only \<and> \<not> mandatory_control_path (re_lower e) path
        then scan_rules e path text behavior offset rs acc
        else scan_rules e path text behavior offset rs (acc @ match_findings path r rule_text
          (adjust_match e r rule_text) (offset + 1) 0 (take (nat remaining) (re_matches e (pr_id r) rule_text))))"

definition scan_prepared_findings :: "rule_engine \<Rightarrow> string \<Rightarrow> string \<Rightarrow> string \<Rightarrow> int \<Rightarrow> finding list" where
  "scan_prepared_findings e path text behavior offset =
     (let found = scan_rules e path text behavior offset pattern_rules [];
          remaining = finding_limit e + 1 - int (length found) in
      if remaining > 0 \<and> unicode_obfuscation_relevant (re_lower e) path
      then found @ unicode_findings e path text offset remaining else found)"

text \<open>Every hard block is kept; other findings at most three times per rule.\<close>

fun representative :: "(string \<times> nat) list \<Rightarrow> finding list \<Rightarrow> finding list" where
  "representative counts [] = []"
| "representative counts (f # fs) =
     (let n = (case map_of counts (f_rule_id f) of Some k \<Rightarrow> k | None \<Rightarrow> 0) in
      if f_hard_block f then f # representative counts fs
      else if n < 3 then f # representative ((f_rule_id f, Suc n) # counts) fs
      else representative counts fs)"

definition representative_findings :: "finding list \<Rightarrow> finding list" where
  "representative_findings fs = representative [] fs"

definition scan_prepared_text :: "rule_engine \<Rightarrow> string \<Rightarrow> string \<Rightarrow> string \<Rightarrow> int \<Rightarrow> finding list" where
  "scan_prepared_text e path text behavior offset = representative_findings (scan_prepared_findings e path text behavior offset)"

definition scan_text :: "rule_engine \<Rightarrow> string \<Rightarrow> string \<Rightarrow> int \<Rightarrow> finding list" where
  "scan_text e path text offset =
     (let behavior = (case unified_diff_behavior_text (re_lower e) path text of (d, ok) \<Rightarrow>
         if ok then d
         else if shell_comment_line_path (re_lower e) path then fst (mask_text mask_start text) else text)
      in scan_prepared_text e path text behavior offset)"

section \<open>Reading in chunks\<close>

record reader_state =
  rd_sample :: string
  rd_text :: string
  rd_behavior :: string
  rd_mask :: masker
  rd_lines :: int
  rd_total :: int
  rd_findings :: "finding list"
  rd_seen :: "(string \<times> int \<times> string) list"
  rd_over :: bool

definition finding_identity :: "finding \<Rightarrow> string \<times> int \<times> string" where
  "finding_identity f = (f_rule_id f, (case f_line f of Some l \<Rightarrow> l | None \<Rightarrow> 0), f_evidence f)"

definition limit_error :: string where "limit_error = ''*errors.errorString''"

text \<open>The loop over the findings of one window. None: the limit is exceeded in a text that is no patch.\<close>

fun add_findings :: "int \<Rightarrow> bool \<Rightarrow> finding list \<Rightarrow> reader_state \<Rightarrow> reader_state option" where
  "add_findings limit diff [] st = Some st"
| "add_findings limit diff (f # fs) st =
     (if rd_over st then Some st
      else if finding_identity f \<in> set (rd_seen st) then add_findings limit diff fs st
      else
        let st1 = st\<lparr>rd_seen := finding_identity f # rd_seen st, rd_findings := rd_findings st @ [f]\<rparr> in
        if int (length (rd_findings st1)) > limit
        then (if \<not> diff then None else add_findings limit diff fs (st1\<lparr>rd_over := True\<rparr>))
        else add_findings limit diff fs st1)"

definition overlap :: "string \<Rightarrow> string" where
  "overlap s = (if length s > 16384 then drop (length s - 16384) s else s)"

definition scan_chunk :: "rule_engine \<Rightarrow> string \<Rightarrow> int \<Rightarrow> string \<Rightarrow> reader_state \<Rightarrow> reader_state option" where
  "scan_chunk e path limit raw st =
     (let sample = (if int (length (rd_sample st)) < limit
            then rd_sample st @ take (nat (limit - int (length (rd_sample st)))) raw else rd_sample st);
          masked = (if shell_comment_line_path (re_lower e) path then mask_text (rd_mask st) raw else (raw, rd_mask st));
          text = rd_text st @ raw; behavior = rd_behavior st @ fst masked;
          base0 = rd_lines st - newlines (rd_text st); base = (if base0 < 0 then 0 else base0);
          st1 = st\<lparr>rd_sample := sample, rd_mask := snd masked, rd_total := rd_total st + int (length raw)\<rparr>
      in case add_findings (finding_limit e) (unified_diff_path (re_lower e) path)
            (scan_prepared_text e path text behavior base) st1 of
           None \<Rightarrow> None
         | Some st2 \<Rightarrow>
             if rd_over st2 \<and> rd_total st2 > limit then None
             else Some (st2\<lparr>rd_lines := rd_lines st + newlines raw, rd_text := overlap text, rd_behavior := overlap behavior\<rparr>))"

fun scan_chunks :: "rule_engine \<Rightarrow> string \<Rightarrow> int \<Rightarrow> string list \<Rightarrow> reader_state \<Rightarrow> reader_state option" where
  "scan_chunks e path limit [] st = Some st"
| "scan_chunks e path limit (c # cs) st = (if c = [] then scan_chunks e path limit cs st
     else (case scan_chunk e path limit c st of None \<Rightarrow> None | Some st1 \<Rightarrow> scan_chunks e path limit cs st1))"

definition reader_start :: reader_state where
  "reader_start = \<lparr>rd_sample = [], rd_text = [], rd_behavior = [], rd_mask = mask_start, rd_lines = 0, rd_total = 0,
     rd_findings = [], rd_seen = [], rd_over = False\<rparr>"

text \<open>
  ScanReader: the reads of at most 1 MiB a reader delivers, and the error it ends with (its dynamic type), if any.
\<close>

definition scan_reader :: "rule_engine \<Rightarrow> string \<Rightarrow> string list \<times> string option \<Rightarrow> int \<Rightarrow>
    string + finding list \<times> string \<times> int" where
  "scan_reader e path input limit = (case scan_chunks e path limit (fst input) reader_start of
      None \<Rightarrow> Inl limit_error
    | Some st \<Rightarrow> (case snd input of
          Some err \<Rightarrow> Inl err
        | None \<Rightarrow>
            let diff = (if unified_diff_path (re_lower e) path \<and> rd_total st = int (length (rd_sample st))
                then unified_diff_behavior_text (re_lower e) path (rd_sample st) else ([], False))
            in if snd diff then
                 (let found = scan_prepared_findings e path (rd_sample st) (fst diff) 0 in
                  if int (length found) > finding_limit e then Inl limit_error
                  else Inr (representative_findings found, rd_sample st, rd_total st))
               else if rd_over st then Inl limit_error
               else Inr (representative_findings (rd_findings st), rd_sample st, rd_total st)))"

section \<open>The mask is line by line\<close>

definition mask_blank :: "char \<Rightarrow> bool" where "mask_blank c = (c = CHR '' '' \<or> c = CHR 0x09 \<or> c = CHR 0x0D)"

text \<open>The reference: a line whose first byte that is not blank is a hash loses its text.\<close>

definition mask_line :: "string \<Rightarrow> string" where
  "mask_line l = (let p = takeWhile mask_blank l; r = dropWhile mask_blank l in
     if has_prefix r ''#'' then p @ replicate (length r) (CHR '' '') else l)"

lemma mask_text_append:
  "mask_text m (s @ t) = (fst (mask_text m s) @ fst (mask_text (snd (mask_text m s)) t),
     snd (mask_text (snd (mask_text m s)) t))"
  by (induction m s rule: mask_text.induct) (auto split: prod.split)

lemma mask_text_code: "nl \<notin> set s \<Longrightarrow> mask_text \<lparr>mk_prefix = False, mk_comment = False\<rparr> s = (s, \<lparr>mk_prefix = False, mk_comment = False\<rparr>)"
  by (induction s) (auto simp: mask_char_def)

lemma mask_text_comment: "nl \<notin> set s \<Longrightarrow>
   mask_text \<lparr>mk_prefix = p, mk_comment = True\<rparr> s = (replicate (length s) (CHR '' ''), \<lparr>mk_prefix = p, mk_comment = True\<rparr>)"
  by (induction s) (auto simp: mask_char_def)

lemma mask_text_line:
  "nl \<notin> set s \<Longrightarrow> fst (mask_text mask_start s) = mask_line s"
proof (induction s)
  case (Cons c s)
  show ?case
  proof (cases "mask_blank c")
    case True
    then have "mask_char c mask_start = (c, mask_start)" "c \<noteq> CHR ''#''"
      by (auto simp: mask_blank_def mask_char_def mask_start_def nl_def)
    with Cons True show ?thesis by (auto simp: mask_line_def Let_def split: prod.split)
  next
    case False
    with Cons.prems show ?thesis
      by (cases "c = CHR ''#''")
        (auto simp: mask_line_def mask_char_def mask_start_def mask_blank_def mask_text_code mask_text_comment Let_def nl_def
          split: prod.split)
  qed
qed (simp add: mask_line_def mask_start_def)

lemma mask_newline: "mask_char nl m = (nl, mask_start) \<or> (mk_comment m = False \<and> mask_char nl m = (nl, m\<lparr>mk_prefix := True\<rparr>))"
  by (auto simp: mask_char_def mask_start_def)

lemma mask_newline_state: "snd (mask_char nl m) = mask_start"
  by (cases m) (auto simp: mask_char_def mask_start_def)

text \<open>
  However the reader cuts the text, the behaviour text is the line-by-line mask of the whole:
  newlines and byte positions stay, and only pure comment lines lose their text.
\<close>

lemma mask_text_lines: "fst (mask_text mask_start s) = join_with [nl] (map mask_line (split_on nl s))"
proof (induction "length s" arbitrary: s rule: less_induct)
  case less
  show ?case
  proof (cases "nl \<in> set s")
    case False
    then show ?thesis by (simp add: split_on_no mask_text_line)
  next
    case True
    then obtain a b where s: "s = a @ nl # b" "nl \<notin> set a" by (meson split_list_first)
    have "fst (mask_text mask_start b) = join_with [nl] (map mask_line (split_on nl b))" using less s by simp
    moreover have "mask_text (snd (mask_text mask_start a)) (nl # b) = (nl # fst (mask_text mask_start b), snd (mask_text mask_start b))"
      using mask_newline_state[of "snd (mask_text mask_start a)"] mask_newline[of "snd (mask_text mask_start a)"]
      by (auto split: prod.split)
    ultimately show ?thesis
      using s split_on_nonempty[of nl b]
      by (cases "split_on nl b") (auto simp: mask_text_append mask_text_line split_on_append)
  qed
qed

lemma mask_chunks: "concat (map fst (snd (foldl (\<lambda>(m, out) c. (snd (mask_text m c), out @ [mask_text m c])) (m0, []) cs))) =
    fst (mask_text m0 (concat cs))"
proof -
  have "concat (map fst (snd (foldl (\<lambda>(m, out) c. (snd (mask_text m c), out @ [mask_text m c])) (m0, out) cs))) =
      concat (map fst out) @ fst (mask_text m0 (concat cs))" for out
    by (induction cs arbitrary: m0 out) (simp_all add: mask_text_append)
  then show ?thesis by simp
qed

section \<open>Representative findings\<close>

lemma representative_subset: "set (representative counts fs) \<subseteq> set fs"
proof (induction counts fs rule: representative.induct)
  case (2 counts f fs)
  then show ?case by (cases "f_hard_block f") (auto simp: Let_def split: option.splits if_splits)
qed simp

lemma representative_hard: "filter f_hard_block (representative counts fs) = filter f_hard_block fs"
  by (induction counts fs rule: representative.induct) (auto simp: Let_def)

lemma representative_rule:
  "f \<in> set fs \<Longrightarrow> map_of counts (f_rule_id f) = None \<Longrightarrow> \<exists>g \<in> set (representative counts fs). f_rule_id g = f_rule_id f"
proof (induction counts fs rule: representative.induct)
  case (2 counts g fs)
  show ?case
  proof (cases "f_rule_id g = f_rule_id f")
    case True
    with 2(5) show ?thesis by (auto simp: Let_def)
  next
    case False
    with 2 show ?thesis by (auto simp: Let_def)
  qed
qed simp

lemma representative_cap:
  "length (filter (\<lambda>f. \<not> f_hard_block f \<and> f_rule_id f = i) (representative counts fs)) +
     min 3 (case map_of counts i of Some k \<Rightarrow> k | None \<Rightarrow> 0) \<le> 3"
  by (induction counts fs rule: representative.induct) (auto simp: Let_def split: option.splits if_splits)

text \<open>
  A report shows at most three places per rule, and loses neither a hard block nor a rule that
  fired.
\<close>

lemma representative_findings_keep:
  "filter f_hard_block (representative_findings fs) = filter f_hard_block fs"
  "f \<in> set fs \<Longrightarrow> \<exists>g \<in> set (representative_findings fs). f_rule_id g = f_rule_id f"
  "length (filter (\<lambda>f. \<not> f_hard_block f \<and> f_rule_id f = i) (representative_findings fs)) \<le> 3"
  using representative_cap[of i "[]" fs]
  by (auto simp: representative_findings_def representative_hard intro: representative_rule)

section \<open>The sample of a reader\<close>

lemma add_findings_fields:
  "add_findings limit diff fs st = Some st' \<Longrightarrow> rd_sample st' = rd_sample st \<and> rd_total st' = rd_total st \<and>
     rd_text st' = rd_text st \<and> rd_behavior st' = rd_behavior st \<and> rd_mask st' = rd_mask st \<and> rd_lines st' = rd_lines st"
  by (induction limit diff fs st rule: add_findings.induct) (auto simp: Let_def split: if_splits)

lemma scan_chunks_sample:
  "scan_chunks e path limit cs st = Some st' \<Longrightarrow> rd_sample st = take (nat limit) s \<Longrightarrow> rd_total st = int (length s) \<Longrightarrow>
     rd_sample st' = take (nat limit) (s @ concat cs) \<and> rd_total st' = int (length (s @ concat cs))"
proof (induction e path limit cs st arbitrary: s rule: scan_chunks.induct)
  case (2 e path limit c cs st)
  show ?case
  proof (cases "c = []")
    case False
    with 2(3) obtain st1 where st1: "scan_chunk e path limit c st = Some st1" "scan_chunks e path limit cs st1 = Some st'"
      by (auto split: option.splits)
    have n: "nat (limit - int k) = nat limit - k" for k by arith
    have "rd_sample st1 = take (nat limit) (s @ c) \<and> rd_total st1 = int (length (s @ c))"
      using st1(1) 2(4,5) by (auto simp: scan_chunk_def Let_def n split: option.splits if_splits dest!: add_findings_fields)
    with 2(2)[OF False st1(1) st1(2), of "s @ c"] show ?thesis by simp
  qed (use 2 in simp)
qed simp

text \<open>A reader that returns has read everything, and its sample is the start of the text.\<close>

lemma scan_reader_sample:
  "scan_reader e path input limit = Inr (fs, sample, total') \<Longrightarrow>
     sample = take (nat limit) (concat (fst input)) \<and> total' = int (length (concat (fst input))) \<and> snd input = None"
  using scan_chunks_sample[of e path limit "fst input" reader_start _ "[]"]
  by (auto simp: scan_reader_def reader_start_def Let_def split: option.splits if_splits)

end
