(* ===== verification/Archive_Scan.thy ===== *)
theory Archive_Scan
  imports Rules Config
begin

text \<open>
  internal/brief/archives.go: inspecting an archive without extracting it. Decoding (gzip, bzip2, xz, zstd, tar and
  zip) is the work of libraries and an argument; what the scanner does with the entries they yield - limits, escapes, special
  files, modes, nesting, text and binary members - is the code's. An error is the text of its dynamic
  type, the only thing the report shows of it.
\<close>

section \<open>Results\<close>

record archive_scan =
  sc_entries :: int
  sc_bytes :: int
  sc_archives :: int
  sc_findings :: "finding list"
  sc_selected :: "(string \<times> string) list"
  sc_supported :: bool
  sc_complete :: bool
  sc_format :: string

definition add_finding :: "finding \<Rightarrow> archive_scan \<Rightarrow> archive_scan" where
  "add_finding f r = r\<lparr>sc_findings := sc_findings r @ [f]\<rparr>"

definition incomplete :: "archive_scan \<Rightarrow> archive_scan" where "incomplete r = r\<lparr>sc_complete := False\<rparr>"

definition errors_string :: string where "errors_string = ''*errors.errorString''"

definition coverage_finding :: "string \<Rightarrow> string \<Rightarrow> string \<Rightarrow> string \<Rightarrow> finding" where
  "coverage_finding file evidence rationale rule = plain_finding ''high'' ''coverage'' file None evidence rationale rule False"

definition mandatory_invalid :: "string \<Rightarrow> string \<Rightarrow> string \<Rightarrow> finding" where
  "mandatory_invalid file evidence rationale =
     plain_finding ''critical'' ''coverage'' file None evidence rationale ''mandatory-control-invalid'' True"

definition archive_escape_finding :: "string \<Rightarrow> string \<Rightarrow> string \<Rightarrow> finding" where
  "archive_escape_finding file evidence rationale =
     plain_finding ''critical'' ''archive_escape'' file None (truncate_text evidence 320) rationale ''archive-escape'' True"

definition unsupported_archive :: "archive_scan \<Rightarrow> string \<Rightarrow> string \<Rightarrow> archive_scan" where
  "unsupported_archive r name err = add_finding
     (coverage_finding name err ''archive could not be safely inspected'' ''archive-unsupported'')
     (r\<lparr>sc_supported := False, sc_complete := False\<rparr>)"

section \<open>Recognising content\<close>

definition archive_suffixes :: "string list" where
  "archive_suffixes = [''.tar'', ''.tar.gz'', ''.tgz'', ''.tar.bz2'', ''.tbz2'', ''.tar.xz'', ''.txz'', ''.tar.zst'',
     ''.zip'', ''.jar'', ''.whl'', ''.pkg.tar.zst'', ''.pkg.tar.xz'']"

definition byte_string :: "nat list \<Rightarrow> string" where "byte_string = map char_of"

definition archive_format :: "string \<Rightarrow> string" where
  "archive_format head =
     (if has_prefix head (''PK'' @ byte_string [3, 4]) then ''zip''
      else if has_prefix head (byte_string [0x1f, 0x8b]) then ''gzip''
      else if has_prefix head ''BZh'' then ''bzip2''
      else if has_prefix head (byte_string [0xfd] @ ''7zXZ'') then ''xz''
      else if has_prefix head (byte_string [0x28, 0xb5, 0x2f, 0xfd]) then ''zstd''
      else if has_prefix head ''070701'' \<or> has_prefix head ''070702'' \<or> has_prefix head ''070707'' \<or>
        has_prefix head (byte_string [0xc7, 0x71]) \<or> has_prefix head (byte_string [0x71, 0xc7]) then ''cpio''
      else if length head \<ge> 262 \<and> take 5 (drop 257 head) = ''ustar'' then ''tar''
      else [])"

definition looks_like_archive :: "(string \<Rightarrow> string) \<Rightarrow> string \<Rightarrow> string \<Rightarrow> bool" where
  "looks_like_archive ul name head =
     (list_ex (has_suffix (to_lower ul name)) archive_suffixes \<or> archive_format head \<noteq> [])"

definition binary_format :: "string \<Rightarrow> string" where
  "binary_format data =
     (if has_prefix data (byte_string [0x7f] @ ''ELF'') then ''ELF''
      else if has_prefix data ''MZ'' then ''PE''
      else if length data \<ge> 4 \<and> take 4 data \<in> {byte_string [0xfe, 0xed, 0xfa, 0xce], byte_string [0xce, 0xfa, 0xed, 0xfe],
        byte_string [0xfe, 0xed, 0xfa, 0xcf], byte_string [0xcf, 0xfa, 0xed, 0xfe]} then ''Mach-O''
      else [])"

definition probably_text :: "string \<Rightarrow> bool" where
  "probably_text data = (CHR 0x00 \<notin> set data \<and> binary_format data = [])"

definition package_archive_name :: "(string \<Rightarrow> string) \<Rightarrow> string \<Rightarrow> bool" where
  "package_archive_name ul name =
     list_ex (has_suffix (to_lower ul name)) [''.pkg.tar'', ''.pkg.tar.gz'', ''.pkg.tar.xz'', ''.pkg.tar.zst'']"

definition structured_pacman_metadata :: "string \<Rightarrow> bool" where
  "structured_pacman_metadata name = (path_base name \<in> {''.PKGINFO'', ''.BUILDINFO'', ''.MTREE''})"

definition selected_extensions :: "string list" where
  "selected_extensions = [''.sh'', ''.bash'', ''.zsh'', ''.py'', ''.pl'', ''.rb'', ''.js'', ''.ts'', ''.lua'', ''.patch'',
     ''.diff'', ''.service'', ''.install'', ''.spec'']"

definition select_archive_member :: "(string \<Rightarrow> string) \<Rightarrow> string \<Rightarrow> 32 word \<Rightarrow> finding list \<Rightarrow> bool" where
  "select_archive_member ul name md fs =
     (md AND 0x49 \<noteq> 0 \<or> to_lower ul (path_ext name) \<in> set selected_extensions \<or>
      to_lower ul (path_base name) \<in> {''makefile'', ''cmakelists.txt'', ''meson.build'', ''build.rs'', ''setup.py'', ''package.json''} \<or>
      fs \<noteq> [])"

section \<open>Escapes\<close>

definition unsafe_archive_member :: "string \<Rightarrow> bool" where
  "unsafe_archive_member name =
     (if name = [] \<or> CHR 0x00 \<in> set name \<or> has_prefix name ''/'' then True
      else path_clean name = ''..'' \<or> has_prefix (path_clean name) ''../'')"

definition archive_link_escapes :: "string \<Rightarrow> string \<Rightarrow> bool" where
  "archive_link_escapes member target =
     (if has_prefix target ''/'' \<or> CHR 0x00 \<in> set target then True
      else let clean = path_clean (path_join [path_dir member, target]) in
        clean = ''..'' \<or> has_prefix clean ''../'')"

section \<open>Decoders\<close>

text \<open>A decoded stream: the bytes it yields and how it ends; an error is shown by its type.\<close>

datatype stream_end = AtEOF | UnexpectedEOF | StreamError string

type_synonym stream = "string \<times> stream_end"

definition end_error :: "stream_end \<Rightarrow> string option" where
  "end_error e = (case e of AtEOF \<Rightarrow> None | UnexpectedEOF \<Rightarrow> Some errors_string | StreamError t \<Rightarrow> Some t)"

record tar_member =
  tm_name :: string
  tm_flag :: char
  tm_linkname :: string
  tm_uid :: int
  tm_gid :: int
  tm_mode :: int
  tm_size :: int
  tm_pax :: "string list"
  tm_body :: stream

record zip_member =
  zm_name :: string
  zm_flags :: nat
  zm_creator :: nat
  zm_external :: "32 word"
  zm_size :: nat
  zm_open :: "string + stream"

text \<open>
  The libraries: the decompressors, tar.Reader (the members it yields and the error it stops with, if any),
  zip.NewReader, how the reads after the first 8 KiB are cut, and whether a temporary file can be
  written.
\<close>

record archive_tools =
  at_gzip :: "string \<Rightarrow> string + stream"
  at_bzip2 :: "string \<Rightarrow> stream"
  at_xz :: "string \<Rightarrow> string + stream"
  at_zstd :: "string \<Rightarrow> string + stream"
  at_tar :: "stream \<Rightarrow> tar_member list \<times> string option"
  at_zip :: "string \<Rightarrow> string + zip_member list"
  at_pieces :: "string \<Rightarrow> string list"
  at_spool :: "string \<Rightarrow> string option"

definition byte_of :: "char \<Rightarrow> nat" where "byte_of c = of_char c"

text \<open>One multibyte integer of the xz format: at most nine bytes, seven bits each.\<close>

fun xz_varint :: "nat \<Rightarrow> nat \<Rightarrow> string \<Rightarrow> (nat \<times> string) option" where
  "xz_varint i v [] = None"
| "xz_varint i v (c # s) = (if i \<ge> 9 then None
     else let v1 = v + byte_of c mod 128 * 2 ^ (7 * i) in
       if byte_of c < 128 then Some (v1, s) else xz_varint (Suc i) v1 s)"

definition xz_dictionary_limit :: nat where "xz_dictionary_limit = 128 * 2 ^ 20"

definition xz_dictionary :: "nat \<Rightarrow> nat" where
  "xz_dictionary n = (if n < 40 then (2 + n mod 2) * 2 ^ (n div 2 + 11) else 2 ^ 32)"

fun check_xz_filters :: "nat \<Rightarrow> string \<Rightarrow> bool" where
  "check_xz_filters 0 s = True"
| "check_xz_filters (Suc k) s = (case xz_varint 0 0 s of
      None \<Rightarrow> False
    | Some (i, s1) \<Rightarrow> (case xz_varint 0 0 s1 of
          None \<Rightarrow> False
        | Some (n, s2) \<Rightarrow>
            if n > length s2 then False
            else if i \<noteq> 0x21 \<or> n \<noteq> 1 then check_xz_filters k (drop n s2)
            else if byte_of (hd s2) > 40 then False
            else if xz_dictionary (byte_of (hd s2)) > xz_dictionary_limit then False
            else check_xz_filters k (drop n s2)))"

definition skip_varint :: "bool \<Rightarrow> string \<Rightarrow> string option" where
  "skip_varint present s = (if present then map_option snd (xz_varint 0 0 s) else Some s)"

definition check_xz_dictionary :: "string \<Rightarrow> bool" where
  "check_xz_dictionary head =
     (if length head \<le> 12 then False
      else let block = drop 12 head; sz = (byte_of (hd block) + 1) * 4 in
        if byte_of (hd block) = 0 then True
        else if sz > length block then False
        else (case drop 1 (take sz block) of
            [] \<Rightarrow> False
          | f # cursor \<Rightarrow>
              (case Option.bind (skip_varint (byte_of f div 64 mod 2 = 1) cursor) (skip_varint (byte_of f div 128 mod 2 = 1)) of
                 None \<Rightarrow> False
               | Some s \<Rightarrow> check_xz_filters (byte_of f mod 4 + 1) s)))"

definition compressed_reader :: "archive_tools \<Rightarrow> string \<Rightarrow> string \<Rightarrow> string + stream" where
  "compressed_reader t content head =
     (if has_prefix head (byte_string [0x1f, 0x8b]) then at_gzip t content
      else if has_prefix head ''BZh'' then Inr (at_bzip2 t content)
      else if has_prefix head (byte_string [0xfd] @ ''7zXZ'') then
        (if \<not> check_xz_dictionary head then Inl errors_string else at_xz t content)
      else if has_prefix head (byte_string [0x28, 0xb5, 0x2f, 0xfd]) then at_zstd t content
      else Inr (content, AtEOF))"

section \<open>Modes\<close>

text \<open>The verb %#o.\<close>

fun octal_digits :: "nat \<Rightarrow> string" where
  "octal_digits n = (if n < 8 then [char_of (48 + n)] else octal_digits (n div 8) @ [char_of (48 + n mod 8)])"

declare octal_digits.simps [simp del]

definition show_octal :: "32 word \<Rightarrow> string" where
  "show_octal m = (if m = 0 then ''0'' else CHR ''0'' # octal_digits (unat m))"

text \<open>The bits of os.FileMode, and zip.FileHeader.Mode.\<close>

definition mode_dir :: "32 word" where "mode_dir = 0x80000000"
definition mode_symlink :: "32 word" where "mode_symlink = 0x08000000"
definition mode_device :: "32 word" where "mode_device = 0x04000000"
definition mode_named_pipe :: "32 word" where "mode_named_pipe = 0x02000000"
definition mode_socket :: "32 word" where "mode_socket = 0x01000000"
definition mode_setuid :: "32 word" where "mode_setuid = 0x00800000"
definition mode_setgid :: "32 word" where "mode_setgid = 0x00400000"
definition mode_char_device :: "32 word" where "mode_char_device = 0x00200000"
definition mode_sticky :: "32 word" where "mode_sticky = 0x00100000"
definition mode_type :: "32 word" where "mode_type = 0x8f280000"

definition unix_file_mode :: "32 word \<Rightarrow> 32 word" where
  "unix_file_mode m =
     (let t = m AND 0xf000;
          kind = (if t = 0x6000 then mode_device else if t = 0x2000 then mode_device OR mode_char_device
                  else if t = 0x4000 then mode_dir else if t = 0x1000 then mode_named_pipe
                  else if t = 0xa000 then mode_symlink else if t = 0xc000 then mode_socket else 0)
      in (m AND 0x1ff) OR kind OR (if m AND 0x400 \<noteq> 0 then mode_setgid else 0) OR
         (if m AND 0x800 \<noteq> 0 then mode_setuid else 0) OR (if m AND 0x200 \<noteq> 0 then mode_sticky else 0))"

definition msdos_file_mode :: "32 word \<Rightarrow> 32 word" where
  "msdos_file_mode m =
     (let b = (if m AND 0x10 \<noteq> 0 then mode_dir OR 0x1ff else 0x1b6) in
      if m AND 1 \<noteq> 0 then b AND NOT 0x92 else b)"

definition zip_mode :: "zip_member \<Rightarrow> 32 word" where
  "zip_mode z =
     (let c = zm_creator z div 256;
          m = (if c = 3 \<or> c = 19 then unix_file_mode (drop_bit 16 (zm_external z))
               else if c = 11 \<or> c = 14 \<or> c = 0 then msdos_file_mode (zm_external z) else 0)
      in if has_suffix (zm_name z) ''/'' then m OR mode_dir else m)"

definition perm :: "32 word \<Rightarrow> 32 word" where "perm m = m AND 0x1ff"
definition is_regular :: "32 word \<Rightarrow> bool" where "is_regular m = (m AND mode_type = 0)"

definition setid_finding :: "string \<Rightarrow> 32 word \<Rightarrow> finding" where
  "setid_finding virtual m = plain_finding ''critical'' ''privilege_escalation'' virtual None (show_octal m)
     ''package artifact contains a setuid or setgid entry'' ''artifact-setid'' True"

definition integration_finding :: "string \<Rightarrow> string \<Rightarrow> finding" where
  "integration_finding virtual name = plain_finding ''medium'' ''persistence'' virtual None name
     ''package artifact installs a privileged integration surface'' ''artifact-integration'' False"

definition archive_mode_findings :: "string \<Rightarrow> 32 word \<Rightarrow> string list \<Rightarrow> string \<Rightarrow> finding list" where
  "archive_mode_findings name m pax virtual =
     (if m AND 0xc00 \<noteq> 0 then [setid_finding virtual m] else []) @
     (if list_ex (\<lambda>k. has_suffix k ''security.capability'') pax
      then [plain_finding ''critical'' ''privilege_escalation'' virtual None ''security.capability''
        ''package artifact assigns Linux file capabilities'' ''artifact-capability'' True] else []) @
     (if is_privileged_surface name then [integration_finding virtual name] else [])"

section \<open>Limits\<close>

definition check_archive_limits :: "limits_config \<Rightarrow> int \<Rightarrow> string \<Rightarrow> archive_scan \<Rightarrow> bool \<times> archive_scan" where
  "check_archive_limits l sz file r0 =
     (let r1 = r0\<lparr>sc_entries := sc_entries r0 + 1\<rparr> in
      if sz < 0 then (False, add_finding (coverage_finding file (show_int sz)
        ''archive member has an invalid negative or overflowing size'' ''archive-size-invalid'') (incomplete r1))
      else
        let r = (if sz > 0 then r1\<lparr>sc_bytes := wrap64 (sc_bytes r1 + sz)\<rparr> else r1) in
        if sc_entries r > lim_archive_entries l then (False, add_finding (coverage_finding file (show_int (sc_entries r))
          ''archive entry limit exceeded'' ''archive-entry-limit'') (incomplete r))
        else if sc_bytes r > lim_archive_unpacked_bytes l then (False, add_finding (coverage_finding file (show_int (sc_bytes r))
          ''archive size limit exceeded'' ''archive-size-limit'') (incomplete r))
        else (True, r))"

text \<open>CheckArchiveBudget: whether it reports an error.\<close>

definition archive_budget_exceeded :: "limits_config \<Rightarrow> archive_scan \<Rightarrow> bool" where
  "archive_budget_exceeded l r =
     (int (length (sc_findings r)) > lim_findings l \<or> sc_archives r > lim_archives l)"

section \<open>What the escape tests decide\<close>

text \<open>
  The reference: walking down a relative path from a directory, whether a step ever leaves it
  upwards.
\<close>

fun climbs :: "nat \<Rightarrow> string list \<Rightarrow> bool" where
  "climbs d [] = False"
| "climbs d (e # es) =
     (if e = [] \<or> e = ''.'' then climbs d es
      else if e = ''..'' then (d = 0 \<or> climbs (d - 1) es)
      else climbs (Suc d) es)"

lemma push_keeps_up: "st \<noteq> [] \<Longrightarrow> last st = ''..'' \<Longrightarrow>
   clean_push False st e \<noteq> [] \<and> last (clean_push False st e) = ''..''"
  by (cases st) auto

lemma fold_keeps_up: "st \<noteq> [] \<Longrightarrow> last st = ''..'' \<Longrightarrow>
   foldl (clean_push False) st es \<noteq> [] \<and> last (foldl (clean_push False) st es) = ''..''"
proof (induction es arbitrary: st)
  case (Cons e es)
  have "clean_push False st e \<noteq> [] \<and> last (clean_push False st e) = ''..''"
    using Cons.prems by (intro push_keeps_up) simp_all
  with Cons.IH show ?case by (simp del: clean_push.simps)
qed simp

lemma fold_climbs: "''..'' \<notin> set st \<Longrightarrow>
   (foldl (clean_push False) st es \<noteq> [] \<and> last (foldl (clean_push False) st es) = ''..'') \<longleftrightarrow> climbs (length st) es"
proof (induction es arbitrary: st)
  case Nil
  then show ?case by (cases st rule: rev_cases) auto
next
  case (Cons e es)
  show ?case
  proof (cases "e = ''..'' \<and> st = []")
    case True
    then have "clean_push False st e = [''..'']" by simp
    with True fold_keeps_up[of "[''..'']" es] show ?thesis by (simp del: clean_push.simps)
  next
    case False
    then have "''..'' \<notin> set (clean_push False st e)" using Cons.prems by (cases st) auto
    note ih = Cons.IH[OF this]
    have "climbs (length st) (e # es) \<longleftrightarrow> climbs (length (clean_push False st e)) es"
      using False Cons.prems by (cases st) auto
    with ih show ?thesis by (simp del: clean_push.simps climbs.simps)
  qed
qed

text \<open>A cleaned relative path starts above its directory exactly if the walk climbs.\<close>

lemma clean_climbs:
  assumes "\<not> path_rooted p"
  shows "(path_clean p = ''..'' \<or> has_prefix (path_clean p) ''../'') \<longleftrightarrow> climbs 0 (split_on slash p)"
proof -
  let ?es = "clean_elems False (split_on slash p)"
  have p: "path_clean p = (if ?es = [] then ''.'' else join_with [slash] ?es)"
    using assms by (simp add: path_clean_def Let_def)
  have c: "(?es \<noteq> [] \<and> hd ?es = ''..'') \<longleftrightarrow> climbs 0 (split_on slash p)"
    using fold_climbs[of "[]" "split_on slash p"] by (simp add: clean_elems_def hd_rev)
  show ?thesis
  proof (cases "?es = []")
    case True
    with p c show ?thesis by (auto simp: has_prefix_iff)
  next
    case False
    from join_first[OF False, of "[slash]"] obtain rest where
      r: "join_with [slash] ?es = hd ?es @ rest" "rest = [] \<or> has_prefix rest [slash]" by blast
    have "slash \<notin> set (hd ?es)"
      using clean_shape_no_slash[OF clean_elems_shape[of False p]] False by (auto simp: list_all_iff)
    note b = elem_boundary[OF this r(2), of "''..''"]
    have "(join_with [slash] ?es = ''..'' \<or> has_prefix (join_with [slash] ?es) ''../'') \<longleftrightarrow> hd ?es = ''..''"
    proof
      assume "hd ?es = ''..''"
      with r show "join_with [slash] ?es = ''..'' \<or> has_prefix (join_with [slash] ?es) ''../''"
        by (elim disjE) (simp_all add: has_prefix_def)
    qed (use b r(1) in auto)
    with p c False show ?thesis by simp
  qed
qed

lemma split_clean_fold:
  assumes "\<not> path_rooted p"
  shows "foldl (clean_push False) [] (split_on slash (path_clean p)) = foldl (clean_push False) [] (split_on slash p)"
proof -
  let ?es = "clean_elems False (split_on slash p)"
  have sh: "clean_shape False ?es" by (rule clean_elems_shape)
  have p: "path_clean p = (if ?es = [] then ''.'' else join_with [slash] ?es)"
    using assms by (simp add: path_clean_def Let_def)
  show ?thesis
  proof (cases "?es = []")
    case True
    with p show ?thesis by (simp add: clean_elems_def)
  next
    case False
    then have "split_on slash (path_clean p) = ?es"
      using p split_join[OF False clean_shape_no_slash[OF sh]] by simp
    with clean_elems_id[OF sh] show ?thesis by (simp add: clean_elems_def)
  qed
qed

lemma climbs_fold: "climbs 0 es \<longleftrightarrow> foldl (clean_push False) [] es \<noteq> [] \<and> last (foldl (clean_push False) [] es) = ''..''"
  using fold_climbs[of "[]" es] by simp

lemma last_index_split:
  "(case last_index p slash of
      None \<Rightarrow> split_on slash p = [p] | Some i \<Rightarrow> split_on slash (take (Suc i) p) = butlast (split_on slash p) @ [[]])"
proof (induction p)
  case (Cons x p)
  obtain w ws where w: "split_on slash p = w # ws" using split_on_nonempty by (meson neq_Nil_conv)
  show ?case
  proof (cases "last_index p slash")
    case None
    with Cons w show ?thesis by (auto split: if_splits)
  next
    case (Some i)
    with Cons have s: "split_on slash (take (Suc i) p) = butlast (w # ws) @ [[]]" using w by simp
    have "ws \<noteq> []"
    proof
      assume "ws = []"
      with s w have "split_on slash (take (Suc i) p) = [[]]" "split_on slash p = [w]" by simp_all
      then have "take (Suc i) p = []" using join_split[of slash "take (Suc i) p"] by simp
      with Some show False by (cases p) auto
    qed
    with Some s w show ?thesis by auto
  qed
qed simp

text \<open>The path the link test cleans: the link's directory, then the target.\<close>

lemma path_clean_nonempty: "path_clean p \<noteq> []"
proof (cases "path_rooted p \<or> clean_elems False (split_on slash p) = []")
  case False
  let ?es = "clean_elems False (split_on slash p)"
  from False have "hd ?es \<in> set (rev ?es)" by simp
  moreover have "list_all clean_elem (rev ?es)"
    using clean_stack_elems[of False "rev ?es"] clean_elems_shape[of False p] by (simp add: clean_shape_def)
  ultimately have "hd ?es \<noteq> []" by (auto simp: list_all_iff clean_elem_def)
  with False join_first[of ?es "[slash]"] show ?thesis by (auto simp: path_clean_def Let_def)
qed (auto simp: path_clean_def Let_def)

lemma path_clean_rooted: "path_rooted (path_clean p) \<longleftrightarrow> path_rooted p"
  using join_not_rooted[OF clean_elems_shape[of False p]]
  by (auto simp: path_clean_def Let_def) (auto simp: path_rooted_def)

lemma link_path: "path_join [path_dir member, target] = path_clean (path_dir member @ slash # target)"
  using path_clean_nonempty by (simp add: path_join_def path_dir_def)

lemma rooted_prefix: "has_prefix p ''/'' \<longleftrightarrow> path_rooted p"
  by (cases p) (auto simp: path_rooted_def)

lemma rooted_append: "p \<noteq> [] \<Longrightarrow> path_rooted (p @ s) \<longleftrightarrow> path_rooted p"
  by (simp add: path_rooted_def)

lemma link_climbs:
  "(path_clean (path_join [path_dir member, target]) = ''..'' \<or>
    has_prefix (path_clean (path_join [path_dir member, target])) ''../'') \<longleftrightarrow>
   \<not> has_prefix member ''/'' \<and> climbs 0 (butlast (split_on slash member) @ split_on slash target)"
proof -
  define q where "q = (case last_index member slash of None \<Rightarrow> [] | Some i \<Rightarrow> take (Suc i) member)"
  define x where "x = path_clean q @ slash # target"
  have d: "path_dir member = path_clean q" by (simp add: path_dir_def q_def)
  have c: "path_clean (path_join [path_dir member, target]) = path_clean x"
    by (simp only: link_path path_clean_idem) (simp only: d x_def)
  have rx: "path_rooted x \<longleftrightarrow> path_rooted q"
    by (simp add: x_def rooted_append[OF path_clean_nonempty] path_clean_rooted)
  have rq: "path_rooted q \<longleftrightarrow> path_rooted member"
    by (cases member) (auto simp: q_def path_rooted_def split: option.splits)
  show ?thesis
  proof (cases "path_rooted member")
    case True
    then have "path_rooted (path_clean x)" using rx rq path_clean_rooted by simp
    then have "\<not> (path_clean x = ''..'' \<or> has_prefix (path_clean x) ''../'')"
      by (cases "path_clean x") (auto simp: path_rooted_def)
    with c True show ?thesis by (simp add: rooted_prefix)
  next
    case False
    have s: "split_on slash q = butlast (split_on slash member) @ [[]]"
      using last_index_split[of member] by (auto simp: q_def split: option.splits)
    have "foldl (clean_push False) [] (split_on slash x) =
        foldl (clean_push False) [] (butlast (split_on slash member) @ split_on slash target)"
      using False rq by (simp add: x_def split_on_append_sep split_clean_fold s)
    with c clean_climbs[of x] False rx rq show ?thesis by (simp add: climbs_fold rooted_prefix)
  qed
qed

lemma unsafe_member_iff:
  "unsafe_archive_member name \<longleftrightarrow>
     name = [] \<or> CHR 0x00 \<in> set name \<or> has_prefix name ''/'' \<or> climbs 0 (split_on slash name)"
proof (cases "has_prefix name ''/''")
  case False
  then have "\<not> path_rooted name" by (cases name) (auto simp: path_rooted_def)
  from clean_climbs[OF this] False show ?thesis by (simp add: unsafe_archive_member_def)
qed (simp add: unsafe_archive_member_def)

lemma link_escapes_iff:
  "archive_link_escapes member target \<longleftrightarrow>
     has_prefix target ''/'' \<or> CHR 0x00 \<in> set target \<or>
     (\<not> has_prefix member ''/'' \<and> climbs 0 (butlast (split_on slash member) @ split_on slash target))"
  using link_climbs[of member target] by (auto simp: archive_link_escapes_def Let_def)

section \<open>Properties\<close>

text \<open>C33: the scanner's two lexical escape tests are exactly the walk they stand for. A member name is refused
  exactly if it is empty, absolute, holds a NUL byte, or steps above its extraction root anywhere along its
  way; a link target, if it is absolute, holds a NUL byte, or steps above the root on the way down from
  the directory of the link.\<close>

theorem archive_escape_exact:
  "(unsafe_archive_member name \<longleftrightarrow>
      name = [] \<or> CHR 0x00 \<in> set name \<or> has_prefix name ''/'' \<or> climbs 0 (split_on slash name)) \<and>
   (archive_link_escapes member target \<longleftrightarrow>
      has_prefix target ''/'' \<or> CHR 0x00 \<in> set target \<or>
      (\<not> has_prefix member ''/'' \<and> climbs 0 (butlast (split_on slash member) @ split_on slash target)))"
  using unsafe_member_iff link_escapes_iff by blast

lemma and_small: "(m AND 0x1ff) AND 0xc00 = (0 :: 32 word)"
  by (simp add: and.assoc)

lemma unix_mode_setid: "unix_file_mode m AND 0xc00 = 0"
  by (simp add: unix_file_mode_def Let_def bit.conj_disj_distrib2 and_small mode_device_def mode_char_device_def
      mode_dir_def mode_named_pipe_def mode_symlink_def mode_socket_def mode_setgid_def mode_setuid_def mode_sticky_def)

lemma msdos_mode_setid: "msdos_file_mode m AND 0xc00 = 0"
  by (simp add: msdos_file_mode_def Let_def mode_dir_def)

lemma zip_mode_setid: "zip_mode z AND 0xc00 = 0"
  by (simp add: zip_mode_def Let_def unix_mode_setid msdos_mode_setid bit.conj_disj_distrib2 mode_dir_def)

lemma unix_mode_setuid: "m AND 0x800 \<noteq> 0 \<Longrightarrow> bit (unix_file_mode m) 23"
  by (simp add: unix_file_mode_def Let_def bit_or_iff mode_setuid_def)

text \<open>The set-id test on zip entries can never succeed. An entry whose Unix mode is setuid gets the setuid bit of os.FileMode,
  bit 23; the scanner looks at the bits 0o6000, which are zero in every mode an entry can have. So a setuid
  or setgid program in a zip archive is not reported.\<close>

lemma zip_setid_missed:
  assumes "zm_creator z div 256 = 3" and "drop_bit 16 (zm_external z) AND 0x800 \<noteq> 0"
  shows "bit (zip_mode z) 23 \<and> zip_mode z AND 0xc00 = 0"
  using unix_mode_setuid[OF assms(2)] zip_mode_setid[of z] assms(1)
  by (simp add: zip_mode_def Let_def bit_or_iff)

end
