(* ===== verification/Archive_Walk.thy ===== *)
theory Archive_Walk
  imports Archive_Scan
begin

text \<open>
  internal/brief/archives.go: the walk over the members of an archive, with archives inside
  archives. The recursion is on the nesting level; \<open>nested\<close> is the scan of the next level, and
  \<open>scan_archive_level\<close> ties the knot with a level count that the depth limit keeps from running out
  (\<open>scan_archive_level_enough\<close>).
\<close>

section \<open>Members\<close>

definition printable_byte :: "char \<Rightarrow> bool" where
  "printable_byte c = (byte_of c = 9 \<or> (32 \<le> byte_of c \<and> byte_of c \<le> 126))"

fun printable_runs :: "string \<Rightarrow> string \<Rightarrow> string list" where
  "printable_runs cur [] = (if length cur \<ge> 4 then [cur] else [])"
| "printable_runs cur (c # s) = (if printable_byte c then printable_runs (cur @ [c]) s
     else (if length cur \<ge> 4 then [cur] else []) @ printable_runs [] s)"

definition printable_strings :: "string \<Rightarrow> string" where
  "printable_strings data = join_with [nl] (printable_runs [] data)"

definition binary_string_findings :: "finding list \<Rightarrow> finding list" where
  "binary_string_findings fs = filter f_hard_block fs"

definition artifact_metadata_findings :: "string \<Rightarrow> string \<Rightarrow> string \<Rightarrow> finding list" where
  "artifact_metadata_findings name text virtual =
     (let base = path_base name in
      if base = ''.PKGINFO'' then
        (let keys = List.map_filter (\<lambda>l. case cut l '' = '' of (k, v, ok) \<Rightarrow> if ok then Some k else None) (split_on nl text);
             missing = filter (\<lambda>k. k \<notin> set keys) [''pkgname'', ''pkgver'', ''arch''] in
         if missing = [] then []
         else [coverage_finding virtual (join_with '','' missing) ''package metadata is missing required fields'' ''pkginfo-missing''])
      else if base = ''.BUILDINFO'' then
        (if str_contains text ''builddate = '' then []
         else [plain_finding ''medium'' ''package_metadata'' virtual None ''builddate'' ''build metadata is incomplete''
           ''buildinfo-incomplete'' False])
      else if base = ''.MTREE'' then
        map (\<lambda>(i, line, r). plain_finding ''critical'' ''privilege_escalation'' virtual (Some (int i + 1)) (truncate_text line 320)
            ''package mtree records privileged mode or capabilities'' ''mtree-privileged'' True)
          (filter (\<lambda>(i, line, r). mtree_privileged r) (parse_mtree text))
      else [])"

text \<open>readTextSample: the sample and the number of bytes read.\<close>

definition read_text_sample :: "stream \<Rightarrow> int \<Rightarrow> string + string \<times> int" where
  "read_text_sample s limit =
     (if limit < 0 then Inl errors_string
      else (case end_error (snd s) of
          Some err \<Rightarrow> Inl err
        | None \<Rightarrow> Inr (take (nat limit) (fst s), int (length (fst s)))))"

text \<open>The reads of a member: the prefix already read, then whatever pieces the decoder delivers.\<close>

definition member_chunks :: "archive_tools \<Rightarrow> string \<Rightarrow> string list" where
  "member_chunks t content = filter (\<lambda>c. c \<noteq> []) (take 8192 content # at_pieces t (drop 8192 content))"

definition validate_chunks :: "string list \<Rightarrow> content_validator" where
  "validate_chunks cs = validator_finish (foldl (\<lambda>v c. validator_write c v) new_validator cs)"

text \<open>The text of a member through the rules, or sampled only if it is structured metadata.\<close>

definition read_member_text :: "archive_tools \<Rightarrow> rule_engine \<Rightarrow> limits_config \<Rightarrow> string \<Rightarrow> string \<Rightarrow> stream \<Rightarrow>
    string + finding list \<times> string \<times> int" where
  "read_member_text t e l name virtual s =
     (if structured_pacman_metadata name
      then (case read_text_sample s (lim_text_per_file l) of Inl err \<Rightarrow> Inl err | Inr (sample, n) \<Rightarrow> Inr ([], sample, n))
      else scan_reader e virtual (member_chunks t (fst s), end_error (snd s)) (lim_text_per_file l))"

definition scan_binary_member :: "rule_engine \<Rightarrow> limits_config \<Rightarrow> stream \<Rightarrow> string \<Rightarrow> 32 word \<Rightarrow> archive_scan \<Rightarrow>
    string option \<times> archive_scan" where
  "scan_binary_member e l s virtual md r =
     (let captured = take (nat (lim_binary_strings_bytes l)) (fst s) in
      if int (length (fst s)) < lim_binary_strings_bytes l \<and> end_error (snd s) \<noteq> None then (end_error (snd s), r)
      else
        let strings = printable_strings captured; fs = binary_string_findings (scan_text e virtual strings 0);
            fmt = binary_format captured; r1 = r\<lparr>sc_findings := sc_findings r @ fs\<rparr>
        in (None, if md AND 0x49 \<noteq> 0 \<or> fs \<noteq> [] \<or> fmt \<noteq> []
              then r1\<lparr>sc_selected := sc_selected r1 @ [(virtual, ''Binary format: '' @ (if fmt = [] then ''unknown'' else fmt) @
                 [nl] @ ''Bounded printable strings:'' @ [nl] @ strings)]\<rparr>
              else r1))"

section \<open>Nested archives\<close>

text \<open>spoolNestedArchive: exactly the declared bytes.\<close>

definition spool_nested_archive :: "archive_tools \<Rightarrow> stream \<Rightarrow> int \<Rightarrow> string \<Rightarrow> string + string" where
  "spool_nested_archive t s declared virtual = (case at_spool t virtual of
      Some err \<Rightarrow> Inl err
    | None \<Rightarrow>
        let n = wrap64 (declared + 1); short = int (length (fst s)) < n;
            written = (if short then int (length (fst s)) else max n 0) in
        if short \<and> end_error (snd s) \<noteq> None then Inl (the (end_error (snd s)))
        else if written \<noteq> declared then Inl errors_string else Inr (fst s))"

definition merge_nested :: "limits_config \<Rightarrow> string \<Rightarrow> archive_scan \<Rightarrow> archive_scan \<Rightarrow> archive_scan" where
  "merge_nested l virtual n r =
     (let r1 = r\<lparr>sc_entries := sc_entries r + sc_entries n, sc_bytes := wrap64 (sc_bytes r + sc_bytes n),
            sc_archives := sc_archives r + sc_archives n, sc_findings := sc_findings r @ sc_findings n,
            sc_selected := sc_selected r @ sc_selected n, sc_supported := sc_supported r \<and> sc_supported n,
            sc_complete := sc_complete r \<and> sc_complete n\<rparr>;
          r2 = (if sc_entries r1 > lim_archive_entries l \<or> sc_bytes r1 > lim_archive_unpacked_bytes l
            then add_finding (coverage_finding virtual (''entries='' @ show_int (sc_entries r1) @ '' bytes='' @ show_int (sc_bytes r1))
              ''nested archive aggregate limit exceeded'' ''nested-archive-aggregate-limit'') (incomplete r1) else r1)
      in if sc_archives r2 > lim_archives l
         then add_finding (coverage_finding virtual (show_int (sc_archives r2)) ''aggregate nested archive count exceeded''
           ''archive-count-limit'') (incomplete r2) else r2)"

type_synonym nested_scan = "string \<Rightarrow> string \<Rightarrow> int \<Rightarrow> archive_scan"

definition scan_nested :: "nested_scan \<Rightarrow> archive_tools \<Rightarrow> limits_config \<Rightarrow> stream \<Rightarrow> int \<Rightarrow> string \<Rightarrow> int \<Rightarrow> int \<Rightarrow>
    archive_scan \<Rightarrow> string option \<times> archive_scan" where
  "scan_nested nested t l s declared virtual depth policy r =
     (if policy \<ge> 0 \<and> depth + 1 \<ge> policy then (None, r)
      else if depth + 1 \<ge> lim_archive_depth l then (None, add_finding (coverage_finding virtual (show_int (depth + 1))
        ''nested archive depth limit reached'' ''archive-depth-limit'') (incomplete r))
      else (case spool_nested_archive t s declared virtual of
          Inl err \<Rightarrow> (Some err, r)
        | Inr content \<Rightarrow>
            let r1 = merge_nested l virtual (nested content virtual (depth + 1)) r in
            (if archive_budget_exceeded l r1 then Some errors_string else None, r1)))"

text \<open>The text branch of scanArchiveMember.\<close>

definition scan_text_member :: "archive_tools \<Rightarrow> rule_engine \<Rightarrow> limits_config \<Rightarrow> stream \<Rightarrow> string \<Rightarrow> string \<Rightarrow> 32 word \<Rightarrow>
    bool \<Rightarrow> archive_scan \<Rightarrow> string option \<times> archive_scan" where
  "scan_text_member t e l s name virtual md executable r = (case read_member_text t e l name virtual s of
      Inl err \<Rightarrow> (Some err, r)
    | Inr (fs, sample, n) \<Rightarrow>
        let expected = mandatory_control_path (re_lower e) name;
            v = validate_chunks (member_chunks t (fst s));
            bad = (expected \<and> (nul v \<or> invalid v));
            fs1 = (if bad then fs @ [mandatory_invalid virtual ''content classification''
                (if nul v then ''mandatory control content contains an embedded NUL byte''
                 else ''mandatory control content is not valid UTF-8 text'')] else fs);
            text = valid_utf8_or_replacement sample;
            fs2 = (if structured_pacman_metadata name then fs1 else fs1 @ scan_semantic e virtual text executable expected) @
              artifact_metadata_findings name text virtual;
            r1 = r\<lparr>sc_complete := sc_complete r \<and> \<not> bad, sc_findings := sc_findings r @ fs2\<rparr>;
            r2 = (if expected \<or> executable \<or> select_archive_member (re_lower e) name md fs2
              then (let q = r1\<lparr>sc_selected := sc_selected r1 @ [(virtual, text)]\<rparr> in
                if n > lim_text_per_file l then add_finding (coverage_finding virtual (show_int n)
                  ''selected archive text exceeds the review text limit'' ''archive-member-limit'') (incomplete q) else q)
              else r1)
        in (None, r2))"

text \<open>io.ReadFull of the prefix fails only with an error that is no end of file.\<close>

definition read_failed :: "stream_end \<Rightarrow> bool" where
  "read_failed e = (case e of StreamError t \<Rightarrow> True | _ \<Rightarrow> False)"

definition scan_archive_member :: "nested_scan \<Rightarrow> archive_tools \<Rightarrow> rule_engine \<Rightarrow> limits_config \<Rightarrow> stream \<Rightarrow> int \<Rightarrow> string \<Rightarrow>
    string \<Rightarrow> 32 word \<Rightarrow> int \<Rightarrow> int \<Rightarrow> archive_scan \<Rightarrow> string option \<times> archive_scan" where
  "scan_archive_member nested t e l s declared name virtual md depth policy r =
     (let first = take 8192 (fst s); executable = (md AND 0x49 \<noteq> 0 \<or> has_prefix first ''#!'');
          expected = mandatory_control_path (re_lower e) name in
      if length (fst s) < 8192 \<and> read_failed (snd s) then (end_error (snd s), r)
      else if looks_like_archive (re_lower e) virtual first then scan_nested nested t l s declared virtual depth policy r
      else if probably_text first then scan_text_member t e l s name virtual md executable r
      else if expected \<or> (executable \<and> binary_format first = [])
      then (None, add_finding (mandatory_invalid virtual ''binary or NUL-bearing content''
        ''mandatory executable or control content is not fully inspectable text or a recognized executable binary'') (incomplete r))
      else scan_binary_member e l s virtual md r)"

section \<open>Compressed streams\<close>

text \<open>countingLimitReader over the decompressed stream.\<close>

definition counting_limit :: "int \<Rightarrow> stream \<Rightarrow> stream" where
  "counting_limit limit s = (if int (length (fst s)) < limit then s else (take (nat limit) (fst s), AtEOF))"

text \<open>The end of scanCompressedStream for text within the limits: its findings, and whether it is selected for review.\<close>

definition select_compressed_text :: "rule_engine \<Rightarrow> limits_config \<Rightarrow> string \<Rightarrow> string \<Rightarrow> bool \<Rightarrow> finding list \<Rightarrow> string \<Rightarrow>
    int \<Rightarrow> archive_scan \<Rightarrow> archive_scan" where
  "select_compressed_text e l display virtual mandatory fs sample n r =
     (let text = valid_utf8_or_replacement sample;
          fs1 = fs @ artifact_metadata_findings display text virtual;
          r3 = r\<lparr>sc_findings := sc_findings r @ fs1\<rparr>;
          r4 = (if mandatory \<or> select_archive_member (re_lower e) display 0 fs1
            then r3\<lparr>sc_selected := sc_selected r3 @ [(virtual, text)]\<rparr> else r3)
      in if n > lim_text_per_file l \<and> (fs1 \<noteq> [] \<or> important_artifact_name (path_base display))
         then add_finding (coverage_finding virtual (show_int n) ''selected gzip text exceeds review text limit''
           ''archive-member-limit'') (incomplete r4) else r4)"

definition scan_compressed_stream :: "archive_tools \<Rightarrow> rule_engine \<Rightarrow> limits_config \<Rightarrow> string \<Rightarrow> string \<Rightarrow> string \<Rightarrow>
    archive_scan \<Rightarrow> string option \<times> archive_scan" where
  "scan_compressed_stream t e l content head display r0 = (case compressed_reader t content head of
      Inl err \<Rightarrow> (Some err, r0)
    | Inr decompressed \<Rightarrow>
        let virtual = display @ ''!/<compressed-stream>''; r = r0\<lparr>sc_entries := sc_entries r0 + 1\<rparr>;
            s = counting_limit (wrap64 (lim_archive_unpacked_bytes l + 1)) decompressed;
            first = take 8192 (fst s); n = int (length (fst s));
            mandatory = (mandatory_control_path (re_lower e) display \<or> has_prefix first ''#!'') in
        if length (fst s) < 8192 \<and> read_failed (snd s) then (end_error (snd s), r)
        else if archive_format first \<noteq> [] then (Some errors_string, incomplete r)
        else if \<not> probably_text first then
          (if mandatory then (None, add_finding (mandatory_invalid virtual ''binary or NUL-bearing compressed control content''
              ''mandatory compressed executable or control content is not fully inspectable text'') (incomplete r))
           else (case scan_binary_member e l s virtual 0 r of
               (Some err, r1) \<Rightarrow> (Some err, r1)
             | (None, r1) \<Rightarrow>
                 let r2 = r1\<lparr>sc_bytes := n\<rparr> in
                 if n > lim_archive_unpacked_bytes l then (Some errors_string, incomplete r2) else (None, r2)))
        else (case read_member_text t e l display virtual s of
            Inl err \<Rightarrow> (Some err, r)
          | Inr (fs, sample, total') \<Rightarrow>
              let v = validate_chunks (member_chunks t (fst s)); bad = (mandatory \<and> (nul v \<or> invalid v));
                  r1 = (if bad then add_finding (mandatory_invalid virtual ''invalid compressed control content''
                    ''mandatory compressed control content is not valid NUL-free UTF-8 text'') (incomplete r) else r);
                  r2 = r1\<lparr>sc_bytes := n\<rparr> in
              if n > lim_archive_unpacked_bytes l then (Some errors_string, incomplete r2)
              else
                (None, select_compressed_text e l display virtual mandatory fs sample n r2)))"

section \<open>Tar\<close>

definition tar_special :: "char \<Rightarrow> bool" where "tar_special c = (c \<in> set ''346'')"
definition tar_regular :: "char \<Rightarrow> bool" where "tar_regular c = (c = CHR ''0'' \<or> c = CHR 0x00)"

definition escape_at :: "string \<Rightarrow> string \<Rightarrow> string \<Rightarrow> archive_scan \<Rightarrow> archive_scan" where
  "escape_at virtual evidence rationale r = add_finding (archive_escape_finding virtual evidence rationale) r"

text \<open>
  What scanTar does with a member that is not a regular file, or must not be extracted; None: the
  member is read.
\<close>

definition tar_refused :: "tar_member \<Rightarrow> string \<Rightarrow> archive_scan \<Rightarrow> archive_scan option" where
  "tar_refused m virtual r =
     (if unsafe_archive_member (tm_name m)
      then Some (escape_at virtual (tm_name m) ''archive member escapes its extraction root'' r)
      else if tar_special (tm_flag m) then Some (escape_at virtual (tm_name m) ''archive contains a device or FIFO'' r)
      else if tm_flag m = CHR ''2'' then Some (if archive_link_escapes (tm_name m) (tm_linkname m)
        then escape_at virtual (tm_linkname m) ''archive link escapes its extraction root'' r else r)
      else if tm_flag m = CHR ''1'' then Some (if unsafe_archive_member (tm_linkname m)
        then escape_at virtual (tm_linkname m) ''archive link escapes its extraction root'' r else r)
      else if \<not> tar_regular (tm_flag m) then Some r
      else None)"

definition owner_finding :: "tar_member \<Rightarrow> string \<Rightarrow> finding" where
  "owner_finding m virtual = plain_finding ''medium'' ''package_metadata'' virtual None
     (''uid='' @ show_int (tm_uid m) @ '' gid='' @ show_int (tm_gid m)) ''package archive records non-root numeric ownership''
     ''archive-owner'' False"

text \<open>What the header of a regular member alone gives: findings, and whether the owner has been reported.\<close>

definition tar_metadata :: "rule_engine \<Rightarrow> string \<Rightarrow> string \<Rightarrow> tar_member \<Rightarrow> bool \<Rightarrow> archive_scan \<Rightarrow> archive_scan \<times> bool" where
  "tar_metadata e display virtual m owner r =
     (let report = (\<not> owner \<and> package_archive_name (re_lower e) display \<and> (tm_uid m \<noteq> 0 \<or> tm_gid m \<noteq> 0)) in
      (r\<lparr>sc_findings := sc_findings r @ (if report then [owner_finding m virtual] else []) @
         archive_mode_findings (tm_name m) (word_of_int (tm_mode m)) (tm_pax m) virtual\<rparr>, owner \<or> report))"

text \<open>The loop: whether a header was read, the error, and the result.\<close>

fun scan_tar_members :: "nested_scan \<Rightarrow> archive_tools \<Rightarrow> rule_engine \<Rightarrow> limits_config \<Rightarrow> string \<Rightarrow> int \<Rightarrow> int \<Rightarrow>
    string option \<Rightarrow> tar_member list \<Rightarrow> bool \<Rightarrow> bool \<Rightarrow> archive_scan \<Rightarrow> bool \<times> string option \<times> archive_scan" where
  "scan_tar_members nested t e l display depth policy end [] recognized owner r = (recognized, end, r)"
| "scan_tar_members nested t e l display depth policy end (m # ms) recognized owner r0 =
     (let virtual = display @ ''!/'' @ tm_name m in
      case check_archive_limits l (tm_size m) virtual r0 of
        (False, r) \<Rightarrow> (True, None, r)
      | (True, r) \<Rightarrow> (case tar_refused m virtual r of
            Some r1 \<Rightarrow> scan_tar_members nested t e l display depth policy end ms True owner r1
          | None \<Rightarrow>
              (case tar_metadata e display virtual m owner r of (r2, owner') \<Rightarrow>
                (case scan_archive_member nested t e l (tm_body m) (tm_size m) (tm_name m) virtual (word_of_int (tm_mode m))
                    depth policy r2 of
                   (Some err, r3) \<Rightarrow> (True, Some err, r3)
                 | (None, r3) \<Rightarrow>
                     if archive_budget_exceeded l r3 then (True, Some errors_string, r3)
                     else scan_tar_members nested t e l display depth policy end ms True owner' r3))))"

definition scan_tar :: "nested_scan \<Rightarrow> archive_tools \<Rightarrow> rule_engine \<Rightarrow> limits_config \<Rightarrow> string \<Rightarrow> string \<Rightarrow> string \<Rightarrow> int \<Rightarrow> int \<Rightarrow>
    archive_scan \<Rightarrow> bool \<times> string option \<times> archive_scan" where
  "scan_tar nested t e l content head display depth policy r = (case compressed_reader t content head of
      Inl err \<Rightarrow> (False, Some err, r)
    | Inr s \<Rightarrow> (case at_tar t s of (ms, end) \<Rightarrow> scan_tar_members nested t e l display depth policy end ms False False r))"

section \<open>Zip\<close>

text \<open>The symbolic link branch of scanZip: an error that ends the loop, or none, and the result.\<close>

definition zip_symlink :: "zip_member \<Rightarrow> string \<Rightarrow> archive_scan \<Rightarrow> string option \<times> archive_scan" where
  "zip_symlink z virtual r = (case zm_open z of
      Inl err \<Rightarrow> (Some err, r)
    | Inr (content, end) \<Rightarrow>
        if length content < 4097 \<and> end_error end \<noteq> None then (end_error end, r)
        else if length content > 4096 then (Some errors_string, r)
        else (None, if archive_link_escapes (zm_name z) content
          then escape_at virtual content ''archive symlink escapes its extraction root'' r else r))"

text \<open>One member after the limits: an error, or the result the loop goes on with.\<close>

definition scan_zip_member :: "nested_scan \<Rightarrow> archive_tools \<Rightarrow> rule_engine \<Rightarrow> limits_config \<Rightarrow> string \<Rightarrow> int \<Rightarrow> int \<Rightarrow>
    zip_member \<Rightarrow> archive_scan \<Rightarrow> string option \<times> archive_scan" where
  "scan_zip_member nested t e l virtual depth policy z r =
     (if odd (zm_flags z) then (None, add_finding (coverage_finding virtual ''encrypted''
        ''encrypted archive member cannot be inspected'' ''archive-encrypted'') r)
      else if unsafe_archive_member (zm_name z)
      then (None, escape_at virtual (zm_name z) ''archive member escapes its extraction root'' r)
      else
        let md = zip_mode z;
            r2 = r\<lparr>sc_findings := sc_findings r @ (if md AND 0xc00 \<noteq> 0 then [setid_finding virtual (perm md)] else []) @
              (if is_privileged_surface (zm_name z) then [integration_finding virtual (zm_name z)] else [])\<rparr>
        in if md AND mode_symlink \<noteq> 0 then zip_symlink z virtual r2
           else if md AND mode_dir \<noteq> 0 then (None, r2)
           else if \<not> is_regular md
           then (None, escape_at virtual (show_octal md) ''archive contains a special filesystem entry'' r2)
           else (case zm_open z of
               Inl err \<Rightarrow> (Some err, r2)
             | Inr s \<Rightarrow> if archive_budget_exceeded l r2 then (Some errors_string, r2)
                 else scan_archive_member nested t e l s (wrap64 (int (zm_size z))) (zm_name z) virtual (perm md)
                   depth policy r2))"

fun scan_zip_members :: "nested_scan \<Rightarrow> archive_tools \<Rightarrow> rule_engine \<Rightarrow> limits_config \<Rightarrow> string \<Rightarrow> int \<Rightarrow> int \<Rightarrow>
    zip_member list \<Rightarrow> archive_scan \<Rightarrow> string option \<times> archive_scan" where
  "scan_zip_members nested t e l display depth policy [] r = (None, r)"
| "scan_zip_members nested t e l display depth policy (z # zs) r0 =
     (let virtual = display @ ''!/'' @ zm_name z in
      case check_archive_limits l (wrap64 (int (zm_size z))) virtual r0 of
        (False, r) \<Rightarrow> (None, r)
      | (True, r) \<Rightarrow> (case scan_zip_member nested t e l virtual depth policy z r of
            (Some err, r3) \<Rightarrow> (Some err, r3)
          | (None, r3) \<Rightarrow> scan_zip_members nested t e l display depth policy zs r3))"

section \<open>A whole archive\<close>

definition archive_start :: archive_scan where
  "archive_start = \<lparr>sc_entries = 0, sc_bytes = 0, sc_archives = 1, sc_findings = [], sc_selected = [],
     sc_supported = True, sc_complete = True, sc_format = []\<rparr>"

definition bound_engine :: "limits_config \<Rightarrow> rule_engine \<Rightarrow> rule_engine" where
  "bound_engine l e = (if re_max_findings e \<le> 0 \<or> re_max_findings e > lim_findings l
     then e\<lparr>re_max_findings := lim_findings l\<rparr> else e)"

definition scan_archive_with :: "nested_scan \<Rightarrow> archive_tools \<Rightarrow> rule_engine \<Rightarrow> limits_config \<Rightarrow> string \<Rightarrow> string \<Rightarrow> int \<Rightarrow> int \<Rightarrow>
    archive_scan" where
  "scan_archive_with nested t e l content display depth policy =
     (if content = [] then unsupported_archive archive_start display errors_string
      else
        let head = take 512 content; format = archive_format head; r = archive_start\<lparr>sc_format := format\<rparr> in
        if format = ''cpio'' then unsupported_archive r display errors_string
        else if format = ''zip'' then
          (case at_zip t content of
             Inl err \<Rightarrow> unsupported_archive r display err
           | Inr zs \<Rightarrow> (case scan_zip_members nested t e l display depth policy zs r of
                 (Some err, r1) \<Rightarrow> unsupported_archive r1 display err
               | (None, r1) \<Rightarrow> r1))
        else (case scan_tar nested t e l content head display depth policy r of
            (recognized, err, r1) \<Rightarrow>
              if err = None \<and> recognized then r1
              else if format \<in> {''gzip'', ''bzip2'', ''xz'', ''zstd''} then
                (case scan_compressed_stream t e l content head display r of
                   (Some err', r2) \<Rightarrow> unsupported_archive r2 display err'
                 | (None, r2) \<Rightarrow> r2)
              else unsupported_archive r1 display (case err of Some x \<Rightarrow> x | None \<Rightarrow> errors_string)))"

primrec scan_archive_level :: "nat \<Rightarrow> archive_tools \<Rightarrow> rule_engine \<Rightarrow> limits_config \<Rightarrow> int \<Rightarrow> nested_scan" where
  "scan_archive_level 0 t e l policy content display depth = unsupported_archive archive_start display errors_string"
| "scan_archive_level (Suc n) t e l policy content display depth =
     scan_archive_with (scan_archive_level n t e l policy) t e l content display depth policy"

definition scan_archive_with_policy :: "archive_tools \<Rightarrow> rule_engine \<Rightarrow> limits_config \<Rightarrow> string \<Rightarrow> string \<Rightarrow> int \<Rightarrow> int \<Rightarrow> archive_scan" where
  "scan_archive_with_policy t e l content display depth policy =
     scan_archive_level (Suc (nat (lim_archive_depth l - depth))) t (bound_engine l e) l policy content display depth"

definition scan_archive :: "archive_tools \<Rightarrow> rule_engine \<Rightarrow> limits_config \<Rightarrow> string \<Rightarrow> string \<Rightarrow> int \<Rightarrow> archive_scan" where
  "scan_archive t e l content display depth = scan_archive_with_policy t e l content display depth (-1)"

section \<open>The level count is enough\<close>

text \<open>The scan of the next level is asked only below the depth limit.\<close>

definition same_below :: "limits_config \<Rightarrow> int \<Rightarrow> nested_scan \<Rightarrow> nested_scan \<Rightarrow> bool" where
  "same_below l depth f g = (depth + 1 < lim_archive_depth l \<longrightarrow> (\<forall>c d. f c d (depth + 1) = g c d (depth + 1)))"

lemma scan_nested_cong:
  "same_below l depth f g \<Longrightarrow>
     scan_nested f t l s declared virtual depth policy r = scan_nested g t l s declared virtual depth policy r"
  unfolding scan_nested_def same_below_def Let_def by (simp split: sum.split)

lemma scan_member_cong:
  "same_below l depth f g \<Longrightarrow>
     scan_archive_member f t e l s declared name virtual md depth policy r =
     scan_archive_member g t e l s declared name virtual md depth policy r"
  unfolding scan_archive_member_def by (simp only: scan_nested_cong)

lemma scan_tar_members_cong:
  "same_below l depth f g \<Longrightarrow>
     scan_tar_members f t e l display depth policy end ms recognized owner r =
     scan_tar_members g t e l display depth policy end ms recognized owner r"
proof (induction ms arbitrary: recognized owner r)
  case (Cons m ms)
  show ?case
    unfolding scan_tar_members.simps Let_def Cons.IH[OF Cons.prems] scan_member_cong[OF Cons.prems] ..
qed simp

lemma scan_zip_members_cong:
  "same_below l depth f g \<Longrightarrow>
     scan_zip_members f t e l display depth policy zs r = scan_zip_members g t e l display depth policy zs r"
proof (induction zs arbitrary: r)
  case (Cons z zs)
  show ?case
    unfolding scan_zip_members.simps scan_zip_member_def Let_def Cons.IH[OF Cons.prems] scan_member_cong[OF Cons.prems] ..
qed simp

lemma scan_archive_with_cong:
  "same_below l depth f g \<Longrightarrow>
     scan_archive_with f t e l content display depth policy = scan_archive_with g t e l content display depth policy"
  unfolding scan_archive_with_def scan_tar_def Let_def by (simp only: scan_tar_members_cong scan_zip_members_cong)

lemma scan_archive_level_enough:
  "nat (lim_archive_depth l - depth) \<le> n \<Longrightarrow>
     scan_archive_level (Suc n) t e l policy content display depth =
     scan_archive_level (Suc (nat (lim_archive_depth l - depth))) t e l policy content display depth"
proof (induction n arbitrary: content display depth)
  case 0
  then show ?case by simp
next
  case (Suc n)
  show ?case
  proof (cases "nat (lim_archive_depth l - depth)")
    case 0
    then show ?thesis
      unfolding scan_archive_level.simps by (intro scan_archive_with_cong) (simp add: same_below_def)
  next
    case (Suc k)
    show ?thesis
      unfolding scan_archive_level.simps(2)[of "Suc n"] scan_archive_level.simps(2)[of "nat (lim_archive_depth l - depth)"]
    proof (rule scan_archive_with_cong, unfold same_below_def, intro impI allI)
      fix c d assume "depth + 1 < lim_archive_depth l"
      then have "nat (lim_archive_depth l - (depth + 1)) \<le> n" and k: "Suc (nat (lim_archive_depth l - (depth + 1))) = Suc k"
        using Suc Suc.prems by auto
      from Suc.IH[OF this(1), of c d]
      show "scan_archive_level (Suc n) t e l policy c d (depth + 1) =
          scan_archive_level (nat (lim_archive_depth l - depth)) t e l policy c d (depth + 1)"
        unfolding Suc k .
    qed
  qed
qed

section \<open>Evidence is never lost on the way\<close>

text \<open>A step keeps every finding and never turns an incomplete scan into a complete one.\<close>

definition keeps :: "archive_scan \<Rightarrow> archive_scan \<Rightarrow> bool" where
  "keeps r r' = (set (sc_findings r) \<subseteq> set (sc_findings r') \<and> (sc_complete r' \<longrightarrow> sc_complete r))"

lemma keeps_refl [simp]: "keeps r r" by (simp add: keeps_def)

lemma keeps_trans: "keeps a b \<Longrightarrow> keeps b c \<Longrightarrow> keeps a c" by (auto simp: keeps_def)

lemma keeps_add: "keeps r (add_finding f r)" "keeps r (add_finding f (incomplete r))" "keeps r (incomplete r)"
  "keeps r (escape_at v e x r)"
  by (auto simp: keeps_def add_finding_def incomplete_def escape_at_def)

lemma check_archive_limits_keeps: "check_archive_limits l sz file r = (ok, r') \<Longrightarrow>
    keeps r r' \<and> (\<not> ok \<longrightarrow> \<not> sc_complete r')"
  by (auto simp: check_archive_limits_def Let_def keeps_def add_finding_def incomplete_def split: if_splits)

lemma merge_nested_keeps: "keeps r (merge_nested l virtual n r)"
  by (auto simp: merge_nested_def Let_def keeps_def add_finding_def incomplete_def)

lemma scan_nested_keeps: "scan_nested nested t l s declared virtual depth policy r = (x, r') \<Longrightarrow> keeps r r'"
  using merge_nested_keeps keeps_add
  by (auto simp: scan_nested_def Let_def split: if_splits sum.splits)

lemma scan_text_member_keeps: "scan_text_member t e l s name virtual md executable r = (x, r') \<Longrightarrow> keeps r r'"
  by (auto simp: scan_text_member_def Let_def keeps_def add_finding_def incomplete_def split: if_splits sum.splits prod.splits)

lemma scan_binary_member_keeps: "scan_binary_member e l s virtual md r = (x, r') \<Longrightarrow> keeps r r'"
  by (auto simp: scan_binary_member_def Let_def keeps_def split: if_splits)

lemma scan_archive_member_keeps:
  "scan_archive_member nested t e l s declared name virtual md depth policy r = (x, r') \<Longrightarrow> keeps r r'"
  by (cases "length (fst s) < 8192 \<and> read_failed (snd s)"; cases "looks_like_archive (re_lower e) virtual (take 8192 (fst s))";
      cases "probably_text (take 8192 (fst s))")
    (simp_all add: scan_archive_member_def Let_def scan_nested_keeps scan_text_member_keeps split: if_splits,
      auto intro: keeps_add dest: scan_binary_member_keeps)

text \<open>A finding of the category a coverage gap or an escape is reported under.\<close>

definition reports :: "string \<Rightarrow> archive_scan \<Rightarrow> bool" where
  "reports category r = (\<exists>f \<in> set (sc_findings r). f_category f = category)"

lemma keeps_reports: "keeps r r' \<Longrightarrow> reports c r \<Longrightarrow> reports c r'"
  by (auto simp: keeps_def reports_def)

lemma escape_reports: "reports ''archive_escape'' (escape_at virtual evidence rationale r)"
  by (simp add: reports_def escape_at_def add_finding_def archive_escape_finding_def plain_finding_def)

text \<open>A name or a link target that stays below the directory it starts from.\<close>

definition stays_below :: "string \<Rightarrow> bool" where
  "stays_below name = (name \<noteq> [] \<and> CHR 0x00 \<notin> set name \<and> \<not> has_prefix name ''/'' \<and> \<not> climbs 0 (split_on slash name))"

definition link_stays_below :: "string \<Rightarrow> string \<Rightarrow> bool" where
  "link_stays_below member target = (CHR 0x00 \<notin> set target \<and> \<not> has_prefix target ''/'' \<and>
     \<not> climbs 0 (butlast (split_on slash member) @ split_on slash target))"

lemma stays_below_safe: "\<not> unsafe_archive_member name \<Longrightarrow> stays_below name"
  by (simp add: stays_below_def unsafe_member_iff)

definition tar_confined :: "tar_member \<Rightarrow> bool" where
  "tar_confined m =
     (stays_below (tm_name m) \<and> \<not> tar_special (tm_flag m) \<and>
      (tm_flag m = CHR ''2'' \<longrightarrow> link_stays_below (tm_name m) (tm_linkname m)) \<and>
      (tm_flag m = CHR ''1'' \<longrightarrow> stays_below (tm_linkname m)))"

lemma tar_refused_keeps: "tar_refused m virtual r = Some r' \<Longrightarrow> keeps r r' \<and> (tar_confined m \<or> reports ''archive_escape'' r')"
  by (auto simp: tar_refused_def tar_confined_def keeps_add escape_reports tar_special_def unsafe_member_iff link_escapes_iff
      stays_below_def link_stays_below_def split: if_splits)

lemma tar_read_confined: "tar_refused m virtual r = None \<Longrightarrow> tar_confined m"
  by (auto simp: tar_refused_def tar_confined_def stays_below_safe tar_regular_def split: if_splits)

lemma scan_tar_members_confined:
  "scan_tar_members nested t e l display depth policy end ms recognized owner r = (b, None, r') \<Longrightarrow>
     keeps r r' \<and> (sc_complete r' \<longrightarrow> end = None \<and> ((\<forall>m \<in> set ms. tar_confined m) \<or> reports ''archive_escape'' r'))"
proof (induction ms arbitrary: recognized owner r)
  case (Cons m ms)
  let ?v = "display @ ''!/'' @ tm_name m"
  obtain ok r1 where c: "check_archive_limits l (tm_size m) ?v r = (ok, r1)" by fastforce
  note k1 = check_archive_limits_keeps[OF c]
  show ?case
  proof (cases "ok \<and> tar_refused m ?v r1 \<noteq> None")
    case True
    then obtain r2 where r2: "tar_refused m ?v r1 = Some r2" by auto
    with Cons.prems c True have "scan_tar_members nested t e l display depth policy end ms True owner r2 = (b, None, r')"
      by (simp add: Let_def)
    note ih = Cons.IH[OF this]
    from tar_refused_keeps[OF r2] have k: "keeps r1 r2" "tar_confined m \<or> reports ''archive_escape'' r2" by simp_all
    have "keeps r r'" using ih k(1) k1 by (blast intro: keeps_trans)
    moreover have "tar_confined m \<or> reports ''archive_escape'' r'" using ih k(2) by (blast intro: keeps_reports)
    ultimately show ?thesis using ih by auto
  next
    case False
    show ?thesis
    proof (cases ok)
      case True
      with False have none: "tar_refused m ?v r1 = None" by auto
      obtain r2 owner' where o: "tar_metadata e display ?v m owner r1 = (r2, owner')" by fastforce
      then have a: "keeps r1 r2" by (auto simp: tar_metadata_def Let_def keeps_def)
      obtain x r3 where m: "scan_archive_member nested t e l (tm_body m) (tm_size m) (tm_name m) ?v
          (word_of_int (tm_mode m)) depth policy r2 = (x, r3)" by fastforce
      with o c True none Cons.prems
      have "scan_tar_members nested t e l display depth policy end ms True owner' r3 = (b, None, r')"
        by (auto simp: Let_def split: option.splits if_splits)
      note ih = Cons.IH[OF this]
      have "keeps r r'" using ih scan_archive_member_keeps[OF m] a k1 by (blast intro: keeps_trans)
      with ih tar_read_confined[OF none] show ?thesis by auto
    next
      case False
      with Cons.prems c have "r' = r1" by (simp add: Let_def)
      with k1 False show ?thesis by simp
    qed
  qed
qed (auto)

section \<open>How many entries a scan can visit\<close>

lemma scan_nested_entries:
  "scan_nested nested t l s declared virtual depth policy r = (x, r') \<Longrightarrow> (\<And>c d k. sc_entries (nested c d k) \<le> E) \<Longrightarrow>
     0 \<le> E \<Longrightarrow> sc_entries r' \<le> sc_entries r + E"
  by (auto simp: scan_nested_def Let_def merge_nested_def add_finding_def incomplete_def split: if_splits sum.splits)

lemma scan_text_member_entries: "scan_text_member t e l s name virtual md executable r = (x, r') \<Longrightarrow> sc_entries r' = sc_entries r"
  by (auto simp: scan_text_member_def Let_def add_finding_def incomplete_def split: if_splits sum.splits prod.splits)

lemma scan_binary_member_entries: "scan_binary_member e l s virtual md r = (x, r') \<Longrightarrow> sc_entries r' = sc_entries r"
  by (auto simp: scan_binary_member_def Let_def split: if_splits)

lemma scan_archive_member_entries:
  "scan_archive_member nested t e l s declared name virtual md depth policy r = (x, r') \<Longrightarrow>
     (\<And>c d k. sc_entries (nested c d k) \<le> E) \<Longrightarrow> 0 \<le> E \<Longrightarrow> sc_entries r' \<le> sc_entries r + E"
  by (cases "length (fst s) < 8192 \<and> read_failed (snd s)"; cases "looks_like_archive (re_lower e) virtual (take 8192 (fst s))";
      cases "probably_text (take 8192 (fst s))")
    (simp_all add: scan_archive_member_def Let_def scan_nested_entries scan_text_member_entries split: if_splits,
      auto dest: scan_binary_member_entries simp: add_finding_def incomplete_def)

lemma check_archive_limits_entries: "check_archive_limits l sz file r = (ok, r') \<Longrightarrow>
    sc_entries r' = sc_entries r + 1 \<and> (ok \<longrightarrow> sc_entries r' \<le> lim_archive_entries l)"
  by (auto simp: check_archive_limits_def Let_def add_finding_def incomplete_def split: if_splits)

lemma tar_refused_entries: "tar_refused m virtual r = Some r' \<Longrightarrow> sc_entries r' = sc_entries r"
  by (auto simp: tar_refused_def escape_at_def add_finding_def split: if_splits)

lemma tar_metadata_entries: "tar_metadata e display virtual m owner r = (r', owner') \<Longrightarrow> sc_entries r' = sc_entries r"
  by (auto simp: tar_metadata_def Let_def)

lemma scan_tar_members_entries:
  "scan_tar_members nested t e l display depth policy end ms recognized owner r = (b, x, r') \<Longrightarrow>
     (\<And>c d k. sc_entries (nested c d k) \<le> E) \<Longrightarrow> 0 \<le> E \<Longrightarrow> sc_entries r \<le> lim_archive_entries l + E \<Longrightarrow>
     sc_entries r' \<le> lim_archive_entries l + E + 1"
proof (induction ms arbitrary: recognized owner r)
  case (Cons m ms)
  let ?v = "display @ ''!/'' @ tm_name m"
  obtain ok r1 where c: "check_archive_limits l (tm_size m) ?v r = (ok, r1)" by fastforce
  note k1 = check_archive_limits_entries[OF c]
  show ?case
  proof (cases ok)
    case ok: True
    with k1 have r1: "sc_entries r1 \<le> lim_archive_entries l" by simp
    show ?thesis
    proof (cases "tar_refused m ?v r1")
      case None
      obtain r2 owner' where o: "tar_metadata e display ?v m owner r1 = (r2, owner')" by fastforce
      obtain y r3 where m: "scan_archive_member nested t e l (tm_body m) (tm_size m) (tm_name m) ?v
          (word_of_int (tm_mode m)) depth policy r2 = (y, r3)" by fastforce
      have r3: "sc_entries r3 \<le> lim_archive_entries l + E"
        using scan_archive_member_entries[OF m Cons.prems(2,3)] tar_metadata_entries[OF o] r1 by simp
      from Cons.prems(1) c ok None o m consider "r' = r3"
        | "scan_tar_members nested t e l display depth policy end ms True owner' r3 = (b, x, r')"
        by (auto simp: Let_def split: option.splits if_splits)
      then show ?thesis
      proof cases
        case 2
        from Cons.IH[OF this Cons.prems(2,3) r3] show ?thesis .
      qed (use r3 in simp)
    next
      case (Some r2)
      with Cons.prems(1) c ok have
        s: "scan_tar_members nested t e l display depth policy end ms True owner r2 = (b, x, r')" by (simp add: Let_def)
      have "sc_entries r2 \<le> lim_archive_entries l + E" using tar_refused_entries[OF Some] r1 Cons.prems(3) by simp
      from Cons.IH[OF s Cons.prems(2,3) this] show ?thesis .
    qed
  next
    case False
    with Cons.prems c have "r' = r1" by (simp add: Let_def)
    with k1 Cons.prems(4) show ?thesis by simp
  qed
qed simp

lemma zip_symlink_entries: "zip_symlink z v r = (x, r') \<Longrightarrow> sc_entries r' = sc_entries r"
  by (auto simp: zip_symlink_def escape_at_def add_finding_def split: sum.splits prod.splits if_splits)

lemma scan_zip_member_entries:
  "scan_zip_member nested t e l virtual depth policy z r = (x, r') \<Longrightarrow> (\<And>c d k. sc_entries (nested c d k) \<le> E) \<Longrightarrow>
     0 \<le> E \<Longrightarrow> sc_entries r' \<le> sc_entries r + E"
  unfolding scan_zip_member_def Let_def
  by (auto simp: escape_at_def add_finding_def split: if_splits sum.splits prod.splits
      dest!: zip_symlink_entries scan_archive_member_entries)

lemma scan_zip_members_entries:
  "scan_zip_members nested t e l display depth policy zs r = (x, r') \<Longrightarrow>
     (\<And>c d k. sc_entries (nested c d k) \<le> E) \<Longrightarrow> 0 \<le> E \<Longrightarrow> sc_entries r \<le> lim_archive_entries l + E \<Longrightarrow>
     sc_entries r' \<le> lim_archive_entries l + E + 1"
proof (induction zs arbitrary: r)
  case (Cons z zs)
  let ?v = "display @ ''!/'' @ zm_name z"
  obtain ok r1 where c: "check_archive_limits l (wrap64 (int (zm_size z))) ?v r = (ok, r1)" by fastforce
  note k1 = check_archive_limits_entries[OF c]
  obtain y r2 where m: "scan_zip_member nested t e l ?v depth policy z r1 = (y, r2)" by fastforce
  note k2 = scan_zip_member_entries[OF m Cons.prems(2,3)]
  show ?case
  proof (cases "ok \<and> y = None")
    case True
    with Cons.prems(1) c m have "scan_zip_members nested t e l display depth policy zs r2 = (x, r')" by (simp add: Let_def)
    from Cons.IH[OF this Cons.prems(2,3)] k1 k2 True show ?thesis by simp
  next
    case False
    with Cons.prems(1) c m have "r' = r1 \<or> (ok \<and> r' = r2)" by (auto simp: Let_def split: bool.splits option.splits)
    with k1 k2 Cons.prems(3,4) show ?thesis by auto
  qed
qed simp

lemma add_finding_entries [simp]: "sc_entries (add_finding f r) = sc_entries r" "sc_entries (incomplete r) = sc_entries r"
  by (simp_all add: add_finding_def incomplete_def)

lemma select_compressed_text_entries [simp]:
  "sc_entries (select_compressed_text e l display virtual mandatory fs sample n r) = sc_entries r"
  by (simp add: select_compressed_text_def Let_def)

lemma scan_compressed_stream_entries:
  assumes "scan_compressed_stream t e l content head display r = (x, r')"
  shows "sc_entries r' \<le> sc_entries r + 1"
proof (cases "compressed_reader t content head")
  case (Inr d)
  define s where "s = counting_limit (wrap64 (lim_archive_unpacked_bytes l + 1)) d"
  define r1 where "r1 = r\<lparr>sc_entries := sc_entries r + 1\<rparr>"
  define v where "v = display @ ''!/<compressed-stream>''"
  have r1: "sc_entries r1 = sc_entries r + 1" by (simp add: r1_def)
  note step = assms[unfolded scan_compressed_stream_def Inr sum.case Let_def, folded s_def r1_def v_def]
  show ?thesis
  proof (cases "probably_text (take 8192 (fst s))")
    case True
    show ?thesis
    proof (cases "read_member_text t e l display v s")
      case (Inr q)
      obtain fs sample k where "q = (fs, sample, k)" using prod_cases3 by blast
      with step True Inr r1 show ?thesis by (simp split: if_split_asm) auto
    qed (use step True r1 in \<open>auto split: if_split_asm\<close>)
  next
    case False
    obtain y r2 where b: "scan_binary_member e l s v 0 r1 = (y, r2)" by fastforce
    from scan_binary_member_entries[OF b] step False b r1 show ?thesis by (auto split: if_split_asm option.split_asm)
  qed
qed (use assms in \<open>simp add: scan_compressed_stream_def\<close>)

lemma unsupported_entries [simp]: "sc_entries (unsupported_archive r display err) = sc_entries r"
  by (simp add: unsupported_archive_def add_finding_def)

lemma scan_archive_with_entries:
  assumes "\<And>c d k. sc_entries (nested c d k) \<le> E" "0 \<le> E" "0 \<le> lim_archive_entries l"
  shows "sc_entries (scan_archive_with nested t e l content display depth policy) \<le> lim_archive_entries l + E + 1"
proof -
  define q where "q = archive_start\<lparr>sc_format := archive_format (take 512 content)\<rparr>"
  have q: "sc_entries q \<le> lim_archive_entries l + E" "sc_entries q = 0" using assms by (simp_all add: q_def archive_start_def)
  have zip: "sc_entries r \<le> lim_archive_entries l + E + 1"
    if "scan_zip_members nested t e l display depth policy zs q = (x, r)" for zs x r
    by (rule scan_zip_members_entries[OF that assms(1,2) q(1)])
  have tar: "sc_entries r \<le> lim_archive_entries l + E + 1"
    if "scan_tar nested t e l content (take 512 content) display depth policy q = (b, x, r)" for b x r
    using that q(1) scan_tar_members_entries[OF _ assms(1,2) q(1)]
    by (auto simp: scan_tar_def split: sum.splits prod.splits)
  have stream: "sc_entries r \<le> lim_archive_entries l + E + 1"
    if "scan_compressed_stream t e l content (take 512 content) display q = (x, r)" for x r
    using scan_compressed_stream_entries[OF that] q(2) assms(2,3) by simp
  show ?thesis
    unfolding scan_archive_with_def Let_def q_def[symmetric]
    using assms(2,3) q by (auto simp: archive_start_def split: sum.split prod.split option.split dest: zip tar stream)
qed

lemma scan_archive_level_entries:
  "0 \<le> lim_archive_entries l \<Longrightarrow>
     sc_entries (scan_archive_level n t e l policy content display depth) \<le> int n * (lim_archive_entries l + 1)"
proof (induction n arbitrary: content display depth)
  case (Suc n)
  have "0 \<le> int n * (lim_archive_entries l + 1)" using Suc.prems by simp
  from scan_archive_with_entries[OF Suc.IH[OF Suc.prems] this Suc.prems]
  show ?case by (simp add: algebra_simps)
qed (simp add: archive_start_def)

section \<open>Zip members\<close>

definition zip_confined :: "zip_member \<Rightarrow> bool" where
  "zip_confined z = (stays_below (zm_name z) \<and>
     (zip_mode z AND mode_symlink \<noteq> 0 \<longrightarrow> (\<exists>content end. zm_open z = Inr (content, end) \<and> link_stays_below (zm_name z) content)) \<and>
     (zip_mode z AND mode_symlink = 0 \<longrightarrow> zip_mode z AND mode_dir \<noteq> 0 \<or> is_regular (zip_mode z)))"

lemma coverage_reports: "reports ''coverage'' (add_finding (coverage_finding v x y i) r)"
  by (simp add: reports_def add_finding_def coverage_finding_def plain_finding_def)

lemma scan_zip_member_confined:
  assumes "scan_zip_member nested t e l virtual depth policy z r = (None, r')"
  shows "keeps r r' \<and> (zip_confined z \<or> reports ''archive_escape'' r' \<or> reports ''coverage'' r')"
proof (cases "odd (zm_flags z) \<or> unsafe_archive_member (zm_name z)")
  case True
  with assms show ?thesis by (auto simp: scan_zip_member_def keeps_add escape_reports coverage_reports split: if_splits)
next
  case False
  define r2 where "r2 = r\<lparr>sc_findings := sc_findings r @
      (if zip_mode z AND 0xc00 \<noteq> 0 then [setid_finding virtual (perm (zip_mode z))] else []) @
      (if is_privileged_surface (zm_name z) then [integration_finding virtual (zm_name z)] else [])\<rparr>"
  have k: "keeps r r2" by (auto simp: r2_def keeps_def)
  have n: "stays_below (zm_name z)" using False stays_below_safe by blast
  note step = assms[unfolded scan_zip_member_def Let_def, folded r2_def]
  show ?thesis
  proof (cases "zip_mode z AND mode_symlink = 0")
    case True
    with step False n k keeps_trans[OF k] show ?thesis
      by (auto simp: zip_confined_def keeps_add escape_reports split: if_splits sum.splits dest!: scan_archive_member_keeps)
  next
    case symlink: False
    with step False have y: "zip_symlink z virtual r2 = (None, r')" by (auto split: if_splits)
    then obtain content "end" where o: "zm_open z = Inr (content, end)"
      and r': "r' = (if archive_link_escapes (zm_name z) content
        then escape_at virtual content ''archive symlink escapes its extraction root'' r2 else r2)"
      by (auto simp: zip_symlink_def split: sum.splits prod.splits if_splits)
    show ?thesis
    proof (cases "archive_link_escapes (zm_name z) content")
      case True
      with r' keeps_trans[OF k keeps_add(4)] show ?thesis by (simp add: escape_reports)
    next
      case False
      with n have "link_stays_below (zm_name z) content"
        by (auto simp: link_escapes_iff stays_below_def link_stays_below_def)
      with False o r' n symlink k show ?thesis by (auto simp: zip_confined_def)
    qed
  qed
qed

lemma scan_zip_members_confined:
  "scan_zip_members nested t e l display depth policy zs r = (None, r') \<Longrightarrow>
     keeps r r' \<and> (sc_complete r' \<longrightarrow> (\<forall>z \<in> set zs. zip_confined z) \<or> reports ''archive_escape'' r' \<or> reports ''coverage'' r')"
proof (induction zs arbitrary: r)
  case (Cons z zs)
  let ?v = "display @ ''!/'' @ zm_name z"
  obtain ok r1 where c: "check_archive_limits l (wrap64 (int (zm_size z))) ?v r = (ok, r1)" by fastforce
  note k1 = check_archive_limits_keeps[OF c]
  obtain y r2 where m: "scan_zip_member nested t e l ?v depth policy z r1 = (y, r2)" by fastforce
  show ?case
  proof (cases ok)
    case True
    with Cons.prems c m have y: "y = None" "scan_zip_members nested t e l display depth policy zs r2 = (None, r')"
      by (auto simp: Let_def split: option.splits)
    note ih = Cons.IH[OF y(2)]
    from scan_zip_member_confined[OF m[unfolded y(1)]] have k2: "keeps r1 r2"
      "zip_confined z \<or> reports ''archive_escape'' r2 \<or> reports ''coverage'' r2" by simp_all
    have "keeps r r'" using ih k1 k2(1) by (blast intro: keeps_trans)
    moreover have "zip_confined z \<or> reports ''archive_escape'' r' \<or> reports ''coverage'' r'"
      using ih k2(2) by (blast intro: keeps_reports)
    ultimately show ?thesis using ih by auto
  next
    case False
    with Cons.prems c have "r' = r1" by (simp add: Let_def)
    with k1 False show ?thesis by simp
  qed
qed simp

section \<open>Examples\<close>

definition example_engine :: rule_engine where
  "example_engine = \<lparr>re_max_findings = 100, re_threat_error = None, re_matches = (\<lambda>i s. []), re_download = (\<lambda>s. None),
     re_word = (\<lambda>r. False), re_lower = (\<lambda>s. s), re_semantic = (\<lambda>p s x y. [])\<rparr>"

definition example_limits :: limits_config where
  "example_limits = \<lparr>lim_dispatch_bytes = 100, lim_files = 10, lim_total_input_bytes = 1000, lim_archives = 10,
     lim_archive_entries = 10, lim_archive_unpacked_bytes = 1000, lim_archive_depth = 4, lim_text_per_file = 100,
     lim_selected_text_bytes = 100, lim_binary_strings_bytes = 100, lim_findings = 10, lim_scan_timeout_seconds = 10\<rparr>"

definition example_link :: "string \<Rightarrow> tar_member" where
  "example_link target = \<lparr>tm_name = ''usr/lib/so'', tm_flag = CHR ''2'', tm_linkname = target, tm_uid = 0, tm_gid = 0,
     tm_mode = 511, tm_size = 0, tm_pax = [], tm_body = ([], AtEOF)\<rparr>"

text \<open>Libraries that find one link in every tar file, and decode every gzip stream to a line with a NUL byte.\<close>

definition example_tools :: "string \<Rightarrow> string option \<Rightarrow> archive_tools" where
  "example_tools target failed = \<lparr>at_gzip = (\<lambda>s. Inr (''usr'' @ [CHR 0x00], AtEOF)), at_bzip2 = (\<lambda>s. ([], AtEOF)),
     at_xz = (\<lambda>s. Inl []), at_zstd = (\<lambda>s. Inl []), at_tar = (\<lambda>s. ([example_link target], failed)), at_zip = (\<lambda>s. Inl []),
     at_pieces = (\<lambda>s. [s]), at_spool = (\<lambda>s. None)\<rparr>"

lemma example_complete:
  "sc_supported (scan_archive_with_policy (example_tools ''so.1'' None) example_engine example_limits ''plain'' ''a.tar'' 0 (-1)) \<and>
   sc_complete (scan_archive_with_policy (example_tools ''so.1'' None) example_engine example_limits ''plain'' ''a.tar'' 0 (-1)) \<and>
   sc_findings (scan_archive_with_policy (example_tools ''so.1'' None) example_engine example_limits ''plain'' ''a.tar'' 0 (-1)) = []"
  by code_simp

section \<open>What a complete scan says\<close>



text \<open>A reading of the archive as a tar file that ran to its end.\<close>

definition read_as_tar :: "archive_tools \<Rightarrow> string \<Rightarrow> tar_member list \<Rightarrow> bool" where
  "read_as_tar t content ms = (case compressed_reader t content (take 512 content) of
      Inl err \<Rightarrow> False | Inr s \<Rightarrow> at_tar t s = (ms, None))"

lemma unsupported_not_supported [simp]: "\<not> sc_supported (unsupported_archive r display err)"
  by (simp add: unsupported_archive_def add_finding_def)

lemma scan_tar_confined:
  assumes "scan_tar nested t e l content (take 512 content) display depth policy r = (b, None, r')"
    and "sc_complete r'" "\<not> reports ''archive_escape'' r'"
  shows "\<exists>ms. read_as_tar t content ms \<and> (\<forall>m \<in> set ms. tar_confined m)"
proof -
  from assms(1) obtain s ms "end" where s: "compressed_reader t content (take 512 content) = Inr s" "at_tar t s = (ms, end)"
    and m: "scan_tar_members nested t e l display depth policy end ms False False r = (b, None, r')"
    by (auto simp: scan_tar_def split: sum.splits prod.splits)
  from scan_tar_members_confined[OF m] assms(2,3) s show ?thesis by (auto simp: read_as_tar_def)
qed

lemma scan_archive_with_confined:
  assumes r: "r = scan_archive_with nested t e l content display depth policy" "sc_supported r" "sc_complete r"
    "\<not> reports ''archive_escape'' r"
  shows "archive_format (take 512 content) = ''zip'' \<and>
      (\<exists>zs. at_zip t content = Inr zs \<and> ((\<forall>z \<in> set zs. zip_confined z) \<or> reports ''coverage'' r)) \<or>
    archive_format (take 512 content) \<noteq> ''zip'' \<and>
      ((\<exists>ms. read_as_tar t content ms \<and> (\<forall>m \<in> set ms. tar_confined m)) \<or>
       archive_format (take 512 content) \<in> {''gzip'', ''bzip2'', ''xz'', ''zstd''})"
proof (cases "archive_format (take 512 content) = ''zip''")
  case True
  define q where "q = archive_start\<lparr>sc_format := archive_format (take 512 content)\<rparr>"
  from r(1,2) True obtain zs where zs: "at_zip t content = Inr zs"
    "scan_zip_members nested t e l display depth policy zs q = (None, r)"
    by (auto simp: scan_archive_with_def Let_def q_def split: sum.splits prod.splits option.splits if_splits)
  from scan_zip_members_confined[OF zs(2)] zs(1) r(3,4) True show ?thesis by auto
next
  case zip: False
  define q where "q = archive_start\<lparr>sc_format := archive_format (take 512 content)\<rparr>"
  obtain b err r1 where tar: "scan_tar nested t e l content (take 512 content) display depth policy q = (b, err, r1)"
    using prod_cases3 by blast
  show ?thesis
  proof (cases "err = None \<and> b")
    case True
    with r(1,2) zip tar have "r = r1" by (simp add: scan_archive_with_def Let_def q_def split: if_splits)
    with scan_tar_confined[of nested t e l content display depth policy q b r1] tar True r(3,4) zip show ?thesis by simp
  next
    case False
    with r(1,2) zip tar show ?thesis by (auto simp: scan_archive_with_def Let_def q_def split: if_splits)
  qed
qed



section \<open>A compressed tar file that cannot be read to its end\<close>

text \<open>What the binary branch of scanCompressedStream leaves of a decompressed stream within the limits.\<close>

lemma scan_binary_member_complete:
  assumes "scan_binary_member e l s virtual md r = (None, r')"
  shows "sc_complete r' = sc_complete r \<and> sc_supported r' = sc_supported r \<and>
    (\<exists>text. sc_findings r' = sc_findings r @ binary_string_findings (scan_text e virtual text 0))"
  using assms by (auto simp: scan_binary_member_def Let_def split: if_splits)

lemma scan_binary_member_eof: "scan_binary_member e l (data, AtEOF) virtual md r = (None, snd (scan_binary_member e l (data, AtEOF) virtual md r))"
  by (simp add: scan_binary_member_def Let_def end_error_def)



end
