(* ===== verification/Review_Snapshot.thy ===== *)
theory Review_Snapshot
  imports Service Approval_Flow Archive_Walk
begin

text \<open>
  internal/audit/review.go: what the reviewing model is shown, and the boundary it passes. A
  snapshot binds the manifest, the findings and the guidance targets; its validation runs before
  every dispatch. findingContextLines and the inline rendering are finding_view.go and terminal.go.
\<close>

section \<open>Data\<close>

record selected_file =
  sf_file :: string
  sf_byte_offset :: int
  sf_line_start :: int
  sf_line_end :: int
  sf_content :: string

record context_line =
  gc_line :: int
  gc_text :: string

record guidance_target =
  gt_finding_id :: string
  gt_finding :: finding
  gt_anchor_kind :: string
  gt_anchor_text :: string
  gt_context :: "context_line list"

record review_snapshot =
  sn_version :: int
  sn_package_base :: string
  sn_phase :: string
  sn_manifest_hash :: string
  sn_view_hash :: string
  sn_omissions :: "string list"
  sn_coverage :: coverage
  sn_findings :: "finding list"
  sn_minimum :: string
  sn_targets :: "guidance_target list"
  sn_manifest :: "json_object list"
  sn_batch_index :: int
  sn_batch_count :: int
  sn_files :: "selected_file list"
  sn_yay :: yay_context
  sn_diff :: "manifest_change list"
  sn_sources :: "source_provenance list"
  sn_verification :: source_verification

definition terminal_inline :: "string \<Rightarrow> int \<Rightarrow> string" where "terminal_inline v limit = safe_inline v limit"

definition finding_preview_radius :: int where "finding_preview_radius = 2"

section \<open>Guidance targets\<close>

text \<open>findingContextLines; None: the line is outside the text.\<close>

definition finding_context_lines :: "string \<Rightarrow> int \<Rightarrow> int \<Rightarrow> context_line list option" where
  "finding_context_lines raw line radius =
     (if line < 1 \<or> radius < 0 then None
      else
        let split = split_on nl (valid_utf8_or_replacement raw);
            all = (if last split = [] then butlast split else split) in
        if line > int (length all) then None
        else Some (map (\<lambda>n. \<lparr>gc_line = n, gc_text = terminal_inline (all ! nat (n - 1)) 320\<rparr>)
          [max 1 (line - radius) .. min (int (length all)) (line + radius)]))"

fun anchor_lines :: "int \<Rightarrow> string \<Rightarrow> int \<Rightarrow> bool \<Rightarrow> context_line list \<Rightarrow> bool" where
  "anchor_lines line text previous seen [] = seen"
| "anchor_lines line text previous seen (c # cs) =
     (if gc_line c < 1 \<or> (previous \<noteq> 0 \<and> gc_line c \<noteq> previous + 1) \<or> gc_line c < line - finding_preview_radius \<or>
         gc_line c > line + finding_preview_radius \<or> length (gc_text c) > finding_guidance_text_limit \<or>
         terminal_inline (gc_text c) 320 \<noteq> gc_text c then False
      else if gc_line c = line
      then (if seen \<or> gc_text c \<noteq> text then False else anchor_lines line text (gc_line c) True cs)
      else anchor_lines line text (gc_line c) seen cs)"

definition anchor_valid :: "guidance_target \<Rightarrow> bool" where
  "anchor_valid t =
     (if gt_anchor_text t = [] \<or> length (gt_anchor_text t) > finding_guidance_text_limit \<or>
         terminal_inline (gt_anchor_text t) 320 \<noteq> gt_anchor_text t then False
      else if gt_anchor_kind t = ''line''
      then (case f_line (gt_finding t) of None \<Rightarrow> False
        | Some l \<Rightarrow> gt_context t \<noteq> [] \<and> int (length (gt_context t)) \<le> finding_preview_radius * 2 + 1 \<and>
            anchor_lines l (gt_anchor_text t) 0 False (gt_context t))
      else if gt_anchor_kind t = ''evidence''
      then gt_context t = [] \<and> gt_anchor_text t = terminal_inline (f_evidence (gt_finding t)) 320
      else False)"

text \<open>The text selected per path: a later record replaces an earlier one.\<close>

definition selected_texts :: "file_record list \<Rightarrow> string \<Rightarrow> string option" where
  "selected_texts files = map_of (rev (map (\<lambda>f. (fr_path f, fr_selected_text f)) (filter (\<lambda>f. fr_selected_text f \<noteq> []) files)))"

definition context_anchor :: "finding \<Rightarrow> (string \<Rightarrow> string option) \<Rightarrow> (string \<times> context_line list) option" where
  "context_anchor f selected = (case f_line f of None \<Rightarrow> None
     | Some l \<Rightarrow> (case selected (f_file f) of None \<Rightarrow> None
         | Some raw \<Rightarrow> (case finding_context_lines raw l finding_preview_radius of None \<Rightarrow> None
             | Some cs \<Rightarrow> (case find (\<lambda>c. gc_line c = l \<and> gc_text c \<noteq> []) cs of None \<Rightarrow> None
                 | Some c \<Rightarrow> Some (gc_text c, cs)))))"

definition guidance_target_of :: "(string \<Rightarrow> string) \<Rightarrow> (string \<Rightarrow> string option) \<Rightarrow> finding \<Rightarrow> guidance_target" where
  "guidance_target_of sha selected f = (case context_anchor f selected of
      Some (text, cs) \<Rightarrow> \<lparr>gt_finding_id = finding_guidance_id sha f, gt_finding = f, gt_anchor_kind = ''line'',
        gt_anchor_text = text, gt_context = cs\<rparr>
    | None \<Rightarrow> \<lparr>gt_finding_id = finding_guidance_id sha f, gt_finding = f, gt_anchor_kind = ''evidence'',
        gt_anchor_text = terminal_inline (f_evidence f) 320, gt_context = []\<rparr>)"

text \<open>The loop of reviewGuidanceTargets over the sorted findings; None: a target cannot be bound.\<close>

fun collect_targets :: "(string \<Rightarrow> string) \<Rightarrow> (string \<Rightarrow> string option) \<Rightarrow> string \<Rightarrow> string list \<Rightarrow> finding list \<Rightarrow>
    guidance_target list \<Rightarrow> guidance_target list option" where
  "collect_targets sha selected minimum excluded [] acc = Some acc"
| "collect_targets sha selected minimum excluded (f # fs) acc =
     (if \<not> severity_at_least (f_severity f) minimum \<or> finding_guidance_id sha f \<in> set excluded
      then collect_targets sha selected minimum excluded fs acc
      else
        let t = guidance_target_of sha selected f in
        if \<not> anchor_valid t then None
        else if length (acc @ [t]) = finding_guidance_limit then Some (acc @ [t])
        else collect_targets sha selected minimum excluded fs (acc @ [t]))"

definition review_guidance_targets :: "(string \<Rightarrow> string) \<Rightarrow> finding list \<Rightarrow> file_record list \<Rightarrow> string \<Rightarrow> string list \<Rightarrow>
    guidance_target list option" where
  "review_guidance_targets sha findings files minimum excluded =
     collect_targets sha (selected_texts files) minimum excluded (sort_findings findings) []"

section \<open>Validation of a snapshot\<close>

definition snapshot_head_valid :: "review_snapshot \<Rightarrow> bool" where
  "snapshot_head_valid s =
     (sn_version s = review_snapshot_version \<and> validate_package_base (sn_package_base s) \<and>
      sn_phase s \<in> {''pre'', ''post'', ''artifact''} \<and> valid_hex_digest (sn_manifest_hash s) \<and>
      validate_coverage (sn_coverage s) \<and> valid_severity (sn_minimum s) \<and>
      \<not> (sn_batch_count s < 1 \<or> sn_batch_index s < 0 \<or> sn_batch_index s \<ge> sn_batch_count s) \<and>
      \<not> (length (sn_manifest s) > 200000 \<or> length (sn_omissions s) > 1 \<or> length (sn_findings s) > 100000 \<or>
         length (sn_targets s) > finding_guidance_limit \<or> sn_files s = []) \<and>
      list_all (\<lambda>om. om = ''src/'' \<and> sn_phase s = ''post'') (sn_omissions s) \<and> distinct (sn_omissions s) \<and>
      yay_context_validate (sn_yay s) \<and> length (sn_diff s) \<le> 400000 \<and> length (sn_sources s) \<le> 10000 \<and>
      source_verification_validate (sn_verification s) \<and>
      list_all source_provenance_validate (sn_sources s))"

definition below_src :: "string \<Rightarrow> bool" where "below_src p = (p = ''src'' \<or> has_prefix p ''src/'')"

text \<open>The paths of the manifest, with the placeholder; None: an invalid or duplicate record, or one that was to be omitted.\<close>

fun snapshot_paths :: "(string \<Rightarrow> string \<Rightarrow> bool) \<Rightarrow> bool \<Rightarrow> string list \<Rightarrow> json_object list \<Rightarrow> string list option" where
  "snapshot_paths uf omits paths [] = Some paths"
| "snapshot_paths uf omits paths (m # ms) = (case validate_manifest_record uf m of
      None \<Rightarrow> None
    | Some d \<Rightarrow>
        if fr_path d \<in> set paths then None
        else if omits \<and> below_src (fr_path d) then None
        else snapshot_paths uf omits (fr_path d # paths) ms)"

definition manifest_view_hash :: "(string \<Rightarrow> string) \<Rightarrow> json_object list \<Rightarrow> string" where
  "manifest_view_hash sha ms = sha (show_json (JArr (map JObj ms)))"

definition selected_file_valid :: "string list \<Rightarrow> selected_file \<Rightarrow> bool" where
  "selected_file_valid paths f =
     (\<not> (sf_file f \<notin> set paths \<or> sf_byte_offset f < 0 \<or> sf_line_start f < 1 \<or> sf_line_end f < sf_line_start f) \<and>
      int (length (sf_content f)) \<le> 20 * 1024 * 1024 \<and>
      sf_line_start f + newlines (sf_content f) - (if has_suffix (sf_content f) [nl] then 1 else 0) = sf_line_end f)"

definition targets_valid :: "(string \<Rightarrow> string) \<Rightarrow> review_snapshot \<Rightarrow> bool" where
  "targets_valid sha s =
     (list_all finding_validate (sn_findings s) \<and>
      list_all (\<lambda>t. severity_at_least (f_severity (gt_finding t)) (sn_minimum s) \<and> finding_validate (gt_finding t) \<and>
        gt_finding_id t = finding_guidance_id sha (gt_finding t) \<and>
        gt_finding_id t \<in> set (map (finding_guidance_id sha) (sn_findings s)) \<and> anchor_valid t) (sn_targets s) \<and>
      distinct (map gt_finding_id (sn_targets s)))"

definition snapshot_validate :: "(string \<Rightarrow> string \<Rightarrow> bool) \<Rightarrow> (string \<Rightarrow> string) \<Rightarrow> review_snapshot \<Rightarrow> bool" where
  "snapshot_validate uf sha s =
     (let omits = (sn_omissions s \<noteq> []); view = manifest_view_hash sha (sn_manifest s) in
      snapshot_head_valid s \<and>
      list_all (\<lambda>c. manifest_change_validate c \<and> \<not> (omits \<and> has_prefix (mc_path c) ''src/'')) (sn_diff s) \<and>
      (case snapshot_paths uf omits [''<none>''] (sn_manifest s) of
         None \<Rightarrow> False
       | Some paths \<Rightarrow>
           \<not> (sn_view_hash s \<noteq> [] \<and> sn_view_hash s \<noteq> view \<or>
              omits \<and> (\<not> valid_hex_digest (sn_view_hash s) \<or> sn_view_hash s \<noteq> view) \<or>
              \<not> omits \<and> view \<noteq> sn_manifest_hash s) \<and>
           targets_valid sha s \<and> list_all (selected_file_valid paths) (sn_files s)))"

end
