(* ===== verification/Review.thy ===== *)
theory Review
  imports Review_Snapshot "HOL-Library.Multiset"
begin

text \<open>
  internal/audit/review.go: the batches a scan is cut into for the reviewing model, the dispatch of
  one request, and Reviewer.Review. Arguments: the worker that answers a request (the provider
  program, with the decoding of its JSON), the number of bytes of a request on the wire, and for the
  Ollama provider the size of the chat request a snapshot turns into.
\<close>

section \<open>Pieces\<close>

definition selected_file_piece :: "string \<Rightarrow> string \<Rightarrow> nat \<Rightarrow> nat \<Rightarrow> selected_file" where
  "selected_file_piece path content offset stop =
     (let line = 1 + newlines (take offset content) in
      \<lparr>sf_file = path, sf_byte_offset = int offset, sf_line_start = line,
       sf_line_end = (if stop > offset then line + newlines (Rules.slice offset (stop - 1) content) else line),
       sf_content = valid_utf8_or_replacement (Rules.slice offset stop content)\<rparr>)"

text \<open>The loop over one file. The chunk size is positive; with 0 the code would not return.\<close>

function file_pieces :: "string \<Rightarrow> string \<Rightarrow> nat \<Rightarrow> nat \<Rightarrow> selected_file list" where
  "file_pieces path content chunk offset =
     (if offset < length content \<and> 0 < chunk
      then selected_file_piece path content offset (min (length content) (offset + chunk)) #
        file_pieces path content chunk (offset + chunk)
      else [])"
  by pat_completeness auto
termination
  by (relation "measure (\<lambda>(p, c, k, off). length c - off)") auto

declare file_pieces.simps [simp del]

text \<open>None: the aggregate limit is exceeded.\<close>

fun select_pieces :: "int \<Rightarrow> nat \<Rightarrow> int \<Rightarrow> file_record list \<Rightarrow> selected_file list option" where
  "select_pieces limit chunk used [] = Some []"
| "select_pieces limit chunk used (r # rs) =
     (if fr_selected_text r = [] then select_pieces limit chunk used rs
      else
        let used' = used + int (length (fr_selected_text r)) in
        if used' > limit then None
        else map_option ((@) (file_pieces (fr_path r) (fr_selected_text r) chunk 0)) (select_pieces limit chunk used' rs))"

definition no_text :: selected_file where
  "no_text = \<lparr>sf_file = ''<none>'', sf_byte_offset = 0, sf_line_start = 1, sf_line_end = 1, sf_content = ''No text selected.''\<rparr>"

definition selected_file_json :: "selected_file \<Rightarrow> json" where
  "selected_file_json f = JObj
     [(''file'', JStr (sf_file f)), (''byte_offset'', JNum (show_int (sf_byte_offset f))),
      (''line_start'', JNum (show_int (sf_line_start f))), (''line_end'', JNum (show_int (sf_line_end f))),
      (''content'', JStr (sf_content f))]"

definition piece_size :: "selected_file \<Rightarrow> int" where
  "piece_size f = int (length (show_json (selected_file_json f)))"

section \<open>Batches\<close>

definition includes_path :: "audit_config \<Rightarrow> string \<Rightarrow> string \<Rightarrow> bool" where
  "includes_path cfg phase p = (phase \<noteq> ''post'' \<or> cf_vendor_depth cfg > 0 \<or> \<not> below_src p)"

text \<open>Changed files first, then by encoded path.\<close>

definition review_order :: "string list \<Rightarrow> file_record list \<Rightarrow> file_record list" where
  "review_order changed fs = sort_key (\<lambda>f. (if fr_path f \<in> set changed then 0 else 1 :: nat, fr_path_b64 f)) fs"

text \<open>
  The loop that fills batches: the batches so far, the current one and its size. \<open>fits\<close> is ollamaFits, an
  error or whether the request stays below the ceiling.
\<close>

fun fill_batches :: "(selected_file list \<Rightarrow> string + bool) \<Rightarrow> int \<Rightarrow> selected_file list list \<Rightarrow> selected_file list \<Rightarrow> int \<Rightarrow>
    selected_file list \<Rightarrow> string + selected_file list list" where
  "fill_batches fits limit done current sz [] = Inr (if current = [] then done else done @ [current])"
| "fill_batches fits limit done current sz (p # ps) = (case fits (current @ [p]) of
      Inl e \<Rightarrow> Inl e
    | Inr ok \<Rightarrow>
        if current \<noteq> [] \<and> (sz + piece_size p > limit \<or> \<not> ok)
        then (case fits [p] of
            Inl e \<Rightarrow> Inl e
          | Inr ok' \<Rightarrow> if \<not> ok' then Inl ''selected file chunk cannot fit the context-derived Ollama input ceiling''
              else fill_batches fits limit (done @ [current]) [p] (piece_size p) ps)
        else if \<not> ok then Inl ''selected file chunk cannot fit the context-derived Ollama input ceiling''
        else fill_batches fits limit done (current @ [p]) (sz + piece_size p) ps)"

definition ollama_generation_limit :: "string \<Rightarrow> int" where
  "ollama_generation_limit reasoning = (if reasoning = ''off'' then 4096 else 6144)"

text \<open>Two bytes per token.\<close>

definition ollama_input_byte_ceiling :: "int \<Rightarrow> string \<Rightarrow> int" where
  "ollama_input_byte_ceiling tokens reasoning = (tokens - ollama_generation_limit reasoning - 2048) * 2"

definition ollama_reasoning_level :: "string \<Rightarrow> bool \<Rightarrow> string option" where
  "ollama_reasoning_level configured capability =
     (if configured = [] \<or> configured = ''auto'' then Some (if capability then ''on'' else ''off'')
      else if configured = ''off'' then Some ''off''
      else if configured \<in> {''low'', ''medium'', ''high''} then (if capability then Some configured else None)
      else None)"

type_synonym chat_size = "review_snapshot \<Rightarrow> string \<Rightarrow> string + int"

definition ollama_fits :: "chat_size \<Rightarrow> audit_config \<Rightarrow> string \<Rightarrow> review_snapshot \<Rightarrow> selected_file list \<Rightarrow> string + bool" where
  "ollama_fits chat cfg reasoning base files =
     (if cf_provider cfg \<noteq> ''ollama'' then Inr True
      else (case chat (base\<lparr>sn_batch_index := 999999, sn_batch_count := 999999, sn_files := files\<rparr>) reasoning of
          Inl e \<Rightarrow> Inl e
        | Inr n \<Rightarrow> Inr (n \<le> ollama_input_byte_ceiling (ol_context_tokens (cf_ollama cfg)) reasoning)))"

text \<open>The last check of every batch: the error, if any.\<close>

fun recheck_batches :: "(selected_file list \<Rightarrow> string + bool) \<Rightarrow> selected_file list list \<Rightarrow> string option" where
  "recheck_batches fits [] = None"
| "recheck_batches fits (b # bs) = (case fits b of
      Inl e \<Rightarrow> Some e
    | Inr ok \<Rightarrow> if ok then recheck_batches fits bs else Some ''final Ollama batch exceeds context-derived input ceiling'')"

text \<open>The snapshot all batches share; None: a guidance target cannot be bound.\<close>

definition base_snapshot :: "(string \<Rightarrow> string) \<Rightarrow> audit_config \<Rightarrow> string \<Rightarrow> string \<Rightarrow> inventory \<Rightarrow> review_options \<Rightarrow>
    review_snapshot option" where
  "base_snapshot sha cfg package_base phase iv options =
     (let shown = filter (\<lambda>f. includes_path cfg phase (fr_path f)) (iv_files iv);
          diff = filter (\<lambda>c. includes_path cfg phase (mc_path c)) (iv_manifest_diff iv);
          omitted = (length shown < length (iv_files iv) \<or> length diff < length (iv_manifest_diff iv));
          manifest = map manifest_value shown
      in map_option (\<lambda>targets.
        \<lparr>sn_version = review_snapshot_version, sn_package_base = package_base, sn_phase = phase,
         sn_manifest_hash = iv_manifest_hash iv, sn_view_hash = manifest_view_hash sha manifest,
         sn_omissions = (if omitted then [''src/''] else []), sn_coverage = iv_coverage iv,
         sn_findings = iv_findings iv, sn_minimum = rc_minimum_severity (cf_review cfg), sn_targets = targets,
         sn_manifest = manifest, sn_batch_index = 0, sn_batch_count = 0, sn_files = [],
         sn_yay = iv_yay_context iv, sn_diff = diff, sn_sources = iv_sources iv, sn_verification = iv_verification iv\<rparr>)
        (review_guidance_targets sha (iv_findings iv) (iv_files iv) (rc_minimum_severity (cf_review cfg)) (ro_skip options)))"

text \<open>The chunk size: half a batch, for Ollama a sixth of what the fixed part leaves.\<close>

definition review_chunk_size :: "chat_size \<Rightarrow> audit_config \<Rightarrow> string \<Rightarrow> review_snapshot \<Rightarrow> string + nat" where
  "review_chunk_size chat cfg reasoning base =
     (let chunk = max 1024 (rc_batch_bytes (cf_review cfg) div 2) in
      if cf_provider cfg \<noteq> ''ollama'' then Inr (nat chunk)
      else
        let ceiling = ollama_input_byte_ceiling (ol_context_tokens (cf_ollama cfg)) reasoning in
        case chat (base\<lparr>sn_batch_index := 999999, sn_batch_count := 999999, sn_files := [no_text]\<rparr>) reasoning of
          Inl e \<Rightarrow> Inl e
        | Inr fixed \<Rightarrow>
            if ceiling \<le> 0 \<or> fixed > ceiling then Inl ''fixed Ollama review context exceeds the input ceiling''
            else if ceiling - fixed - 4096 \<le> 0 then Inl ''fixed Ollama review context leaves no selected-text budget''
            else Inr (nat (min chunk (max 1 ((ceiling - fixed - 4096) div 6)))))"

definition number_batches :: "review_snapshot \<Rightarrow> selected_file list list \<Rightarrow> review_snapshot list" where
  "number_batches base bs =
     map (\<lambda>(i, fs). base\<lparr>sn_batch_index := int i, sn_batch_count := int (length bs), sn_files := fs\<rparr>) (List.enumerate 0 bs)"

definition review_batches :: "(string \<Rightarrow> string) \<Rightarrow> chat_size \<Rightarrow> audit_config \<Rightarrow> string \<Rightarrow> string \<Rightarrow> inventory \<Rightarrow> review_options \<Rightarrow>
    string \<Rightarrow> string + review_snapshot list" where
  "review_batches sha chat cfg package_base phase iv options reasoning =
     (if \<not> validate_package_base package_base then Inl ''invalid package base''
      else (case base_snapshot sha cfg package_base phase iv options of
          None \<Rightarrow> Inl ''bind guidance target: invalid guidance target anchor''
        | Some base \<Rightarrow> (case review_chunk_size chat cfg reasoning base of
            Inl e \<Rightarrow> Inl e
          | Inr chunk \<Rightarrow> (case select_pieces (lim_selected_text_bytes (cf_limits cfg)) chunk 0
                (review_order (map mc_path (iv_manifest_diff iv)) (iv_files iv)) of
              None \<Rightarrow> Inl ''selected review text exceeds aggregate limit''
            | Some ps \<Rightarrow> (case fill_batches (ollama_fits chat cfg reasoning base) (rc_batch_bytes (cf_review cfg)) [] [] 0
                  (if ps = [] then [no_text] else ps) of
                Inl e \<Rightarrow> Inl e
              | Inr bs \<Rightarrow> (case recheck_batches (ollama_fits chat cfg reasoning base) bs of
                    Some e \<Rightarrow> Inl e | None \<Rightarrow> Inr (number_batches base bs)))))))"

section \<open>Dispatch\<close>

definition dispatch_protocol_version :: int where "dispatch_protocol_version = 3"

record dispatch_request =
  dq_version :: int
  dq_operation :: string
  dq_snapshot :: "review_snapshot option"

definition request_validate :: "(string \<Rightarrow> string \<Rightarrow> bool) \<Rightarrow> (string \<Rightarrow> string) \<Rightarrow> dispatch_request \<Rightarrow> bool" where
  "request_validate uf sha q =
     (dq_version q = dispatch_protocol_version \<and>
      (if dq_operation q \<in> {''probe'', ''canary''} then dq_snapshot q = None
       else if dq_operation q \<in> {''review'', ''diagnose-review''}
       then (case dq_snapshot q of None \<Rightarrow> False | Some s \<Rightarrow> snapshot_validate uf sha s)
       else False))"

record ollama_metrics =
  om_request_bytes :: int
  om_prompt_tokens :: int
  om_output_tokens :: int
  om_thinking_bytes :: int
  om_load_ns :: int
  om_prompt_ns :: int
  om_output_ns :: int
  om_unaccounted_ns :: int
  om_total_ns :: int
  om_wall_ns :: int
  om_model_bytes :: int
  om_vram_bytes :: int
  om_context_tokens :: int

definition metrics_validate :: "ollama_metrics \<Rightarrow> bool" where
  "metrics_validate m = (\<not> (om_request_bytes m \<le> 0 \<or> om_prompt_tokens m \<le> 0 \<or> om_output_tokens m \<le> 0 \<or> om_thinking_bytes m < 0 \<or>
     om_load_ns m < 0 \<or> om_prompt_ns m < 0 \<or> om_output_ns m < 0 \<or> om_unaccounted_ns m < 0 \<or> om_total_ns m \<le> 0 \<or> om_wall_ns m < 0 \<or>
     om_model_bytes m < 0 \<or> om_vram_bytes m < 0 \<or> om_context_tokens m < 0 \<or>
     (om_model_bytes m > 0 \<and> om_vram_bytes m > om_model_bytes m)))"

text \<open>A response; of a diagnostic only whether there is one is kept.\<close>

record dispatch_response =
  dr_version :: int
  dr_metadata :: provider_metadata
  dr_verdict :: "verdict option"
  dr_metrics :: "ollama_metrics list"
  dr_diagnostic :: bool

definition cli_metadata :: "provider_metadata \<Rightarrow> bool" where
  "cli_metadata m = (pm_transport m = ''cli'' \<and> pm_provider m \<in> {''codex'', ''anthropic''} \<and> pm_model_digest m = [] \<and>
     pm_context_tokens m = 0 \<and> \<not> pm_thinking m)"

definition ollama_metadata :: "provider_metadata \<Rightarrow> bool" where
  "ollama_metadata m = (pm_transport m = ''http-loopback'' \<and> pm_provider m = ''ollama'' \<and> valid_hex_digest (pm_model_digest m) \<and>
     pm_context_tokens m \<ge> 16384)"

definition metadata_validate :: "provider_metadata \<Rightarrow> bool" where
  "metadata_validate m =
     ((cli_metadata m \<and> valid_effort (pm_effort m) \<or> ollama_metadata m \<and> valid_ollama_effective_reasoning (pm_effort m)) \<and>
      pm_runtime_version m \<noteq> [] \<and> pm_model m \<noteq> [] \<and> pm_adapter_policy m \<noteq> [])"

text \<open>DispatchResponse.Validate for the operations Review and Probe use.\<close>

definition response_validate :: "string \<Rightarrow> dispatch_response \<Rightarrow> bool" where
  "response_validate operation r =
     (dr_version r = dispatch_protocol_version \<and> metadata_validate (dr_metadata r) \<and>
      (if operation = ''review''
       then \<not> dr_diagnostic r \<and>
         (case dr_verdict r of None \<Rightarrow> False
          | Some v \<Rightarrow>
              (if pm_provider (dr_metadata r) = ''ollama'' then length (dr_metrics r) = 1 \<and> metrics_validate (hd (dr_metrics r))
               else dr_metrics r = []) \<and> verdict_validate v)
       else dr_verdict r = None \<and> dr_metrics r = [] \<and> \<not> dr_diagnostic r))"

text \<open>What the worker makes of a request: the time limit passes, it fails, its output is not the expected JSON, or it answers.\<close>

datatype worker_answer = Worker_Timeout | Worker_Failed string | Worker_Garbage string | Worker_Response dispatch_response

definition effort_matches :: "audit_config \<Rightarrow> provider_metadata \<Rightarrow> bool" where
  "effort_matches cfg m =
     (let configured = active_provider cfg in
      if cf_provider cfg = ''ollama'' then ollama_reasoning_level (pv_effort configured) (pm_thinking m) = Some (pm_effort m)
      else pm_effort m = pv_effort configured)"

definition dispatch :: "(string \<Rightarrow> string \<Rightarrow> bool) \<Rightarrow> (string \<Rightarrow> string) \<Rightarrow> audit_config \<Rightarrow> (dispatch_request \<Rightarrow> int) \<Rightarrow>
    (dispatch_request \<Rightarrow> worker_answer) \<Rightarrow> dispatch_request \<Rightarrow> string + dispatch_response" where
  "dispatch uf sha cfg wire worker q =
     (if \<not> request_validate uf sha q then Inl ''invalid dispatch request''
      else if wire q > lim_dispatch_bytes (cf_limits cfg) then Inl ''dispatcher payload exceeds hard input limit''
      else (case worker q of
          Worker_Timeout \<Rightarrow> Inl ''provider request timed out''
        | Worker_Failed e \<Rightarrow> Inl (''provider worker failed: '' @ e)
        | Worker_Garbage e \<Rightarrow> Inl (''provider worker returned invalid JSON: '' @ e)
        | Worker_Response r \<Rightarrow>
            if \<not> response_validate (dq_operation q) r then Inl ''invalid dispatcher response''
            else if pm_provider (dr_metadata r) \<noteq> cf_provider cfg then Inl ''dispatcher returned the wrong active provider''
            else if pm_model (dr_metadata r) \<noteq> pv_model (active_provider cfg)
            then Inl ''dispatcher returned unexpected model or effort metadata''
            else if \<not> effort_matches cfg (dr_metadata r) then Inl ''dispatcher returned unexpected model or effort metadata''
            else Inr r))"

section \<open>Review\<close>

text \<open>What Review checks of one verdict, and the guidance it keeps.\<close>

definition verdict_bound :: "inventory \<Rightarrow> (string \<times> string) list \<Rightarrow> verdict \<Rightarrow> bool" where
  "verdict_bound iv expected v =
     (list_all (\<lambda>f. rf_file f = ''<none>'' \<or> rf_file f \<in> set (map fr_path (iv_files iv))) (Findings.slice (v_findings v)) \<and>
      list_all (\<lambda>g. g_finding_id g \<in> set (map fst expected)) (Findings.slice (v_guidance v)) \<and>
      list_all (\<lambda>i. i \<in> set (map g_finding_id (Findings.slice (v_guidance v)))) (map fst expected))"

definition keep_quoted :: "(string \<times> string) list \<Rightarrow> verdict \<Rightarrow> verdict" where
  "keep_quoted expected v = v\<lparr>v_guidance := map_option (filter (\<lambda>g. map_of (rev expected) (g_finding_id g) = Some (g_anchor_quote g)))
     (v_guidance v)\<rparr>"

text \<open>The worker may answer the same request differently each time: it is given the number of the call.\<close>

fun review_loop :: "(nat \<Rightarrow> dispatch_request \<Rightarrow> string + dispatch_response) \<Rightarrow> inventory \<Rightarrow> (string \<times> string) list \<Rightarrow> nat \<Rightarrow>
    provider_metadata \<Rightarrow> verdict list \<Rightarrow> review_snapshot list \<Rightarrow> string + provider_metadata \<times> verdict list" where
  "review_loop send iv expected call metadata verdicts [] = Inr (metadata, verdicts)"
| "review_loop send iv expected call metadata verdicts (b # bs) =
     (case send call \<lparr>dq_version = dispatch_protocol_version, dq_operation = ''review'', dq_snapshot = Some b\<rparr> of
        Inl e \<Rightarrow> Inl e
      | Inr r \<Rightarrow>
          if pm_provider metadata \<noteq> [] \<and> metadata \<noteq> dr_metadata r then Inl ''provider metadata changed between review batches''
          else (case dr_verdict r of
              None \<Rightarrow> Inl ''dispatcher omitted verdict''
            | Some v \<Rightarrow>
                if \<not> verdict_bound iv expected v then Inl ''review verdict is not bound to the scan''
                else review_loop send iv expected (Suc call) (dr_metadata r) (verdicts @ [keep_quoted expected v]) bs))"

definition review :: "(string \<Rightarrow> string \<Rightarrow> bool) \<Rightarrow> (string \<Rightarrow> string) \<Rightarrow> chat_size \<Rightarrow> (dispatch_request \<Rightarrow> int) \<Rightarrow>
    (nat \<Rightarrow> dispatch_request \<Rightarrow> worker_answer) \<Rightarrow> audit_config \<Rightarrow> reviewer" where
  "review uf sha chat wire worker cfg package_base phase iv options =
     (if ro_trigger options \<noteq> [] \<and> ro_trigger options \<noteq> review_trigger_on_demand then Inl ''unsupported review trigger''
      else
        let send = (\<lambda>n. dispatch uf sha cfg wire (worker n));
            probe = (if cf_provider cfg = ''ollama''
              then map_sum id (\<lambda>r. (1, dr_metadata r, pm_effort (dr_metadata r)))
                (send 0 \<lparr>dq_version = dispatch_protocol_version, dq_operation = ''probe'', dq_snapshot = None\<rparr>)
              else Inr (0, no_metadata, ''off''))
        in case probe of
          Inl e \<Rightarrow> Inl e
        | Inr (call, metadata, reasoning) \<Rightarrow> (case review_batches sha chat cfg package_base phase iv options reasoning of
            Inl e \<Rightarrow> Inl e
          | Inr bs \<Rightarrow> review_loop send iv (map (\<lambda>t. (gt_finding_id t, gt_anchor_text t)) (sn_targets (hd bs)))
              call metadata [] bs))"

section \<open>Every selected byte is shown once\<close>

lemma file_pieces_bytes:
  "0 < chunk \<Longrightarrow> concat (map (\<lambda>p. take chunk (drop (nat (sf_byte_offset p)) s)) (file_pieces path s chunk k)) = drop k s"
proof (induction path s chunk k rule: file_pieces.induct)
  case (1 path s chunk k)
  then show ?case
    by (subst file_pieces.simps) (auto simp: selected_file_piece_def Let_def add.commute simp flip: drop_drop)
qed

lemma file_pieces_each:
  "p \<in> set (file_pieces path s chunk k) \<Longrightarrow> \<exists>i stop. p = selected_file_piece path s i stop \<and> i < stop \<and>
     stop = min (length s) (i + chunk)"
proof (induction path s chunk k rule: file_pieces.induct)
  case (1 path s chunk k)
  from 1(2) have c: "k < length s \<and> 0 < chunk" by (subst (asm) file_pieces.simps) (simp split: if_splits)
  with 1(2) consider "p = selected_file_piece path s k (min (length s) (k + chunk))"
    | "p \<in> set (file_pieces path s chunk (k + chunk))"
    by (subst (asm) file_pieces.simps) auto
  then show ?case
  proof cases
    case 1
    with c show ?thesis by (intro exI[of _ k] exI[of _ "min (length s) (k + chunk)"]) auto
  next
    case 2
    from 1(1)[OF _ 2] c show ?thesis by simp
  qed
qed

lemma slice_content:
  assumes "stop = min (length text) (k + chunk)" shows "Rules.slice k stop text = take chunk (drop k text)"
proof (cases "k + chunk \<le> length text")
  case True
  with assms show ?thesis by (simp add: Rules.slice_def)
next
  case False
  with assms show ?thesis by (simp add: Rules.slice_def)
qed

text \<open>A piece says what it shows: the place of its bytes, the lines they span, their text.\<close>

lemma piece_lines:
  assumes "k < stop" "stop \<le> length text"
  shows "sf_line_start (selected_file_piece path text k stop) + newlines (sf_content (selected_file_piece path text k stop)) -
      (if has_suffix (sf_content (selected_file_piece path text k stop)) [nl] then 1 else 0) =
    sf_line_end (selected_file_piece path text k stop)"
proof -
  let ?s = "Rules.slice k stop text"
  have s: "?s = Rules.slice k (stop - 1) text @ [text ! (stop - 1)]"
    using assms take_Suc_conv_app_nth[of "stop - Suc k" "drop k text"] by (simp add: Rules.slice_def Suc_diff_Suc)
  have "newlines ?s = newlines (Rules.slice k (stop - 1) text) + (if has_suffix ?s [nl] then 1 else 0)"
    unfolding s by (simp add: newlines_def)
  then show ?thesis
    using assms replacement_lines(1,2)[of ?s] by (simp add: selected_file_piece_def Let_def newlines_def nl_def)
qed

lemma select_pieces_Some:
  "select_pieces limit chunk used rs = Some ps \<Longrightarrow>
     ps = concat (map (\<lambda>r. file_pieces (fr_path r) (fr_selected_text r) chunk 0) rs) \<and>
     used + int (sum_list (map (\<lambda>r. length (fr_selected_text r)) rs)) \<le> max limit used"
proof (induction rs arbitrary: used ps)
  case (Cons r rs)
  show ?case
  proof (cases "fr_selected_text r = []")
    case True
    with Cons show ?thesis by (auto simp: file_pieces.simps)
  next
    case False
    with Cons.prems obtain qs where q: "select_pieces limit chunk (used + int (length (fr_selected_text r))) rs = Some qs"
      "ps = file_pieces (fr_path r) (fr_selected_text r) chunk 0 @ qs" "used + int (length (fr_selected_text r)) \<le> limit"
      by (auto simp: Let_def split: if_splits)
    from Cons.IH[OF q(1)] q show ?thesis by auto
  qed
qed simp

lemma fill_batches_Inr:
  "fill_batches fits limit bs cur sz ps = Inr r \<Longrightarrow> concat r = concat bs @ cur @ ps \<and> ([] \<notin> set bs \<longrightarrow> [] \<notin> set r)"
proof (induction ps arbitrary: bs cur sz)
  case (Cons p ps)
  from Cons.prems consider "fill_batches fits limit (bs @ [cur]) [p] (piece_size p) ps = Inr r" "cur \<noteq> []"
    | "fill_batches fits limit bs (cur @ [p]) (sz + piece_size p) ps = Inr r"
    by (auto split: sum.splits if_splits)
  then show ?case
  proof cases
    case 1
    from Cons.IH[OF 1(1)] 1(2) show ?thesis by auto
  next
    case 2
    from Cons.IH[OF this] show ?thesis by auto
  qed
qed (auto split: if_splits)

lemma piece_size_nonneg: "0 \<le> piece_size p" by (simp add: piece_size_def)

lemma fill_batches_size:
  "fill_batches fits limit bs cur sz ps = Inr r \<Longrightarrow> sz = sum_list (map piece_size cur) \<Longrightarrow>
     (length cur \<le> 1 \<or> sz \<le> limit) \<Longrightarrow> (\<forall>b \<in> set bs. length b \<le> 1 \<or> sum_list (map piece_size b) \<le> limit) \<Longrightarrow>
     (\<forall>b \<in> set r. length b \<le> 1 \<or> sum_list (map piece_size b) \<le> limit)"
proof (induction ps arbitrary: bs cur sz)
  case Nil
  then have "r = bs \<or> r = bs @ [cur]" by (simp split: if_splits)
  with Nil(2-4) show ?case by auto
next
  case (Cons p ps)
  from Cons.prems(1) consider "fill_batches fits limit (bs @ [cur]) [p] (piece_size p) ps = Inr r"
    | "fill_batches fits limit bs (cur @ [p]) (sz + piece_size p) ps = Inr r" "cur = [] \<or> sz + piece_size p \<le> limit"
    by (auto split: sum.splits if_splits)
  then show ?case
  proof cases
    case 1
    show ?thesis by (rule Cons.IH[OF 1]) (use Cons.prems(2-4) in simp_all)
  next
    case 2
    show ?thesis by (rule Cons.IH[OF 2(1)]) (use 2(2) Cons.prems(2,4) in auto)
  qed
qed

lemma number_batches_nth:
  "i < length bs \<Longrightarrow> number_batches base bs ! i =
     base\<lparr>sn_batch_index := int i, sn_batch_count := int (length bs), sn_files := bs ! i\<rparr>"
  by (simp add: number_batches_def nth_enumerate_eq)

lemma length_number_batches [simp]: "length (number_batches base bs) = length bs"
  by (simp add: number_batches_def)

lemma number_batches_files: "map sn_files (number_batches base bs) = bs"
  by (rule nth_equalityI) (simp_all add: number_batches_nth)

lemma review_chunk_positive: "review_chunk_size chat cfg reasoning base = Inr k \<Longrightarrow> 0 < k"
  by (auto simp: review_chunk_size_def Let_def split: if_splits sum.splits)

text \<open>What a successful batching is made of.\<close>

lemma review_batches_Inr:
  assumes "review_batches sha chat cfg package_base phase iv options reasoning = Inr bs"
  obtains base chunk ps parts where "base_snapshot sha cfg package_base phase iv options = Some base" "0 < chunk"
    "review_chunk_size chat cfg reasoning base = Inr chunk" "validate_package_base package_base"
    "select_pieces (lim_selected_text_bytes (cf_limits cfg)) chunk 0
      (review_order (map mc_path (iv_manifest_diff iv)) (iv_files iv)) = Some ps"
    "fill_batches (ollama_fits chat cfg reasoning base) (rc_batch_bytes (cf_review cfg)) [] [] 0
      (if ps = [] then [no_text] else ps) = Inr parts"
    "bs = number_batches base parts"
  using assms review_chunk_positive
  by (auto simp: review_batches_def split: if_splits option.splits sum.splits)

text \<open>C38: batching loses nothing and shows nothing twice. There is one chunk size such that the files of all batches in
  order are the chunks of every selected text, changed files first; the chunks of a text put together are that text, and a
  piece carries its file, the offset and first line of its bytes, and those bytes as UTF-8. The batches are numbered, none is
  empty, and each is below the batch size unless it is a single piece.\<close>

theorem review_batches_complete:
  assumes "review_batches sha chat cfg package_base phase iv options reasoning = Inr bs"
  shows "\<exists>chunk > 0.
    (let fs = review_order (map mc_path (iv_manifest_diff iv)) (iv_files iv);
         ps = concat (map (\<lambda>r. file_pieces (fr_path r) (fr_selected_text r) chunk 0) fs)
     in concat (map sn_files bs) = (if ps = [] then [no_text] else ps) \<and>
        (\<forall>r \<in> set fs.
           concat (map (\<lambda>p. take chunk (drop (nat (sf_byte_offset p)) (fr_selected_text r)))
             (file_pieces (fr_path r) (fr_selected_text r) chunk 0)) = fr_selected_text r \<and>
           (\<forall>p \<in> set (file_pieces (fr_path r) (fr_selected_text r) chunk 0). sf_file p = fr_path r \<and>
             sf_line_start p = 1 + newlines (take (nat (sf_byte_offset p)) (fr_selected_text r)) \<and>
             sf_content p = valid_utf8_or_replacement (take chunk (drop (nat (sf_byte_offset p)) (fr_selected_text r))))) \<and>
        sorted (map (\<lambda>r. if fr_path r \<in> set (map mc_path (iv_manifest_diff iv)) then 0 else 1 :: nat) fs) \<and>
        mset fs = mset (iv_files iv)) \<and>
    (\<forall>i < length bs. sn_batch_index (bs ! i) = int i \<and> sn_batch_count (bs ! i) = int (length bs) \<and> sn_files (bs ! i) \<noteq> [] \<and>
      (length (sn_files (bs ! i)) = 1 \<or> sum_list (map piece_size (sn_files (bs ! i))) \<le> rc_batch_bytes (cf_review cfg)))"
proof -
  obtain base chunk ps parts where b: "0 < chunk"
    "select_pieces (lim_selected_text_bytes (cf_limits cfg)) chunk 0
      (review_order (map mc_path (iv_manifest_diff iv)) (iv_files iv)) = Some ps"
    "fill_batches (ollama_fits chat cfg reasoning base) (rc_batch_bytes (cf_review cfg)) [] [] 0
      (if ps = [] then [no_text] else ps) = Inr parts" "bs = number_batches base parts"
    using review_batches_Inr[OF assms] by metis
  note s = select_pieces_Some[OF b(2)] and f = fill_batches_Inr[OF b(3)] and z = fill_batches_size[OF b(3)]
  have each: "sf_file p = fr_path r \<and> sf_line_start p = 1 + newlines (take (nat (sf_byte_offset p)) (fr_selected_text r)) \<and>
      sf_content p = valid_utf8_or_replacement (take chunk (drop (nat (sf_byte_offset p)) (fr_selected_text r)))"
    if "p \<in> set (file_pieces (fr_path r) (fr_selected_text r) chunk 0)" for p r
    using file_pieces_each[OF that] slice_content by (force simp: selected_file_piece_def Let_def)
  have order: "sorted (map (\<lambda>r. if fr_path r \<in> set c then 0 else 1 :: nat) (review_order c fs))" for c fs
  proof -
    have "sorted_wrt (\<lambda>x y. (if fr_path x \<in> set c then 0 else 1 :: nat, fr_path_b64 x) \<le> (if fr_path y \<in> set c then 0 else 1, fr_path_b64 y))
        (review_order c fs)"
      using sorted_sort_key[of "\<lambda>f. (if fr_path f \<in> set c then 0 else 1 :: nat, fr_path_b64 f)" fs]
      by (simp only: review_order_def sorted_map)
    then show ?thesis by (auto simp: sorted_map elim: sorted_wrt_mono_rel[rotated])
  qed
  show ?thesis
    unfolding Let_def
  proof (intro exI[of _ chunk] conjI)
    show "concat (map sn_files bs) = (if concat (map (\<lambda>r. file_pieces (fr_path r) (fr_selected_text r) chunk 0)
        (review_order (map mc_path (iv_manifest_diff iv)) (iv_files iv))) = [] then [no_text] else concat (map (\<lambda>r. file_pieces
        (fr_path r) (fr_selected_text r) chunk 0) (review_order (map mc_path (iv_manifest_diff iv)) (iv_files iv))))"
      using s f b(4) by (simp add: number_batches_files)
    show "sorted (map (\<lambda>r. if fr_path r \<in> set (map mc_path (iv_manifest_diff iv)) then 0 else 1 :: nat)
        (review_order (map mc_path (iv_manifest_diff iv)) (iv_files iv)))" by (rule order)
    show "mset (review_order (map mc_path (iv_manifest_diff iv)) (iv_files iv)) = mset (iv_files iv)" by (simp add: review_order_def)
    show "\<forall>i < length bs. sn_batch_index (bs ! i) = int i \<and> sn_batch_count (bs ! i) = int (length bs) \<and> sn_files (bs ! i) \<noteq> [] \<and>
      (length (sn_files (bs ! i)) = 1 \<or> sum_list (map piece_size (sn_files (bs ! i))) \<le> rc_batch_bytes (cf_review cfg))"
      using f z b(4) by (auto simp: number_batches_nth dest!: nth_mem) (metis One_nat_def le_Suc_eq length_0_conv le_zero_eq)+
  qed (use b(1) each order file_pieces_bytes[OF b(1), where k = 0] in auto)
qed

definition no_options :: review_options where "no_options = \<lparr>ro_skip = [], ro_trigger = []\<rparr>"

definition example_chat :: chat_size where "example_chat s r = Inr 5000"

text \<open>With a command line provider nothing but the limits of the text and the guidance targets stop the batching.\<close>

lemma cli_fits: "cf_provider cfg \<noteq> ''ollama'' \<Longrightarrow> ollama_fits chat cfg reasoning base fs = Inr True"
  by (simp add: ollama_fits_def)

lemma cli_fill: "cf_provider cfg \<noteq> ''ollama'' \<Longrightarrow> \<exists>r. fill_batches (ollama_fits chat cfg reasoning base) limit bs cur sz ps = Inr r"
  by (induction ps arbitrary: bs cur sz) (simp_all add: cli_fits)

lemma cli_recheck: "cf_provider cfg \<noteq> ''ollama'' \<Longrightarrow> recheck_batches (ollama_fits chat cfg reasoning base) bs = None"
  by (induction bs) (simp_all add: cli_fits)

lemma cli_batches:
  assumes "cf_provider cfg \<noteq> ''ollama''" "validate_package_base package_base"
    "base_snapshot sha cfg package_base phase iv options = Some base"
    "select_pieces (lim_selected_text_bytes (cf_limits cfg)) (nat (max 1024 (rc_batch_bytes (cf_review cfg) div 2))) 0
      (review_order (map mc_path (iv_manifest_diff iv)) (iv_files iv)) = Some ps"
  shows "\<exists>bs. review_batches sha chat cfg package_base phase iv options reasoning = Inr bs"
proof -
  obtain r where "fill_batches (ollama_fits chat cfg reasoning base) (rc_batch_bytes (cf_review cfg)) [] [] 0
      (if ps = [] then [no_text] else ps) = Inr r" using cli_fill[OF assms(1)] by blast
  with assms cli_recheck[OF assms(1)] show ?thesis by (simp add: review_batches_def review_chunk_size_def Let_def)
qed

lemma file_pieces_nonempty: "s \<noteq> [] \<Longrightarrow> 0 < chunk \<Longrightarrow> file_pieces path s chunk 0 \<noteq> []"
  by (subst file_pieces.simps) simp

lemma example_batches: "\<exists>bs. review_batches (\<lambda>_. example_digest) example_chat default_audit_config ''demo'' ''pre'' example_inventory
    no_options ''off'' = Inr bs"
proof -
  have "base_snapshot (\<lambda>_. example_digest) default_audit_config ''demo'' ''pre'' example_inventory no_options \<noteq> None" by code_simp
  then obtain base where "base_snapshot (\<lambda>_. example_digest) default_audit_config ''demo'' ''pre'' example_inventory no_options = Some base"
    by auto
  moreover have "cf_provider default_audit_config \<noteq> ''ollama''" "validate_package_base ''demo''" by code_simp+
  moreover have "lim_selected_text_bytes (cf_limits default_audit_config) \<ge> 6" by (simp add: default_audit_config_def brief_default_def)
  ultimately show ?thesis using cli_batches
    by (simp add: example_inventory_def review_order_def example_record_def)
qed

theorem review_batches_complete_witness:
  "\<exists>chunk > 0. concat (map sn_files (case review_batches (\<lambda>_. example_digest) example_chat default_audit_config ''demo'' ''pre''
      example_inventory no_options ''off'' of Inr bs \<Rightarrow> bs | Inl e \<Rightarrow> [])) = file_pieces ''PKGBUILD'' ''pkgver'' chunk 0"
proof -
  obtain bs where b: "review_batches (\<lambda>_. example_digest) example_chat default_audit_config ''demo'' ''pre''
      example_inventory no_options ''off'' = Inr bs" using example_batches by blast
  have "review_order (map mc_path (iv_manifest_diff example_inventory)) (iv_files example_inventory) = [example_record example_digest 420]"
    by (simp add: example_inventory_def review_order_def)
  moreover have "file_pieces ''PKGBUILD'' ''pkgver'' chunk 0 \<noteq> []" if "0 < chunk" for chunk using file_pieces_nonempty that by simp
  ultimately show ?thesis using review_batches_complete[OF b] unfolding b Let_def sum.case
    by (force simp: example_record_def)
qed

section \<open>A review is bound to the scan\<close>

lemma dispatch_Inr:
  assumes "dispatch uf sha cfg wire worker q = Inr r"
  shows "request_validate uf sha q" "response_validate (dq_operation q) r" "pm_provider (dr_metadata r) = cf_provider cfg"
    "pm_model (dr_metadata r) = pv_model (active_provider cfg)" "effort_matches cfg (dr_metadata r)"
    "metadata_validate (dr_metadata r)" "pm_provider (dr_metadata r) \<noteq> []"
  using assms by (auto simp: dispatch_def response_validate_def metadata_validate_def cli_metadata_def ollama_metadata_def
      split: if_splits worker_answer.splits)

lemma review_loop_Inr:
  assumes "review_loop send iv expected call m vs bs = Inr (m', vs')"
    and "\<forall>n q r. send n q = Inr r \<longrightarrow> pm_provider (dr_metadata r) \<noteq> []"
  shows "(pm_provider m \<noteq> [] \<or> bs = [] \<longrightarrow> m' = m) \<and> (\<exists>ws. vs' = vs @ map (keep_quoted expected) ws \<and> length ws = length bs \<and>
    (\<forall>w \<in> set ws. verdict_bound iv expected w \<and> (\<exists>n b r. b \<in> set bs \<and>
       send n \<lparr>dq_version = dispatch_protocol_version, dq_operation = ''review'', dq_snapshot = Some b\<rparr> = Inr r \<and>
       dr_verdict r = Some w \<and> dr_metadata r = m')))"
  using assms(1)
proof (induction bs arbitrary: call m vs)
  case (Cons b bs)
  from Cons.prems obtain r v where r: "send call \<lparr>dq_version = dispatch_protocol_version, dq_operation = ''review'',
      dq_snapshot = Some b\<rparr> = Inr r" "dr_verdict r = Some v" "verdict_bound iv expected v"
    "pm_provider m \<noteq> [] \<longrightarrow> m = dr_metadata r"
    "review_loop send iv expected (Suc call) (dr_metadata r) (vs @ [keep_quoted expected v]) bs = Inr (m', vs')"
    by (auto split: sum.splits if_splits option.splits)
  from Cons.IH[OF r(5)] assms(2) r(1) obtain ws where ws: "m' = dr_metadata r"
    "vs' = (vs @ [keep_quoted expected v]) @ map (keep_quoted expected) ws" "length ws = length bs"
    "\<forall>w \<in> set ws. verdict_bound iv expected w \<and> (\<exists>n b r. b \<in> set bs \<and>
       send n \<lparr>dq_version = dispatch_protocol_version, dq_operation = ''review'', dq_snapshot = Some b\<rparr> = Inr r \<and>
       dr_verdict r = Some w \<and> dr_metadata r = m')" by auto
  show ?case
  proof (intro conjI exI[of _ "v # ws"])
    show "pm_provider m \<noteq> [] \<or> b # bs = [] \<longrightarrow> m' = m" using ws(1) r(4) by simp
    show "\<forall>w \<in> set (v # ws). verdict_bound iv expected w \<and> (\<exists>n c r. c \<in> set (b # bs) \<and>
       send n \<lparr>dq_version = dispatch_protocol_version, dq_operation = ''review'', dq_snapshot = Some c\<rparr> = Inr r \<and>
       dr_verdict r = Some w \<and> dr_metadata r = m')" using ws(1,4) r(1-3) by fastforce
  qed (use ws in simp_all)
qed simp

lemma keep_quoted_valid: "verdict_validate v \<Longrightarrow> verdict_validate (keep_quoted expected v)"
proof -
  assume v: "verdict_validate v"
  then obtain gs where gs: "v_guidance v = Some gs" "length gs \<le> finding_guidance_limit" "list_all valid_guidance gs"
    "distinct (map g_finding_id gs)" by (auto simp: verdict_validate_def Findings.slice_def)
  let ?P = "\<lambda>g. map_of (rev expected) (g_finding_id g) = Some (g_anchor_quote g)"
  have "length (filter ?P gs) \<le> finding_guidance_limit" using gs(2) length_filter_le le_trans by blast
  moreover have "list_all valid_guidance (filter ?P gs)" using gs(3) by (auto simp: list_all_iff)
  moreover have "distinct (map g_finding_id (filter ?P gs))" using gs(4) distinct_map_filter by blast
  ultimately show ?thesis using v gs(1) by (simp add: verdict_validate_def keep_quoted_def Findings.slice_def)
qed

definition decides :: "(string \<Rightarrow> string) \<Rightarrow> string \<Rightarrow> string list \<Rightarrow> finding \<Rightarrow> bool" where
  "decides sha minimum skip f = (severity_at_least (f_severity f) minimum \<and> finding_guidance_id sha f \<notin> set skip)"

lemma collect_targets_Some:
  "collect_targets sha selected minimum skip fs acc = Some ts \<Longrightarrow>
     t \<in> set ts \<Longrightarrow> t \<in> set acc \<or> (\<exists>f \<in> set fs. t = guidance_target_of sha selected f \<and> decides sha minimum skip f \<and> anchor_valid t)"
proof (induction fs arbitrary: acc)
  case (Cons f fs)
  let ?t = "guidance_target_of sha selected f"
  consider (skip) "collect_targets sha selected minimum skip fs acc = Some ts"
    | (stop) "ts = acc @ [?t]" "decides sha minimum skip f" "anchor_valid ?t"
    | (on) "collect_targets sha selected minimum skip fs (acc @ [?t]) = Some ts" "decides sha minimum skip f" "anchor_valid ?t"
  proof (cases "decides sha minimum skip f \<and> anchor_valid ?t \<and> length (acc @ [?t]) = finding_guidance_limit")
    case True
    with Cons.prems(1) stop show ?thesis by (simp add: Let_def decides_def)
  next
    case False
    with Cons.prems(1) skip on show ?thesis by (simp add: Let_def decides_def split: if_split_asm)
  qed
  then show ?case
  proof cases
    case skip
    from Cons.IH[OF this Cons.prems(2)] show ?thesis by auto
  next
    case stop
    with Cons.prems(2) show ?thesis by auto
  next
    case on
    from Cons.IH[OF on(1) Cons.prems(2)] on(2,3) show ?thesis by auto
  qed
qed simp

lemma base_snapshot_Some:
  assumes "base_snapshot sha cfg package_base phase iv options = Some base"
  shows "\<forall>t \<in> set (sn_targets base). \<exists>f \<in> set (iv_findings iv). t = guidance_target_of sha (selected_texts (iv_files iv)) f \<and>
    decides sha (rc_minimum_severity (cf_review cfg)) (ro_skip options) f \<and> anchor_valid t"
proof -
  from assms have "review_guidance_targets sha (iv_findings iv) (iv_files iv) (rc_minimum_severity (cf_review cfg)) (ro_skip options) =
      Some (sn_targets base)" by (auto simp: base_snapshot_def Let_def)
  from collect_targets_Some[OF this[unfolded review_guidance_targets_def]] show ?thesis by (auto simp: sort_findings_key)
qed

lemma guidance_target_of_fields [simp]: "gt_finding_id (guidance_target_of sha selected f) = finding_guidance_id sha f"
  "gt_finding (guidance_target_of sha selected f) = f"
  by (simp_all add: guidance_target_of_def split: option.split)

lemma review_batches_nonempty:
  assumes "review_batches sha chat cfg package_base phase iv options reasoning = Inr bs"
  shows "bs \<noteq> [] \<and> (\<forall>b \<in> set bs. \<exists>base. base_snapshot sha cfg package_base phase iv options = Some base \<and> sn_targets b = sn_targets base)"
proof -
  from review_batches_Inr[OF assms] obtain base ps parts where b: "base_snapshot sha cfg package_base phase iv options = Some base"
    "bs = number_batches base parts"
    "fill_batches (ollama_fits chat cfg reasoning base) (rc_batch_bytes (cf_review cfg)) [] [] 0 (if ps = [] then [no_text] else ps) = Inr parts"
    by metis
  have "parts \<noteq> []" using fill_batches_Inr[OF b(3)] by (auto split: if_splits)
  then have "bs \<noteq> []" using b(2) length_number_batches[of base parts] by fastforce
  moreover have "sn_targets c = sn_targets base" if "c \<in> set bs" for c
    using that b(2) by (auto simp: number_batches_def)
  ultimately show ?thesis using b(1) by auto
qed


section \<open>The boundary accepts what the reviewer builds\<close>

text \<open>What a finished scan guarantees, and what the boundary assumes of the digest.\<close>

definition scan_ok :: "(string \<Rightarrow> string) \<Rightarrow> inventory \<Rightarrow> bool" where
  "scan_ok sha iv =
     (validate_coverage (iv_coverage iv) \<and> yay_context_validate (iv_yay_context iv) \<and>
      source_verification_validate (iv_verification iv) \<and> list_all source_provenance_validate (iv_sources iv) \<and>
      length (iv_sources iv) \<le> 10000 \<and> list_all manifest_change_validate (iv_manifest_diff iv) \<and>
      length (iv_manifest_diff iv) \<le> 400000 \<and> list_all finding_validate (iv_findings iv) \<and> length (iv_findings iv) \<le> 100000 \<and>
      list_all storable (iv_files iv) \<and> distinct (''<none>'' # map fr_path (iv_files iv)) \<and> length (iv_files iv) \<le> 200000 \<and>
      iv_manifest_hash iv = manifest_view_hash sha (map manifest_value (iv_files iv)))"

lemma shown_paths:
  "list_all storable fs \<Longrightarrow> distinct (map fr_path fs) \<Longrightarrow> set paths \<inter> fr_path ` set fs = {} \<Longrightarrow>
     (omits \<longrightarrow> (\<forall>f \<in> set fs. \<not> below_src (fr_path f))) \<Longrightarrow>
     snapshot_paths uf omits paths (map manifest_value fs) = Some (rev (map fr_path fs) @ paths)"
proof (induction fs arbitrary: paths)
  case (Cons f fs)
  then have "snapshot_paths uf omits (fr_path f # paths) (map manifest_value fs) = Some (rev (map fr_path fs) @ fr_path f # paths)"
    by auto
  moreover have "fr_path f \<notin> set paths" "\<not> (omits \<and> below_src (fr_path f))" using Cons.prems by auto
  ultimately show ?case using Cons.prems(1) validate_manifest_value[of f uf] by simp
qed simp

lemma collect_targets_take:
  "collect_targets sha selected minimum skip fs acc = Some ts \<Longrightarrow> length acc < finding_guidance_limit \<Longrightarrow>
     length ts \<le> finding_guidance_limit \<and> (\<exists>n. ts = acc @ map (guidance_target_of sha selected) (take n (filter (decides sha minimum skip) fs)))"
proof (induction fs arbitrary: acc)
  case (Cons f fs)
  let ?t = "guidance_target_of sha selected f"
  consider (skip) "\<not> decides sha minimum skip f" "collect_targets sha selected minimum skip fs acc = Some ts"
    | (stop) "decides sha minimum skip f" "ts = acc @ [?t]"
    | (on) "decides sha minimum skip f" "length (acc @ [?t]) < finding_guidance_limit"
        "collect_targets sha selected minimum skip fs (acc @ [?t]) = Some ts"
  proof (cases "decides sha minimum skip f \<and> anchor_valid ?t \<and> length (acc @ [?t]) = finding_guidance_limit")
    case True
    with Cons.prems(1) stop show ?thesis by (simp add: Let_def decides_def)
  next
    case False
    with Cons.prems skip on show ?thesis by (simp add: Let_def decides_def split: if_split_asm)
  qed
  then show ?case
  proof cases
    case skip
    from Cons.IH[OF skip(2) Cons.prems(2)] skip(1) show ?thesis by simp
  next
    case stop
    with Cons.prems(2) have "length ts \<le> finding_guidance_limit" by simp
    moreover have "ts = acc @ map (guidance_target_of sha selected) (take 1 (filter (decides sha minimum skip) (f # fs)))"
      using stop by simp
    ultimately show ?thesis by blast
  next
    case on
    from Cons.IH[OF on(3,2)] obtain n where "length ts \<le> finding_guidance_limit"
      "ts = acc @ map (guidance_target_of sha selected) (take (Suc n) (filter (decides sha minimum skip) (f # fs)))"
      using on(1) by auto
    then show ?thesis by blast
  qed
qed simp

lemma base_targets_valid:
  assumes "base_snapshot sha cfg package_base phase iv options = Some base" "list_all finding_validate (iv_findings iv)"
    "distinct (map (finding_guidance_id sha) (filter (decides sha (rc_minimum_severity (cf_review cfg)) (ro_skip options)) (iv_findings iv)))"
  shows "targets_valid sha base" "length (sn_targets base) \<le> finding_guidance_limit"
proof -
  let ?D = "decides sha (rc_minimum_severity (cf_review cfg)) (ro_skip options)"
  from assms(1) have t: "review_guidance_targets sha (iv_findings iv) (iv_files iv) (rc_minimum_severity (cf_review cfg)) (ro_skip options) =
      Some (sn_targets base)" and f: "sn_findings base = iv_findings iv" "sn_minimum base = rc_minimum_severity (cf_review cfg)"
    by (auto simp: base_snapshot_def Let_def)
  from collect_targets_take[OF t[unfolded review_guidance_targets_def]] obtain n where
    n: "length (sn_targets base) \<le> finding_guidance_limit"
    "sn_targets base = map (guidance_target_of sha (selected_texts (iv_files iv))) (take n (filter ?D (sort_findings (iv_findings iv))))"
    by (auto simp: finding_guidance_limit_def)
  have "mset (map (finding_guidance_id sha) (filter ?D (sort_findings (iv_findings iv)))) =
      mset (map (finding_guidance_id sha) (filter ?D (iv_findings iv)))"
    by (simp add: sort_findings_key filter_mset_eq_conv[symmetric] mset_filter)
  then have "distinct (map (finding_guidance_id sha) (filter ?D (sort_findings (iv_findings iv))))"
    using assms(3) mset_eq_imp_distinct_iff by blast
  then have "distinct (map gt_finding_id (sn_targets base))"
    unfolding n(2) map_map comp_def guidance_target_of_fields by (simp add: distinct_take flip: take_map)
  with base_snapshot_Some[OF assms(1)] assms(2) f show "targets_valid sha base"
    by (force simp: targets_valid_def list_all_iff decides_def)
  show "length (sn_targets base) \<le> finding_guidance_limit" by (rule n(1))
qed

lemma piece_valid:
  assumes "p \<in> set (file_pieces path s chunk 0)" "path \<in> set paths" "3 * chunk \<le> 20 * 1024 * 1024"
  shows "selected_file_valid paths p"
proof -
  from file_pieces_each[OF assms(1)] obtain k stop where k: "p = selected_file_piece path s k stop" "k < stop"
    "stop = min (length s) (k + chunk)" by blast
  have "length (sf_content p) \<le> 3 * length (Rules.slice k stop s)" using replacement_lines(3) k(1)
    by (simp add: selected_file_piece_def Let_def)
  also have "\<dots> \<le> 3 * chunk" using slice_content[OF k(3)] by simp
  finally have "int (length (sf_content p)) \<le> 20 * 1024 * 1024" using assms(3) by linarith
  with k piece_lines[of k stop s path] assms(2) show ?thesis
    by (simp add: selected_file_valid_def selected_file_piece_def Let_def newlines_def)
qed

lemma file_pieces_Nil [simp]: "file_pieces path [] chunk k = []"
  by (subst file_pieces.simps) simp

lemma review_chunk_bound: "review_chunk_size chat cfg reasoning base = Inr k \<Longrightarrow> int k \<le> max 1024 (rc_batch_bytes (cf_review cfg) div 2)"
  by (auto simp: review_chunk_size_def Let_def split: if_splits sum.splits)

lemma base_snapshot_fields:
  assumes "base_snapshot sha cfg package_base phase iv options = Some base"
  shows "sn_manifest base = map manifest_value (filter (\<lambda>f. includes_path cfg phase (fr_path f)) (iv_files iv))"
    "sn_diff base = filter (\<lambda>c. includes_path cfg phase (mc_path c)) (iv_manifest_diff iv)"
    "sn_view_hash base = manifest_view_hash sha (sn_manifest base)" "sn_manifest_hash base = iv_manifest_hash iv"
    "sn_omissions base = [] \<Longrightarrow> sn_manifest base = map manifest_value (iv_files iv)"
    "sn_omissions base \<noteq> [] \<Longrightarrow> sn_omissions base = [''src/''] \<and> phase = ''post'' \<and> (\<forall>p. includes_path cfg phase p \<longrightarrow> \<not> below_src p)"
proof -
  from assms show "sn_manifest base = map manifest_value (filter (\<lambda>f. includes_path cfg phase (fr_path f)) (iv_files iv))"
    "sn_diff base = filter (\<lambda>c. includes_path cfg phase (mc_path c)) (iv_manifest_diff iv)"
    "sn_view_hash base = manifest_view_hash sha (sn_manifest base)" "sn_manifest_hash base = iv_manifest_hash iv"
    by (auto simp: base_snapshot_def Let_def)
  show "sn_manifest base = map manifest_value (iv_files iv)" if "sn_omissions base = []"
  proof -
    from assms that have "\<not> length (filter (\<lambda>f. includes_path cfg phase (fr_path f)) (iv_files iv)) < length (iv_files iv)"
      by (auto simp: base_snapshot_def Let_def split: if_splits)
    then have "filter (\<lambda>f. includes_path cfg phase (fr_path f)) (iv_files iv) = iv_files iv"
      by (metis filter_True length_filter_less)
    with assms show ?thesis by (auto simp: base_snapshot_def Let_def)
  qed
  show "sn_omissions base = [''src/''] \<and> phase = ''post'' \<and> (\<forall>p. includes_path cfg phase p \<longrightarrow> \<not> below_src p)"
    if "sn_omissions base \<noteq> []"
  proof -
    have "\<exists>p. \<not> includes_path cfg phase p"
    proof (rule ccontr)
      assume "\<not> ?thesis"
      with assms that show False by (auto simp: base_snapshot_def Let_def)
    qed
    with assms that show ?thesis by (auto simp: base_snapshot_def Let_def includes_path_def split: if_splits)
  qed
qed

lemma built_batches_pass:
  assumes bs: "review_batches sha chat cfg package_base phase iv options reasoning = Inr bs"
    and scan: "scan_ok sha iv" and sha: "\<forall>s. valid_hex_digest (sha s)"
    and cfg: "phase \<in> {''pre'', ''post'', ''artifact''}" "valid_severity (rc_minimum_severity (cf_review cfg))"
      "rc_batch_bytes (cf_review cfg) \<le> 13 * 2 ^ 20"
    and same: "distinct (map (finding_guidance_id sha)
      (filter (decides sha (rc_minimum_severity (cf_review cfg)) (ro_skip options)) (iv_findings iv)))"
    and shown: "\<forall>f \<in> set (iv_files iv). fr_selected_text f \<noteq> [] \<longrightarrow> includes_path cfg phase (fr_path f)"
    and b: "b \<in> set bs"
  shows "snapshot_validate uf sha b"
proof -
  obtain base chunk ps parts where base: "base_snapshot sha cfg package_base phase iv options = Some base"
    and chunk: "review_chunk_size chat cfg reasoning base = Inr chunk" and pb: "validate_package_base package_base"
    and ps: "select_pieces (lim_selected_text_bytes (cf_limits cfg)) chunk 0
      (review_order (map mc_path (iv_manifest_diff iv)) (iv_files iv)) = Some ps"
    and parts: "fill_batches (ollama_fits chat cfg reasoning base) (rc_batch_bytes (cf_review cfg)) [] [] 0
      (if ps = [] then [no_text] else ps) = Inr parts" and num: "bs = number_batches base parts"
    using review_batches_Inr[OF bs] by metis
  from b num obtain i where i: "i < length parts" "b = base\<lparr>sn_batch_index := int i, sn_batch_count := int (length parts), sn_files := parts ! i\<rparr>"
    by (metis in_set_conv_nth length_number_batches number_batches_nth)
  note fields = base_snapshot_fields[OF base] and tv = base_targets_valid[OF base _ same]
  let ?fs = "filter (\<lambda>f. includes_path cfg phase (fr_path f)) (iv_files iv)"
  let ?omits = "sn_omissions base \<noteq> []"
  have paths: "snapshot_paths uf ?omits [''<none>''] (sn_manifest base) = Some (rev (map fr_path ?fs) @ [''<none>''])"
    unfolding fields(1)
  proof (rule shown_paths)
    show "list_all storable ?fs" "set [''<none>''] \<inter> fr_path ` set ?fs = {}"
      using scan by (auto simp: scan_ok_def list_all_iff)
    show "distinct (map fr_path ?fs)" using scan by (simp add: scan_ok_def distinct_map_filter)
    show "?omits \<longrightarrow> (\<forall>f \<in> set ?fs. \<not> below_src (fr_path f))" using fields(6) by auto
  qed
  have pieces: "list_all (selected_file_valid (rev (map fr_path ?fs) @ [''<none>''])) (parts ! i)"
  proof -
    have "rc_batch_bytes (cf_review cfg) div 2 \<le> 6815744" using cfg(3) by simp
    then have "int chunk \<le> 6815744" using review_chunk_bound[OF chunk] by simp
    then have c: "3 * chunk \<le> 20 * 1024 * 1024" by simp
    have "selected_file_valid (rev (map fr_path ?fs) @ [''<none>'']) p" if "p \<in> set (if ps = [] then [no_text] else ps)" for p
    proof (cases "ps = []")
      case True
      with that have p: "p = no_text" by simp
      have "selected_file_valid [''<none>''] no_text" by code_simp
      then show ?thesis by (auto simp: p selected_file_valid_def)
    next
      case False
      with that have "p \<in> set ps" by simp
      with select_pieces_Some[OF ps] obtain r where r: "r \<in> set (iv_files iv)"
        "p \<in> set (file_pieces (fr_path r) (fr_selected_text r) chunk 0)" by (auto simp: review_order_def)
      then have "fr_selected_text r \<noteq> []" by auto
      with shown r(1) have "fr_path r \<in> set (rev (map fr_path ?fs) @ [''<none>''])" by auto
      from piece_valid[OF r(2) this c] show ?thesis .
    qed
    moreover have "set (parts ! i) \<subseteq> set (if ps = [] then [no_text] else ps)"
      using fill_batches_Inr[OF parts] i(1) nth_mem[OF i(1)] by (metis UN_upper append_Nil concat.simps(1) set_concat)
    ultimately show ?thesis by (auto simp: list_all_iff)
  qed
  have hash: "valid_hex_digest (iv_manifest_hash iv)" "valid_hex_digest (sn_view_hash base)"
    using scan sha fields(3) by (simp_all add: scan_ok_def manifest_view_hash_def)
  have ne: "parts ! i \<noteq> []" using fill_batches_Inr[OF parts] nth_mem[OF i(1)] by fastforce
  have head: "snapshot_head_valid b"
  proof -
    have k: "sn_version base = review_snapshot_version" "sn_package_base base = package_base" "sn_phase base = phase"
      "sn_coverage base = iv_coverage iv" "sn_minimum base = rc_minimum_severity (cf_review cfg)" "sn_findings base = iv_findings iv"
      "sn_yay base = iv_yay_context iv" "sn_sources base = iv_sources iv" "sn_verification base = iv_verification iv"
      using base by (auto simp: base_snapshot_def Let_def)
    have om: "length (sn_omissions base) \<le> 1 \<and> list_all (\<lambda>om. om = ''src/'' \<and> phase = ''post'') (sn_omissions base) \<and> distinct (sn_omissions base)"
      using fields(6) by (cases "sn_omissions base = []") auto
    have "length (sn_manifest base) \<le> 200000" "length (sn_diff base) \<le> 400000"
      using scan le_trans[OF length_filter_le] by (auto simp: fields(1,2) scan_ok_def)
    moreover have "parts \<noteq> []" using i(1) by auto
    ultimately show ?thesis using k om scan cfg hash(1) tv(2) pb ne i(1)
      by (simp add: snapshot_head_valid_def i(2) fields(4) scan_ok_def)
  qed
  have diff: "list_all (\<lambda>c. manifest_change_validate c \<and> \<not> (?omits \<and> has_prefix (mc_path c) ''src/'')) (sn_diff base)"
    using scan fields(6) by (auto simp: fields(2) scan_ok_def list_all_iff below_src_def)
  have view: "\<not> ?omits \<longrightarrow> manifest_view_hash sha (sn_manifest base) = iv_manifest_hash iv"
    using fields(5) scan by (simp add: scan_ok_def)
  have "targets_valid sha b" using tv(1) scan by (simp add: targets_valid_def scan_ok_def i(2))
  then show ?thesis
    unfolding snapshot_validate_def Let_def using head diff view hash(2) paths pieces
    by (simp add: i(2) fields(3,4))
qed

text \<open>C39: the reviewer never builds a request its own boundary refuses. For the inventory of a finished scan, a valid threshold and a
  batch size of at most 13 MiB, with no two deciding findings that are the same and no text selected below an omitted vendor tree,
  every batch is a valid snapshot: the manifest and its hash, the omission, the guidance targets with their anchors, and the line
  range of every piece.\<close>

theorem review_batches_valid:
  assumes "review_batches sha chat cfg package_base phase iv options reasoning = Inr bs"
    and "scan_ok sha iv" and "\<forall>s. valid_hex_digest (sha s)"
    and "phase \<in> {''pre'', ''post'', ''artifact''}" "valid_severity (rc_minimum_severity (cf_review cfg))"
      "rc_batch_bytes (cf_review cfg) \<le> 13 * 2 ^ 20"
    and "distinct (map (finding_guidance_id sha)
      (filter (decides sha (rc_minimum_severity (cf_review cfg)) (ro_skip options)) (iv_findings iv)))"
    and "\<forall>f \<in> set (iv_files iv). fr_selected_text f \<noteq> [] \<longrightarrow> includes_path cfg phase (fr_path f)"
    and "b \<in> set bs"
  shows "snapshot_validate uf sha b"
  using assms by (rule built_batches_pass)

section \<open>Control characters end a review\<close>

text \<open>A rendered text is not a fixed point once its rendering is longer than the limit.\<close>

lemma render_runes_cut: "limit - k < int (length rs) \<Longrightarrow> k \<le> limit \<Longrightarrow> CHR 0xE2 \<in> set (render_runes limit k rs)"
proof (induction limit k rs rule: render_runes.induct)
  case (2 limit k r rs)
  have "encode_rune ellipsis = [CHR 0xE2, CHR 0x80, CHR 0xA6]" by code_simp
  with 2 show ?case by auto
qed simp

lemma render_runes_whole: "int (length rs) \<le> limit - k \<Longrightarrow> render_runes limit k rs = concat (map render_rune rs)"
  by (induction limit k rs rule: render_runes.induct) auto

definition hidden_control :: "char \<Rightarrow> bool" where "hidden_control c = (code c < 32 \<and> code c \<noteq> 10 \<and> code c \<noteq> 9)"

definition plain_ascii :: "string \<Rightarrow> bool" where "plain_ascii s = list_all (\<lambda>c. code c < 128) s"

lemma render_ascii:
  assumes "r < 128"
  shows "plain_ascii (render_rune r)" "(if r < 32 \<and> r \<noteq> 10 \<and> r \<noteq> 9 then 6 else 1) \<le> length (render_rune r)"
proof -
  have h: "plain_ascii (hex04 r)" "4 \<le> length (hex04 r)"
    using hex04_chars[of r] by (auto simp: plain_ascii_def list_all_iff) (simp add: hex04_def Let_def)
  have e: "plain_ascii (encode_rune r)" "length (encode_rune r) = 1"
    using assms by (simp_all add: encode_rune_def plain_ascii_def)
  show "plain_ascii (render_rune r)"
    using h e by (simp add: render_rune_def plain_ascii_def)
  show "(if r < 32 \<and> r \<noteq> 10 \<and> r \<noteq> 9 then 6 else 1) \<le> length (render_rune r)"
    using h e by (simp add: render_rune_def is_control_def)
qed

lemma rendered_length:
  assumes "plain_ascii s"
  shows "plain_ascii (concat (map render_rune (map code s)))"
    "length s + 5 * length (filter hidden_control s) \<le> length (concat (map render_rune (map code s)))"
proof (atomize (full), use assms in \<open>induction s\<close>)
  case (Cons c s)
  then have "code c < 128" by (simp add: plain_ascii_def)
  from render_ascii[OF this] Cons show ?case by (auto simp: plain_ascii_def hidden_control_def split: if_splits)
qed (simp add: plain_ascii_def)

lemma inline_ascii: "plain_ascii s \<Longrightarrow> int (length s) \<le> n \<Longrightarrow> terminal_inline s n =
    map (\<lambda>c. if c = CHR 0x0A \<or> c = CHR 0x0D \<or> c = CHR 0x09 then CHR '' '' else c) (concat (map render_rune (map code s)))"
  using runes_ascii_append[of s "[]"] render_runes_whole[of "map code s" n 0]
  by (simp add: terminal_inline_def safe_inline_def safe_text_def plain_ascii_def runes_Nil)

lemma inline_not_fixed:
  assumes "plain_ascii s" "length s \<le> 320" "54 \<le> length (filter hidden_control s)"
  shows "terminal_inline (terminal_inline s 320) 320 \<noteq> terminal_inline s 320" "terminal_inline s 320 \<noteq> []"
proof -
  let ?b = "\<lambda>c. if c = CHR 0x0A \<or> c = CHR 0x0D \<or> c = CHR 0x09 then CHR '' '' else c"
  let ?t = "terminal_inline s 320"
  have t: "?t = map ?b (concat (map render_rune (map code s)))" using inline_ascii[OF assms(1)] assms(2) by simp
  note r = rendered_length[OF assms(1)]
  have len: "320 < length ?t" using r(2) assms(3) length_filter_le[of hidden_control s] by (simp only: t length_map)
  have asc: "plain_ascii ?t" using r(1) by (simp only: t) (auto simp: plain_ascii_def list_all_iff)
  have "CHR 0xE2 \<in> set (render_runes 320 0 (runes ?t))"
    using len runes_ascii_append[of ?t "[]"] asc by (intro render_runes_cut) (simp_all add: plain_ascii_def)
  then have "CHR 0xE2 \<in> set (terminal_inline ?t 320)"
    unfolding terminal_inline_def safe_inline_def safe_text_def by force
  moreover have "CHR 0xE2 \<notin> set ?t" using asc by (auto simp: plain_ascii_def list_all_iff)
  ultimately show "terminal_inline ?t 320 \<noteq> ?t" by metis
  show "?t \<noteq> []" using len by auto
qed

lemma collect_targets_none:
  assumes "f \<in> set fs" "decides sha minimum skip f" "\<not> anchor_valid (guidance_target_of sha selected f)"
    "length acc + length (filter (decides sha minimum skip) fs) \<le> finding_guidance_limit"
  shows "collect_targets sha selected minimum skip fs acc = None"
  using assms
proof (induction fs arbitrary: acc)
  case (Cons x fs)
  let ?t = "guidance_target_of sha selected x"
  show ?case
  proof (cases "decides sha minimum skip x")
    case x: True
    show ?thesis
    proof (cases "anchor_valid ?t")
      case True
      with Cons.prems have f: "f \<in> set fs" by auto
      then have "filter (decides sha minimum skip) fs \<noteq> []" using Cons.prems(2) by (auto simp: filter_empty_conv)
      then have "length (acc @ [?t]) \<noteq> finding_guidance_limit" using Cons.prems(4) x
        by (cases "filter (decides sha minimum skip) fs") auto
      moreover have "collect_targets sha selected minimum skip fs (acc @ [?t]) = None"
        using Cons.IH[OF f Cons.prems(2,3), of "acc @ [?t]"] Cons.prems(4) x by simp
      ultimately show ?thesis using x True by (simp add: Let_def decides_def)
    next
      case False
      with x show ?thesis by (simp add: Let_def decides_def)
    qed
  next
    case False
    with Cons show ?thesis by (auto simp: decides_def)
  qed
qed simp

lemma find_line: "l \<in> set ns \<Longrightarrow> find (\<lambda>c. gc_line c = l \<and> gc_text c \<noteq> []) (map (\<lambda>n. \<lparr>gc_line = n, gc_text = g n\<rparr>) ns) =
    (if g l = [] then None else Some \<lparr>gc_line = l, gc_text = g l\<rparr>)"
proof (cases "g l = []")
  case True
  have "find (\<lambda>c. gc_line c = l \<and> gc_text c \<noteq> []) (map (\<lambda>n. \<lparr>gc_line = n, gc_text = g n\<rparr>) ns) = None" for ns
    using True by (induction ns) auto
  with True show ?thesis by simp
next
  case False
  then show "l \<in> set ns \<Longrightarrow> ?thesis" by (induction ns) auto
qed

lemma context_of_line:
  assumes "valid_utf8 raw" "1 \<le> l" "nat (l - 1) < length (split_on nl raw)" "split_on nl raw ! nat (l - 1) \<noteq> []"
  shows "\<exists>cs c. finding_context_lines raw l 2 = Some cs \<and> find (\<lambda>c. gc_line c = l \<and> gc_text c \<noteq> []) cs =
    (if terminal_inline (split_on nl raw ! nat (l - 1)) 320 = [] then None
     else Some \<lparr>gc_line = l, gc_text = terminal_inline (split_on nl raw ! nat (l - 1)) 320\<rparr>)"
proof -
  let ?split = "split_on nl raw"
  define all where "all = (if last ?split = [] then butlast ?split else ?split)"
  have i: "nat (l - 1) < length all \<and> all ! nat (l - 1) = ?split ! nat (l - 1)"
  proof (cases "last ?split = []")
    case True
    then have "nat (l - 1) \<noteq> length ?split - 1" using assms(4) split_on_nonempty[of nl raw] by (metis last_conv_nth)
    with assms(3) True show ?thesis by (simp add: all_def nth_butlast)
  qed (use assms(3) in \<open>simp add: all_def\<close>)
  then have l: "l \<le> int (length all)" using assms(2) by linarith
  let ?line = "\<lambda>n. \<lparr>gc_line = n, gc_text = terminal_inline (all ! nat (n - 1)) 320\<rparr>"
  let ?cs = "map ?line [max 1 (l - 2) .. min (int (length all)) (l + 2)]"
  have "finding_context_lines raw l 2 = Some ?cs"
    using assms(1,2) l by (simp add: finding_context_lines_def Let_def valid_utf8_or_replacement_def flip: all_def)
  moreover have "l \<in> set [max 1 (l - 2) .. min (int (length all)) (l + 2)]" using assms(2) l by auto
  note find_line[OF this, of "\<lambda>n. terminal_inline (all ! nat (n - 1)) 320"]
  ultimately show ?thesis using i by auto
qed

text \<open>C40: one line can end the review of a whole package. A line of at most 320 ASCII characters with at least 54 control
  characters renders longer than the limit of an anchor, and an anchor must be a fixed point of the rendering. So when a finding
  that needs a decision is on such a line of a selected text, the reviewer fails before the model is asked, whatever provider
  is configured and whatever it would answer.\<close>

theorem control_line_ends_review:
  assumes f: "f \<in> set (iv_findings iv)" "decides sha (rc_minimum_severity (cf_review cfg)) (ro_skip options) f" "f_line f = Some l" "1 \<le> l"
    and few: "length (filter (decides sha (rc_minimum_severity (cf_review cfg)) (ro_skip options)) (iv_findings iv)) \<le> finding_guidance_limit"
    and selected: "selected_texts (iv_files iv) (f_file f) = Some raw" "valid_utf8 raw" "nat (l - 1) < length (split_on nl raw)"
    and line: "plain_ascii (split_on nl raw ! nat (l - 1))" "length (split_on nl raw ! nat (l - 1)) \<le> 320"
      "54 \<le> length (filter hidden_control (split_on nl raw ! nat (l - 1)))"
  shows "\<exists>e. review uf sha chat wire worker cfg package_base phase iv options = Inl e"
proof -
  note bad = inline_not_fixed[OF line]
  have "split_on nl raw ! nat (l - 1) \<noteq> []" using line(3) by auto
  from context_of_line[OF selected(2) f(4) selected(3) this] bad(2) obtain cs where
    "finding_context_lines raw l finding_preview_radius = Some cs" "find (\<lambda>c. gc_line c = l \<and> gc_text c \<noteq> []) cs =
      Some \<lparr>gc_line = l, gc_text = terminal_inline (split_on nl raw ! nat (l - 1)) 320\<rparr>" by (auto simp: finding_preview_radius_def)
  then have "gt_anchor_text (guidance_target_of sha (selected_texts (iv_files iv)) f) = terminal_inline (split_on nl raw ! nat (l - 1)) 320"
    using f(3) selected(1) by (simp add: guidance_target_of_def context_anchor_def)
  with bad(1) have "\<not> anchor_valid (guidance_target_of sha (selected_texts (iv_files iv)) f)" by (simp add: anchor_valid_def)
  moreover have "length (filter (decides sha (rc_minimum_severity (cf_review cfg)) (ro_skip options)) (sort_findings (iv_findings iv))) =
      length (filter (decides sha (rc_minimum_severity (cf_review cfg)) (ro_skip options)) (iv_findings iv))"
    by (intro mset_eq_length) (simp add: sort_findings_key)
  ultimately have "review_guidance_targets sha (iv_findings iv) (iv_files iv) (rc_minimum_severity (cf_review cfg)) (ro_skip options) = None"
    unfolding review_guidance_targets_def using f(1,2) few by (intro collect_targets_none[of f]) (simp_all add: sort_findings_key)
  then have "base_snapshot sha cfg package_base phase iv options = None" by (simp add: base_snapshot_def Let_def)
  then have "review_batches sha chat cfg package_base phase iv options r \<noteq> Inr x" for r x by (simp add: review_batches_def)
  then show ?thesis by (auto simp: review_def Let_def split: sum.split)
qed
definition control_inventory :: inventory where
  "control_inventory = example_inventory\<lparr>
     iv_files := [(example_record example_digest 420)\<lparr>fr_selected_text := replicate 54 (CHR 0x01) @ [nl]\<rparr>],
     iv_findings := [example_finding\<lparr>f_severity := ''high'', f_file := ''PKGBUILD'', f_line := Some 1, f_rule_id := ''unicode-control''\<rparr>]\<rparr>"

theorem control_line_ends_review_witness:
  "\<forall>worker. \<exists>e. review (\<lambda>x y. x = y) (\<lambda>_. example_digest) example_chat (\<lambda>_. 0) worker default_audit_config ''demo'' ''pre''
     control_inventory no_options = Inl e"
proof
  fix worker
  let ?f = "example_finding\<lparr>f_severity := ''high'', f_file := ''PKGBUILD'', f_line := Some 1, f_rule_id := ''unicode-control''\<rparr>"
  let ?raw = "replicate 54 (CHR 0x01) @ [nl]"
  let ?D = "decides (\<lambda>_. example_digest) (rc_minimum_severity (cf_review default_audit_config)) (ro_skip no_options)"
  have split: "split_on nl ?raw = [replicate 54 (CHR 0x01), []]" by code_simp
  have "?f \<in> set (iv_findings control_inventory)" by (simp add: control_inventory_def)
  moreover have "?D ?f" by code_simp
  moreover have "f_line ?f = Some 1" "(1 :: int) \<le> 1" by simp_all
  moreover have "length (filter ?D (iv_findings control_inventory)) \<le> finding_guidance_limit"
    using length_filter_le[of ?D "iv_findings control_inventory"] by (simp add: control_inventory_def finding_guidance_limit_def)
  moreover have "selected_texts (iv_files control_inventory) (f_file ?f) = Some ?raw"
    by (simp add: control_inventory_def selected_texts_def example_record_def)
  moreover have "valid_utf8 ?raw" by (intro valid_utf8_ascii) code_simp
  moreover have "nat (1 - 1) < length (split_on nl ?raw)" by (simp add: split)
  moreover have "plain_ascii (split_on nl ?raw ! nat (1 - 1))" "length (split_on nl ?raw ! nat (1 - 1)) \<le> 320"
    "54 \<le> length (filter hidden_control (split_on nl ?raw ! nat (1 - 1)))"
    by (simp_all add: split) code_simp+
  ultimately show "\<exists>e. review (\<lambda>x y. x = y) (\<lambda>_. example_digest) example_chat (\<lambda>_. 0) worker default_audit_config ''demo'' ''pre''
     control_inventory no_options = Inl e"
    by (rule control_line_ends_review)
qed

section \<open>Examples\<close>

definition scanned_inventory :: inventory where
  "scanned_inventory = example_inventory\<lparr>iv_findings := []\<rparr>"

lemma scanned_ok: "scan_ok (\<lambda>_. example_digest) scanned_inventory"
proof -
  have "validate_coverage example_coverage" "yay_context_validate example_yay_context" "source_verification_validate (r_verification example_report)"
    by code_simp+
  then show ?thesis using example_storable
    by (simp add: scan_ok_def scanned_inventory_def example_inventory_def manifest_view_hash_def example_record_def)
qed

lemma scanned_batches: "\<exists>bs. review_batches (\<lambda>_. example_digest) example_chat default_audit_config ''demo'' ''pre'' scanned_inventory
    no_options ''off'' = Inr bs"
proof -
  have "base_snapshot (\<lambda>_. example_digest) default_audit_config ''demo'' ''pre'' scanned_inventory no_options \<noteq> None" by code_simp
  then obtain base where "base_snapshot (\<lambda>_. example_digest) default_audit_config ''demo'' ''pre'' scanned_inventory no_options = Some base"
    by auto
  moreover have "cf_provider default_audit_config \<noteq> ''ollama''" "validate_package_base ''demo''" by code_simp+
  moreover have "lim_selected_text_bytes (cf_limits default_audit_config) \<ge> 6" by (simp add: default_audit_config_def brief_default_def)
  ultimately show ?thesis using cli_batches
    by (simp add: scanned_inventory_def example_inventory_def review_order_def example_record_def)
qed

theorem review_batches_valid_witness:
  "\<exists>bs. bs \<noteq> [] \<and> review_batches (\<lambda>_. example_digest) example_chat default_audit_config ''demo'' ''pre'' scanned_inventory no_options ''off'' = Inr bs \<and>
     snapshot_validate (\<lambda>x y. x = y) (\<lambda>_. example_digest) (hd bs)"
proof -
  obtain bs where bs: "review_batches (\<lambda>_. example_digest) example_chat default_audit_config ''demo'' ''pre'' scanned_inventory
    no_options ''off'' = Inr bs" using scanned_batches by blast
  have ne: "bs \<noteq> []" using review_batches_nonempty[OF bs] by blast
  have "valid_hex_digest example_digest" by code_simp
  moreover have "valid_severity (rc_minimum_severity (cf_review default_audit_config))" by code_simp
  moreover have "rc_batch_bytes (cf_review default_audit_config) \<le> 13 * 2 ^ 20" by (simp add: default_audit_config_def default_review_def)
  ultimately have "snapshot_validate (\<lambda>x y. x = y) (\<lambda>_. example_digest) (hd bs)"
    using review_batches_valid[OF bs scanned_ok] ne by (simp add: scanned_inventory_def includes_path_def)
  with bs ne show ?thesis by blast
qed
lemma review_loop_succeeds:
  assumes "\<And>n b. b \<in> set bs \<Longrightarrow>
      send n \<lparr>dq_version = dispatch_protocol_version, dq_operation = ''review'', dq_snapshot = Some b\<rparr> = Inr r"
    and "dr_verdict r = Some v" "verdict_bound iv expected v" "pm_provider m = [] \<or> m = dr_metadata r"
  shows "\<exists>m' vs'. review_loop send iv expected call m vs bs = Inr (m', vs')"
  using assms(1,4) by (induction bs arbitrary: call m vs) (auto simp: assms(2,3))

definition example_response :: dispatch_response where
  "example_response = \<lparr>dr_version = dispatch_protocol_version,
     dr_metadata = \<lparr>pm_provider = ''codex'', pm_transport = ''cli'', pm_runtime_version = ''1.0'',
       pm_model = pv_model (active_provider default_audit_config), pm_model_digest = [], pm_context_tokens = 0, pm_thinking = False,
       pm_effort = pv_effort (active_provider default_audit_config), pm_adapter_policy = ''codex-1'', pm_warning = []\<rparr>,
     dr_verdict = Some \<lparr>v_schema_version = verdict_schema_version, v_verdict = ''allow'', v_confidence = ''high'', v_summary = ''plain'',
       v_prompt_injection = False, v_findings = Some [], v_guidance = Some [], v_coverage_notes = Some []\<rparr>,
     dr_metrics = [], dr_diagnostic = False\<rparr>"

lemma example_review: "\<exists>m vs. review (\<lambda>x y. x = y) (\<lambda>_. example_digest) example_chat (\<lambda>_. 0) (\<lambda>_ _. Worker_Response example_response)
    default_audit_config ''demo'' ''pre'' scanned_inventory no_options = Inr (m, vs)"
proof -
  obtain bs where bs: "review_batches (\<lambda>_. example_digest) example_chat default_audit_config ''demo'' ''pre'' scanned_inventory
    no_options ''off'' = Inr bs" using scanned_batches by blast
  have fs: "iv_findings scanned_inventory = []" by (simp add: scanned_inventory_def)
  have "valid_hex_digest example_digest" by code_simp
  moreover have "valid_severity (rc_minimum_severity (cf_review default_audit_config))" by code_simp
  moreover have "rc_batch_bytes (cf_review default_audit_config) \<le> 13 * 2 ^ 20" by (simp add: default_audit_config_def default_review_def)
  ultimately have valid: "snapshot_validate (\<lambda>x y. x = y) (\<lambda>_. example_digest) b" if "b \<in> set bs" for b
    using built_batches_pass[OF bs scanned_ok] that by (simp add: fs includes_path_def)
  have "response_validate ''review'' example_response" by code_simp
  moreover have "pm_provider (dr_metadata example_response) = cf_provider default_audit_config" by code_simp
  moreover have "effort_matches default_audit_config (dr_metadata example_response)" by code_simp
  moreover have "0 \<le> lim_dispatch_bytes (cf_limits default_audit_config)" by (simp add: default_audit_config_def brief_default_def)
  ultimately have sent: "dispatch (\<lambda>x y. x = y) (\<lambda>_. example_digest) default_audit_config (\<lambda>_. 0) (\<lambda>_. Worker_Response example_response)
      \<lparr>dq_version = dispatch_protocol_version, dq_operation = ''review'', dq_snapshot = Some b\<rparr> = Inr example_response"
    if "b \<in> set bs" for b
    using valid[OF that] by (simp add: dispatch_def request_validate_def) (simp add: example_response_def)
  from review_batches_nonempty[OF bs] obtain base where b: "base_snapshot (\<lambda>_. example_digest) default_audit_config ''demo'' ''pre''
      scanned_inventory no_options = Some base" "sn_targets (hd bs) = sn_targets base" by (meson hd_in_set)
  have t: "sn_targets (hd bs) = []" using base_snapshot_Some[OF b(1)] b(2) fs by (cases "sn_targets base") auto
  have "verdict_bound scanned_inventory [] (the (dr_verdict example_response))" by code_simp
  moreover have "cf_provider default_audit_config \<noteq> ''ollama''" by code_simp
  moreover have "dr_verdict example_response = Some (the (dr_verdict example_response))" by (simp add: example_response_def)
  ultimately show ?thesis
    using review_loop_succeeds[of bs "\<lambda>n. dispatch (\<lambda>x y. x = y) (\<lambda>_. example_digest) default_audit_config (\<lambda>_. 0)
      (\<lambda>_. Worker_Response example_response)" example_response _ scanned_inventory "[]" no_metadata 0 "[]"] sent bs t
    by (simp add: review_def no_options_def no_metadata_def)
qed


end
