(* ===== verification/Scan_Static.thy ===== *)
theory Scan_Static
  imports Source_Records "HOL-Library.AList"
begin

text \<open>
  internal/brief/scanner.go, the part that reads assignments of a recipe without running it:
  staticPKGBUILDScalars and analyzeStaticPKGBUILDChecksumArrays with the evaluator of shell words
  under them, and the evidence of a difference. The shell parser and its printer are a library:
  a parsed statement is given as the data the code looks at, a word as its printed text.
\<close>

section \<open>Shell words\<close>

definition shell_start :: "char \<Rightarrow> bool" where
  "shell_start c = (c = CHR ''_'' \<or> is_alpha c)"

definition shell_char :: "char \<Rightarrow> bool" where
  "shell_char c = (shell_start c \<or> is_digit c)"

definition shell_identifier :: "string \<Rightarrow> bool" where
  "shell_identifier v = (v \<noteq> [] \<and> shell_start (hd v) \<and> list_all shell_char (tl v))"

text \<open>staticVariableReference: the name and how many bytes the reference takes.\<close>

definition static_variable_reference :: "string \<Rightarrow> (string \<times> nat) option" where
  "static_variable_reference s =
     (if length s < 2 \<or> s ! 0 \<noteq> CHR ''$'' then None
      else if s ! 1 = CHR ''{'' then
        (case str_index (drop 2 s) ''}'' of
           None \<Rightarrow> None
         | Some stop \<Rightarrow> let name = take stop (drop 2 s) in if shell_identifier name then Some (name, stop + 3) else None)
      else
        let name = (if shell_start (s ! 1) then s ! 1 # takeWhile shell_char (drop 2 s) else []) in
        if shell_identifier name then Some (name, 1 + length name) else None)"

definition scalar_limit :: nat where "scalar_limit = 8192"

definition shell_blank :: "char \<Rightarrow> bool" where
  "shell_blank c = (c = CHR '' '' \<or> c = CHR 0x09)"

text \<open>
  evaluateStaticShellScalar: the byte before the current one, the open quote, the output so far and
  the rest of the input.
\<close>

function eval_scalar :: "(string \<rightharpoonup> string) \<Rightarrow> char option \<Rightarrow> char option \<Rightarrow> string \<Rightarrow> string \<Rightarrow> string option" where
  "eval_scalar vars prev quote out [] = (if quote = None then Some out else None)"
| "eval_scalar vars prev quote out (c # cs) =
     (if quote = Some (CHR 0x27) then
        (if c = CHR 0x27 then eval_scalar vars (Some c) None out cs else eval_scalar vars (Some c) quote (out @ [c]) cs)
      else if c = CHR 0x27 then eval_scalar vars (Some c) (Some c) out cs
      else if c = CHR 0x22 then
        (if quote = Some (CHR 0x22) then eval_scalar vars (Some c) None out cs
         else if quote = None then eval_scalar vars (Some c) (Some c) out cs else None)
      else if c = CHR 0x60 then None
      else if c = CHR 0x5C then
        (case cs of [] \<Rightarrow> None
         | n # rest \<Rightarrow>
             if quote = Some (CHR 0x22) \<and> n \<noteq> CHR ''$'' \<and> n \<noteq> CHR 0x22 \<and> n \<noteq> CHR 0x5C \<and> n \<noteq> CHR 0x60
             then eval_scalar vars (Some c) quote (out @ [c]) cs
             else eval_scalar vars (Some n) quote (out @ [n]) rest)
      else if c = CHR ''$'' then
        (case static_variable_reference (c # cs) of
           None \<Rightarrow> None
         | Some (name, consumed) \<Rightarrow> (case vars name of
             None \<Rightarrow> None
           | Some v \<Rightarrow>
               if length (out @ v) > scalar_limit then None
               else eval_scalar vars (Some ((c # cs) ! (consumed - 1))) quote (out @ v) (drop (consumed - 1) cs)))
      else if quote = None \<and> c = CHR ''#'' \<and> (prev = None \<or> (\<exists>p. prev = Some p \<and> shell_blank p)) then Some out
      else if quote = None \<and> shell_blank c then
        (case dropWhile shell_blank cs of [] \<Rightarrow> Some out | d # ds \<Rightarrow> if d = CHR ''#'' then Some out else None)
      else if quote = None \<and> c \<in> set ''();&|<>'' then None
      else if length (out @ [c]) > scalar_limit then None
      else eval_scalar vars (Some c) quote (out @ [c]) cs)"
  by pat_completeness auto
termination
  by (relation "measure (\<lambda>(vars, prev, quote, out, s). length s)") auto

declare eval_scalar.simps(2) [simp del]

lemma eval_prev_code [code_unfold]:
  "(\<exists>p. prev = Some p \<and> P p) = (case prev of None \<Rightarrow> False | Some p \<Rightarrow> P p)"
  by (cases prev) auto

definition evaluate_static_shell_scalar :: "string \<Rightarrow> (string \<rightharpoonup> string) \<Rightarrow> string option" where
  "evaluate_static_shell_scalar input vars = eval_scalar vars None None [] input"

section \<open>Scalars of a recipe\<close>

text \<open>The white space of a regular expression.\<close>

definition re_space :: "char \<Rightarrow> bool" where
  "re_space c = (c \<in> {CHR '' '', CHR 0x09, CHR 0x0A, CHR 0x0C, CHR 0x0D})"

definition re_trim :: "string \<Rightarrow> string" where
  "re_trim s = rev (dropWhile re_space (rev (dropWhile re_space s)))"

text \<open>The expression of an assignment: name, whether it appends, and the trimmed value.\<close>

definition scalar_assignment :: "string \<Rightarrow> (string \<times> bool \<times> string) option" where
  "scalar_assignment line =
     (let s = dropWhile re_space line; name = takeWhile shell_char s; rest = dropWhile shell_char s in
      if \<not> shell_identifier name then None
      else if has_prefix rest ''+='' then Some (name, True, re_trim (drop 2 rest))
      else if has_prefix rest ''='' then Some (name, False, re_trim (drop 1 rest))
      else None)"

type_synonym scalars = "(string \<times> string) list"

fun static_scalars :: "scalars \<Rightarrow> string list \<Rightarrow> scalars" where
  "static_scalars values [] = values"
| "static_scalars values (line # ls) =
     (if length values \<ge> 1024 then values
      else (case scalar_assignment line of
          None \<Rightarrow> static_scalars values ls
        | Some (name, adds, input) \<Rightarrow>
            (case evaluate_static_shell_scalar input (map_of values) of
               None \<Rightarrow> static_scalars (AList.delete name values) ls
             | Some v \<Rightarrow>
                 if length v > scalar_limit then static_scalars (AList.delete name values) ls
                 else if adds then
                   (case map_of values name of
                      None \<Rightarrow> static_scalars (AList.delete name values) ls
                    | Some previous \<Rightarrow>
                        if length previous + length v > scalar_limit then static_scalars (AList.delete name values) ls
                        else static_scalars (AList.update name (previous @ v) values) ls)
                 else static_scalars (AList.update name v values) ls)))"

definition static_pkgbuild_scalars :: "string \<Rightarrow> scalars" where
  "static_pkgbuild_scalars txt = static_scalars [] (split_on newline txt)"

section \<open>Checksum arrays of a recipe\<close>

text \<open>A word that is there is its printed text, None if the printer fails.\<close>

record array_element =
  ae_indexed :: bool
  ae_value :: "string option option"

record shell_assign =
  sa_name :: "string option"
  sa_append :: bool
  sa_naked :: bool
  sa_indexed :: bool
  sa_array :: "array_element list option"
  sa_value :: "string option option"

datatype shell_command =
    Simple_Command bool "shell_assign list"
  | Declaration "shell_assign list"
  | Function_Declaration
  | Other_Command

definition command_assignments :: "shell_command \<Rightarrow> shell_assign list" where
  "command_assignments c = (case c of
     Simple_Command has_args assigns \<Rightarrow> if has_args then [] else assigns | Declaration assigns \<Rightarrow> assigns | _ \<Rightarrow> [])"

definition word_value :: "(string \<rightharpoonup> string) \<Rightarrow> string option \<Rightarrow> string option" where
  "word_value vars printed = (case printed of
     None \<Rightarrow> None
   | Some t \<Rightarrow> if length t > scalar_limit then None
       else (case evaluate_static_shell_scalar t vars of
           None \<Rightarrow> None | Some v \<Rightarrow> if length v > scalar_limit then None else Some v))"

definition apply_static_scalar_assignment :: "shell_assign \<Rightarrow> string \<Rightarrow> scalars \<Rightarrow> scalars" where
  "apply_static_scalar_assignment a name vars =
     (case (if sa_naked a \<or> sa_indexed a \<or> sa_array a \<noteq> None then None else sa_value a) of
        None \<Rightarrow> AList.delete name vars
      | Some printed \<Rightarrow> (case word_value (map_of vars) printed of
          None \<Rightarrow> AList.delete name vars
        | Some v \<Rightarrow>
            (case (if sa_append a
                   then (case map_of vars name of None \<Rightarrow> None
                         | Some previous \<Rightarrow> if length previous + length v > scalar_limit then None else Some (previous @ v))
                   else Some v) of
               None \<Rightarrow> AList.delete name vars
             | Some w \<Rightarrow> if length vars \<ge> 1024 \<and> map_of vars name = None then vars else AList.update name w vars)))"

definition array_limit :: nat where "array_limit = 4096"

fun element_values :: "(string \<rightharpoonup> string) \<Rightarrow> array_element list \<Rightarrow> string list option" where
  "element_values vars [] = Some []"
| "element_values vars (e # es) =
     (if ae_indexed e then None
      else (case ae_value e of None \<Rightarrow> None
        | Some printed \<Rightarrow> (case word_value vars printed of None \<Rightarrow> None
            | Some v \<Rightarrow> map_option ((#) v) (element_values vars es))))"

definition evaluate_static_checksum_array :: "shell_assign \<Rightarrow> (string \<rightharpoonup> string) \<Rightarrow> string list option" where
  "evaluate_static_checksum_array a vars =
     (if sa_indexed a \<or> sa_value a \<noteq> None then None
      else (case sa_array a of None \<Rightarrow> None
        | Some es \<Rightarrow> if length es > array_limit then None else element_values vars es))"

definition checksum_names :: "string list" where
  "checksum_names = [''b2sums'', ''md5sums'', ''sha1sums'', ''sha224sums'', ''sha256sums'', ''sha384sums'', ''sha512sums'']"

definition checksum_array_name :: "string \<Rightarrow> bool" where
  "checksum_array_name name =
     list_ex (\<lambda>s. name = s \<or> (has_prefix name (s @ ''_'') \<and> length name > length s + 1 \<and>
       list_all shell_char (drop (length s + 1) name))) checksum_names"

text \<open>What is known after a prefix of the recipe: arrays, names that cannot be known, whether nothing can, and the scalars.\<close>

record static_analysis =
  an_values :: "(string \<times> string list) list"
  an_unresolved :: "string list"
  an_unknown_all :: bool
  an_vars :: scalars

definition forget_array :: "string \<Rightarrow> static_analysis \<Rightarrow> static_analysis" where
  "forget_array name st = st\<lparr>an_values := AList.delete name (an_values st), an_unresolved := name # an_unresolved st\<rparr>"

definition apply_static_assignment :: "shell_assign \<Rightarrow> static_analysis \<Rightarrow> static_analysis" where
  "apply_static_assignment a st = (case sa_name a of
     None \<Rightarrow> st
   | Some name \<Rightarrow>
       if \<not> checksum_array_name name then st\<lparr>an_vars := apply_static_scalar_assignment a name (an_vars st)\<rparr>
       else (case evaluate_static_checksum_array a (map_of (an_vars st)) of
           None \<Rightarrow> forget_array name st
         | Some resolved \<Rightarrow>
             (case (if sa_append a
                    then (case map_of (an_values st) name of None \<Rightarrow> None
                          | Some previous \<Rightarrow> if length previous + length resolved > array_limit then None else Some (previous @ resolved))
                    else Some resolved) of
                None \<Rightarrow> forget_array name st
              | Some vs \<Rightarrow> st\<lparr>an_values := AList.update name vs (an_values st),
                  an_unresolved := removeAll name (an_unresolved st)\<rparr>)))"

definition apply_static_command :: "shell_command \<Rightarrow> static_analysis \<Rightarrow> static_analysis" where
  "apply_static_command c st =
     (if command_assignments c = [] then
        (if c = Function_Declaration then st else st\<lparr>an_values := [], an_vars := [], an_unknown_all := True\<rparr>)
      else foldl (\<lambda>st a. apply_static_assignment a st) st (command_assignments c))"

definition static_start :: static_analysis where
  "static_start = \<lparr>an_values = [], an_unresolved = [], an_unknown_all = False, an_vars = []\<rparr>"

text \<open>\<open>parse\<close> is the shell parser; None is a syntax error.\<close>

definition analyze_static_checksum_arrays :: "(string \<Rightarrow> shell_command list option) \<Rightarrow> string \<Rightarrow> static_analysis" where
  "analyze_static_checksum_arrays parse txt = (case parse txt of
     None \<Rightarrow> static_start\<lparr>an_unknown_all := True\<rparr>
   | Some cs \<Rightarrow> foldl (\<lambda>st c. apply_static_command c st) static_start cs)"

definition array_unresolved :: "static_analysis \<Rightarrow> string \<Rightarrow> bool" where
  "array_unresolved st name =
     (if map_of (an_values st) name \<noteq> None then False else an_unknown_all st \<or> name \<in> set (an_unresolved st))"

section \<open>Differences\<close>

definition equal_checksum_arrays :: "(string \<Rightarrow> string \<Rightarrow> bool) \<Rightarrow> string list \<Rightarrow> string list \<Rightarrow> bool" where
  "equal_checksum_arrays uf xs ys = (length xs = length ys \<and> list_all2 (equal_fold uf) xs ys)"

text \<open>strconv.Quote; for text that is not ASCII it needs the Unicode tables, and \<open>uq\<close> gives the result.\<close>

definition quote_char :: "char \<Rightarrow> string" where
  "quote_char c =
     (if c = CHR 0x22 then [CHR 0x5C, c] else if c = CHR 0x5C then [CHR 0x5C, c]
      else if c = CHR 0x07 then [CHR 0x5C, CHR ''a''] else if c = CHR 0x08 then [CHR 0x5C, CHR ''b'']
      else if c = CHR 0x0C then [CHR 0x5C, CHR ''f''] else if c = CHR 0x0A then [CHR 0x5C, CHR ''n'']
      else if c = CHR 0x0D then [CHR 0x5C, CHR ''r''] else if c = CHR 0x09 then [CHR 0x5C, CHR ''t'']
      else if c = CHR 0x0B then [CHR 0x5C, CHR ''v'']
      else if code c < 32 \<or> code c = 127 then [CHR 0x5C, CHR ''x''] @ drop 2 (hex04 (code c))
      else [c])"

definition go_quote :: "(string \<Rightarrow> string) \<Rightarrow> string \<Rightarrow> string" where
  "go_quote uq s = (if all_ascii s then [CHR 0x22] @ concat (map quote_char s) @ [CHR 0x22] else uq s)"

definition value_at :: "string list \<Rightarrow> nat \<Rightarrow> string" where
  "value_at xs i = (if i < length xs then xs ! i else ''<missing>'')"

definition checksum_same_at :: "(string \<Rightarrow> string \<Rightarrow> bool) \<Rightarrow> string list \<Rightarrow> string list \<Rightarrow> nat \<Rightarrow> bool" where
  "checksum_same_at uf xs ys i = (i < length xs \<and> i < length ys \<and> equal_fold uf (xs ! i) (ys ! i))"

definition checksum_mismatch_evidence ::
  "(string \<Rightarrow> string \<Rightarrow> bool) \<Rightarrow> (string \<Rightarrow> string) \<Rightarrow> string \<Rightarrow> string list \<Rightarrow> string list \<Rightarrow> string" where
  "checksum_mismatch_evidence uf uq key src pkg =
     (let n = max (length src) (length pkg) in
      if n = 0 then key @ '': field presence differs; .SRCINFO absent, PKGBUILD has an empty array''
      else
        let differ = filter (\<lambda>i. \<not> checksum_same_at uf src pkg i) [0..<n];
            first = (case differ of [] \<Rightarrow> - 1 | i # _ \<Rightarrow> int i);
            at = (\<lambda>xs. if first < 0 then ''<missing>'' else value_at xs (nat first));
            summary = key @ '': '' @ show_nat (length differ) @ '' of '' @ show_nat n @ '' checksums differ; first at index '' @
              show_int (first + 1);
            detail = summary @ '' (.SRCINFO '' @ go_quote uq (at src) @ '', PKGBUILD '' @ go_quote uq (at pkg) @ '')''
        in if length detail \<le> 320 then detail else summary)"

section \<open>Reference: the value of a shell word\<close>

datatype double_part = D_Plain char | D_Escaped char | D_Name string | D_Braced string

datatype word_part = Plain char | Escaped char | Single string | Double "double_part list" | Name_Ref string | Braced_Ref string

fun double_text :: "double_part \<Rightarrow> string" where
  "double_text (D_Plain c) = [c]"
| "double_text (D_Escaped c) = [CHR 0x5C, c]"
| "double_text (D_Name n) = CHR ''$'' # n"
| "double_text (D_Braced n) = ''${'' @ n @ ''}''"

fun part_text :: "word_part \<Rightarrow> string" where
  "part_text (Plain c) = [c]"
| "part_text (Escaped c) = [CHR 0x5C, c]"
| "part_text (Single s) = CHR 0x27 # s @ [CHR 0x27]"
| "part_text (Double ds) = CHR 0x22 # concat (map double_text ds) @ [CHR 0x22]"
| "part_text (Name_Ref n) = CHR ''$'' # n"
| "part_text (Braced_Ref n) = ''${'' @ n @ ''}''"

fun double_value :: "(string \<rightharpoonup> string) \<Rightarrow> double_part \<Rightarrow> string" where
  "double_value vars (D_Plain c) = [c]"
| "double_value vars (D_Escaped c) = [c]"
| "double_value vars (D_Name n) = the (vars n)"
| "double_value vars (D_Braced n) = the (vars n)"

fun part_value :: "(string \<rightharpoonup> string) \<Rightarrow> word_part \<Rightarrow> string" where
  "part_value vars (Plain c) = [c]"
| "part_value vars (Escaped c) = [c]"
| "part_value vars (Single s) = s"
| "part_value vars (Double ds) = concat (map (double_value vars) ds)"
| "part_value vars (Name_Ref n) = the (vars n)"
| "part_value vars (Braced_Ref n) = the (vars n)"

definition word_text :: "word_part list \<Rightarrow> string" where "word_text ps = concat (map part_text ps)"

definition shell_word_value :: "(string \<rightharpoonup> string) \<Rightarrow> word_part list \<Rightarrow> string" where
  "shell_word_value vars ps = concat (map (part_value vars) ps)"

text \<open>A name reference ends where the name does: what follows must not continue it.\<close>

definition name_ends :: "string \<Rightarrow> bool" where
  "name_ends rest = (rest = [] \<or> \<not> shell_char (hd rest))"

definition known_name :: "(string \<rightharpoonup> string) \<Rightarrow> string \<Rightarrow> bool" where
  "known_name vars n = (shell_identifier n \<and> vars n \<noteq> None)"

fun double_ok :: "(string \<rightharpoonup> string) \<Rightarrow> double_part list \<Rightarrow> bool" where
  "double_ok vars [] = True"
| "double_ok vars (D_Plain c # ds) = (c \<notin> {CHR 0x22, CHR 0x27, CHR 0x60, CHR 0x5C, CHR ''$''} \<and> double_ok vars ds)"
| "double_ok vars (D_Escaped c # ds) = (c \<in> {CHR ''$'', CHR 0x22, CHR 0x5C, CHR 0x60} \<and> double_ok vars ds)"
| "double_ok vars (D_Name n # ds) = (known_name vars n \<and> name_ends (concat (map double_text ds) @ [CHR 0x22]) \<and> double_ok vars ds)"
| "double_ok vars (D_Braced n # ds) = (known_name vars n \<and> double_ok vars ds)"

text \<open>\<open>start\<close>: the next byte is the first one or follows an escaped blank.\<close>

fun word_ok :: "(string \<rightharpoonup> string) \<Rightarrow> bool \<Rightarrow> word_part list \<Rightarrow> bool" where
  "word_ok vars start [] = True"
| "word_ok vars start (Plain c # ps) =
     (c \<notin> {CHR 0x22, CHR 0x27, CHR 0x60, CHR 0x5C, CHR ''$'', CHR ''~''} \<and> \<not> shell_blank c \<and> c \<notin> set ''();&|<>'' \<and>
      (c = CHR ''#'' \<longrightarrow> \<not> start) \<and> word_ok vars False ps)"
| "word_ok vars start (Escaped c # ps) = (c \<noteq> CHR 0x0A \<and> word_ok vars (shell_blank c) ps)"
| "word_ok vars start (Single s # ps) = (CHR 0x27 \<notin> set s \<and> word_ok vars False ps)"
| "word_ok vars start (Double ds # ps) = (double_ok vars ds \<and> word_ok vars False ps)"
| "word_ok vars start (Name_Ref n # ps) = (known_name vars n \<and> name_ends (word_text ps) \<and> word_ok vars False ps)"
| "word_ok vars start (Braced_Ref n # ps) = (known_name vars n \<and> word_ok vars False ps)"

lemma shell_char_ne:
  "shell_char c \<Longrightarrow> c \<noteq> CHR ''}'' \<and> c \<noteq> CHR ''{'' \<and> \<not> shell_blank c"
  by (auto simp: shell_char_def shell_start_def is_alpha_def is_digit_def shell_blank_def)

lemma identifier_chars: "shell_identifier n \<Longrightarrow> c \<in> set n \<Longrightarrow> shell_char c"
  by (cases n) (auto simp: shell_identifier_def list_all_iff shell_char_def)

lemma index_single: "c \<notin> set n \<Longrightarrow> str_index (n @ c # s) [c] = Some (length n)"
  by (induction n) (auto simp: has_prefix_def)

lemma reference_braced:
  "shell_identifier n \<Longrightarrow> static_variable_reference (CHR ''$'' # CHR ''{'' # n @ CHR ''}'' # s) = Some (n, length n + 3)"
proof -
  assume n: "shell_identifier n"
  then have "CHR ''}'' \<notin> set n" using identifier_chars shell_char_ne by blast
  then show ?thesis using n by (simp add: static_variable_reference_def index_single)
qed

lemma reference_name:
  assumes "shell_identifier n" "name_ends s" shows "static_variable_reference (CHR ''$'' # n @ s) = Some (n, 1 + length n)"
proof -
  obtain c cs where n: "n = c # cs" "shell_start c" "list_all shell_char cs"
    using assms(1) by (cases n) (auto simp: shell_identifier_def)
  have "takeWhile shell_char (cs @ s) = cs"
    using n(3) assms(2) by (cases s) (auto simp: name_ends_def list_all_iff takeWhile_append2)
  moreover have "c \<noteq> CHR ''{''" using n(2) shell_char_ne[of c] by (auto simp: shell_char_def)
  ultimately show ?thesis using n assms(1) by (simp add: static_variable_reference_def)
qed


lemma eval_single:
  "CHR 0x27 \<notin> set s \<Longrightarrow>
     eval_scalar vars prev (Some (CHR 0x27)) out (s @ CHR 0x27 # rest) = eval_scalar vars (Some (CHR 0x27)) None (out @ s) rest"
proof (induction s arbitrary: prev out)
  case Nil then show ?case by (simp add: eval_scalar.simps(2)[of vars prev _ out])
next
  case (Cons c s)
  then show ?case by (auto simp: eval_scalar.simps(2)[of vars prev _ out c])
qed

lemma eval_reference:
  assumes "static_variable_reference (CHR ''$'' # s) = Some (n, k)" "vars n = Some v" "length (out @ v) \<le> scalar_limit"
    "quote \<noteq> Some (CHR 0x27)"
  shows "eval_scalar vars prev quote out (CHR ''$'' # s) =
    eval_scalar vars (Some ((CHR ''$'' # s) ! (k - 1))) quote (out @ v) (drop (k - 1) s)"
  using assms by (simp add: eval_scalar.simps(2)[of vars prev])

lemma eval_braced:
  assumes "known_name vars n" "length (out @ the (vars n)) \<le> scalar_limit" "quote \<noteq> Some (CHR 0x27)"
  shows "eval_scalar vars prev quote out (CHR ''$'' # CHR ''{'' # n @ CHR ''}'' # rest) =
    eval_scalar vars (Some (CHR ''}'')) quote (out @ the (vars n)) rest"
proof -
  obtain v where v: "shell_identifier n" "vars n = Some v" using assms(1) by (auto simp: known_name_def)
  have "(CHR ''$'' # CHR ''{'' # n @ CHR ''}'' # rest) ! (length n + 3 - 1) = CHR ''}''"
    by (simp add: numeral_eq_Suc nth_append)
  moreover have "drop (length n + 3 - 1) (CHR ''{'' # n @ CHR ''}'' # rest) = rest" by (simp add: numeral_eq_Suc)
  ultimately show ?thesis using eval_reference[where vars = vars and v = v, OF reference_braced[OF v(1)] v(2), of out quote prev] assms(2,3) v(2) by simp
qed

lemma eval_name:
  assumes "known_name vars n" "name_ends rest" "length (out @ the (vars n)) \<le> scalar_limit" "quote \<noteq> Some (CHR 0x27)"
  shows "eval_scalar vars prev quote out (CHR ''$'' # n @ rest) = eval_scalar vars (Some (last n)) quote (out @ the (vars n)) rest"
    "\<not> shell_blank (last n)"
proof -
  obtain v where v: "shell_identifier n" "vars n = Some v" using assms(1) by (auto simp: known_name_def)
  then have n: "n \<noteq> []" by (auto simp: shell_identifier_def)
  have "(CHR ''$'' # n @ rest) ! (1 + length n - 1) = last n" using n by (simp add: nth_append nth_Cons' last_conv_nth)
  then show "eval_scalar vars prev quote out (CHR ''$'' # n @ rest) = eval_scalar vars (Some (last n)) quote (out @ the (vars n)) rest"
    using eval_reference[where vars = vars and v = v, OF reference_name[OF v(1) assms(2)] v(2), of out quote prev] assms(3,4) v(2) by simp
  show "\<not> shell_blank (last n)" using identifier_chars[OF v(1), of "last n"] n shell_char_ne by auto
qed

lemma name_ends_append: "name_ends (a @ [c]) \<Longrightarrow> name_ends (a @ c # rest)"
  by (cases a) (auto simp: name_ends_def)

lemma eval_plain:
  assumes "c \<notin> {CHR 0x22, CHR 0x27, CHR 0x60, CHR 0x5C, CHR ''$''}" "\<not> shell_blank c" "c \<notin> set ''();&|<>''"
    "\<not> (c = CHR ''#'' \<and> (prev = None \<or> (\<exists>p. prev = Some p \<and> shell_blank p)))" "length (out @ [c]) \<le> scalar_limit"
  shows "eval_scalar vars prev None out (c # cs) = eval_scalar vars (Some c) None (out @ [c]) cs"
proof -
  have n: "(c = CHR 0x22) = False" "(c = CHR 0x27) = False" "(c = CHR 0x60) = False" "(c = CHR 0x5C) = False"
    "(c = CHR ''$'') = False" "(None = Some CHR 0x27) = False" using assms(1) by auto
  have h: "(None = None \<and> c = CHR ''#'' \<and> (prev = None \<or> (\<exists>p. prev = Some p \<and> shell_blank p))) = False" using assms(4) by blast
  have b: "shell_blank c = False" "(c \<in> set ''();&|<>'') = False" "(length (out @ [c]) > scalar_limit) = False"
    using assms(2,3,5) by (simp_all only: not_less if_False) auto
  show ?thesis unfolding eval_scalar.simps(2) by (simp only: n h b if_False simp_thms) (rule if_not_P[OF assms(4)])
qed

lemma eval_double:
  "double_ok vars ds \<Longrightarrow> length (out @ concat (map (double_value vars) ds)) \<le> scalar_limit \<Longrightarrow>
     eval_scalar vars prev (Some (CHR 0x22)) out (concat (map double_text ds) @ CHR 0x22 # rest) =
     eval_scalar vars (Some (CHR 0x22)) None (out @ concat (map (double_value vars) ds)) rest"
proof (induction vars ds arbitrary: prev out rule: double_ok.induct)
  case (1 vars) then show ?case by (simp add: eval_scalar.simps(2)[of vars prev _ out])
next
  case (2 vars c ds) then show ?case by (simp add: eval_scalar.simps(2)[of vars prev _ out c])
next
  case (3 vars c ds) then show ?case by (auto simp: eval_scalar.simps(2)[of vars prev _ out])
next
  case (4 vars n ds)
  have e: "name_ends (concat (map double_text ds) @ CHR 0x22 # rest)"
    using "4.prems"(1) name_ends_append by simp
  show ?case using "4.IH"[of "out @ the (vars n)"] eval_name(1)[OF _ e, of vars n out "Some (CHR 0x22)" prev] "4.prems" by simp
next
  case (5 vars n ds)
  then show ?case using eval_braced[of vars n out "Some (CHR 0x22)" prev "concat (map double_text ds) @ CHR 0x22 # rest"] by simp
qed

lemma eval_word:
  "word_ok vars (prev = None \<or> (\<exists>p. prev = Some p \<and> shell_blank p)) ps \<Longrightarrow> length (out @ shell_word_value vars ps) \<le> scalar_limit \<Longrightarrow>
     eval_scalar vars prev None out (word_text ps) = Some (out @ shell_word_value vars ps)"
proof (induction ps arbitrary: prev out)
  case Nil then show ?case by (simp add: word_text_def shell_word_value_def)
next
  case (Cons q ps)
  have v: "shell_word_value vars (q # ps) = part_value vars q @ shell_word_value vars ps"
    "word_text (q # ps) = part_text q @ word_text ps" by (simp_all add: shell_word_value_def word_text_def)
  have l: "length (out @ part_value vars q) \<le> scalar_limit" using Cons.prems(2) v(1) by simp
  have ih: "eval_scalar vars (Some p) None (out @ part_value vars q) (word_text ps) = Some (out @ shell_word_value vars (q # ps))"
    if "word_ok vars (shell_blank p) ps" for p
    using Cons.IH[of "Some p" "out @ part_value vars q"] that Cons.prems(2) v(1) by simp
  show ?case
  proof (cases q)
    case (Plain c)
    then have "\<not> shell_blank c" using Cons.prems(1) by auto
    moreover have "\<not> (c = CHR ''#'' \<and> (prev = None \<or> (\<exists>p. prev = Some p \<and> shell_blank p)))" "word_ok vars False ps"
      "c \<notin> {CHR 0x22, CHR 0x27, CHR 0x60, CHR 0x5C, CHR ''$''}" "c \<notin> set ''();&|<>''"
      using Cons.prems(1) unfolding Plain word_ok.simps by blast+
    ultimately show ?thesis using ih[of c] Plain l v(2) eval_plain[of c prev out vars "word_text ps"] by simp
  next
    case (Escaped c)
    then show ?thesis using ih[of c] Cons.prems(1) v(2) by (simp add: eval_scalar.simps(2)[of vars prev _ out])
  next
    case (Single s)
    then show ?thesis using ih[of "CHR 0x27"] Cons.prems(1) v(2) eval_single[of s vars "Some (CHR 0x27)" out "word_text ps"]
      by (simp add: eval_scalar.simps(2)[of vars prev _ out] shell_blank_def)
  next
    case (Double ds)
    then show ?thesis using ih[of "CHR 0x22"] Cons.prems(1) v(2) l eval_double[of vars ds out "Some (CHR 0x22)" "word_text ps"]
      by (simp add: eval_scalar.simps(2)[of vars prev _ out] shell_blank_def)
  next
    case (Name_Ref n)
    then show ?thesis using ih[of "last n"] Cons.prems(1) v(2) l eval_name(1)[of vars n "word_text ps" out None prev]
        eval_name(2)[of vars n "word_text ps" out None] by simp
  next
    case (Braced_Ref n)
    then show ?thesis using ih[of "CHR ''}''"] Cons.prems(1) v(2) l eval_braced[of vars n out None prev "word_text ps"]
      by (simp add: shell_blank_def)
  qed
qed


definition example_word :: "word_part list" where
  "example_word = [Plain CHR ''a'', Escaped CHR '' '', Single ''b c'', Double [D_Plain CHR ''-'', D_Name ''v'', D_Escaped CHR 0x22], Braced_Ref ''v'', Plain CHR ''#'']"


lemma escaped_blank_starts_comment:
  "evaluate_static_shell_scalar (''a'' @ [CHR 0x5C] @ '' #b'') Map.empty = Some ''a ''"
  by (simp add: evaluate_static_shell_scalar_def eval_scalar.simps(2) shell_blank_def scalar_limit_def)

lemma single_quote_in_double_quotes:
  "evaluate_static_shell_scalar ([CHR 0x22] @ ''doesn'' @ [CHR 0x27] @ ''t'' @ [CHR 0x22]) Map.empty = None"
  by (simp add: evaluate_static_shell_scalar_def eval_scalar.simps(2) shell_blank_def scalar_limit_def)

end
