(* ===== verification/Scan_Files.thy ===== *)
theory Scan_Files
  imports Scan_Static Archive_Walk Policy
begin

text \<open>
  internal/brief/scanner.go, one file at a time: names, the kinds of special files, executable headers,
  readRegular with its text, binary and archive parts, recordSymlink and checkBudget. What the kernel
  answers about a file (open, fstat before and after, the bytes of the reads) is data of the file.
\<close>

section \<open>Names\<close>

definition b64_digit :: "nat \<Rightarrow> char" where
  "b64_digit n = ''ABCDEFGHIJKLMNOPQRSTUVWXYZabcdefghijklmnopqrstuvwxyz0123456789-_'' ! n"

fun b64_bytes :: "nat list \<Rightarrow> string" where
  "b64_bytes [] = []"
| "b64_bytes [a] = [b64_digit (a div 4), b64_digit (a mod 4 * 16), CHR ''='', CHR ''='']"
| "b64_bytes [a, b] = [b64_digit (a div 4), b64_digit (a mod 4 * 16 + b div 16), b64_digit (b mod 16 * 4), CHR ''='']"
| "b64_bytes (a # b # c # s) =
     [b64_digit (a div 4), b64_digit (a mod 4 * 16 + b div 16), b64_digit (b mod 16 * 4 + c div 64), b64_digit (c mod 64)] @ b64_bytes s"

definition path_b64 :: "string \<Rightarrow> string" where "path_b64 p = b64_bytes (map code p)"

text \<open>displayPath: bytes that are not UTF-8 are written as escapes.\<close>

function display_loop :: "string \<Rightarrow> string" where
  "display_loop s = (if s = [] then []
     else if bad_rune s then [CHR 0x5C, CHR ''x''] @ drop 2 (hex04 (code (hd s))) @ display_loop (tl s)
     else encode_rune (fst (decode_rune s)) @ display_loop (drop (snd (decode_rune s)) s))"
  by pat_completeness auto
termination
  by (relation "measure length") (use decode_rune_size in auto)

declare display_loop.simps [simp del]

definition display_path :: "string \<Rightarrow> string" where
  "display_path p = (if p = [] then ''.'' else display_loop p)"

definition child_path :: "string \<Rightarrow> string \<Rightarrow> string" where
  "child_path relative name = (if relative \<noteq> [] then relative @ ''/'' @ name else name)"

section \<open>Kinds\<close>

definition mode_kind :: "32 word \<Rightarrow> 32 word" where "mode_kind m = m AND 0xF000"

definition kind_regular :: "32 word" where "kind_regular = 0x8000"
definition kind_directory :: "32 word" where "kind_directory = 0x4000"
definition kind_link :: "32 word" where "kind_link = 0xA000"

definition file_kind :: "32 word \<Rightarrow> string" where
  "file_kind kind =
     (if kind = 0x1000 then ''fifo'' else if kind = 0x2000 then ''char-device'' else if kind = 0x6000 then ''block-device''
      else if kind = 0xC000 then ''socket'' else ''special'')"

definition permission_bits :: "32 word \<Rightarrow> nat" where "permission_bits m = unat (m AND 0xFFF)"

section \<open>Executable headers\<close>

definition big_endian :: "string \<Rightarrow> nat" where "big_endian bs = foldl (\<lambda>n c. n * 256 + code c) 0 bs"
definition little_endian :: "string \<Rightarrow> nat" where "little_endian bs = big_endian (rev bs)"

definition bad_header :: "string \<Rightarrow> string \<Rightarrow> json_object \<times> finding option" where
  "bad_header file err = ([], Some (coverage_finding file err ''executable binary header could not be safely parsed'' ''binary-header-invalid''))"

definition number :: "nat \<Rightarrow> json" where "number n = JNum (show_nat n)"

definition mach_spec :: "string \<Rightarrow> ((string \<Rightarrow> nat) \<times> nat) option" where
  "mach_spec data =
     (let m = take 4 data in
      if m = byte_string [0xfe, 0xed, 0xfa, 0xce] then Some (big_endian, 32)
      else if m = byte_string [0xce, 0xfa, 0xed, 0xfe] then Some (little_endian, 32)
      else if m = byte_string [0xfe, 0xed, 0xfa, 0xcf] then Some (big_endian, 64)
      else if m = byte_string [0xcf, 0xfa, 0xed, 0xfe] then Some (little_endian, 64)
      else None)"

text \<open>The members are in key order. The full size is not negative.\<close>

definition binary_metadata :: "string \<Rightarrow> string \<Rightarrow> int \<Rightarrow> json_object \<times> finding option" where
  "binary_metadata file data full_size =
     (let size_member = (''size'', JNum (show_int full_size)) in
      if has_prefix data (byte_string [0x7f] @ ''ELF'') then
        (if length data < 20 \<or> (code (data ! 4) \<noteq> 1 \<and> code (data ! 4) \<noteq> 2) \<or> (code (data ! 5) \<noteq> 1 \<and> code (data ! 5) \<noteq> 2)
         then bad_header file ''invalid ELF identification''
         else ([(''class_bits'', number (if code (data ! 4) = 1 then 32 else 64)), (''format'', JStr ''ELF''),
                (''machine'', number ((if code (data ! 5) = 2 then big_endian else little_endian) (Rules.slice 18 20 data))), size_member], None))
      else if has_prefix data ''MZ'' then
        (if length data < 64 then bad_header file ''truncated DOS header''
         else let offset = little_endian (Rules.slice 0x3c 0x40 data) in
           if offset + 24 > length data \<or> Rules.slice offset (offset + 4) data \<noteq> ''PE'' @ byte_string [0, 0]
           then bad_header file ''invalid PE header offset''
           else ([(''format'', JStr ''PE''), (''machine'', number (little_endian (Rules.slice (offset + 4) (offset + 6) data))),
                  (''sections'', number (little_endian (Rules.slice (offset + 6) (offset + 8) data))), size_member], None))
      else (case (if length data \<ge> 4 then mach_spec data else None) of
          None \<Rightarrow> ([], None)
        | Some (order, bits) \<Rightarrow>
            if length data < (if bits = 64 then 32 else 28) then bad_header file ''truncated Mach-O header''
            else ([(''class_bits'', number bits), (''commands'', number (order (Rules.slice 16 20 data))),
                   (''cpu_type'', number (order (Rules.slice 4 8 data))), (''file_type'', number (order (Rules.slice 12 16 data))),
                   (''format'', JStr ''Mach-O''), size_member], None)))"

definition shown_member :: "string \<times> json \<Rightarrow> string" where
  "shown_member m = fst m @ ''='' @ (case snd m of JStr s \<Rightarrow> s | JNum s \<Rightarrow> s | _ \<Rightarrow> [])"

definition binary_review_text :: "json_object \<Rightarrow> string \<Rightarrow> string" where
  "binary_review_text metadata strings =
     ''Binary metadata: ['' @ join_with '', '' (map shown_member metadata) @ '']'' @
     (if strings \<noteq> [] then [nl] @ ''Bounded printable strings:'' @ [nl] @ strings else [])"

section \<open>The scan\<close>

text \<open>
  What is fixed during a scan: configuration, rules, archive readers, the digest, whether only the binding is
  wanted, the control files and declared sources found before the walk, and whether the time is up when the
  inventory stands as it does.
\<close>

record scan_context =
  cx_config :: brief_config
  cx_engine :: rule_engine
  cx_tools :: archive_tools
  cx_sha :: "string \<Rightarrow> string"
  cx_binding_only :: bool
  cx_active :: "string list"
  cx_vendor :: "string list"
  cx_expired :: "inventory \<Rightarrow> bool"

abbreviation cx_limits :: "scan_context \<Rightarrow> limits_config" where "cx_limits cx \<equiv> bf_limits (cx_config cx)"

definition check_budget :: "scan_context \<Rightarrow> inventory \<Rightarrow> string option" where
  "check_budget cx iv =
     (let c = iv_coverage iv; l = cx_limits cx in
      if cx_expired cx iv then Some ''scanner transaction timed out''
      else if files_seen c > lim_files l then Some ''aggregate scanner file limit exceeded''
      else if bytes_seen c > lim_total_input_bytes l then Some ''aggregate scanner byte limit exceeded''
      else if int (length (iv_findings iv)) > lim_findings l then Some ''aggregate scanner finding limit exceeded''
      else if archives_seen c > lim_archives l \<or> archive_entries c > lim_archive_entries l \<or>
        archive_unpacked_bytes c > lim_archive_unpacked_bytes l then Some ''aggregate scanner archive limit exceeded''
      else None)"

definition content_inspection :: "scan_context \<Rightarrow> bool \<Rightarrow> int \<Rightarrow> bool" where
  "content_inspection cx vendor depth =
     (\<not> cx_binding_only cx \<and> (\<not> vendor \<or> bf_vendor_depth (cx_config cx) \<ge> max 1 depth))"

text \<open>
  The answers about one regular file. The content is what the reads deliver before they end, with an error
  or at the end of the file; the archive is what reading the descriptor again from the start delivers.
\<close>

record file_answers =
  fa_open :: "string option"
  fa_before :: "string + unix_stat"
  fa_content :: string
  fa_failed :: "string option"
  fa_after :: "string + unix_stat"
  fa_again :: "string + string"

text \<open>What the reading of the content yields.\<close>

record inspected =
  in_findings :: "finding list"
  in_sample :: string
  in_total :: int
  in_text :: bool
  in_capture :: string
  in_complete :: bool

definition inspect_text :: "scan_context \<Rightarrow> string \<Rightarrow> bool \<Rightarrow> bool \<Rightarrow> file_answers \<Rightarrow> string + inspected" where
  "inspect_text cx display executable important fa =
     (let chunks = member_chunks (cx_tools cx) (fa_content fa) in
      case scan_reader (cx_engine cx) display (chunks, fa_failed fa) (lim_text_per_file (cx_limits cx)) of
        Inl err \<Rightarrow> Inl err
      | Inr (fs, sample, n) \<Rightarrow>
          let v = validate_chunks chunks; bad = (nul v \<or> invalid v); fixed = (important \<or> executable);
              fs1 = (if bad \<and> fixed
                then fs @ [mandatory_invalid display ''content classification''
                  (if nul v then ''mandatory control content contains an embedded NUL byte''
                   else ''mandatory control content is not valid UTF-8 text'')] else fs);
              is_text = (\<not> bad \<or> fixed)
          in Inr \<lparr>in_findings = (if is_text
                 then fs1 @ scan_semantic (cx_engine cx) display (valid_utf8_or_replacement sample) executable important else fs1),
               in_sample = sample, in_total = n, in_text = is_text,
               in_capture = (if is_text then take 8192 (fa_content fa) else sample), in_complete = (\<not> (bad \<and> fixed))\<rparr>)"

definition inspect_content :: "scan_context \<Rightarrow> string \<Rightarrow> bool \<Rightarrow> bool \<Rightarrow> bool \<Rightarrow> file_answers \<Rightarrow> string + inspected" where
  "inspect_content cx display executable important inspection fa =
     (let first = take 8192 (fa_content fa); limit = lim_binary_strings_bytes (cx_limits cx) in
      if inspection \<and> probably_text first then inspect_text cx display executable important fa
      else (case fa_failed fa of
          Some err \<Rightarrow> Inl err
        | None \<Rightarrow> Inr \<lparr>in_findings = [], in_sample = (if inspection then first else []), in_total = int (length (fa_content fa)),
            in_text = probably_text first,
            in_capture = (if inspection \<and> int (length first) < limit then take (nat limit) (fa_content fa) else first),
            in_complete = True\<rparr>))"

text \<open>What a file adds to the inventory besides its record.\<close>

record file_result =
  rs_findings :: "finding list"
  rs_selected :: string
  rs_reason :: string
  rs_metadata :: json_object
  rs_notes :: "string list"
  rs_complete :: bool

definition select_text :: "scan_context \<Rightarrow> string \<Rightarrow> bool \<Rightarrow> bool \<Rightarrow> bool \<Rightarrow> int \<Rightarrow> inspected \<Rightarrow> file_result" where
  "select_text cx display executable important inspection sz i =
     (let selected = (inspection \<and> in_text i \<and> (executable \<or> important \<or> in_findings i \<noteq> []));
          over = (selected \<and> sz > lim_text_per_file (cx_limits cx))
      in \<lparr>rs_findings = in_findings i @ (if over
            then [coverage_finding display (show_int sz) ''selected text file exceeds configured review limit'' ''selected-file-limit''] else []),
          rs_selected = (if selected then valid_utf8_or_replacement (in_sample i) else []),
          rs_reason = (if \<not> selected then [] else if important \<or> in_findings i \<noteq> [] then ''mandatory'' else ''executable''),
          rs_metadata = [], rs_notes = (if over then [''selected file exceeds text limit: '' @ display] else []),
          rs_complete = (in_complete i \<and> \<not> over)\<rparr>)"

definition native_finding :: "string \<Rightarrow> json_object \<Rightarrow> finding" where
  "native_finding display metadata = plain_finding ''high'' ''integrity'' display None
     (case map_of metadata ''format'' of Some (JStr f) \<Rightarrow> f | _ \<Rightarrow> [])
     ''the submitted AUR repository contains a native executable binary that cannot be meaningfully reviewed from source''
     ''repository-native-binary'' False"

definition inspect_binary :: "scan_context \<Rightarrow> string \<Rightarrow> string \<Rightarrow> bool \<Rightarrow> bool \<Rightarrow> int \<Rightarrow> string \<Rightarrow> file_result \<Rightarrow> file_result" where
  "inspect_binary cx phase display executable important sz capture r =
     (let strings = printable_strings capture;
          string_findings = (if \<not> looks_like_archive (re_lower (cx_engine cx)) display capture
            then binary_string_findings (scan_text (cx_engine cx) display strings 0) else []);
          metadata = fst (binary_metadata display capture sz); header = snd (binary_metadata display capture sz);
          blocked = ((important \<or> executable) \<and> (important \<or> metadata = []));
          fs = rs_findings r @ string_findings @ (case header of None \<Rightarrow> [] | Some f \<Rightarrow> [f]) @
            (if phase = ''pre'' \<and> metadata \<noteq> [] then [native_finding display metadata] else []) @
            (if blocked then [mandatory_invalid display ''unknown or binary control format''
               ''mandatory executable or control content is not fully inspectable text''] else []);
          chosen = (executable \<or> fs \<noteq> [] \<or> metadata \<noteq> [])
      in r\<lparr>rs_findings := fs, rs_metadata := metadata, rs_complete := rs_complete r \<and> \<not> blocked,
          rs_selected := (if chosen then binary_review_text metadata strings else rs_selected r),
          rs_reason := (if chosen then ''binary-metadata'' else rs_reason r)\<rparr>)"

definition file_result_of ::
  "scan_context \<Rightarrow> string \<Rightarrow> string \<Rightarrow> bool \<Rightarrow> bool \<Rightarrow> bool \<Rightarrow> int \<Rightarrow> inspected \<Rightarrow> file_result" where
  "file_result_of cx phase display executable important inspection sz i =
     (let r = select_text cx display executable important inspection sz i in
      if inspection \<and> \<not> in_text i then inspect_binary cx phase display executable important sz (in_capture i) r else r)"

definition add_file :: "file_record \<Rightarrow> bool \<Rightarrow> file_result \<Rightarrow> inventory \<Rightarrow> inventory" where
  "add_file rec inspection r iv =
     (let c = iv_coverage iv; sz = fr_size rec; binary = (inspection \<and> \<not> fr_text rec) in
      iv\<lparr>iv_files := iv_files iv @ [rec], iv_findings := iv_findings iv @ rs_findings r,
         iv_coverage := c\<lparr>files_seen := files_seen c + 1, bytes_seen := bytes_seen c + sz,
           binary_files := (if binary then binary_files c + 1 else binary_files c),
           binary_bytes := (if binary then binary_bytes c + sz else binary_bytes c),
           text_files := (if fr_text rec then text_files c + 1 else text_files c),
           text_bytes := (if fr_text rec then text_bytes c + sz else text_bytes c),
           cov_complete := (cov_complete c \<and> rs_complete r), cov_notes := cov_notes c @ rs_notes r\<rparr>\<rparr>)"

section \<open>Archives among the files\<close>

definition remaining_limits :: "limits_config \<Rightarrow> coverage \<Rightarrow> limits_config" where
  "remaining_limits l c = l\<lparr>lim_archive_entries := lim_archive_entries l - archive_entries c,
     lim_archive_unpacked_bytes := lim_archive_unpacked_bytes l - archive_unpacked_bytes c,
     lim_archives := lim_archives l - archives_seen c\<rparr>"

definition archive_member_record :: "(string \<Rightarrow> string) \<Rightarrow> string \<times> string \<Rightarrow> file_record" where
  "archive_member_record sha m =
     \<lparr>fr_path = fst m, fr_path_b64 = path_b64 (fst m), fr_kind = ''archive-member'', fr_mode = 0, fr_size = int (length (snd m)),
      fr_sha256 = sha (snd m), fr_executable = False, fr_text = True, fr_link_target = [], fr_archive_entries = 0,
      fr_archive_format = [], fr_extractable = False, fr_selected_reason = ''archive-member'', fr_binary_metadata = Some [],
      fr_selected_text = snd m\<rparr>"

definition change_last :: "('a \<Rightarrow> 'a) \<Rightarrow> 'a list \<Rightarrow> 'a list" where
  "change_last f xs = (if xs = [] then [] else butlast xs @ [f (last xs)])"

text \<open>The record of the archive is the last one.\<close>

definition add_archive :: "(string \<Rightarrow> string) \<Rightarrow> string \<Rightarrow> archive_scan \<Rightarrow> inventory \<Rightarrow> inventory" where
  "add_archive sha display a iv =
     (let c = iv_coverage iv; ok = (sc_supported a \<and> sc_complete a) in
      iv\<lparr>iv_files := change_last (\<lambda>r. r\<lparr>fr_archive_entries := sc_entries a, fr_archive_format := sc_format a\<rparr>) (iv_files iv) @
           map (archive_member_record sha) (sc_selected a),
         iv_findings := iv_findings iv @ sc_findings a,
         iv_coverage := c\<lparr>archives_seen := archives_seen c + sc_archives a, archive_entries := archive_entries c + sc_entries a,
           archive_unpacked_bytes := archive_unpacked_bytes c + sc_bytes a, cov_complete := (cov_complete c \<and> ok),
           cov_notes := cov_notes c @ (if ok then [] else [''unsupported archive: '' @ display])\<rparr>\<rparr>)"

definition inspect_archive :: "scan_context \<Rightarrow> string \<Rightarrow> bool \<Rightarrow> int \<Rightarrow> file_answers \<Rightarrow> inventory \<Rightarrow> string + inventory" where
  "inspect_archive cx display vendor depth fa iv =
     (if archives_seen (iv_coverage iv) \<ge> lim_archives (cx_limits cx) then Inl (''aggregate archive count limit exceeded at '' @ display)
      else (case fa_again fa of
          Inl err \<Rightarrow> Inl err
        | Inr content \<Rightarrow> Inr (add_archive (cx_sha cx) display
            (scan_archive_with_policy (cx_tools cx) (cx_engine cx) (remaining_limits (cx_limits cx) (iv_coverage iv)) content display
               (if vendor then depth else 0) (if vendor then bf_vendor_depth (cx_config cx) else - 1)) iv)))"

section \<open>A regular file\<close>

definition regular_record ::
  "scan_context \<Rightarrow> string \<Rightarrow> unix_stat \<Rightarrow> file_answers \<Rightarrow> bool \<Rightarrow> file_result \<Rightarrow> file_record" where
  "regular_record cx rel st fa is_text r =
     \<lparr>fr_path = display_path rel, fr_path_b64 = path_b64 rel, fr_kind = ''file'', fr_mode = permission_bits (st_mode st),
      fr_size = st_size st, fr_sha256 = cx_sha cx (fa_content fa), fr_executable = (st_mode st AND 0x49 \<noteq> 0), fr_text = is_text,
      fr_link_target = [], fr_archive_entries = 0,
      fr_archive_format = (if looks_like_archive (re_lower (cx_engine cx)) (display_path rel) (take 8192 (fa_content fa))
        then archive_format (take 8192 (fa_content fa)) else []),
      fr_extractable = False, fr_selected_reason = rs_reason r, fr_binary_metadata = Some (rs_metadata r),
      fr_selected_text = rs_selected r\<rparr>"

text \<open>The content and the two looks at the inode.\<close>

definition bound_read :: "scan_context \<Rightarrow> string \<Rightarrow> bool \<Rightarrow> bool \<Rightarrow> unix_stat \<Rightarrow> file_answers \<Rightarrow> string + inspected" where
  "bound_read cx rel important inspection st fa =
     (if length (fa_content fa) < 8192 \<and> fa_failed fa \<noteq> None then Inl (the (fa_failed fa))
      else (case inspect_content cx (display_path rel) (st_mode st AND 0x49 \<noteq> 0) important inspection fa of
          Inl err \<Rightarrow> Inl err
        | Inr i \<Rightarrow> (case fa_after fa of
            Inl err \<Rightarrow> Inl err
          | Inr after_st \<Rightarrow>
              if \<not> same_stat st after_st \<or> in_total i \<noteq> st_size after_st
              then Inl (''TOCTOU change detected while reading '' @ display_path rel) else Inr i)))"

text \<open>The file in the inventory, and the archive it may be. A generated package is left to the artifact gate.\<close>

definition add_regular ::
  "scan_context \<Rightarrow> file_answers \<Rightarrow> string \<Rightarrow> bool \<Rightarrow> bool \<Rightarrow> bool \<Rightarrow> unix_stat \<Rightarrow> inspected \<Rightarrow> inventory \<Rightarrow> inventory" where
  "add_regular cx fa rel generated important inspection st i iv =
     (let display = display_path rel;
          r = file_result_of cx (iv_phase iv) display (st_mode st AND 0x49 \<noteq> 0) important inspection (st_size st) i;
          iv1 = add_file (regular_record cx rel st fa (in_text i) r) inspection r iv
      in if generated
         then iv1\<lparr>iv_coverage := (iv_coverage iv1)\<lparr>cov_notes := cov_notes (iv_coverage iv1) @
           [''generated package archive content deferred to artifact gate: '' @ display]\<rparr>\<rparr>
         else iv1)"

definition archive_inspection :: "scan_context \<Rightarrow> file_answers \<Rightarrow> string \<Rightarrow> bool \<Rightarrow> int \<Rightarrow> bool \<Rightarrow> bool" where
  "archive_inspection cx fa rel vendor depth generated =
     (\<not> cx_binding_only cx \<and> \<not> generated \<and>
      looks_like_archive (re_lower (cx_engine cx)) (display_path rel) (take 8192 (fa_content fa)) \<and>
      (\<not> vendor \<or> bf_vendor_depth (cx_config cx) > depth))"

definition read_regular ::
  "scan_context \<Rightarrow> file_answers \<Rightarrow> string \<Rightarrow> bool \<Rightarrow> int \<Rightarrow> bool \<Rightarrow> inventory \<Rightarrow> string + inventory" where
  "read_regular cx fa rel vendor depth generated iv =
     (let display = display_path rel in
      case fa_open fa of
        Some err \<Rightarrow> Inl (''safely open '' @ display @ '': '' @ err)
      | None \<Rightarrow> (case fa_before fa of
          Inl err \<Rightarrow> Inl err
        | Inr st \<Rightarrow>
            if mode_kind (st_mode st) \<noteq> kind_regular then Inl (''file changed type while opening: '' @ display)
            else if st_size st < 0 \<or> bytes_seen (iv_coverage iv) > lim_total_input_bytes (cx_limits cx) - st_size st
            then Inl (''aggregate scanner input limit exceeded while opening '' @ display)
            else
              let important = (mandatory_control_path (re_lower (cx_engine cx)) display \<or> rel \<in> set (cx_active cx));
                  inspection = (\<not> generated \<and> content_inspection cx vendor depth)
              in (case bound_read cx rel important inspection st fa of
                  Inl err \<Rightarrow> Inl err
                | Inr i \<Rightarrow>
                    let iv1 = add_regular cx fa rel generated important inspection st i iv in
                    (case (if archive_inspection cx fa rel vendor depth generated then inspect_archive cx display vendor depth fa iv1
                        else Inr iv1) of
                       Inl err \<Rightarrow> Inl err
                     | Inr iv2 \<Rightarrow> (case check_budget cx iv2 of Some err \<Rightarrow> Inl err | None \<Rightarrow> Inr iv2)))))"

section \<open>A symbolic link\<close>

record link_answers =
  la_target :: "string + string"
  la_after :: "string + unix_stat"

definition same_link_stat :: "unix_stat \<Rightarrow> unix_stat \<Rightarrow> bool" where
  "same_link_stat a b = (st_dev a = st_dev b \<and> st_ino a = st_ino b \<and> st_mode a = st_mode b \<and> st_size a = st_size b \<and> st_mtim a = st_mtim b)"

definition link_escapes_tree :: "string \<Rightarrow> string \<Rightarrow> bool" where
  "link_escapes_tree display target =
     (let clean = path_clean (path_join [path_dir display, target]) in
      has_prefix target ''/'' \<or> clean = ''..'' \<or> has_prefix clean ''../'')"

definition plain_record :: "string \<Rightarrow> string \<Rightarrow> unix_stat \<Rightarrow> string \<Rightarrow> file_record" where
  "plain_record rel kind st target =
     \<lparr>fr_path = display_path rel, fr_path_b64 = path_b64 rel, fr_kind = kind, fr_mode = permission_bits (st_mode st),
      fr_size = st_size st, fr_sha256 = [], fr_executable = False, fr_text = False, fr_link_target = target,
      fr_archive_entries = 0, fr_archive_format = [], fr_extractable = False, fr_selected_reason = [],
      fr_binary_metadata = Some [], fr_selected_text = []\<rparr>"

definition seen_one :: "coverage \<Rightarrow> coverage" where "seen_one c = c\<lparr>files_seen := files_seen c + 1\<rparr>"

definition record_symlink :: "link_answers \<Rightarrow> string \<Rightarrow> unix_stat \<Rightarrow> bool \<Rightarrow> inventory \<Rightarrow> string + inventory" where
  "record_symlink la rel st inspect iv = (case la_target la of
      Inl err \<Rightarrow> Inl err
    | Inr target \<Rightarrow>
        if length target > 4096 then Inl ''symlink target exceeds limit''
        else (case la_after la of
            Inl err \<Rightarrow> Inl err
          | Inr after_st \<Rightarrow>
              if \<not> same_link_stat st after_st then Inl (''TOCTOU change detected while reading symlink '' @ display_path rel)
              else Inr (iv\<lparr>iv_files := iv_files iv @ [plain_record rel ''symlink'' st target],
                iv_coverage := seen_one (iv_coverage iv),
                iv_findings := iv_findings iv @ (if inspect \<and> link_escapes_tree (display_path rel) target
                  then [plain_finding ''critical'' ''filesystem'' (display_path rel) None (truncate_text target 320)
                    ''symlink escapes the package tree'' ''symlink-escape'' True] else [])\<rparr>)))"

text \<open>A device, a socket or a pipe.\<close>

definition record_special :: "string \<Rightarrow> unix_stat \<Rightarrow> inventory \<Rightarrow> inventory" where
  "record_special rel st iv =
     (let kind = file_kind (mode_kind (st_mode st)); c = seen_one (iv_coverage iv) in
      iv\<lparr>iv_files := iv_files iv @ [plain_record rel kind st []],
         iv_findings := iv_findings iv @ [plain_finding ''critical'' ''filesystem'' (display_path rel) None kind
           ''special files are not safe package inputs'' ''special-file'' True],
         iv_coverage := c\<lparr>cov_complete := False\<rparr>\<rparr>)"

end
