(* ===== verification/Scan_Walk.thy ===== *)
theory Scan_Walk
  imports Scan_Files
begin

text \<open>
  internal/brief/scanner.go and archive_probe.go: the walk over a checkout and the source store, the comparison
  of .SRCINFO with the recipe, the check of extractable sources, finalize, and the scans put together. The file
  tree is given as what the kernel answers while it is walked; a name that is asked for outside the walk
  has answers of its own.
\<close>

section \<open>The tree and its walk\<close>

text \<open>An entry: fstatat, the opened directory with its entries, the file and the link.\<close>

datatype tree_node = Node "string + unix_stat" "string + (string \<times> tree_node) list" file_answers link_answers

type_synonym tree_entries = "(string \<times> tree_node) list"

text \<open>What is done with an entry.\<close>

datatype entry_action =
    Entry_Fails string
  | Exclude string
  | Enter bool int
  | Read_File bool int bool
  | Read_Link unix_stat
  | Special_File unix_stat

definition marker_prefix :: string where "marker_prefix = ''.prolewatch-''"

text \<open>\<open>outer\<close>: the entry is in the root of the walk; \<open>vendor\<close> and \<open>depth\<close> carry the policy for declared sources.\<close>

definition entry_action ::
  "scan_context \<Rightarrow> string \<Rightarrow> bool \<Rightarrow> bool \<Rightarrow> int \<Rightarrow> string \<Rightarrow> string \<Rightarrow> string + unix_stat \<Rightarrow> entry_action" where
  "entry_action cx phase outer vendor depth name display answer =
     (if outer \<and> (name = marker_prefix @ ''pre.json'' \<or> name = marker_prefix @ ''post.json'') then Exclude display
      else (case answer of
          Inl err \<Rightarrow> Entry_Fails (''stat '' @ display @ '': '' @ err)
        | Inr st \<Rightarrow>
            let kind = mode_kind (st_mode st); declared = (name \<in> set (cx_vendor cx));
                excluded_name = (name = ''.git'' \<or> name = ''pkg'' \<or> (phase = ''pre'' \<and> name = ''src'')) in
            if outer \<and> phase = ''pre'' \<and> declared \<and> (kind = kind_regular \<or> kind = kind_directory)
            then Exclude (display @ (if kind = kind_directory then ''/'' else []))
            else if kind = kind_directory \<and> (name = ''.git'' \<or> (outer \<and> excluded_name)) then Exclude (display @ ''/'')
            else if kind = kind_directory then
              (if outer \<and> phase = ''post'' \<and> (name = ''src'' \<or> declared) then Enter True 1 else Enter vendor depth)
            else if kind = kind_regular then
              (let generated = (outer \<and> \<not> declared \<and> package_archive_name (re_lower (cx_engine cx)) name) in
               if outer \<and> phase = ''post'' \<and> declared then Read_File True 0 generated else Read_File vendor depth generated)
            else if kind = kind_link then Read_Link st
            else Special_File st))"

definition tree_weight :: "tree_entries \<Rightarrow> nat" where "tree_weight es = size_list (size_prod (\<lambda>_. 0) size) es"

lemma tree_weight_Cons [simp]: "tree_weight (e # es) = size (snd e) + tree_weight es + 2"
  by (cases e) (simp add: tree_weight_def)

lemma tree_weight_Nil [simp]: "tree_weight [] = 0"
  by (simp add: tree_weight_def)

lemma tree_weight_sort [simp]: "tree_weight (sort_key f es) = tree_weight es"
proof -
  have i: "sum_list (map g (insort_key f x xs)) = g x + sum_list (map g xs)" for g :: "string \<times> tree_node \<Rightarrow> nat" and x xs
    by (induction xs) auto
  have "sum_list (map g (sort_key f es)) = sum_list (map g es)" for g :: "string \<times> tree_node \<Rightarrow> nat"
    by (induction es) (simp_all add: i)
  then show ?thesis by (simp add: tree_weight_def size_list_conv_sum_list)
qed

lemma tree_weight_child [simp]: "tree_weight es < Suc (Suc (Suc (Suc (size_list (size_prod (\<lambda>x. 0) size) es + k))))"
  by (simp add: tree_weight_def)

text \<open>
  The loop over the entries of one directory, sorted by name. A directory is listed when it is entered.
\<close>

function walk_entries :: "scan_context \<Rightarrow> string \<Rightarrow> bool \<Rightarrow> bool \<Rightarrow> int \<Rightarrow> tree_entries \<Rightarrow> inventory \<Rightarrow> string + inventory" where
  "walk_entries cx rel outer vendor depth [] iv = Inr iv"
| "walk_entries cx rel outer vendor depth ((name, Node answer listing file link) # es) iv =
     (case check_budget cx iv of Some err \<Rightarrow> Inl err
      | None \<Rightarrow>
        let r = child_path rel name;
            continue = (\<lambda>done. case done of Inl err \<Rightarrow> Inl err
              | Inr iv1 \<Rightarrow> (case check_budget cx iv1 of Some err \<Rightarrow> Inl err | None \<Rightarrow> walk_entries cx rel outer vendor depth es iv1))
        in (case entry_action cx (iv_phase iv) outer vendor depth name (display_path r) answer of
            Entry_Fails err \<Rightarrow> Inl err
          | Exclude x \<Rightarrow> walk_entries cx rel outer vendor depth es (iv\<lparr>iv_exclusions := iv_exclusions iv @ [x]\<rparr>)
          | Enter v d \<Rightarrow> (case listing of
                Inl err \<Rightarrow> Inl err
              | Inr children \<Rightarrow> (case check_budget cx iv of Some err \<Rightarrow> Inl err
                  | None \<Rightarrow> continue (walk_entries cx r False v d (sort_key fst children) iv)))
          | Read_File v d generated \<Rightarrow> continue (read_regular cx file r v d generated iv)
          | Read_Link st \<Rightarrow> continue (record_symlink link r st (content_inspection cx vendor depth) iv)
          | Special_File st \<Rightarrow> continue (Inr (record_special r st iv))))"
  by pat_completeness auto
termination
  by (relation "measure (\<lambda>(cx, rel, outer, vendor, depth, es, iv). tree_weight es)") auto

declare walk_entries.simps(2) [simp del]

definition walk_root :: "scan_context \<Rightarrow> string + tree_entries \<Rightarrow> inventory \<Rightarrow> string + inventory" where
  "walk_root cx listing iv = (case check_budget cx iv of Some err \<Rightarrow> Inl err
     | None \<Rightarrow> (case listing of Inl err \<Rightarrow> Inl err | Inr es \<Rightarrow> walk_entries cx [] True False 0 (sort_key fst es) iv))"

text \<open>walkSourceStore: a store that cannot be opened is no store; a name in both roots is refused.\<close>

definition walk_source_store :: "scan_context \<Rightarrow> (string + tree_entries) option \<Rightarrow> inventory \<Rightarrow> string + inventory" where
  "walk_source_store cx store iv = (case store of
      None \<Rightarrow> Inr iv
    | Some listing \<Rightarrow> (case walk_root cx listing iv of
        Inl err \<Rightarrow> Inl err
      | Inr iv1 \<Rightarrow>
          (case find (\<lambda>r. fr_path r \<in> fr_path ` set (iv_files iv)) (drop (length (iv_files iv)) (iv_files iv1)) of
             None \<Rightarrow> Inr iv1
           | Some r \<Rightarrow> Inl (''source store and checkout both contain '' @ display_path (fr_path r)))))"

section \<open>Comparing .SRCINFO with the recipe\<close>

text \<open>A line with a key, an equals sign and a value, as the expressions for .SRCINFO match it.\<close>

definition srcinfo_field :: "(string \<Rightarrow> bool) \<Rightarrow> string \<Rightarrow> (string \<times> string) option" where
  "srcinfo_field wanted line =
     (let s = dropWhile re_space line; key = takeWhile shell_char s; rest = dropWhile re_space (dropWhile shell_char s) in
      if wanted key \<and> has_prefix rest ''='' then Some (key, re_trim (tl rest)) else None)"

definition scalar_key :: "string \<Rightarrow> bool" where
  "scalar_key k = (k \<in> {''pkgbase'', ''pkgver'', ''pkgrel'', ''epoch'', ''pkgdesc'', ''url''})"

definition source_field_key :: "string \<Rightarrow> bool" where
  "source_field_key k = (k = ''source'' \<or> k = ''install'' \<or>
     (has_prefix k ''source_'' \<and> length k > 7 \<and> list_all shell_char (drop 7 k)))"

fun numbered :: "int \<Rightarrow> 'a list \<Rightarrow> (int \<times> 'a) list" where
  "numbered n [] = []"
| "numbered n (x # xs) = (n, x) # numbered (n + 1) xs"

text \<open>The first value of a scalar; all values of a checksum field with its first line.\<close>

definition srcinfo_scalars :: "string \<Rightarrow> (string \<times> string) list" where
  "srcinfo_scalars txt = List.map_filter (srcinfo_field scalar_key) (split_on nl txt)"

definition srcinfo_checksums :: "string \<Rightarrow> (string \<times> int \<times> string) list" where
  "srcinfo_checksums txt = List.map_filter (\<lambda>(n, line). map_option (\<lambda>(k, v). (k, n, v)) (srcinfo_field checksum_array_name line))
     (numbered 1 (split_on nl txt))"

definition checksum_values :: "(string \<times> int \<times> string) list \<Rightarrow> string \<Rightarrow> string list" where
  "checksum_values listed key = map (\<lambda>(k, n, v). v) (filter (\<lambda>f. fst f = key) listed)"

definition checksum_line :: "(string \<times> int \<times> string) list \<Rightarrow> string \<Rightarrow> int option" where
  "checksum_line listed key = map_option (\<lambda>f. fst (snd f)) (find (\<lambda>f. fst f = key) listed)"

text \<open>
  Go's libraries: case folding, quoting, the shell parser, and the orders in which two maps are walked
  (the names of scalars, and the suffixes of source arrays), which Go leaves open.
\<close>

record scan_library =
  sl_fold :: "string \<Rightarrow> string \<Rightarrow> bool"
  sl_quote :: "string \<Rightarrow> string"
  sl_parse :: "string \<Rightarrow> shell_command list option"
  sl_names :: "string list"
  sl_suffixes :: "string list"

definition mismatch_finding :: "int option \<Rightarrow> string \<Rightarrow> finding" where
  "mismatch_finding line evidence = plain_finding ''high'' ''package_metadata'' ''.SRCINFO'' line evidence
     ''static PKGBUILD metadata differs from .SRCINFO'' ''srcinfo-mismatch'' False"

definition scalar_mismatches :: "scan_library \<Rightarrow> scalars \<Rightarrow> (string \<times> string) list \<Rightarrow> finding list" where
  "scalar_mismatches sl pkg src = List.map_filter (\<lambda>key. case (map_of pkg key, map_of src key) of
       (Some v, Some other) \<Rightarrow>
         if other = v then None
         else Some (mismatch_finding None (key @ '': '' @ go_quote (sl_quote sl) other @ '' != '' @ go_quote (sl_quote sl) v))
     | _ \<Rightarrow> None) (sl_names sl)"

definition compared_checksums :: "static_analysis \<Rightarrow> (string \<times> int \<times> string) list \<Rightarrow> string list" where
  "compared_checksums an listed =
     sort (dedupe [] (map fst (an_values an) @ filter (\<lambda>k. \<not> array_unresolved an k) (map fst listed)))"

definition checksum_mismatches :: "scan_library \<Rightarrow> static_analysis \<Rightarrow> (string \<times> int \<times> string) list \<Rightarrow> finding list" where
  "checksum_mismatches sl an listed = List.map_filter (\<lambda>key.
     let pkg = (case map_of (an_values an) key of None \<Rightarrow> [] | Some vs \<Rightarrow> vs); src = checksum_values listed key in
     if src \<noteq> [] \<and> equal_checksum_arrays (sl_fold sl) pkg src then None
     else Some (mismatch_finding (checksum_line listed key) (checksum_mismatch_evidence (sl_fold sl) (sl_quote sl) key src pkg)))
     (compared_checksums an listed)"

definition source_reference :: "string list \<Rightarrow> int \<times> string \<Rightarrow> finding option" where
  "source_reference known l = (case srcinfo_field source_field_key (snd l) of
      None \<Rightarrow> None
    | Some (key, v) \<Rightarrow>
        let source = (case cut v ''::'' of (_, after, ok) \<Rightarrow> if ok then after else v); clean = path_clean source in
        if has_prefix key ''source'' \<and> remote_source source then None
        else if has_prefix source ''/'' \<or> clean = ''..'' \<or> has_prefix clean ''../'' then
          Some (plain_finding ''critical'' ''filesystem'' ''.SRCINFO'' (Some (fst l)) (truncate_text v 320)
            ''local source reference escapes the package tree'' ''source-reference-escape'' True)
        else if clean \<notin> set known then
          Some (plain_finding ''high'' ''coverage'' ''.SRCINFO'' (Some (fst l)) (truncate_text v 320)
            ''referenced local source or install file is missing from the inventory'' ''source-reference-missing'' False)
        else None)"

definition last_text :: "file_record list \<Rightarrow> string \<Rightarrow> string" where
  "last_text files p = (case find (\<lambda>r. fr_path r = p) (rev files) of None \<Rightarrow> [] | Some r \<Rightarrow> fr_selected_text r)"

definition compare_srcinfo :: "scan_library \<Rightarrow> inventory \<Rightarrow> inventory" where
  "compare_srcinfo sl iv =
     (let pkg = last_text (iv_files iv) ''PKGBUILD''; src = last_text (iv_files iv) ''.SRCINFO'' in
      if pkg = [] \<or> src = [] then
        iv\<lparr>iv_findings := iv_findings iv @ [coverage_finding ''.SRCINFO'' ''missing or unreadable''
             ''PKGBUILD and .SRCINFO are both required'' ''srcinfo-missing''],
           iv_coverage := (iv_coverage iv)\<lparr>cov_complete := False\<rparr>\<rparr>
      else
        let an = analyze_static_checksum_arrays (sl_parse sl) pkg; listed = srcinfo_checksums src;
            scalars = scalar_mismatches sl (static_pkgbuild_scalars pkg) (srcinfo_scalars src);
            checksums = checksum_mismatches sl an listed;
            unbound = (if checksums \<noteq> [] then invalidate_fixed_digest_bindings (iv_sources iv) else (iv_sources iv, []));
            known = map fr_path (filter (\<lambda>r. fr_kind r = ''file'' \<or> fr_kind r = ''symlink'') (iv_files iv))
        in iv\<lparr>iv_sources := fst unbound,
              iv_findings := iv_findings iv @ scalars @ checksums @ snd unbound @
                List.map_filter (source_reference known) (numbered 1 (split_on nl src))\<rparr>)"

section \<open>Extractable sources\<close>

definition parse_extractable_sources :: "string \<Rightarrow> int \<Rightarrow> string list" where
  "parse_extractable_sources raw limit =
     (let listed = List.map_filter (\<lambda>line. case cut (trim_space line) '' = '' of (k, v, ok) \<Rightarrow> if ok then Some (k, v) else None)
            (fst (scan_lines_max (max 4096 (nat (min limit (4 * 1024 * 1024)))) raw));
          sources = map snd (filter (\<lambda>(k, v). k = ''source'' \<or> has_prefix k ''source_'') listed);
          noextract = map snd (filter (\<lambda>(k, v). k = ''noextract'') listed)
      in sort (dedupe [] (filter (\<lambda>n. n \<noteq> [] \<and> n \<notin> set noextract \<and> path_base n = n) (map makepkg_source_name sources))))"

text \<open>The source found in the checkout or the store, reading it again, and the answer of bsdtar.\<close>

record source_answers =
  xs_found :: "unix_stat option"
  xs_file :: file_answers
  xs_probe :: "string + bool"

definition last_position :: "('a \<Rightarrow> bool) \<Rightarrow> 'a list \<Rightarrow> nat option" where
  "last_position P xs = (case filter (\<lambda>i. P (xs ! i)) [0..<length xs] of [] \<Rightarrow> None | ps \<Rightarrow> Some (last ps))"

definition extractable_finding :: "string \<Rightarrow> string \<Rightarrow> string \<Rightarrow> string \<Rightarrow> string \<Rightarrow> inventory \<Rightarrow> inventory" where
  "extractable_finding severity name evidence rationale rule iv =
     iv\<lparr>iv_findings := iv_findings iv @ [plain_finding severity ''coverage'' name None evidence rationale rule True],
        iv_coverage := (iv_coverage iv)\<lparr>cov_complete := False\<rparr>\<rparr>"

definition set_extractable :: "nat \<Rightarrow> bool \<Rightarrow> inventory \<Rightarrow> inventory" where
  "set_extractable index b iv = iv\<lparr>iv_files := (iv_files iv)[index := (iv_files iv ! index)\<lparr>fr_extractable := b\<rparr>]\<rparr>"

text \<open>The source is read again and must be what the inventory recorded; then bsdtar is asked.\<close>

definition probe_source :: "scan_context \<Rightarrow> string \<Rightarrow> file_record \<Rightarrow> source_answers \<Rightarrow> string + bool" where
  "probe_source cx name rec xs =
     (let fa = xs_file xs; failed = (\<lambda>err. Inl (''verify extractable source '' @ name @ '': '' @ err)) in
      case fa_open fa of Some err \<Rightarrow> Inl (''reopen extractable source '' @ name @ '': '' @ err)
      | None \<Rightarrow> (case fa_before fa of Inl err \<Rightarrow> failed err
        | Inr st \<Rightarrow> (case fa_failed fa of Some err \<Rightarrow> failed err
          | None \<Rightarrow> (case fa_after fa of Inl err \<Rightarrow> failed err
            | Inr after_st \<Rightarrow>
                if \<not> same_stat st after_st \<or> mode_kind (st_mode st) \<noteq> kind_regular \<or> st_size st \<noteq> fr_size rec \<or>
                  cx_sha cx (fa_content fa) \<noteq> file_record.fr_sha256 rec
                then failed ''source changed after inventory scan''
                else (case xs_probe xs of Inl err \<Rightarrow> failed err | Inr b \<Rightarrow> Inr b)))))"

definition verify_source :: "scan_context \<Rightarrow> string \<Rightarrow> source_answers \<Rightarrow> inventory \<Rightarrow> string + inventory" where
  "verify_source cx name xs iv = (case xs_found xs of
      None \<Rightarrow> Inr (extractable_finding ''high'' name ''extractable source is absent''
        ''a source makepkg may extract is missing from the completed inventory'' ''extractable-source-missing'' iv)
    | Some st \<Rightarrow>
        if mode_kind (st_mode st) = kind_directory then Inr iv
        else (case last_position (\<lambda>r. fr_path r = name) (iv_files iv) of
            Some index \<Rightarrow>
              let rec = iv_files iv ! index in
              if fr_kind rec \<noteq> ''file'' \<or> mode_kind (st_mode st) \<noteq> kind_regular
              then Inr (extractable_finding ''critical'' name ''non-regular extractable source''
                ''makepkg source extraction is permitted only for inventoried regular files'' ''extractable-source-invalid'' iv)
              else if name \<in> set (cx_vendor cx) \<and> bf_vendor_depth (cx_config cx) = 0
              then Inr (set_extractable index (fr_archive_format rec \<noteq> [] \<or>
                archive_format_from_name (re_lower (cx_engine cx)) name \<noteq> []) iv)
              else (case probe_source cx name rec xs of
                  Inl err \<Rightarrow> Inl err
                | Inr recognized \<Rightarrow>
                    let iv1 = set_extractable index recognized iv in
                    Inr (if recognized \<and> fr_archive_format rec = []
                      then extractable_finding ''critical'' name ''bsdtar recognizes source''
                        ''makepkg would extract a source the in-process scanner cannot recognize'' ''makepkg-archive-unsupported'' iv1
                      else iv1))
          | None \<Rightarrow> Inr (extractable_finding ''critical'' name ''non-regular extractable source''
              ''makepkg source extraction is permitted only for inventoried regular files'' ''extractable-source-invalid'' iv)))"

fun verify_sources :: "scan_context \<Rightarrow> (string \<Rightarrow> source_answers) \<Rightarrow> string list \<Rightarrow> inventory \<Rightarrow> string + inventory" where
  "verify_sources cx answers [] iv = (case check_budget cx iv of Some err \<Rightarrow> Inl err | None \<Rightarrow> Inr iv)"
| "verify_sources cx answers (n # ns) iv = (case check_budget cx iv of
     Some err \<Rightarrow> Inl err
   | None \<Rightarrow> (case verify_source cx n (answers n) iv of Inl err \<Rightarrow> Inl err | Inr iv1 \<Rightarrow> verify_sources cx answers ns iv1))"

definition verify_extractable_sources ::
  "scan_context \<Rightarrow> (string \<Rightarrow> source_answers) \<Rightarrow> string \<Rightarrow> inventory \<Rightarrow> string + inventory" where
  "verify_extractable_sources cx answers declared iv =
     (if declared = [] then Inr (extractable_finding ''high'' ''.SRCINFO'' ''missing or unreadable''
        ''post-download archive probing requires complete .SRCINFO metadata'' ''srcinfo-missing'' iv)
      else verify_sources cx answers (parse_extractable_sources declared (lim_text_per_file (cx_limits cx))) iv)"

end
