(* ===== verification/Scan_Finish.thy ===== *)
theory Scan_Finish
  imports Scan_Walk
begin

text \<open>
  internal/brief/scanner.go and archive_probe.go: finalize, which control files are active, and
  the scans of a directory and of built packages from the first open to the manifest hash.
\<close>

section \<open>Selecting text for review\<close>

definition selection_priority :: "string \<Rightarrow> nat" where
  "selection_priority v =
     (if v = ''mandatory'' then 0 else if v = ''archive-member'' then 1 else if v = ''binary-metadata'' then 2
      else if v = ''executable'' then 3 else 4)"

definition selection_key :: "file_record list \<Rightarrow> nat \<Rightarrow> nat \<times> string" where
  "selection_key files i = (selection_priority (fr_selected_reason (files ! i)), fr_path_b64 (files ! i))"

definition eligible :: "file_record list \<Rightarrow> nat list" where
  "eligible files = filter (\<lambda>i. fr_selected_text (files ! i) \<noteq> []) [0..<length files]"

definition text_size :: "file_record \<Rightarrow> int" where "text_size r = int (length (fr_selected_text r))"

text \<open>The bytes used and the records left out, in the order of the selection.\<close>

fun select_within :: "int \<Rightarrow> file_record list \<Rightarrow> nat list \<Rightarrow> int \<Rightarrow> int \<times> nat list" where
  "select_within limit files [] used = (used, [])"
| "select_within limit files (i # is) used =
     (if used + text_size (files ! i) \<le> limit then select_within limit files is (used + text_size (files ! i))
      else (case select_within limit files is used of (u, out) \<Rightarrow> (u, i # out)))"

definition mandatory_text :: "file_record \<Rightarrow> bool" where
  "mandatory_text r = (fr_selected_reason r = ''mandatory'' \<or> fr_selected_reason r = ''archive-member'' \<or>
     (\<exists>m ms. fr_binary_metadata r = Some (m # ms)))"

lemma mandatory_text_code [code]:
  "mandatory_text r = (fr_selected_reason r = ''mandatory'' \<or> fr_selected_reason r = ''archive-member'' \<or>
     (case fr_binary_metadata r of Some (m # ms) \<Rightarrow> True | _ \<Rightarrow> False))"
  by (auto simp: mandatory_text_def split: option.splits list.splits)

definition omit_text :: "file_record \<Rightarrow> inventory \<Rightarrow> inventory" where
  "omit_text r iv =
     (let c = iv_coverage iv; c1 = c\<lparr>omitted_review_files := omitted_review_files c + 1, omitted_review_bytes := omitted_review_bytes c + text_size r\<rparr> in
      if mandatory_text r then
        iv\<lparr>iv_coverage := c1\<lparr>cov_complete := False, cov_notes := cov_notes c1 @ [''mandatory AI selection exceeds aggregate limit: '' @ fr_path r]\<rparr>,
           iv_findings := iv_findings iv @ [coverage_finding (fr_path r) (show_int (text_size r))
             ''mandatory review text exceeds aggregate AI limit'' ''aggregate-selection-limit'']\<rparr>
      else iv\<lparr>iv_coverage := c1\<rparr>)"

definition clear_texts :: "nat list \<Rightarrow> file_record list \<Rightarrow> file_record list" where
  "clear_texts out files = map (\<lambda>i. if i \<in> set out then (files ! i)\<lparr>fr_selected_text := []\<rparr> else files ! i) [0..<length files]"

definition select_review_text :: "scan_context \<Rightarrow> inventory \<Rightarrow> inventory" where
  "select_review_text cx iv =
     (if \<not> bf_retain_text (cx_config cx) then
        iv\<lparr>iv_files := map (\<lambda>r. r\<lparr>fr_selected_text := []\<rparr>) (iv_files iv),
           iv_coverage := (iv_coverage iv)\<lparr>selected_bytes := 0\<rparr>\<rparr>
      else
        let files = iv_files iv; is = sort_key (selection_key files) (eligible files);
            chosen = select_within (lim_selected_text_bytes (cx_limits cx)) files is 0; c = iv_coverage iv;
            iv1 = iv\<lparr>iv_coverage := c\<lparr>review_eligible_files := review_eligible_files c + int (length is),
              review_eligible_bytes := review_eligible_bytes c + sum_list (map (\<lambda>i. text_size (files ! i)) is)\<rparr>\<rparr>;
            iv2 = foldl (\<lambda>v i. omit_text (files ! i) v) iv1 (snd chosen); c2 = iv_coverage iv2
        in iv2\<lparr>iv_files := clear_texts (snd chosen) files,
               iv_coverage := c2\<lparr>selected_bytes := fst chosen,
                 selected_files := selected_files c2 + int (length (filter (\<lambda>i. i \<notin> set (snd chosen)) is))\<rparr>\<rparr>)"

text \<open>Sorting is stable here; Go does not say what happens to records of one path and priority.\<close>

definition finalize :: "scan_context \<Rightarrow> inventory \<Rightarrow> inventory" where
  "finalize cx iv =
     (let iv1 = select_review_text cx iv; c = iv_coverage iv1; files = sort_key fr_path_b64 (iv_files iv1) in
      iv1\<lparr>iv_coverage := c\<lparr>cov_complete := cov_complete c \<and> \<not> list_ex (\<lambda>f. f_category f = ''coverage'') (iv_findings iv1)\<rparr>,
          iv_findings := sort_findings (map (\<lambda>f. f\<lparr>f_source := ''deterministic''\<rparr>) (iv_findings iv1)),
          iv_exclusions := sort (iv_exclusions iv1), iv_files := files,
          iv_sources := bind_observed_sources (cx_sha cx) (iv_phase iv1) files (iv_sources iv1),
          iv_manifest_hash := cx_sha cx (show_json (JArr (map (\<lambda>r. JObj (manifest_value r)) files)))\<rparr>)"

section \<open>Active control files\<close>

text \<open>readSmallRegularAt: the file, if it is regular and small and did not change.\<close>

definition read_small_regular :: "file_answers \<Rightarrow> int \<Rightarrow> string option" where
  "read_small_regular fa limit =
     (if fa_open fa \<noteq> None then None
      else (case fa_before fa of
          Inl err \<Rightarrow> None
        | Inr st \<Rightarrow>
            if mode_kind (st_mode st) \<noteq> kind_regular \<or> st_size st < 0 \<or> st_size st > limit then None
            else if int (length (fa_content fa)) > limit then None
            else if fa_failed fa \<noteq> None then None
            else (case fa_after fa of
                Inl err \<Rightarrow> None | Inr after_st \<Rightarrow> if same_stat st after_st then Some (fa_content fa) else None)))"

definition install_line :: "string \<Rightarrow> string option" where
  "install_line line =
     (let l = trim_space line in
      if has_prefix l ''install = '' then
        (let candidate = path_clean (trim_space (trim_prefix l ''install = '')) in
         if candidate \<noteq> ''.'' \<and> path_base candidate = candidate then Some candidate else None)
      else None)"

definition sourced_value :: "string \<Rightarrow> string" where
  "sourced_value line =
     (let l = trim_space line;
          v = (if has_prefix l ''source '' then trim_space (trim_prefix l ''source '')
               else if has_prefix l ''. '' then trim_space (trim_prefix l ''. '') else []);
          w = (if has_prefix v ''-- '' then trim_space (trim_prefix v ''-- '') else v);
          x = trim_both {CHR 0x27, CHR 0x22} w
      in trim_prefix (trim_prefix x ''$srcdir/'') ''${srcdir}/'')"

definition sourced_line :: "string \<Rightarrow> string option" where
  "sourced_line line =
     (let v = sourced_value line; candidate = path_clean v in
      if v \<noteq> [] \<and> \<not> list_ex (\<lambda>c. c \<in> set (''$'' @ [CHR 0x60] @ ''(){};|&<>'')) v \<and> candidate \<noteq> ''.'' \<and>
        \<not> has_prefix candidate ''../'' \<and> \<not> has_prefix candidate ''/'' then Some candidate else None)"

definition active_control_paths :: "file_answers \<Rightarrow> file_answers \<Rightarrow> int \<Rightarrow> string list" where
  "active_control_paths srcinfo pkgbuild limit =
     (case read_small_regular srcinfo limit of None \<Rightarrow> [] | Some raw \<Rightarrow> List.map_filter install_line (fst (scan_lines raw))) @
     (case read_small_regular pkgbuild limit of None \<Rightarrow> [] | Some raw \<Rightarrow> List.map_filter sourced_line (split_on nl raw))"

section \<open>Whole scans\<close>

definition no_coverage :: coverage where
  "no_coverage = \<lparr>files_seen = 0, bytes_seen = 0, text_files = 0, text_bytes = 0, selected_files = 0, selected_bytes = 0,
     review_eligible_files = 0, review_eligible_bytes = 0, omitted_review_files = 0, omitted_review_bytes = 0, binary_files = 0,
     binary_bytes = 0, archives_seen = 0, archive_entries = 0, archive_unpacked_bytes = 0, cov_complete = True, cov_notes = []\<rparr>"

definition no_yay_context :: yay_context where
  "no_yay_context = \<lparr>yay_version = [], yay_last_modified = 0, yay_installed = False, yay_packages = [], yay_depends = [],
     yay_make_depends = [], yay_check_depends = []\<rparr>"

definition scan_start :: "string \<Rightarrow> string \<Rightarrow> string \<Rightarrow> inventory" where
  "scan_start root phase pgp =
     \<lparr>iv_root = root, iv_phase = phase, iv_files = [], iv_findings = [], iv_exclusions = [], iv_manifest_hash = [],
      iv_coverage = no_coverage, iv_yay_context = no_yay_context, iv_manifest_diff = [], iv_sources = [],
      iv_verification = \<lparr>sv_checksums = ''unknown'', sv_pgp = pgp\<rparr>\<rparr>"

text \<open>
  What a scan of a directory meets: the root it resolves to, its entries, .SRCINFO and PKGBUILD as they are
  read before the walk, the source store if there is one, and the sources as they are read after it.
\<close>

record directory_world =
  dw_root :: "string + string"
  dw_entries :: "string + tree_entries"
  dw_srcinfo :: file_answers
  dw_pkgbuild :: file_answers
  dw_store :: "(string + tree_entries) option"
  dw_sources :: "string \<Rightarrow> source_answers"

text \<open>The declaration the scan goes by: the plan if there is one, else the committed file; empty if there is neither.\<close>

definition declared_sources :: "scan_context \<Rightarrow> directory_world \<Rightarrow> string \<Rightarrow> string option" where
  "declared_sources cx dw plan = (if plan \<noteq> [] then Some plan else read_small_regular (dw_srcinfo dw) (lim_text_per_file (cx_limits cx)))"

definition declare_sources :: "scan_library \<Rightarrow> scan_context \<Rightarrow> string option \<Rightarrow> inventory \<Rightarrow> inventory" where
  "declare_sources sl cx declared iv = (case declared of
      None \<Rightarrow> iv
    | Some raw \<Rightarrow>
        let ss = parse_source_provenance (re_lower (cx_engine cx)) (sl_fold sl) (sl_suffixes sl) raw (bf_vendor_depth (cx_config cx)) in
        iv\<lparr>iv_sources := ss,
           iv_findings := (if cx_binding_only cx then iv_findings iv
             else iv_findings iv @ source_provenance_findings ss @ unsupported_transport_findings (re_lower (cx_engine cx)) ss)\<rparr>)"

definition scan_setup :: "scan_context \<Rightarrow> directory_world \<Rightarrow> source_provenance list \<Rightarrow> scan_context" where
  "scan_setup cx dw ss = cx\<lparr>cx_active := active_control_paths (dw_srcinfo dw) (dw_pkgbuild dw) (lim_text_per_file (cx_limits cx)),
     cx_vendor := map sp_name ss\<rparr>"

definition first_inventory :: "scan_library \<Rightarrow> scan_context \<Rightarrow> directory_world \<Rightarrow> string \<Rightarrow> string \<Rightarrow> string \<Rightarrow> inventory" where
  "first_inventory sl cx dw plan root phase = declare_sources sl cx (declared_sources cx dw plan) (scan_start root phase ''unknown'')"

definition check_sources :: "scan_library \<Rightarrow> scan_context \<Rightarrow> directory_world \<Rightarrow> string \<Rightarrow> string \<Rightarrow> inventory \<Rightarrow> string + inventory" where
  "check_sources sl cx dw plan phase iv =
     (if cx_binding_only cx then Inr iv
      else if phase = ''pre'' then Inr (compare_srcinfo sl iv)
      else verify_extractable_sources cx (dw_sources dw) (case declared_sources cx dw plan of None \<Rightarrow> [] | Some raw \<Rightarrow> raw) iv)"

definition scan_tree :: "scan_library \<Rightarrow> scan_context \<Rightarrow> directory_world \<Rightarrow> string \<Rightarrow> string \<Rightarrow> string + inventory" where
  "scan_tree sl cx0 dw plan phase =
     (if phase \<noteq> ''pre'' \<and> phase \<noteq> ''post'' then Inl (''unsupported directory phase: '' @ phase)
      else (case dw_root dw of
          Inl err \<Rightarrow> Inl err
        | Inr root \<Rightarrow>
            let iv = first_inventory sl cx0 dw plan root phase; cx = scan_setup cx0 dw (iv_sources iv) in
            (case walk_root cx (dw_entries dw) iv of
               Inl err \<Rightarrow> Inl err
             | Inr iv1 \<Rightarrow> (case walk_source_store cx (dw_store dw) iv1 of
                 Inl err \<Rightarrow> Inl err
               | Inr iv2 \<Rightarrow> (case check_sources sl cx dw plan phase iv2 of
                   Inl err \<Rightarrow> Inl err | Inr iv3 \<Rightarrow> Inr (finalize cx iv3))))))"

text \<open>ScanDirectoryWithSources and BindDirectoryWithSources.\<close>

definition scan_directory_with_sources :: "scan_library \<Rightarrow> scan_context \<Rightarrow> directory_world \<Rightarrow> string \<Rightarrow> string \<Rightarrow> string + inventory" where
  "scan_directory_with_sources sl cx dw plan phase = scan_tree sl (cx\<lparr>cx_binding_only := False\<rparr>) dw plan phase"

definition bind_directory_with_sources :: "scan_library \<Rightarrow> scan_context \<Rightarrow> directory_world \<Rightarrow> string \<Rightarrow> string + inventory" where
  "bind_directory_with_sources sl cx dw phase = scan_tree sl (cx\<lparr>cx_binding_only := True\<rparr>) dw [] phase"

text \<open>ScanArtifactsWithProgress: the requested path, what opening its directory gives, and the file.\<close>

fun scan_packages :: "scan_context \<Rightarrow> (string \<times> string option \<times> file_answers) list \<Rightarrow> inventory \<Rightarrow> string + inventory" where
  "scan_packages cx [] iv = Inr iv"
| "scan_packages cx ((requested, failed, fa) # ps) iv = (case failed of
     Some err \<Rightarrow> Inl err
   | None \<Rightarrow> (case read_regular cx fa (path_base requested) False 0 False iv of
       Inl err \<Rightarrow> Inl err | Inr iv1 \<Rightarrow> scan_packages cx ps iv1))"

definition scan_artifact_files :: "scan_context \<Rightarrow> (string \<times> string option \<times> file_answers) list \<Rightarrow> string + inventory" where
  "scan_artifact_files cx ps =
     (case scan_packages (cx\<lparr>cx_binding_only := False, cx_active := [], cx_vendor := []\<rparr>) (sort_key fst ps)
          (scan_start ''<artifacts>'' ''artifact'' ''not-applicable'') of
        Inl err \<Rightarrow> Inl err | Inr iv \<Rightarrow> Inr (finalize cx iv))"

section \<open>An example\<close>

text \<open>A checkout with a link and a directory that holds a file and a pipe, and a digest that keeps the first bytes.\<close>

definition example_stat :: "32 word \<Rightarrow> int \<Rightarrow> unix_stat" where
  "example_stat m sz = \<lparr>st_dev = 1, st_ino = 7, st_size = sz, st_mtim = (0, 0), st_ctim = (0, 0), st_mode = m, st_uid = 0,
     st_gid = 0, st_nlink = 1\<rparr>"

definition example_file :: "string \<Rightarrow> file_answers" where
  "example_file content = (let st = Inr (example_stat 0x81A4 (int (length content))) in
     \<lparr>fa_open = None, fa_before = st, fa_content = content, fa_failed = None, fa_after = st, fa_again = Inr content\<rparr>)"

definition example_leaf :: "32 word \<Rightarrow> string \<Rightarrow> tree_node" where
  "example_leaf m content = Node (Inr (example_stat m (int (length content)))) (Inl ''not a directory'') (example_file content)
     \<lparr>la_target = Inr content, la_after = Inr (example_stat m (int (length content)))\<rparr>"

definition example_tree :: tree_entries where
  "example_tree = [(''run'', example_leaf 0xA1FF ''src/a''),
     (''lib'', Node (Inr (example_stat 0x41ED 0)) (Inr [(''a'', example_leaf 0x81A4 ''cd /''), (''p'', example_leaf 0x11A4 [])])
        (example_file []) \<lparr>la_target = Inl [], la_after = Inl []\<rparr>)]"

definition example_world :: directory_world where
  "example_world = \<lparr>dw_root = Inr ''/w'', dw_entries = Inr example_tree, dw_srcinfo = example_file [], dw_pkgbuild = example_file [],
     dw_store = None, dw_sources = (\<lambda>s. \<lparr>xs_found = None, xs_file = example_file [], xs_probe = Inr False\<rparr>)\<rparr>"

definition example_scan :: scan_context where
  "example_scan = \<lparr>cx_config = \<lparr>bf_limits = example_limits, bf_vendor_depth = 0, bf_retain_text = True\<rparr>, cx_engine = example_engine,
     cx_tools = example_tools [] None, cx_sha = (\<lambda>s. ''H'' @ take 8 s), cx_binding_only = False, cx_active = [], cx_vendor = [],
     cx_expired = (\<lambda>iv. False)\<rparr>"

definition example_library :: scan_library where
  "example_library = \<lparr>sl_fold = (=), sl_quote = (\<lambda>s. s), sl_parse = (\<lambda>s. None), sl_names = [], sl_suffixes = []\<rparr>"

definition scans_plainly :: "string + inventory \<Rightarrow> bool" where
  "scans_plainly r = (case r of Inl err \<Rightarrow> False | Inr iv \<Rightarrow> iv_sources iv = [])"

lemma scans_plainlyE: "scans_plainly r \<Longrightarrow> \<exists>iv. r = Inr iv \<and> iv_sources iv = []"
  by (cases r) (simp_all add: scans_plainly_def)

lemma example_scans:
  "scans_plainly (scan_directory_with_sources example_library example_scan example_world [] ''pre'')"
  by code_simp

lemma example_scan_tree:
  "scan_tree sl example_scan dw plan phase = scan_directory_with_sources sl example_scan dw plan phase"
  by (simp add: scan_directory_with_sources_def example_scan_def)

end
