(* ===== verification/Scan_Binding.thy ===== *)
theory Scan_Binding
  imports Scan_Finish
begin

text \<open>
  What a scan binds: every file, link and special file of the tree is in the manifest with the digest of
  the bytes that were read, and a later binding scan of the same tree gives the same facts.
\<close>

section \<open>One file\<close>

lemma bound_read_ok:
  assumes "bound_read cx rel important inspection st fa = Inr i"
  shows "fa_failed fa = None \<and> fa_after fa = Inr st \<and> in_total i = st_size st"
proof -
  have "fa_failed fa = None"
  proof (cases "inspection \<and> probably_text (take 8192 (fa_content fa))")
    case True
    then show ?thesis using assms
      by (auto simp: bound_read_def inspect_content_def inspect_text_def Let_def dest: scan_reader_sample split: if_splits sum.splits prod.splits)
  next
    case False
    then show ?thesis using assms
      by (auto simp: bound_read_def inspect_content_def Let_def split: if_splits sum.splits option.splits)
  qed
  then show ?thesis using assms
    by (auto simp: bound_read_def same_stat_eq split: if_splits sum.splits)
qed

text \<open>What is the same for a record and its counterpart in a binding scan.\<close>

definition file_facts :: "(string \<Rightarrow> string) \<Rightarrow> string \<Rightarrow> unix_stat \<Rightarrow> string \<Rightarrow> string \<times> string \<times> string \<times> nat \<times> int \<times> string \<times> bool \<times> string" where
  "file_facts sha rel st content =
     (path_b64 rel, display_path rel, ''file'', permission_bits (st_mode st), st_size st, sha content, st_mode st AND 0x49 \<noteq> 0, [])"

definition plain_facts :: "string \<Rightarrow> string \<Rightarrow> unix_stat \<Rightarrow> string \<Rightarrow> string \<times> string \<times> string \<times> nat \<times> int \<times> string \<times> bool \<times> string" where
  "plain_facts rel kind st target =
     (path_b64 rel, display_path rel, kind, permission_bits (st_mode st), st_size st, [], False, target)"

definition file_bound :: "(string \<Rightarrow> string) \<Rightarrow> string \<Rightarrow> file_answers \<Rightarrow> string \<times> string \<times> string \<times> nat \<times> int \<times> string \<times> bool \<times> string \<Rightarrow> bool" where
  "file_bound sha rel fa facts \<longleftrightarrow>
     (\<exists>st. fa_open fa = None \<and> fa_before fa = Inr st \<and> fa_after fa = Inr st \<and> fa_failed fa = None \<and>
       mode_kind (st_mode st) = kind_regular \<and> facts = file_facts sha rel st (fa_content fa))"

text \<open>How an inventory grows: records are added at the end, findings too, and coverage is only lost.\<close>

definition tree_records :: "inventory \<Rightarrow> file_record list" where
  "tree_records iv = filter (\<lambda>r. fr_kind r \<noteq> ''archive-member'') (iv_files iv)"

definition tree_facts :: "inventory \<Rightarrow> (string \<times> string \<times> string \<times> nat \<times> int \<times> string \<times> bool \<times> string) list" where
  "tree_facts iv = map bound_facts (tree_records iv)"

definition scan_grows :: "inventory \<Rightarrow> inventory \<Rightarrow> bool" where
  "scan_grows iv iv' \<longleftrightarrow>
     (\<exists>new. iv_files iv' = iv_files iv @ new) \<and> (\<exists>fs. iv_findings iv' = iv_findings iv @ fs) \<and>
     (cov_complete (iv_coverage iv') \<longrightarrow> cov_complete (iv_coverage iv)) \<and> iv_phase iv' = iv_phase iv \<and> iv_sources iv' = iv_sources iv"

lemma scan_grows_refl [simp]: "scan_grows iv iv"
  by (simp add: scan_grows_def)

lemma scan_grows_trans: "scan_grows a b \<Longrightarrow> scan_grows b c \<Longrightarrow> scan_grows a c"
  by (auto simp: scan_grows_def)

lemma scan_grows_facts: "scan_grows iv iv' \<Longrightarrow> set (tree_facts iv) \<subseteq> set (tree_facts iv')"
  by (auto simp: scan_grows_def tree_facts_def tree_records_def)

lemma add_archive_files:
  assumes "iv_files iv = fs @ [r]"
  shows "\<exists>r'. iv_files (add_archive sha d a iv) = fs @ r' # map (archive_member_record sha) (sc_selected a) \<and>
    bound_facts r' = bound_facts r \<and> fr_kind r' = fr_kind r"
  using assms by (auto simp: add_archive_def Let_def change_last_def bound_facts_def)

lemma archive_members_dropped: "filter (\<lambda>r. fr_kind r \<noteq> ''archive-member'') (map (archive_member_record sha) ms) = []"
  by (auto simp: archive_member_record_def filter_empty_conv)

lemma regular_record_facts:
  "bound_facts (regular_record cx rel st fa t r) = file_facts (cx_sha cx) rel st (fa_content fa)"
  "fr_kind (regular_record cx rel st fa t r) = ''file''" "fr_size (regular_record cx rel st fa t r) = st_size st"
  by (simp_all add: regular_record_def bound_facts_def file_facts_def)

lemma add_regular_adds:
  obtains rec where "iv_files (add_regular cx fa rel generated important inspection st i iv) = iv_files iv @ [rec]"
    "bound_facts rec = file_facts (cx_sha cx) rel st (fa_content fa)" "fr_kind rec = ''file''"
    "\<exists>fs. iv_findings (add_regular cx fa rel generated important inspection st i iv) = iv_findings iv @ fs"
    "cov_complete (iv_coverage (add_regular cx fa rel generated important inspection st i iv)) \<longrightarrow> cov_complete (iv_coverage iv)"
    "iv_phase (add_regular cx fa rel generated important inspection st i iv) = iv_phase iv"
    "iv_sources (add_regular cx fa rel generated important inspection st i iv) = iv_sources iv"
    "files_seen (iv_coverage (add_regular cx fa rel generated important inspection st i iv)) = files_seen (iv_coverage iv) + 1"
    "bytes_seen (iv_coverage (add_regular cx fa rel generated important inspection st i iv)) = bytes_seen (iv_coverage iv) + st_size st"
proof -
  define r where "r = file_result_of cx (iv_phase iv) (display_path rel) (st_mode st AND 0x49 \<noteq> 0) important inspection (st_size st) i"
  show thesis
    by (rule that[of "regular_record cx rel st fa (in_text i) r"])
      (simp_all add: add_regular_def Let_def r_def[symmetric] add_file_def regular_record_facts)
qed

lemma read_regular_adds:
  assumes "read_regular cx fa rel vendor depth generated iv = Inr iv'"
  obtains st where "fa_open fa = None" "fa_before fa = Inr st" "fa_after fa = Inr st" "fa_failed fa = None"
    "mode_kind (st_mode st) = kind_regular" "0 \<le> st_size st"
    "\<not> bytes_seen (iv_coverage iv) > lim_total_input_bytes (cx_limits cx) - st_size st"
    "tree_facts iv' = tree_facts iv @ [file_facts (cx_sha cx) rel st (fa_content fa)]"
    "scan_grows iv iv'" "files_seen (iv_coverage iv') = files_seen (iv_coverage iv) + 1"
    "bytes_seen (iv_coverage iv') = bytes_seen (iv_coverage iv) + st_size st" "check_budget cx iv' = None"
proof -
  let ?d = "display_path rel"
  obtain st where st: "fa_open fa = None" "fa_before fa = Inr st" "mode_kind (st_mode st) = kind_regular" "0 \<le> st_size st"
    "\<not> bytes_seen (iv_coverage iv) > lim_total_input_bytes (cx_limits cx) - st_size st"
    using assms by (auto simp: read_regular_def Let_def split: option.splits sum.splits if_splits)
  define important where "important = (mandatory_control_path (re_lower (cx_engine cx)) ?d \<or> rel \<in> set (cx_active cx))"
  define inspection where "inspection = (\<not> generated \<and> content_inspection cx vendor depth)"
  obtain i where i: "bound_read cx rel important inspection st fa = Inr i"
    using assms st by (auto simp: read_regular_def Let_def important_def inspection_def split: sum.splits)
  define iv2 where "iv2 = add_regular cx fa rel generated important inspection st i iv"
  obtain rec where two: "iv_files iv2 = iv_files iv @ [rec]" "bound_facts rec = file_facts (cx_sha cx) rel st (fa_content fa)"
    "fr_kind rec = ''file''" "\<exists>fs. iv_findings iv2 = iv_findings iv @ fs"
    "cov_complete (iv_coverage iv2) \<longrightarrow> cov_complete (iv_coverage iv)" "iv_phase iv2 = iv_phase iv" "iv_sources iv2 = iv_sources iv"
    "files_seen (iv_coverage iv2) = files_seen (iv_coverage iv) + 1" "bytes_seen (iv_coverage iv2) = bytes_seen (iv_coverage iv) + st_size st"
    unfolding iv2_def by (rule add_regular_adds)
  have e: "(case (if archive_inspection cx fa rel vendor depth generated then inspect_archive cx ?d vendor depth fa iv2 else Inr iv2) of
      Inl err \<Rightarrow> Inl err | Inr iv3 \<Rightarrow> (case check_budget cx iv3 of Some err \<Rightarrow> Inl err | None \<Rightarrow> Inr iv3)) = Inr iv'"
    using assms st i unfolding iv2_def read_regular_def Let_def important_def[symmetric] inspection_def[symmetric] by simp
  have three: "tree_facts iv' = tree_facts iv @ [bound_facts rec] \<and> scan_grows iv iv' \<and>
      files_seen (iv_coverage iv') = files_seen (iv_coverage iv2) \<and> bytes_seen (iv_coverage iv') = bytes_seen (iv_coverage iv2)"
  proof (cases "archive_inspection cx fa rel vendor depth generated")
    case True
    then obtain content a where a: "iv' = add_archive (cx_sha cx) ?d a iv2"
      using e by (auto simp: inspect_archive_def split: sum.splits option.splits if_splits)
    obtain r' where f: "iv_files iv' = iv_files iv @ r' # map (archive_member_record (cx_sha cx)) (sc_selected a)"
      "bound_facts r' = bound_facts rec" "fr_kind r' = fr_kind rec"
      using add_archive_files[OF two(1), of "cx_sha cx" ?d a] a by auto
    have k: "fr_kind r' \<noteq> ''archive-member''" using f(3) two(3) by simp
    show ?thesis using two f k
      by (auto simp: tree_facts_def tree_records_def archive_members_dropped scan_grows_def a add_archive_def Let_def)
  next
    case False
    then have "iv' = iv2" using e by (auto split: option.splits)
    then show ?thesis using two by (auto simp: tree_facts_def tree_records_def scan_grows_def)
  qed
  have c: "check_budget cx iv' = None" using e by (auto split: sum.splits option.splits)
  show thesis
    using that[of st] st bound_read_ok[OF i] three two(2,8,9) c by simp
qed

section \<open>Links and special files\<close>

lemma plain_record_facts:
  "bound_facts (plain_record rel kind st target) = plain_facts rel kind st target" "fr_kind (plain_record rel kind st target) = kind"
  by (simp_all add: plain_record_def bound_facts_def plain_facts_def)

lemma file_kind_no_member: "file_kind kind \<noteq> ''archive-member''"
  by (simp add: file_kind_def)

lemma record_symlink_adds:
  assumes "record_symlink la rel st inspect iv = Inr iv'"
  obtains target where "la_target la = Inr target" "tree_facts iv' = tree_facts iv @ [plain_facts rel ''symlink'' st target]"
    "scan_grows iv iv'" "iv_coverage iv' = seen_one (iv_coverage iv)"
  using assms by (auto simp: record_symlink_def tree_facts_def tree_records_def scan_grows_def seen_one_def plain_record_facts
    split: sum.splits if_splits)

lemma record_special_adds:
  "tree_facts (record_special rel st iv) = tree_facts iv @ [plain_facts rel (file_kind (mode_kind (st_mode st))) st []]"
  "scan_grows iv (record_special rel st iv)" "iv_coverage (record_special rel st iv) = (seen_one (iv_coverage iv))\<lparr>cov_complete := False\<rparr>"
  "\<exists>f \<in> set (iv_findings (record_special rel st iv)). f_hard_block f \<and> f_file f = display_path rel \<and> f_rule_id f = ''special-file''"
  by (auto simp: record_special_def Let_def tree_facts_def tree_records_def scan_grows_def seen_one_def plain_record_facts
    file_kind_no_member plain_finding_def)

section \<open>The walk, entry by entry\<close>

definition entry_done ::
  "scan_context \<Rightarrow> string \<Rightarrow> bool \<Rightarrow> bool \<Rightarrow> int \<Rightarrow> string \<Rightarrow> tree_node \<Rightarrow> inventory \<Rightarrow> inventory \<Rightarrow> bool" where
  "entry_done cx rel outer vendor depth name node iv iv1 = (case node of Node answer listing file link \<Rightarrow>
     let r = child_path rel name in
     (case entry_action cx (iv_phase iv) outer vendor depth name (display_path r) answer of
        Entry_Fails err \<Rightarrow> False
      | Exclude x \<Rightarrow> iv1 = iv\<lparr>iv_exclusions := iv_exclusions iv @ [x]\<rparr>
      | Enter v d \<Rightarrow> (\<exists>children. listing = Inr children \<and> walk_entries cx r False v d (sort_key fst children) iv = Inr iv1) \<and>
          check_budget cx iv1 = None
      | Read_File v d generated \<Rightarrow> read_regular cx file r v d generated iv = Inr iv1 \<and> check_budget cx iv1 = None
      | Read_Link st \<Rightarrow> record_symlink link r st (content_inspection cx vendor depth) iv = Inr iv1 \<and> check_budget cx iv1 = None
      | Special_File st \<Rightarrow> iv1 = record_special r st iv \<and> check_budget cx iv1 = None))"

lemma continue_ok:
  "(case done of Inl err \<Rightarrow> Inl err | Inr x \<Rightarrow> (case stop x of Some err \<Rightarrow> Inl err | None \<Rightarrow> next x)) = Inr y \<longleftrightarrow>
     (\<exists>x. done = Inr x \<and> stop x = None \<and> next x = Inr y)"
  by (auto split: sum.splits option.splits)

lemma walk_entries_Cons:
  "walk_entries cx rel outer vendor depth ((name, node) # es) iv = Inr iv' \<longleftrightarrow>
     check_budget cx iv = None \<and> (\<exists>iv1. entry_done cx rel outer vendor depth name node iv iv1 \<and>
       walk_entries cx rel outer vendor depth es iv1 = Inr iv')"
proof (cases node)
  case (Node answer listing fl lk)
  show ?thesis
  proof (cases "check_budget cx iv")
    case None
    then show ?thesis
      unfolding Node walk_entries.simps(2) entry_done_def Let_def tree_node.case
      by (cases "entry_action cx (iv_phase iv) outer vendor depth name (display_path (child_path rel name)) answer"; cases listing)
        (simp_all add: continue_ok split: option.split)
  qed (simp add: Node walk_entries.simps(2))
qed

section \<open>What the walk must see\<close>

text \<open>
  The entries that are left out by design: the markers, declared sources before they are downloaded, git
  metadata, and in the root what makepkg itself writes.
\<close>

definition left_out :: "string \<Rightarrow> string list \<Rightarrow> bool \<Rightarrow> string \<Rightarrow> unix_stat \<Rightarrow> bool" where
  "left_out phase declared outer name st \<longleftrightarrow>
     (outer \<and> name \<in> {''.prolewatch-pre.json'', ''.prolewatch-post.json''}) \<or>
     (outer \<and> phase = ''pre'' \<and> name \<in> set declared \<and> mode_kind (st_mode st) \<in> {kind_regular, kind_directory}) \<or>
     (mode_kind (st_mode st) = kind_directory \<and>
        (name = ''.git'' \<or> (outer \<and> (name = ''pkg'' \<or> (phase = ''pre'' \<and> name = ''src'')))))"

inductive in_tree :: "string \<Rightarrow> string list \<Rightarrow> bool \<Rightarrow> string \<Rightarrow> tree_entries \<Rightarrow> string \<Rightarrow> tree_node \<Rightarrow> bool" for phase declared where
  entry: "(name, Node (Inr st) listing file link) \<in> set es \<Longrightarrow> \<not> left_out phase declared outer name st \<Longrightarrow>
    in_tree phase declared outer rel es (child_path rel name) (Node (Inr st) listing file link)"
| below: "(name, Node (Inr st) (Inr children) file link) \<in> set es \<Longrightarrow> \<not> left_out phase declared outer name st \<Longrightarrow>
    mode_kind (st_mode st) = kind_directory \<Longrightarrow> in_tree phase declared False (child_path rel name) children p n \<Longrightarrow>
    in_tree phase declared outer rel es p n"

inductive_cases in_treeE: "in_tree phase declared outer rel es p n"

lemma in_tree_set: "in_tree phase declared outer rel es p n \<Longrightarrow> set es \<subseteq> set es' \<Longrightarrow> in_tree phase declared outer rel es' p n"
  by (induction rule: in_tree.cases) (auto intro: in_tree.intros)

lemma kinds_differ [simp]:
  "kind_directory \<noteq> kind_regular" "kind_directory \<noteq> kind_link" "kind_regular \<noteq> kind_link"
  "kind_regular \<noteq> kind_directory" "kind_link \<noteq> kind_directory" "kind_link \<noteq> kind_regular"
  by (simp_all add: kind_directory_def kind_regular_def kind_link_def)

lemma entry_action_kept:
  assumes "\<not> left_out phase (cx_vendor cx) outer name st"
  shows "entry_action cx phase outer vendor depth name display (Inr st) =
    (let kind = mode_kind (st_mode st); declared = (name \<in> set (cx_vendor cx));
         generated = (outer \<and> \<not> declared \<and> package_archive_name (re_lower (cx_engine cx)) name) in
     if kind = kind_directory then (if outer \<and> phase = ''post'' \<and> (name = ''src'' \<or> declared) then Enter True 1 else Enter vendor depth)
     else if kind = kind_regular then
       (if outer \<and> phase = ''post'' \<and> declared then Read_File True 0 generated else Read_File vendor depth generated)
     else if kind = kind_link then Read_Link st else Special_File st)"
proof -
  have m: "marker_prefix @ ''pre.json'' = ''.prolewatch-pre.json''" "marker_prefix @ ''post.json'' = ''.prolewatch-post.json''"
    by (simp_all add: marker_prefix_def)
  have a: "(outer \<and> (name = marker_prefix @ ''pre.json'' \<or> name = marker_prefix @ ''post.json'')) = False"
    "(outer \<and> phase = ''pre'' \<and> name \<in> set (cx_vendor cx) \<and>
        (mode_kind (st_mode st) = kind_regular \<or> mode_kind (st_mode st) = kind_directory)) = False"
    "(mode_kind (st_mode st) = kind_directory \<and> (name = ''.git'' \<or> (outer \<and> (name = ''.git'' \<or> name = ''pkg'' \<or>
        (phase = ''pre'' \<and> name = ''src''))))) = False"
    using assms unfolding left_out_def m by blast+
  show ?thesis unfolding entry_action_def sum.case Let_def a if_False ..
qed

lemma entry_action_seen:
  assumes "\<not> left_out phase (cx_vendor cx) outer name st"
  shows "mode_kind (st_mode st) = kind_directory \<Longrightarrow> \<exists>v d. entry_action cx phase outer vendor depth name display (Inr st) = Enter v d"
    "mode_kind (st_mode st) = kind_regular \<Longrightarrow> \<exists>v d g. entry_action cx phase outer vendor depth name display (Inr st) = Read_File v d g"
    "mode_kind (st_mode st) = kind_link \<Longrightarrow> entry_action cx phase outer vendor depth name display (Inr st) = Read_Link st"
    "mode_kind (st_mode st) \<notin> {kind_directory, kind_regular, kind_link} \<Longrightarrow>
       entry_action cx phase outer vendor depth name display (Inr st) = Special_File st"
  by (auto simp: entry_action_kept[OF assms] Let_def)

text \<open>What the inventory says of an entry.\<close>

definition recorded :: "(string \<Rightarrow> string) \<Rightarrow> inventory \<Rightarrow> string \<Rightarrow> tree_node \<Rightarrow> bool" where
  "recorded sha iv p n = (case n of Node answer listing fa la \<Rightarrow> (case answer of Inl err \<Rightarrow> False | Inr st \<Rightarrow>
     let kind = mode_kind (st_mode st) in
     if kind = kind_directory then True
     else if kind = kind_regular then \<exists>facts \<in> set (tree_facts iv). file_bound sha p fa facts
     else if kind = kind_link then \<exists>target. la_target la = Inr target \<and> plain_facts p ''symlink'' st target \<in> set (tree_facts iv)
     else plain_facts p (file_kind kind) st [] \<in> set (tree_facts iv) \<and> \<not> cov_complete (iv_coverage iv) \<and>
       (\<exists>f \<in> set (iv_findings iv). f_hard_block f \<and> f_file f = display_path p \<and> f_rule_id f = ''special-file'')))"

lemma recorded_grows: "scan_grows iv iv' \<Longrightarrow> recorded sha iv p n \<Longrightarrow> recorded sha iv' p n"
  using scan_grows_facts[of iv iv']
  by (auto simp: recorded_def scan_grows_def Let_def split: tree_node.splits sum.splits if_splits)

lemma entry_grows:
  assumes "entry_done cx rel outer vendor depth name node iv iv1"
    and "\<And>answer children fl lk v d iv'. node = Node answer (Inr children) fl lk \<Longrightarrow>
      walk_entries cx (child_path rel name) False v d (sort_key fst children) iv = Inr iv' \<Longrightarrow> scan_grows iv iv'"
  shows "scan_grows iv iv1"
proof -
  obtain answer listing fl lk where n: "node = Node answer listing fl lk" by (cases node)
  show ?thesis
  proof (cases "entry_action cx (iv_phase iv) outer vendor depth name (display_path (child_path rel name)) answer")
    case (Exclude x) then show ?thesis using assms(1) by (simp add: n entry_done_def Let_def scan_grows_def)
  next
    case (Enter v d) then show ?thesis using assms(1) assms(2) by (auto simp: n entry_done_def Let_def)
  next
    case (Read_File v d g) then show ?thesis using assms(1) by (auto simp: n entry_done_def Let_def elim: read_regular_adds)
  next
    case (Read_Link st) then show ?thesis using assms(1) by (auto simp: n entry_done_def Let_def elim: record_symlink_adds)
  next
    case (Special_File st) then show ?thesis using assms(1) by (simp add: n entry_done_def Let_def record_special_adds)
  qed (use assms(1) in \<open>simp add: n entry_done_def Let_def\<close>)
qed

lemma entry_records:
  assumes d: "entry_done cx rel outer vendor depth name node iv iv1"
    and sub: "\<And>answer children fl lk v d iv' p n. node = Node answer (Inr children) fl lk \<Longrightarrow>
      walk_entries cx (child_path rel name) False v d (sort_key fst children) iv = Inr iv' \<Longrightarrow>
      in_tree (iv_phase iv) (cx_vendor cx) False (child_path rel name) (sort_key fst children) p n \<Longrightarrow> recorded (cx_sha cx) iv' p n"
    and t: "in_tree (iv_phase iv) (cx_vendor cx) outer rel [(name, node)] p n"
  shows "recorded (cx_sha cx) iv1 p n"
  using t
proof (rule in_treeE)
  fix nm st listing fl lk
  assume p: "p = child_path rel nm" and n: "n = Node (Inr st) listing fl lk" and m: "(nm, Node (Inr st) listing fl lk) \<in> set [(name, node)]"
    and k: "\<not> left_out (iv_phase iv) (cx_vendor cx) outer nm st"
  have e: "nm = name" "node = Node (Inr st) listing fl lk" using m by auto
  consider "mode_kind (st_mode st) = kind_directory" | "mode_kind (st_mode st) = kind_regular" | "mode_kind (st_mode st) = kind_link"
    | "mode_kind (st_mode st) \<notin> {kind_directory, kind_regular, kind_link}" by blast
  then show ?thesis
  proof cases
    case 1 then show ?thesis by (simp add: n recorded_def)
  next
    case 2
    then obtain v dp g where "read_regular cx fl p v dp g iv = Inr iv1"
      using d entry_action_seen(2)[OF k 2, of vendor depth "display_path (child_path rel nm)"] by (auto simp: e p entry_done_def Let_def)
    then show ?thesis
      by (rule read_regular_adds) (use 2 in \<open>auto simp: n recorded_def file_bound_def\<close>)
  next
    case 3
    then have "record_symlink lk p st (content_inspection cx vendor depth) iv = Inr iv1"
      using d entry_action_seen(3)[OF k 3, of vendor depth "display_path (child_path rel nm)"] by (auto simp: e p entry_done_def Let_def)
    then show ?thesis by (rule record_symlink_adds) (use 3 in \<open>auto simp: n recorded_def\<close>)
  next
    case 4
    then have "iv1 = record_special p st iv"
      using d entry_action_seen(4)[OF k 4, of vendor depth "display_path (child_path rel nm)"] by (auto simp: e p entry_done_def Let_def)
    then show ?thesis using 4 by (simp add: n recorded_def Let_def record_special_adds)
  qed
next
  fix nm st children fl lk
  assume m: "(nm, Node (Inr st) (Inr children) fl lk) \<in> set [(name, node)]" and k: "\<not> left_out (iv_phase iv) (cx_vendor cx) outer nm st"
    and dir: "mode_kind (st_mode st) = kind_directory" and t: "in_tree (iv_phase iv) (cx_vendor cx) False (child_path rel nm) children p n"
  have e: "nm = name" "node = Node (Inr st) (Inr children) fl lk" using m by auto
  obtain v dp where "walk_entries cx (child_path rel name) False v dp (sort_key fst children) iv = Inr iv1"
    using d entry_action_seen(1)[OF k dir, of vendor depth "display_path (child_path rel nm)"] by (auto simp: e entry_done_def Let_def)
  moreover have "in_tree (iv_phase iv) (cx_vendor cx) False (child_path rel name) (sort_key fst children) p n"
    using in_tree_set[OF t, of "sort_key fst children"] e by simp
  ultimately show ?thesis using sub e(2) by blast
qed

lemma in_tree_Cons:
  "in_tree phase declared outer rel (e # es) p n \<Longrightarrow> in_tree phase declared outer rel [e] p n \<or> in_tree phase declared outer rel es p n"
  by (erule in_treeE) (auto intro: in_tree.intros)

lemma tree_weight_children: "(name, Node a (Inr cs) fl lk) \<in> set es \<Longrightarrow> tree_weight cs < tree_weight es"
  by (induction es) (auto simp: tree_weight_def)

lemma walk_grows: "walk_entries cx rel outer vendor depth es iv = Inr iv' \<Longrightarrow> scan_grows iv iv'"
proof (induction "tree_weight es" arbitrary: rel outer vendor depth es iv iv' rule: less_induct)
  case less
  show ?case
  proof (cases es)
    case (Cons e es')
    obtain name node where e: "e = (name, node)" by (cases e)
    obtain iv1 where d: "entry_done cx rel outer vendor depth name node iv iv1" "walk_entries cx rel outer vendor depth es' iv1 = Inr iv'"
      using less.prems unfolding Cons e walk_entries_Cons by blast
    have "scan_grows iv iv1"
      by (rule entry_grows[OF d(1)], rule less.hyps) (auto simp: Cons e)
    moreover have "scan_grows iv1 iv'" using less.hyps[OF _ d(2)] by (simp add: Cons)
    ultimately show ?thesis by (rule scan_grows_trans)
  qed (use less.prems in simp)
qed

lemma walk_records:
  "walk_entries cx rel outer vendor depth es iv = Inr iv' \<Longrightarrow> in_tree (iv_phase iv) (cx_vendor cx) outer rel es p n \<Longrightarrow>
     recorded (cx_sha cx) iv' p n"
proof (induction "tree_weight es" arbitrary: rel outer vendor depth es iv iv' p n rule: less_induct)
  case less
  show ?case
  proof (cases es)
    case Nil then show ?thesis using less.prems(2) by (auto elim: in_treeE)
  next
    case (Cons e es')
    obtain name node where e: "e = (name, node)" by (cases e)
    obtain iv1 where d: "entry_done cx rel outer vendor depth name node iv iv1" "walk_entries cx rel outer vendor depth es' iv1 = Inr iv'"
      using less.prems(1) unfolding Cons e walk_entries_Cons by blast
    have g: "scan_grows iv iv1" by (rule entry_grows[OF d(1)], rule walk_grows)
    consider "in_tree (iv_phase iv) (cx_vendor cx) outer rel [(name, node)] p n" | "in_tree (iv_phase iv) (cx_vendor cx) outer rel es' p n"
      using in_tree_Cons less.prems(2) unfolding Cons e by blast
    then show ?thesis
    proof cases
      case 1
      have "recorded (cx_sha cx) iv1 p n"
        by (rule entry_records[OF d(1) _ 1], rule less.hyps) (auto simp: Cons e)
      then show ?thesis using recorded_grows walk_grows[OF d(2)] by blast
    next
      case 2
      then show ?thesis using less.hyps[OF _ d(2)] g by (simp add: Cons scan_grows_def)
    qed
  qed
qed

section \<open>After the walk\<close>

text \<open>The stages after the walk keep the facts, the findings up to their source, and a lost coverage.\<close>

definition scan_keeps :: "inventory \<Rightarrow> inventory \<Rightarrow> bool" where
  "scan_keeps iv iv' \<longleftrightarrow>
     set (tree_facts iv) \<subseteq> set (tree_facts iv') \<and> (cov_complete (iv_coverage iv') \<longrightarrow> cov_complete (iv_coverage iv)) \<and>
     (\<forall>f \<in> set (iv_findings iv). \<exists>g \<in> set (iv_findings iv').
        f_hard_block g = f_hard_block f \<and> f_file g = f_file f \<and> f_rule_id g = f_rule_id f)"

lemma scan_keeps_refl [simp]: "scan_keeps iv iv" by (auto simp: scan_keeps_def)

lemma scan_keeps_trans: "scan_keeps a b \<Longrightarrow> scan_keeps b c \<Longrightarrow> scan_keeps a c"
  unfolding scan_keeps_def by (metis (no_types, lifting) subset_trans)

lemma scan_grows_keeps: "scan_grows iv iv' \<Longrightarrow> scan_keeps iv iv'"
  using scan_grows_facts[of iv iv'] by (auto simp: scan_keeps_def scan_grows_def)

lemma recorded_keeps: "scan_keeps iv iv' \<Longrightarrow> recorded sha iv p n \<Longrightarrow> recorded sha iv' p n"
  unfolding recorded_def scan_keeps_def Let_def
  by (auto split: tree_node.splits sum.splits if_splits) (metis)+

lemma facts_update:
  "map bound_facts (filter (\<lambda>r. fr_kind r \<noteq> ''archive-member'') (fs[i := (fs ! i)\<lparr>fr_extractable := b\<rparr>])) =
     map bound_facts (filter (\<lambda>r. fr_kind r \<noteq> ''archive-member'') fs)" if "i < length fs"
  using that
proof (induction fs arbitrary: i)
  case (Cons f fs)
  then show ?case by (cases i) (auto simp: bound_facts_def)
qed simp

lemma tree_facts_update:
  assumes "i < length (iv_files iv)"
  shows "tree_facts (set_extractable i b iv) = tree_facts iv"
  using facts_update[of i "iv_files iv" b] assms by (simp add: tree_facts_def tree_records_def set_extractable_def)

lemma last_position_bound: "last_position P xs = Some i \<Longrightarrow> i < length xs \<and> P (xs ! i)"
proof -
  assume a: "last_position P xs = Some i"
  then have "i \<in> set (filter (\<lambda>i. P (xs ! i)) [0..<length xs])"
    by (auto simp: last_position_def simp del: set_filter split: list.splits)
  then show ?thesis by simp
qed

lemma extractable_finding_keeps:
  "tree_facts (extractable_finding v name e w u iv) = tree_facts iv" "scan_keeps iv (extractable_finding v name e w u iv)"
  "iv_sources (extractable_finding v name e w u iv) = iv_sources iv"
  by (auto simp: extractable_finding_def tree_facts_def tree_records_def scan_keeps_def)

lemma set_extractable_keeps:
  assumes "i < length (iv_files iv)"
  shows "scan_keeps iv (set_extractable i b iv)" "iv_sources (set_extractable i b iv) = iv_sources iv"
  using tree_facts_update[OF assms] by (auto simp: set_extractable_def scan_keeps_def)

lemma verify_source_keeps:
  assumes "verify_source cx name xs iv = Inr iv'"
  shows "tree_facts iv' = tree_facts iv \<and> scan_keeps iv iv' \<and> iv_sources iv' = iv_sources iv"
proof (cases "last_position (\<lambda>r. fr_path r = name) (iv_files iv)")
  case None
  then show ?thesis using assms by (auto simp: verify_source_def extractable_finding_keeps split: option.splits if_splits)
next
  case (Some i)
  note i = last_position_bound[OF Some]
  have x: "scan_keeps iv (extractable_finding v name e w u (set_extractable i b iv))" for v e w u b
    using scan_keeps_trans[OF set_extractable_keeps(1)[of i iv b] extractable_finding_keeps(2)] i by blast
  show ?thesis using assms Some i x
    by (auto simp: verify_source_def extractable_finding_keeps tree_facts_update set_extractable_keeps Let_def
      split: option.splits if_splits sum.splits)
qed

lemma verify_sources_keeps:
  "verify_sources cx answers ns iv = Inr iv' \<Longrightarrow> tree_facts iv' = tree_facts iv \<and> scan_keeps iv iv' \<and> iv_sources iv' = iv_sources iv"
proof (induction ns arbitrary: iv)
  case (Cons n ns)
  then obtain iv1 where v: "verify_source cx n (answers n) iv = Inr iv1" "verify_sources cx answers ns iv1 = Inr iv'"
    by (auto split: option.splits sum.splits)
  from verify_source_keeps[OF v(1)] Cons.IH[OF v(2)] show ?case using scan_keeps_trans by auto
qed (auto split: option.splits)

lemma verify_extractable_keeps:
  "verify_extractable_sources cx answers declared iv = Inr iv' \<Longrightarrow>
     tree_facts iv' = tree_facts iv \<and> scan_keeps iv iv' \<and> iv_sources iv' = iv_sources iv"
  using verify_sources_keeps[of cx answers _ iv iv']
  by (auto simp: verify_extractable_sources_def extractable_finding_keeps split: if_splits)

lemma invalidate_names: "map sp_name (fst (invalidate_fixed_digest_bindings ss)) = map sp_name ss"
  by (simp add: invalidate_fixed_digest_bindings_def unbind_source_def)

lemma compare_srcinfo_keeps:
  "tree_facts (compare_srcinfo sl iv) = tree_facts iv" "scan_keeps iv (compare_srcinfo sl iv)"
  "map sp_name (iv_sources (compare_srcinfo sl iv)) = map sp_name (iv_sources iv)"
  by (auto simp: compare_srcinfo_def Let_def tree_facts_def tree_records_def scan_keeps_def invalidate_names)

section \<open>Finalize\<close>

lemma clear_texts_facts:
  "map bound_facts (filter (\<lambda>r. fr_kind r \<noteq> ''archive-member'') (clear_texts out fs)) =
     map bound_facts (filter (\<lambda>r. fr_kind r \<noteq> ''archive-member'') fs)"
proof -
  let ?P = "\<lambda>r. fr_kind r \<noteq> ''archive-member''" and ?g = "\<lambda>i. if i \<in> set out then (fs ! i)\<lparr>fr_selected_text := []\<rparr> else fs ! i"
  have g: "bound_facts (?g i) = bound_facts (fs ! i)" "?P (?g i) = ?P (fs ! i)" for i by (simp_all add: bound_facts_def)
  have "map bound_facts (filter ?P (clear_texts out fs)) = map (\<lambda>i. bound_facts (?g i)) (filter (\<lambda>i. ?P (?g i)) [0..<length fs])"
    by (simp add: clear_texts_def filter_map comp_def)
  also have "\<dots> = map bound_facts (filter ?P (map ((!) fs) [0..<length fs]))"
    unfolding g by (simp add: filter_map comp_def)
  finally show ?thesis by (simp add: map_nth)
qed

lemma omit_text_keeps:
  "iv_files (omit_text r iv) = iv_files iv" "iv_phase (omit_text r iv) = iv_phase iv" "iv_sources (omit_text r iv) = iv_sources iv"
  "\<exists>fs. iv_findings (omit_text r iv) = iv_findings iv @ fs"
  "cov_complete (iv_coverage (omit_text r iv)) \<longrightarrow> cov_complete (iv_coverage iv)"
  by (simp_all add: omit_text_def Let_def)

lemma omit_texts_keep:
  "iv_files (foldl (\<lambda>v i. omit_text (fs ! i) v) iv out) = iv_files iv \<and> iv_phase (foldl (\<lambda>v i. omit_text (fs ! i) v) iv out) = iv_phase iv \<and>
   iv_sources (foldl (\<lambda>v i. omit_text (fs ! i) v) iv out) = iv_sources iv \<and>
   set (iv_findings iv) \<subseteq> set (iv_findings (foldl (\<lambda>v i. omit_text (fs ! i) v) iv out)) \<and>
   (cov_complete (iv_coverage (foldl (\<lambda>v i. omit_text (fs ! i) v) iv out)) \<longrightarrow> cov_complete (iv_coverage iv))"
proof (induction out arbitrary: iv)
  case (Cons i out)
  obtain gs where "iv_findings (omit_text (fs ! i) iv) = iv_findings iv @ gs" using omit_text_keeps(4) by blast
  then show ?case using Cons.IH[of "omit_text (fs ! i) iv"] omit_text_keeps[of "fs ! i" iv] by auto
qed simp

lemma select_review_text_keeps:
  "tree_facts (select_review_text cx iv) = tree_facts iv" "iv_phase (select_review_text cx iv) = iv_phase iv"
  "iv_sources (select_review_text cx iv) = iv_sources iv" "set (iv_findings iv) \<subseteq> set (iv_findings (select_review_text cx iv))"
  "cov_complete (iv_coverage (select_review_text cx iv)) \<longrightarrow> cov_complete (iv_coverage iv)"
proof -
  have m: "map bound_facts (filter (\<lambda>r. fr_kind r \<noteq> ''archive-member'') (map (\<lambda>r. r\<lparr>fr_selected_text := []\<rparr>) fs)) =
      map bound_facts (filter (\<lambda>r. fr_kind r \<noteq> ''archive-member'') fs)" for fs
    by (simp add: filter_map comp_def bound_facts_def)
  have "tree_facts (select_review_text cx iv) = tree_facts iv \<and> iv_phase (select_review_text cx iv) = iv_phase iv \<and>
    iv_sources (select_review_text cx iv) = iv_sources iv \<and> set (iv_findings iv) \<subseteq> set (iv_findings (select_review_text cx iv)) \<and>
    (cov_complete (iv_coverage (select_review_text cx iv)) \<longrightarrow> cov_complete (iv_coverage iv))"
  proof (cases "bf_retain_text (cx_config cx)")
    case False
    then show ?thesis by (simp add: select_review_text_def tree_facts_def tree_records_def m)
  next
    case True
    define ids where "ids = sort_key (selection_key (iv_files iv)) (eligible (iv_files iv))"
    define chosen where "chosen = select_within (lim_selected_text_bytes (cx_limits cx)) (iv_files iv) ids 0"
    define iv1 where "iv1 = iv\<lparr>iv_coverage := (iv_coverage iv)\<lparr>review_eligible_files := review_eligible_files (iv_coverage iv) + int (length ids),
      review_eligible_bytes := review_eligible_bytes (iv_coverage iv) + sum_list (map (\<lambda>i. text_size (iv_files iv ! i)) ids)\<rparr>\<rparr>"
    define iv2 where "iv2 = foldl (\<lambda>v i. omit_text (iv_files iv ! i) v) iv1 (snd chosen)"
    have s: "select_review_text cx iv = iv2\<lparr>iv_files := clear_texts (snd chosen) (iv_files iv),
        iv_coverage := (iv_coverage iv2)\<lparr>selected_bytes := fst chosen,
          selected_files := selected_files (iv_coverage iv2) + int (length (filter (\<lambda>i. i \<notin> set (snd chosen)) ids))\<rparr>\<rparr>"
      using True by (simp add: select_review_text_def Let_def ids_def chosen_def iv1_def iv2_def)
    have k: "iv_phase iv2 = iv_phase iv" "iv_sources iv2 = iv_sources iv" "set (iv_findings iv) \<subseteq> set (iv_findings iv2)"
      "cov_complete (iv_coverage iv2) \<longrightarrow> cov_complete (iv_coverage iv)"
      using omit_texts_keep[of "iv_files iv" iv1 "snd chosen"] unfolding iv2_def[symmetric] by (simp_all add: iv1_def)
    show ?thesis unfolding s using k by (simp add: tree_facts_def tree_records_def clear_texts_facts)
  qed
  then show "tree_facts (select_review_text cx iv) = tree_facts iv" "iv_phase (select_review_text cx iv) = iv_phase iv"
    "iv_sources (select_review_text cx iv) = iv_sources iv" "set (iv_findings iv) \<subseteq> set (iv_findings (select_review_text cx iv))"
    "cov_complete (iv_coverage (select_review_text cx iv)) \<longrightarrow> cov_complete (iv_coverage iv)" by blast+
qed

lemma map_sort_key: "map f (sort_key (\<lambda>x. g (f x)) xs) = sort_key g (map f xs)"
proof -
  have i: "map f (insort_key (\<lambda>x. g (f x)) y ys) = insort_key g (f y) (map f ys)" for y ys by (induction ys) auto
  show ?thesis by (induction xs) (simp_all add: i)
qed

lemma finalize_names: "map sp_name (iv_sources (finalize cx iv)) = map sp_name (iv_sources iv)"
  by (simp add: finalize_def Let_def select_review_text_keeps bind_observed_sources_def bind_observed_source_def split: prod.split)

lemma finalize_facts: "map bound_facts (bound_files (iv_files (finalize cx iv))) = sort_key fst (tree_facts iv)"
proof -
  let ?P = "\<lambda>r. fr_kind r \<noteq> ''archive-member''"
  have k: "map bound_facts (sort_key fr_path_b64 rs) = sort_key fst (map bound_facts rs)" for rs
    using map_sort_key[of bound_facts fst rs] by (simp add: bound_facts_def)
  have "bound_files (iv_files (finalize cx iv)) = sort_key fr_path_b64 (filter ?P (iv_files (select_review_text cx iv)))"
    by (simp add: bound_files_def finalize_def Let_def filter_sort sort_key_id_if_sorted)
  then show ?thesis using select_review_text_keeps(1)[of cx iv] by (simp add: k tree_facts_def tree_records_def)
qed

lemma finalize_keeps: "scan_keeps iv (finalize cx iv)"
proof -
  have "set (tree_facts (finalize cx iv)) = set (tree_facts (select_review_text cx iv))"
    by (simp add: tree_facts_def tree_records_def finalize_def Let_def)
  moreover have "\<exists>g \<in> set (iv_findings (finalize cx iv)). f_hard_block g = f_hard_block f \<and> f_file g = f_file f \<and> f_rule_id g = f_rule_id f"
    if "f \<in> set (iv_findings iv)" for f
  proof -
    have "f \<in> set (iv_findings (select_review_text cx iv))" using that select_review_text_keeps(4) by blast
    then have "f\<lparr>f_source := ''deterministic''\<rparr> \<in> set (iv_findings (finalize cx iv))"
      by (simp add: finalize_def Let_def sort_findings_key)
    then show ?thesis by (rule bexI[rotated]) simp
  qed
  ultimately show ?thesis using select_review_text_keeps(5)[of cx iv]
    by (simp add: scan_keeps_def select_review_text_keeps(1)) (simp add: finalize_def Let_def)
qed

end
