(* ===== verification/Scan_Agree.thy ===== *)
theory Scan_Agree
  imports Scan_Binding
begin

text \<open>
  The whole scan records the whole tree, and a binding scan of the same tree binds the same facts:
  the two walks are related entry by entry, whatever the first one looks into.
\<close>

section \<open>The stages of a scan\<close>

lemma first_inventory_facts:
  "tree_facts (first_inventory sl cx dw plan root phase) = []" "iv_phase (first_inventory sl cx dw plan root phase) = phase"
  "iv_coverage (first_inventory sl cx dw plan root phase) = no_coverage" "iv_files (first_inventory sl cx dw plan root phase) = []"
  "cx_binding_only cx \<Longrightarrow> iv_findings (first_inventory sl cx dw plan root phase) = []"
  by (simp_all add: first_inventory_def declare_sources_def scan_start_def tree_facts_def tree_records_def Let_def split: option.splits)

lemma scan_tree_stages:
  assumes "scan_tree sl cx0 dw plan phase = Inr iv"
  obtains root cx iv1 iv2 iv3 where "phase = ''pre'' \<or> phase = ''post''" "dw_root dw = Inr root"
    "cx = scan_setup cx0 dw (iv_sources (first_inventory sl cx0 dw plan root phase))"
    "walk_root cx (dw_entries dw) (first_inventory sl cx0 dw plan root phase) = Inr iv1"
    "walk_source_store cx (dw_store dw) iv1 = Inr iv2"
    "tree_facts iv3 = tree_facts iv2" "scan_keeps iv2 iv3" "map sp_name (iv_sources iv3) = map sp_name (iv_sources iv2)"
    "cx_binding_only cx0 \<longrightarrow> iv3 = iv2" "iv = finalize cx iv3"
proof -
  from assms obtain root where r: "phase = ''pre'' \<or> phase = ''post''" "dw_root dw = Inr root"
    by (auto simp: scan_tree_def split: if_splits sum.splits)
  define cx where "cx = scan_setup cx0 dw (iv_sources (first_inventory sl cx0 dw plan root phase))"
  obtain iv1 iv2 iv3 where s: "walk_root cx (dw_entries dw) (first_inventory sl cx0 dw plan root phase) = Inr iv1"
    "walk_source_store cx (dw_store dw) iv1 = Inr iv2" "check_sources sl cx dw plan phase iv2 = Inr iv3" "iv = finalize cx iv3"
    using assms r by (auto simp: scan_tree_def Let_def cx_def split: sum.splits)
  have b: "cx_binding_only cx = cx_binding_only cx0" by (simp add: cx_def scan_setup_def)
  have k: "tree_facts iv3 = tree_facts iv2 \<and> scan_keeps iv2 iv3 \<and> map sp_name (iv_sources iv3) = map sp_name (iv_sources iv2)"
    using s(3) verify_extractable_keeps[of cx _ _ iv2 iv3] by (auto simp: check_sources_def compare_srcinfo_keeps split: if_splits)
  have "cx_binding_only cx0 \<longrightarrow> iv3 = iv2" using s(3) b by (auto simp: check_sources_def)
  then show thesis using that[OF r cx_def s(1,2) _ _ _ _ s(4)] k by blast
qed

lemma walk_root_ok:
  assumes "walk_root cx listing iv = Inr iv'"
  obtains es where "listing = Inr es" "check_budget cx iv = None" "walk_entries cx [] True False 0 (sort_key fst es) iv = Inr iv'"
  using assms by (auto simp: walk_root_def split: option.splits sum.splits)

lemma walk_root_records:
  assumes "walk_root cx (Inr es) iv = Inr iv'"
  shows "scan_grows iv iv'" "in_tree (iv_phase iv) (cx_vendor cx) True [] es p n \<Longrightarrow> recorded (cx_sha cx) iv' p n"
proof -
  have w: "walk_entries cx [] True False 0 (sort_key fst es) iv = Inr iv'" using assms by (auto elim: walk_root_ok)
  show "scan_grows iv iv'" by (rule walk_grows[OF w])
  show "recorded (cx_sha cx) iv' p n" if "in_tree (iv_phase iv) (cx_vendor cx) True [] es p n"
    by (rule walk_records[OF w]) (rule in_tree_set[OF that], simp)
qed

lemma walk_source_store_walk:
  assumes "walk_source_store cx (Some listing) iv = Inr iv'"
  shows "walk_root cx listing iv = Inr iv'"
  using assms by (auto simp: walk_source_store_def split: sum.splits option.splits)

lemma walk_source_store_grows:
  assumes "walk_source_store cx store iv = Inr iv'"
  shows "scan_grows iv iv'"
proof (cases store)
  case None then show ?thesis using assms by (simp add: walk_source_store_def)
next
  case (Some listing)
  then show ?thesis using walk_source_store_walk assms walk_root_ok walk_root_records(1) by metis
qed

section \<open>Everything is recorded\<close>

text \<open>C13: nothing in the checkout or the source store escapes the manifest. When a directory scan succeeds, every entry that is
  not left out by design (the markers, git metadata, makepkg's own output and, before the download, the declared sources) is
  recorded under its path: a regular file with its mode and the digest of the bytes read from one descriptor whose inode
  did not change meanwhile, a link with its target, and a special file with a hard block and a scan that is not complete.\<close>

theorem scan_records_tree:
  assumes "scan_tree sl cx dw plan phase = Inr iv"
    and "dw_entries dw = Inr es \<or> dw_store dw = Some (Inr es)"
    and "in_tree phase (map sp_name (iv_sources iv)) True [] es p n"
  shows "recorded (cx_sha cx) iv p n"
  using assms(1)
proof (rule scan_tree_stages)
  fix root cx' iv1 iv2 iv3
  assume cx': "cx' = scan_setup cx dw (iv_sources (first_inventory sl cx dw plan root phase))"
    and w: "walk_root cx' (dw_entries dw) (first_inventory sl cx dw plan root phase) = Inr iv1"
    and s: "walk_source_store cx' (dw_store dw) iv1 = Inr iv2" and k: "scan_keeps iv2 iv3"
    and names: "map sp_name (iv_sources iv3) = map sp_name (iv_sources iv2)" and f: "iv = finalize cx' iv3"
  let ?iv0 = "first_inventory sl cx dw plan root phase"
  obtain es0 where e: "dw_entries dw = Inr es0" using w by (rule walk_root_ok)
  have g: "scan_grows ?iv0 iv1" using walk_root_records(1) w e by metis
  have g2: "scan_grows iv1 iv2" using s by (rule walk_source_store_grows)
  have v: "map sp_name (iv_sources iv) = cx_vendor cx'" "iv_phase ?iv0 = phase" "iv_phase iv1 = phase" "cx_sha cx' = cx_sha cx"
    using g g2 by (simp_all add: f finalize_names names scan_grows_def cx' scan_setup_def first_inventory_facts(2))
  have "recorded (cx_sha cx) iv2 p n"
    using assms(2)
  proof
    assume "dw_entries dw = Inr es"
    then have "recorded (cx_sha cx) iv1 p n" using walk_root_records(2)[of cx' es ?iv0 iv1 p n] w assms(3) v by simp
    then show ?thesis by (rule recorded_grows[OF g2])
  next
    assume "dw_store dw = Some (Inr es)"
    then show ?thesis using walk_root_records(2)[of cx' es iv1 iv2 p n] walk_source_store_walk[of cx' "Inr es" iv1 iv2] s assms(3) v by simp
  qed
  then show ?thesis using recorded_keeps scan_keeps_trans[OF k finalize_keeps[of iv3 cx']] f by blast
qed

theorem scan_records_tree_witness:
  "\<exists>iv. scan_tree example_library example_scan example_world [] ''pre'' = Inr iv \<and>
     recorded (cx_sha example_scan) iv ''lib/a'' (example_leaf 0x81A4 ''cd /'')"
proof -
  obtain iv where iv: "scan_tree example_library example_scan example_world [] ''pre'' = Inr iv"
    and plain: "iv_sources iv = []"
    using scans_plainlyE[OF example_scans] by (auto simp: example_scan_tree)
  let ?n = "example_leaf 0x81A4 ''cd /''"
  have kinds: "mode_kind 0x81A4 = kind_regular" "mode_kind 0x41ED = kind_directory"
    by (simp_all add: mode_kind_def kind_regular_def kind_directory_def)
  have "in_tree ''pre'' ds False ''lib'' [(''a'', ?n), (''p'', example_leaf 0x11A4 [])] (child_path ''lib'' ''a'') ?n" for ds
    unfolding example_leaf_def by (rule in_tree.entry) (simp_all add: left_out_def example_stat_def kinds)
  note inner = this[of "map sp_name (iv_sources iv)"]
  have "in_tree ''pre'' (map sp_name (iv_sources iv)) True [] example_tree ''lib/a'' ?n"
  proof (rule in_tree.below)
    show "(''lib'', Node (Inr (example_stat 0x41ED 0)) (Inr [(''a'', ?n), (''p'', example_leaf 0x11A4 [])]) (example_file [])
        \<lparr>la_target = Inl [], la_after = Inl []\<rparr>) \<in> set example_tree" by (simp add: example_tree_def)
    show "in_tree ''pre'' (map sp_name (iv_sources iv)) False (child_path [] ''lib'') [(''a'', ?n), (''p'', example_leaf 0x11A4 [])] ''lib/a'' ?n"
      using inner by (simp add: child_path_def)
  qed (simp_all add: left_out_def example_stat_def kinds plain)
  then show ?thesis using scan_records_tree[OF iv, of example_tree] iv by (simp add: example_world_def)
qed

section \<open>The binding scan\<close>

definition binding_of :: "inventory \<Rightarrow> inventory \<Rightarrow> bool" where
  "binding_of iv ivb \<longleftrightarrow>
     tree_facts ivb = tree_facts iv \<and> tree_records ivb = iv_files ivb \<and> iv_phase ivb = iv_phase iv \<and>
     length (iv_findings ivb) \<le> length (iv_findings iv) \<and>
     files_seen (iv_coverage ivb) = files_seen (iv_coverage iv) \<and> bytes_seen (iv_coverage ivb) = bytes_seen (iv_coverage iv) \<and>
     archives_seen (iv_coverage ivb) = 0 \<and> archive_entries (iv_coverage ivb) = 0 \<and> archive_unpacked_bytes (iv_coverage ivb) = 0"

text \<open>The contexts of the two scans: the names of the declared sources may differ once they are downloaded.\<close>

definition binds_like :: "string \<Rightarrow> scan_context \<Rightarrow> scan_context \<Rightarrow> bool" where
  "binds_like phase cx cxb \<longleftrightarrow>
     cx_config cxb = cx_config cx \<and> cx_sha cxb = cx_sha cx \<and> cx_binding_only cxb \<and> (\<forall>iv. \<not> cx_expired cxb iv) \<and>
     (phase = ''pre'' \<and> cx_vendor cxb = cx_vendor cx \<or> phase = ''post'') \<and>
     0 \<le> lim_archives (cx_limits cx) \<and> 0 \<le> lim_archive_entries (cx_limits cx) \<and> 0 \<le> lim_archive_unpacked_bytes (cx_limits cx) \<and>
     (\<forall>s. concat (at_pieces (cx_tools cx) s) = s)"

lemma budget_like: "binds_like phase cx cxb \<Longrightarrow> binding_of iv ivb \<Longrightarrow> check_budget cx iv = None \<Longrightarrow> check_budget cxb ivb = None"
  by (auto simp: binds_like_def binding_of_def check_budget_def Let_def split: if_splits)

lemma read_whole:
  assumes "bound_read cx rel important inspection st fa = Inr i" "\<forall>s. concat (at_pieces (cx_tools cx) s) = s"
  shows "int (length (fa_content fa)) = st_size st"
proof -
  have "concat (filter (\<lambda>c. c \<noteq> []) xs) = concat xs" for xs :: "string list" by (induction xs) auto
  then have c: "concat (member_chunks (cx_tools cx) (fa_content fa)) = fa_content fa"
    using assms(2) by (simp add: member_chunks_def)
  obtain i' where i: "inspect_content cx (display_path rel) (st_mode st AND 0x49 \<noteq> 0) important inspection fa = Inr i'" "i' = i"
    using assms(1) by (auto simp: bound_read_def split: if_splits sum.splits)
  have "in_total i = int (length (fa_content fa))"
    using i c by (auto simp: inspect_content_def inspect_text_def Let_def dest!: scan_reader_sample split: if_splits sum.splits option.splits prod.splits)
  then show ?thesis using bound_read_ok[OF assms(1)] by simp
qed

lemma bound_read_binding:
  assumes "fa_failed fa = None" "fa_after fa = Inr st" "int (length (fa_content fa)) = st_size st"
  obtains i where "bound_read cx rel important False st fa = Inr i" "in_findings i = []"
  using assms by (simp add: bound_read_def inspect_content_def Let_def same_stat_eq)

lemma add_regular_binding:
  assumes "in_findings i = []"
  shows "iv_findings (add_regular cx fa rel g important False st i iv) = iv_findings iv"
    "archives_seen (iv_coverage (add_regular cx fa rel g important False st i iv)) = archives_seen (iv_coverage iv)"
    "archive_entries (iv_coverage (add_regular cx fa rel g important False st i iv)) = archive_entries (iv_coverage iv)"
    "archive_unpacked_bytes (iv_coverage (add_regular cx fa rel g important False st i iv)) = archive_unpacked_bytes (iv_coverage iv)"
  using assms by (simp_all add: add_regular_def Let_def add_file_def file_result_of_def select_text_def)

lemma read_regular_like:
  assumes like: "binds_like phase cx cxb" and b: "binding_of iv ivb" and r: "read_regular cx fa rel v d g iv = Inr iv'"
  obtains ivb' where "read_regular cxb fa rel v2 d2 g2 ivb = Inr ivb'" "binding_of iv' ivb'"
proof -
  obtain st where st: "fa_open fa = None" "fa_before fa = Inr st" "fa_after fa = Inr st" "fa_failed fa = None"
    "mode_kind (st_mode st) = kind_regular" "0 \<le> st_size st"
    "\<not> bytes_seen (iv_coverage iv) > lim_total_input_bytes (cx_limits cx) - st_size st"
    "tree_facts iv' = tree_facts iv @ [file_facts (cx_sha cx) rel st (fa_content fa)]"
    "scan_grows iv iv'" "files_seen (iv_coverage iv') = files_seen (iv_coverage iv) + 1"
    "bytes_seen (iv_coverage iv') = bytes_seen (iv_coverage iv) + st_size st" "check_budget cx iv' = None"
    using r by (rule read_regular_adds)
  obtain important inspection i0 where "bound_read cx rel important inspection st fa = Inr i0"
    using r st by (auto simp: read_regular_def Let_def split: sum.splits)
  then have whole: "int (length (fa_content fa)) = st_size st" using like by (intro read_whole) (auto simp: binds_like_def)
  define importantb where "importantb = (mandatory_control_path (re_lower (cx_engine cxb)) (display_path rel) \<or> rel \<in> set (cx_active cxb))"
  obtain i where i: "bound_read cxb rel importantb False st fa = Inr i" "in_findings i = []"
    using bound_read_binding[OF st(4,3) whole] by blast
  define ivb' where "ivb' = add_regular cxb fa rel g2 importantb False st i ivb"
  obtain rec where rec: "iv_files ivb' = iv_files ivb @ [rec]" "bound_facts rec = file_facts (cx_sha cxb) rel st (fa_content fa)"
    "fr_kind rec = ''file''" "iv_phase ivb' = iv_phase ivb" "files_seen (iv_coverage ivb') = files_seen (iv_coverage ivb) + 1"
    "bytes_seen (iv_coverage ivb') = bytes_seen (iv_coverage ivb) + st_size st"
    unfolding ivb'_def by (rule add_regular_adds)
  have f: "length (iv_findings iv) \<le> length (iv_findings iv')" "iv_phase iv' = iv_phase iv" using st(9) by (auto simp: scan_grows_def)
  have b': "binding_of iv' ivb'"
    using b like rec st(8,10,11) f add_regular_binding[OF i(2), of cxb fa rel g2 importantb st ivb]
    unfolding ivb'_def[symmetric] by (auto simp: binding_of_def binds_like_def tree_facts_def tree_records_def)
  have "content_inspection cxb v2 d2 = False" "archive_inspection cxb fa rel v2 d2 g2 = False"
    using like by (simp_all add: content_inspection_def archive_inspection_def binds_like_def)
  moreover have "check_budget cxb ivb' = None" by (rule budget_like[OF like b' st(12)])
  moreover have "\<not> bytes_seen (iv_coverage ivb) > lim_total_input_bytes (cx_limits cxb) - st_size st"
    using st(7) b like by (simp add: binding_of_def binds_like_def)
  ultimately have "read_regular cxb fa rel v2 d2 g2 ivb = Inr ivb'"
    using st(1,2,5,6) i(1) by (simp add: read_regular_def Let_def importantb_def ivb'_def)
  then show thesis using b' by (rule that)
qed

lemma entry_action_left_out:
  assumes "left_out phase (cx_vendor cx) outer name st"
  shows "entry_action cx phase outer v d name display (Inr st) =
    (if outer \<and> (name = marker_prefix @ ''pre.json'' \<or> name = marker_prefix @ ''post.json'') then Exclude display
     else if outer \<and> phase = ''pre'' \<and> name \<in> set (cx_vendor cx) \<and>
        (mode_kind (st_mode st) = kind_regular \<or> mode_kind (st_mode st) = kind_directory)
     then Exclude (display @ (if mode_kind (st_mode st) = kind_directory then ''/'' else []))
     else Exclude (display @ ''/''))"
proof -
  have m: "marker_prefix @ ''pre.json'' = ''.prolewatch-pre.json''" "marker_prefix @ ''post.json'' = ''.prolewatch-post.json''"
    by (simp_all add: marker_prefix_def)
  let ?A = "outer \<and> (name = marker_prefix @ ''pre.json'' \<or> name = marker_prefix @ ''post.json'')"
  let ?B = "outer \<and> phase = ''pre'' \<and> name \<in> set (cx_vendor cx) \<and>
    (mode_kind (st_mode st) = kind_regular \<or> mode_kind (st_mode st) = kind_directory)"
  let ?C = "mode_kind (st_mode st) = kind_directory \<and> (name = ''.git'' \<or> (outer \<and> (name = ''.git'' \<or> name = ''pkg'' \<or>
    (phase = ''pre'' \<and> name = ''src''))))"
  have l: "?A \<or> ?B \<or> ?C" using assms unfolding left_out_def m insert_iff empty_iff by argo
  show ?thesis
  proof (cases ?A)
    case True
    show ?thesis unfolding entry_action_def if_P[OF True] ..
  next
    case A: False
    show ?thesis
    proof (cases ?B)
      case True
      show ?thesis unfolding entry_action_def sum.case Let_def if_not_P[OF A] if_P[OF True] ..
    next
      case B: False
      then have C: ?C using l A by blast
      show ?thesis unfolding entry_action_def sum.case Let_def if_not_P[OF A] if_not_P[OF B] if_P[OF C] ..
    qed
  qed
qed

lemma entry_action_like:
  assumes "binds_like phase cx cxb"
  shows "case entry_action cx phase outer v d name display answer of
      Entry_Fails err \<Rightarrow> True
    | Exclude x \<Rightarrow> entry_action cxb phase outer vb db name display answer = Exclude x
    | Enter v' d' \<Rightarrow> (\<exists>v3 d3. entry_action cxb phase outer vb db name display answer = Enter v3 d3)
    | Read_File v' d' g \<Rightarrow> (\<exists>v3 d3 g3. entry_action cxb phase outer vb db name display answer = Read_File v3 d3 g3)
    | Read_Link st \<Rightarrow> entry_action cxb phase outer vb db name display answer = Read_Link st
    | Special_File st \<Rightarrow> entry_action cxb phase outer vb db name display answer = Special_File st"
proof -
  have p: "phase = ''pre'' \<and> cx_vendor cxb = cx_vendor cx \<or> phase = ''post''" using assms by (simp add: binds_like_def)
  have lo: "left_out phase (cx_vendor cxb) outer name st = left_out phase (cx_vendor cx) outer name st" for st
    using p by (elim disjE) (simp_all add: left_out_def)
  show ?thesis
  proof (cases answer)
    case (Inl err)
    then show ?thesis by (simp add: entry_action_def)
  next
    case (Inr st)
    show ?thesis
    proof (cases "left_out phase (cx_vendor cx) outer name st")
      case False
      moreover from False have "\<not> left_out phase (cx_vendor cxb) outer name st" by (simp add: lo)
      ultimately show ?thesis by (auto simp: Inr entry_action_kept Let_def)
    next
      case True
      have "entry_action cxb phase outer vb db name display (Inr st) = entry_action cx phase outer v d name display (Inr st) \<and>
          (\<exists>x. entry_action cx phase outer v d name display (Inr st) = Exclude x)"
      proof -
        have "left_out phase (cx_vendor cxb) outer name st" using True by (simp add: lo)
        note e = entry_action_left_out[OF this, of vb db display] entry_action_left_out[OF True, of v d display]
        have B: "(outer \<and> phase = ''pre'' \<and> name \<in> set (cx_vendor cxb) \<and> k) = (outer \<and> phase = ''pre'' \<and> name \<in> set (cx_vendor cx) \<and> k)" for k
          using p by auto
        have "\<exists>z. (if a then Exclude x else if b then Exclude y else Exclude w) = Exclude z" for a b x y w by simp
        then show ?thesis unfolding e B by blast
      qed
      then show ?thesis by (auto simp: Inr)
    qed
  qed
qed

lemma record_symlink_like:
  assumes "binding_of iv ivb" "record_symlink la rel st inspect iv = Inr iv'"
  obtains ivb' where "record_symlink la rel st False ivb = Inr ivb'" "binding_of iv' ivb'"
  using assms
  by (auto simp: record_symlink_def binding_of_def tree_facts_def tree_records_def seen_one_def plain_record_facts split: sum.splits if_splits)

lemma record_special_like: "binding_of iv ivb \<Longrightarrow> binding_of (record_special rel st iv) (record_special rel st ivb)"
  by (auto simp: record_special_def Let_def binding_of_def tree_facts_def tree_records_def seen_one_def plain_record_facts file_kind_no_member)

lemma entry_like:
  assumes like: "binds_like (iv_phase iv) cx cxb" and b: "binding_of iv ivb" and c: "check_budget cx iv1 = None"
    and d: "entry_done cx rel outer v d name node iv iv1"
    and sub: "\<And>answer children fl lk v d v2 d2 iv'. node = Node answer (Inr children) fl lk \<Longrightarrow>
      walk_entries cx (child_path rel name) False v d (sort_key fst children) iv = Inr iv' \<Longrightarrow>
      \<exists>ivb'. walk_entries cxb (child_path rel name) False v2 d2 (sort_key fst children) ivb = Inr ivb' \<and> binding_of iv' ivb'"
  shows "\<exists>ivb1. entry_done cxb rel outer v2 d2 name node ivb ivb1 \<and> binding_of iv1 ivb1"
proof -
  obtain answer listing fl lk where n: "node = Node answer listing fl lk" by (cases node)
  have p: "iv_phase ivb = iv_phase iv" using b by (simp add: binding_of_def)
  note a = entry_action_like[OF like, where outer = outer and v = v and d = d and name = name and
    display = "display_path (child_path rel name)" and answer = answer and vb = v2 and db = d2]
  have bud: "check_budget cxb ivb1 = None" if "binding_of iv1 ivb1" for ivb1 by (rule budget_like[OF like that c])
  show ?thesis
  proof (cases "entry_action cx (iv_phase iv) outer v d name (display_path (child_path rel name)) answer")
    case (Entry_Fails err) then show ?thesis using d by (simp add: n entry_done_def Let_def)
  next
    case (Exclude x)
    then have "binding_of iv1 (ivb\<lparr>iv_exclusions := iv_exclusions ivb @ [x]\<rparr>)"
      using d b by (auto simp: n entry_done_def Let_def binding_of_def tree_facts_def tree_records_def)
    then show ?thesis using a Exclude by (simp add: n entry_done_def Let_def p)
  next
    case (Enter v' d')
    then obtain children where ch: "listing = Inr children" "walk_entries cx (child_path rel name) False v' d' (sort_key fst children) iv = Inr iv1"
      using d by (auto simp: n entry_done_def Let_def)
    obtain v3 d3 where e: "entry_action cxb (iv_phase iv) outer v2 d2 name (display_path (child_path rel name)) answer = Enter v3 d3"
      using a Enter by auto
    obtain ivb' where "walk_entries cxb (child_path rel name) False v3 d3 (sort_key fst children) ivb = Inr ivb'" "binding_of iv1 ivb'"
      using sub[of answer children fl lk v' d' iv1 v3 d3] n ch by blast
    then show ?thesis using e ch(1) bud by (auto simp: n entry_done_def Let_def p)
  next
    case (Read_File v' d' g)
    then have r: "read_regular cx fl (child_path rel name) v' d' g iv = Inr iv1" using d by (simp add: n entry_done_def Let_def)
    obtain v3 d3 g3 where e: "entry_action cxb (iv_phase iv) outer v2 d2 name (display_path (child_path rel name)) answer = Read_File v3 d3 g3"
      using a Read_File by auto
    obtain ivb' where "read_regular cxb fl (child_path rel name) v3 d3 g3 ivb = Inr ivb'" "binding_of iv1 ivb'"
      using read_regular_like[OF like b r] by blast
    then show ?thesis using e bud by (auto simp: n entry_done_def Let_def p)
  next
    case (Read_Link st)
    then obtain i where "record_symlink lk (child_path rel name) st i iv = Inr iv1" using d by (auto simp: n entry_done_def Let_def)
    then obtain ivb' where r: "record_symlink lk (child_path rel name) st False ivb = Inr ivb'" "binding_of iv1 ivb'"
      using record_symlink_like[OF b] by blast
    have "content_inspection cxb v2 d2 = False" using like by (simp add: content_inspection_def binds_like_def)
    then show ?thesis using a Read_Link r bud by (auto simp: n entry_done_def Let_def p)
  next
    case (Special_File st)
    then have "binding_of iv1 (record_special (child_path rel name) st ivb)"
      using d record_special_like[OF b] by (simp add: n entry_done_def Let_def)
    then show ?thesis using a Special_File bud by (auto simp: n entry_done_def Let_def p)
  qed
qed

text \<open>An entry that is done has passed the budget, or was left out and changed nothing the budget looks at.\<close>

lemma entry_budget:
  assumes "entry_done cx rel outer v d name node iv iv1" "check_budget cx iv = None"
    and "\<forall>iv. \<not> cx_expired cx iv"
  shows "check_budget cx iv1 = None"
proof -
  obtain answer listing fl lk where n: "node = Node answer listing fl lk" by (cases node)
  show ?thesis using assms
    by (auto simp: n entry_done_def Let_def check_budget_def split: entry_action.splits if_splits)
qed

lemma walk_like:
  "walk_entries cx rel outer v d es iv = Inr iv' \<Longrightarrow> binds_like (iv_phase iv) cx cxb \<Longrightarrow> \<forall>iv. \<not> cx_expired cx iv \<Longrightarrow>
     check_budget cx iv = None \<Longrightarrow> binding_of iv ivb \<Longrightarrow>
     \<exists>ivb'. walk_entries cxb rel outer v2 d2 es ivb = Inr ivb' \<and> binding_of iv' ivb'"
proof (induction "tree_weight es" arbitrary: rel outer v d v2 d2 es iv iv' ivb rule: less_induct)
  case less
  show ?case
  proof (cases es)
    case Nil then show ?thesis using less.prems by simp
  next
    case (Cons e es')
    obtain name node where e: "e = (name, node)" by (cases e)
    obtain iv1 where d: "entry_done cx rel outer v d name node iv iv1" "walk_entries cx rel outer v d es' iv1 = Inr iv'"
      using less.prems(1) unfolding Cons e walk_entries_Cons by blast
    note c = entry_budget[OF d(1) less.prems(4,3)]
    have ph: "iv_phase iv1 = iv_phase iv"
      using entry_grows[OF d(1)] walk_grows by (auto simp: scan_grows_def)
    have "\<exists>ivb1. entry_done cxb rel outer v2 d2 name node ivb ivb1 \<and> binding_of iv1 ivb1"
    proof (rule entry_like[OF less.prems(2,5) c d(1)])
      fix answer children fl lk v d v2 d2 iv'
      assume "node = Node answer (Inr children) fl lk" "walk_entries cx (child_path rel name) False v d (sort_key fst children) iv = Inr iv'"
      then show "\<exists>ivb'. walk_entries cxb (child_path rel name) False v2 d2 (sort_key fst children) ivb = Inr ivb' \<and> binding_of iv' ivb'"
        using less.hyps[of "sort_key fst children" "child_path rel name" False v d iv iv' ivb v2 d2] less.prems by (simp add: Cons e)
    qed
    then obtain ivb1 where b1: "entry_done cxb rel outer v2 d2 name node ivb ivb1" "binding_of iv1 ivb1" by blast
    obtain ivb' where "walk_entries cxb rel outer v2 d2 es' ivb1 = Inr ivb'" "binding_of iv' ivb'"
      using less.hyps[of es' rel outer v d iv1 iv' ivb1 v2 d2] less.prems(2,3) d(2) c b1(2) ph by (auto simp: Cons)
    moreover have "check_budget cxb ivb = None" by (rule budget_like[OF less.prems(2,5,4)])
    ultimately show ?thesis using b1(1) unfolding Cons e walk_entries_Cons by blast
  qed
qed


lemma walk_root_like:
  assumes w: "walk_root cx listing iv = Inr iv'" and like: "binds_like (iv_phase iv) cx cxb" "\<forall>iv. \<not> cx_expired cx iv"
    and b: "binding_of iv ivb"
  obtains ivb' where "walk_root cxb listing ivb = Inr ivb'" "binding_of iv' ivb'"
proof -
  obtain es where e: "listing = Inr es" "check_budget cx iv = None" "walk_entries cx [] True False 0 (sort_key fst es) iv = Inr iv'"
    using w by (rule walk_root_ok)
  obtain ivb' where "walk_entries cxb [] True False 0 (sort_key fst es) ivb = Inr ivb'" "binding_of iv' ivb'"
    using walk_like[OF e(3) like e(2) b] by blast
  moreover have "check_budget cxb ivb = None" by (rule budget_like[OF like(1) b e(2)])
  ultimately show thesis using that e(1) by (simp add: walk_root_def)
qed

text \<open>The paths of a binding scan are paths of the scan.\<close>

lemma binding_paths:
  assumes b: "binding_of iv ivb" and b': "binding_of iv' ivb'" and "iv_files iv' = iv_files iv @ new" "iv_files ivb' = iv_files ivb @ newb"
  shows "fr_path ` set (iv_files ivb) \<subseteq> fr_path ` set (iv_files iv)" "fr_path ` set newb \<subseteq> fr_path ` set new"
proof -
  let ?P = "\<lambda>r. fr_kind r \<noteq> ''archive-member''"
  have f: "map bound_facts (iv_files ivb) = map bound_facts (filter ?P (iv_files iv))"
    "map bound_facts (iv_files ivb @ newb) = map bound_facts (filter ?P (iv_files iv @ new))"
    using b b' assms(3,4) by (auto simp: binding_of_def tree_facts_def tree_records_def)
  then have g: "map bound_facts newb = map bound_facts (filter ?P new)" by simp
  have p: "fr_path = (\<lambda>f. fst (snd f)) \<circ> bound_facts" by (simp add: fun_eq_iff bound_facts_def)
  have k: "map fr_path rs = map fr_path ss" if "map bound_facts rs = map bound_facts ss" for rs ss
    unfolding p list.map_comp[symmetric] by (simp only: that)
  have "fr_path ` set (iv_files ivb) = fr_path ` set (filter ?P (iv_files iv))" using arg_cong[OF k[OF f(1)], of set] by simp
  then show "fr_path ` set (iv_files ivb) \<subseteq> fr_path ` set (iv_files iv)" by auto
  have "fr_path ` set newb = fr_path ` set (filter ?P new)" using arg_cong[OF k[OF g], of set] by simp
  then show "fr_path ` set newb \<subseteq> fr_path ` set new" by auto
qed

lemma walk_root_grows: "walk_root cx listing iv = Inr iv' \<Longrightarrow> scan_grows iv iv'"
  using walk_root_ok walk_grows by metis

lemma store_like:
  assumes s: "walk_source_store cx store iv = Inr iv'" and like: "binds_like (iv_phase iv) cx cxb" "\<forall>iv. \<not> cx_expired cx iv"
    and b: "binding_of iv ivb"
  obtains ivb' where "walk_source_store cxb store ivb = Inr ivb'" "binding_of iv' ivb'"
proof (cases store)
  case None
  then show thesis using that s b by (simp add: walk_source_store_def)
next
  case (Some listing)
  have w: "walk_root cx listing iv = Inr iv'" using s Some walk_source_store_walk by blast
  obtain ivb' where wb: "walk_root cxb listing ivb = Inr ivb'" "binding_of iv' ivb'"
    using walk_root_like[OF w like b] by blast
  obtain new where new: "iv_files iv' = iv_files iv @ new" using walk_root_grows[OF w] by (auto simp: scan_grows_def)
  obtain newb where newb: "iv_files ivb' = iv_files ivb @ newb" using walk_root_grows[OF wb(1)] by (auto simp: scan_grows_def)
  have "find (\<lambda>r. fr_path r \<in> fr_path ` set (iv_files iv)) new = None"
    using s unfolding walk_source_store_def by (simp add: Some w new split: option.splits)
  then have "\<forall>r \<in> set new. fr_path r \<notin> fr_path ` set (iv_files iv)" by (simp add: find_None_iff)
  then have "\<forall>x \<in> fr_path ` set new. x \<notin> fr_path ` set (iv_files iv)" by (simp only: ball_simps)
  then have apart: "fr_path ` set new \<inter> fr_path ` set (iv_files iv) = {}" unfolding disjoint_iff Ball_def .
  note p = binding_paths[OF b wb(2) new newb]
  have "fr_path ` set newb \<inter> fr_path ` set (iv_files ivb) = {}" using Int_mono[OF p(2,1)] apart by simp
  then have "\<forall>r \<in> set newb. fr_path r \<notin> fr_path ` set (iv_files ivb)" by (simp add: disjoint_iff)
  then have "find (\<lambda>r. fr_path r \<in> fr_path ` set (iv_files ivb)) newb = None" by (auto simp: find_None_iff)
  then have "walk_source_store cxb store ivb = Inr ivb'" using wb(1) newb Some by (simp add: walk_source_store_def)
  then show thesis using wb(2) by (rule that)
qed

lemma equal_facts_binding:
  assumes "map bound_facts (bound_files fs) = map bound_facts (bound_files gs)"
  shows "binding_hash_files sha fs = binding_hash_files sha gs"
proof -
  define v where "v = (\<lambda>(pb, p, k, m, n, h, x, l). JObj
     [(''executable'', JBool x), (''kind'', JStr k), (''link_target'', JStr l), (''mode'', JNum (show_nat m)), (''path'', JStr p),
      (''path_b64'', JStr pb), (''sha256'', JStr h), (''size'', JNum (show_int n))])"
  have v: "binding_value f = v (bound_facts f)" for f by (simp add: binding_value_def bound_facts_def v_def)
  have "map binding_value (bound_files rs) = map v (map bound_facts (bound_files rs))" for rs by (simp add: v)
  then show ?thesis using assms by (simp only: binding_hash_files_def)
qed

lemma binding_of_start:
  "binding_of (first_inventory sl cx dw plan root phase) (first_inventory sl (cx\<lparr>cx_binding_only := True\<rparr>) dw planb root phase)"
  using first_inventory_facts(5)[of "cx\<lparr>cx_binding_only := True\<rparr>" sl dw planb root phase]
  by (simp add: binding_of_def first_inventory_facts no_coverage_def tree_records_def)

text \<open>C14: an unchanged tree verifies. When a scan of a directory succeeds, the binding scan of the same directory, which looks into
  nothing and knows neither the plan nor the archives, succeeds as well and binds the same facts in the same order, so
  the binding hash a marker is checked against is the one the report was written with. The time limit aside, and
  provided a reader delivers the bytes of the file, however it cuts them.\<close>

theorem bind_agrees_with_scan:
  assumes scan: "scan_directory_with_sources sl cx dw plan phase = Inr iv"
    and "phase = ''pre'' \<longrightarrow> plan = []" and "\<forall>s. concat (at_pieces (cx_tools cx) s) = s" and "\<forall>iv. \<not> cx_expired cx iv"
  shows "\<exists>ivb. bind_directory_with_sources sl cx dw phase = Inr ivb \<and>
    map bound_facts (bound_files (iv_files ivb)) = map bound_facts (bound_files (iv_files iv)) \<and>
    (\<forall>sha. binding_hash_files sha (iv_files ivb) = binding_hash_files sha (iv_files iv))"
  using scan unfolding scan_directory_with_sources_def
proof (rule scan_tree_stages)
  let ?cs = "cx\<lparr>cx_binding_only := False\<rparr>" and ?cb = "cx\<lparr>cx_binding_only := True\<rparr>"
  fix root cx1 iv1 iv2 iv3
  assume ph: "phase = ''pre'' \<or> phase = ''post''" and root: "dw_root dw = Inr root"
    and cx1: "cx1 = scan_setup ?cs dw (iv_sources (first_inventory sl ?cs dw plan root phase))"
    and w: "walk_root cx1 (dw_entries dw) (first_inventory sl ?cs dw plan root phase) = Inr iv1"
    and s: "walk_source_store cx1 (dw_store dw) iv1 = Inr iv2" and t: "tree_facts iv3 = tree_facts iv2" and f: "iv = finalize cx1 iv3"
  let ?iv0 = "first_inventory sl ?cs dw plan root phase" and ?ib0 = "first_inventory sl ?cb dw [] root phase"
  let ?cb1 = "scan_setup ?cb dw (iv_sources ?ib0)"
  have "check_budget cx1 ?iv0 = None" using w by (auto elim: walk_root_ok)
  then have lims: "0 \<le> lim_archives (cx_limits cx)" "0 \<le> lim_archive_entries (cx_limits cx)" "0 \<le> lim_archive_unpacked_bytes (cx_limits cx)"
    by (auto simp: check_budget_def first_inventory_facts no_coverage_def cx1 scan_setup_def Let_def split: if_splits)
  have "iv_sources ?ib0 = iv_sources ?iv0" if "phase = ''pre''"
    using that assms(2) by (simp add: first_inventory_def declare_sources_def declared_sources_def Let_def split: option.split)
  then have like: "binds_like phase cx1 ?cb1"
    using ph assms(3,4) lims by (auto simp: binds_like_def cx1 scan_setup_def)
  have b0: "binding_of ?iv0 ?ib0" using binding_of_start[of sl ?cs dw plan root phase "[]"] by simp
  have ex: "\<forall>iv. \<not> cx_expired cx1 iv" using assms(4) by (simp add: cx1 scan_setup_def)
  have p0: "iv_phase ?iv0 = phase" by (rule first_inventory_facts(2))
  obtain ib1 where b1: "walk_root ?cb1 (dw_entries dw) ?ib0 = Inr ib1" "binding_of iv1 ib1"
    using walk_root_like[OF w _ ex b0] like p0 by metis
  have p1: "iv_phase iv1 = phase" using walk_root_grows[OF w] p0 by (simp add: scan_grows_def)
  obtain ib2 where b2: "walk_source_store ?cb1 (dw_store dw) ib1 = Inr ib2" "binding_of iv2 ib2"
    using store_like[OF s _ ex b1(2)] like p1 by metis
  have "scan_tree sl ?cb dw [] phase = Inr (finalize ?cb1 ib2)"
    using ph root b1(1) b2(1) by (auto simp: scan_tree_def Let_def check_sources_def scan_setup_def)
  moreover have "map bound_facts (bound_files (iv_files (finalize ?cb1 ib2))) = map bound_facts (bound_files (iv_files iv))"
    using b2(2) t by (simp add: f finalize_facts binding_of_def)
  ultimately show ?thesis unfolding bind_directory_with_sources_def using equal_facts_binding by blast
qed

theorem bind_agrees_with_scan_witness:
  "\<exists>iv ivb. scan_directory_with_sources example_library example_scan example_world [] ''pre'' = Inr iv \<and>
     bind_directory_with_sources example_library example_scan example_world ''pre'' = Inr ivb \<and>
     binding_hash_files (cx_sha example_scan) (iv_files ivb) = binding_hash_files (cx_sha example_scan) (iv_files iv)"
proof -
  obtain iv where iv: "scan_directory_with_sources example_library example_scan example_world [] ''pre'' = Inr iv"
    using scans_plainlyE[OF example_scans] by blast
  show ?thesis using bind_agrees_with_scan[OF iv] iv by (auto simp: example_scan_def example_tools_def)
qed

end
