(* ===== verification/Scan_Selection.thy ===== *)
theory Scan_Selection
  imports Scan_Agree
begin

text \<open>
  What the selection of text for review gives up and what it never gives up, and where a scan does not look:
  a committed file under the name of a declared source.
\<close>

section \<open>The selection\<close>

lemma select_within_bound:
  "used \<le> limit \<Longrightarrow> fst (select_within limit files is used) \<le> limit"
  by (induction limit files "is" used rule: select_within.induct) (auto split: prod.splits)

lemma select_within_subset: "set (snd (select_within limit files is used)) \<subseteq> set is"
  by (induction limit files "is" used rule: select_within.induct) (auto split: prod.splits)

lemma select_within_sum:
  "distinct is \<Longrightarrow> fst (select_within limit files is used) =
     used + (\<Sum>i \<in> set is - set (snd (select_within limit files is used)). text_size (files ! i))"
proof (induction limit files "is" used rule: select_within.induct)
  case (2 limit files i "is" used)
  show ?case
  proof (cases "used + text_size (files ! i) \<le> limit")
    case True
    let ?s = "select_within limit files is (used + text_size (files ! i))"
    have "i \<notin> set (snd ?s)" using 2(3) select_within_subset[of limit files "is"] by auto
    then have "set (i # is) - set (snd ?s) = insert i (set is - set (snd ?s))" "i \<notin> set is - set (snd ?s)" using 2(3) by auto
    then show ?thesis using 2 True by simp
  next
    case False
    obtain u out where s: "select_within limit files is used = (u, out)" by fastforce
    have "set (i # is) - set (i # out) = set is - set out" using 2(3) by auto
    then show ?thesis using 2 False s by simp
  qed
qed simp

lemma omit_texts:
  "iv_files (foldl (\<lambda>v i. omit_text (files ! i) v) iv is) = iv_files iv"
  "cov_complete (iv_coverage (foldl (\<lambda>v i. omit_text (files ! i) v) iv is)) \<Longrightarrow> i \<in> set is \<Longrightarrow> \<not> mandatory_text (files ! i)"
proof -
  have mono: "cov_complete (iv_coverage (foldl (\<lambda>v i. omit_text (files ! i) v) iv is)) \<Longrightarrow> cov_complete (iv_coverage iv)" for iv "is"
  proof (induction "is" arbitrary: iv)
    case (Cons j js)
    from Cons.IH[of "omit_text (files ! j) iv"] Cons.prems show ?case
      by (simp add: omit_text_def Let_def split: if_splits)
  qed simp
  show "iv_files (foldl (\<lambda>v i. omit_text (files ! i) v) iv is) = iv_files iv"
    by (induction "is" arbitrary: iv) (simp_all add: omit_text_def Let_def)
  show "cov_complete (iv_coverage (foldl (\<lambda>v i. omit_text (files ! i) v) iv is)) \<Longrightarrow> i \<in> set is \<Longrightarrow> \<not> mandatory_text (files ! i)"
  proof (induction "is" arbitrary: iv)
    case (Cons j js)
    show ?case
    proof (cases "i = j")
      case True
      have "cov_complete (iv_coverage (omit_text (files ! j) iv))" using mono Cons.prems(1) by simp
      then show ?thesis by (simp add: True omit_text_def Let_def split: if_splits)
    qed (use Cons in simp)
  qed simp
qed

lemma clear_texts_size:
  assumes "set out \<subseteq> set (eligible files)"
  shows "sum_list (map text_size (clear_texts out files)) = (\<Sum>i \<in> set (eligible files) - set out. text_size (files ! i))"
proof -
  have "sum_list (map text_size (clear_texts out files)) = (\<Sum>i \<in> {..<length files}. if i \<in> set out then 0 else text_size (files ! i))"
    by (simp add: clear_texts_def interv_sum_list_conv_sum_set_nat atLeast0LessThan text_size_def comp_def if_distrib cong: if_cong)
  also have "\<dots> = (\<Sum>i \<in> set (eligible files) - set out. text_size (files ! i))"
    by (rule sum.mono_neutral_cong_right) (auto simp: eligible_def text_size_def)
  finally show ?thesis .
qed

lemma eligible_distinct: "distinct (sort_key f (eligible files))"
  by (simp add: eligible_def)

lemma sum_list_sort_key: "sum_list (map g (sort_key f xs)) = sum_list (map (g :: 'a \<Rightarrow> int) xs)"
proof -
  have "sum_list (map g (insort_key f x xs)) = g x + sum_list (map g xs)" for x xs
    by (induction xs) auto
  then show ?thesis by (induction xs) simp_all
qed

lemma finalize_selected:
  "set (iv_files (finalize cx iv)) = set (iv_files (select_review_text cx iv))"
  "sum_list (map text_size (iv_files (finalize cx iv))) = sum_list (map text_size (iv_files (select_review_text cx iv)))"
  "selected_bytes (iv_coverage (finalize cx iv)) = selected_bytes (iv_coverage (select_review_text cx iv))"
  "cov_complete (iv_coverage (finalize cx iv)) \<Longrightarrow> cov_complete (iv_coverage (select_review_text cx iv))"
  "cov_complete (iv_coverage (finalize cx iv)) \<Longrightarrow> f \<in> set (iv_findings (finalize cx iv)) \<Longrightarrow> f_category f \<noteq> ''coverage''"
  by (auto simp: finalize_def Let_def sum_list_sort_key sort_findings_key list_ex_iff)

lemma select_review_text_retained:
  assumes "bf_retain_text (cx_config cx)"
  obtains iv1 gone where "gone = snd (select_within (lim_selected_text_bytes (cx_limits cx)) (iv_files iv)
      (sort_key (selection_key (iv_files iv)) (eligible (iv_files iv))) 0)"
    "iv_files (select_review_text cx iv) = clear_texts gone (iv_files iv)"
    "selected_bytes (iv_coverage (select_review_text cx iv)) = fst (select_within (lim_selected_text_bytes (cx_limits cx)) (iv_files iv)
      (sort_key (selection_key (iv_files iv)) (eligible (iv_files iv))) 0)"
    "cov_complete (iv_coverage (select_review_text cx iv)) =
      cov_complete (iv_coverage (foldl (\<lambda>v i. omit_text (iv_files iv ! i) v) iv1 gone))"
  using that assms by (simp add: select_review_text_def Let_def)

lemma selected_texts:
  assumes "0 \<le> lim_selected_text_bytes (cx_limits cx)"
  shows "sum_list (map text_size (iv_files (select_review_text cx iv))) = selected_bytes (iv_coverage (select_review_text cx iv))"
    "selected_bytes (iv_coverage (select_review_text cx iv)) \<le> lim_selected_text_bytes (cx_limits cx)"
proof -
  let ?files = "iv_files iv" and ?limit = "lim_selected_text_bytes (cx_limits cx)"
  let ?is = "sort_key (selection_key ?files) (eligible ?files)"
  have "sum_list (map text_size (iv_files (select_review_text cx iv))) = selected_bytes (iv_coverage (select_review_text cx iv)) \<and>
    selected_bytes (iv_coverage (select_review_text cx iv)) \<le> ?limit"
  proof (cases "bf_retain_text (cx_config cx)")
    case True
    then obtain iv1 gone where s: "gone = snd (select_within ?limit ?files ?is 0)"
      "iv_files (select_review_text cx iv) = clear_texts gone ?files"
      "selected_bytes (iv_coverage (select_review_text cx iv)) = fst (select_within ?limit ?files ?is 0)"
      by (rule select_review_text_retained)
    have "set gone \<subseteq> set (eligible ?files)" using select_within_subset[of ?limit ?files ?is 0] by (simp add: s(1))
    then have "sum_list (map text_size (clear_texts gone ?files)) = fst (select_within ?limit ?files ?is 0)"
      using clear_texts_size[of gone ?files] select_within_sum[OF eligible_distinct, of ?limit ?files "selection_key ?files" ?files 0]
      by (simp add: s(1))
    then show ?thesis using select_within_bound[OF assms, of ?files ?is] by (simp add: s(2,3))
  next
    case False
    then have "iv_files (select_review_text cx iv) = map (\<lambda>r. r\<lparr>fr_selected_text := []\<rparr>) ?files"
      "selected_bytes (iv_coverage (select_review_text cx iv)) = 0" by (simp_all add: select_review_text_def)
    then show ?thesis using assms by (simp add: text_size_def comp_def)
  qed
  then show "sum_list (map text_size (iv_files (select_review_text cx iv))) = selected_bytes (iv_coverage (select_review_text cx iv))"
    "selected_bytes (iv_coverage (select_review_text cx iv)) \<le> ?limit" by blast+
qed

lemma mandatory_text_kept:
  assumes "bf_retain_text (cx_config cx)" "cov_complete (iv_coverage (select_review_text cx iv))" "r \<in> set (iv_files iv)" "mandatory_text r"
  shows "r \<in> set (iv_files (select_review_text cx iv))"
proof -
  obtain iv1 gone where s: "iv_files (select_review_text cx iv) = clear_texts gone (iv_files iv)"
    "cov_complete (iv_coverage (select_review_text cx iv)) =
      cov_complete (iv_coverage (foldl (\<lambda>v i. omit_text (iv_files iv ! i) v) iv1 gone))"
    using assms(1) by (rule select_review_text_retained)
  obtain i where i: "i < length (iv_files iv)" "r = iv_files iv ! i" using assms(3) by (auto simp: in_set_conv_nth)
  have "i \<notin> set gone" using omit_texts(2)[of "iv_files iv" iv1 gone i] assms(2,4) s(2) i(2) by blast
  then show ?thesis using i by (auto simp: s(1) clear_texts_def)
qed

text \<open>C15: the selection of review text keeps to its limit and does not hide what it leaves out. After finalize the
  texts in the manifest add up to exactly the selected bytes reported, which are within the limit on
  selected text; and when the scan still counts as complete, no coverage finding was reported and every record whose text is
  mandatory is in the manifest with its text as it was found.\<close>

theorem selection_within_limit:
  assumes "0 \<le> lim_selected_text_bytes (cx_limits cx)"
  shows "sum_list (map text_size (iv_files (finalize cx iv))) = selected_bytes (iv_coverage (finalize cx iv)) \<and>
    selected_bytes (iv_coverage (finalize cx iv)) \<le> lim_selected_text_bytes (cx_limits cx) \<and>
    (cov_complete (iv_coverage (finalize cx iv)) \<longrightarrow>
      (\<forall>f \<in> set (iv_findings (finalize cx iv)). f_category f \<noteq> ''coverage'') \<and>
      (bf_retain_text (cx_config cx) \<longrightarrow> (\<forall>r \<in> set (iv_files iv). mandatory_text r \<longrightarrow> r \<in> set (iv_files (finalize cx iv)))))"
  unfolding finalize_selected(1-3)
proof (intro conjI impI ballI)
  assume c: "cov_complete (iv_coverage (finalize cx iv))"
  then show "f_category f \<noteq> ''coverage''" if "f \<in> set (iv_findings (finalize cx iv))" for f
    using that by (rule finalize_selected(5))
  show "r \<in> set (iv_files (select_review_text cx iv))"
    if "bf_retain_text (cx_config cx)" "r \<in> set (iv_files iv)" "mandatory_text r" for r
    using that(1) finalize_selected(4)[OF c] that(2,3) by (rule mandatory_text_kept)
qed (rule selected_texts[OF assms])+

definition example_selected :: "string \<Rightarrow> nat \<Rightarrow> file_record" where
  "example_selected reason n = (regular_record example_scan reason (example_stat 0x81A4 (int n)) (example_file []) True
     \<lparr>rs_findings = [], rs_selected = replicate n CHR ''x'', rs_reason = reason, rs_metadata = [], rs_notes = [], rs_complete = True\<rparr>)"

text \<open>Two texts of sixty bytes do not fit into a limit of a hundred.\<close>

definition example_crowded :: inventory where
  "example_crowded = (scan_start [] ''pre'' [])\<lparr>iv_files := [example_selected ''executable'' 60, example_selected ''mandatory'' 60]\<rparr>"

lemma example_scan_limit: "lim_selected_text_bytes (cx_limits example_scan) = 100"
  by (simp add: example_scan_def example_limits_def)

theorem selection_within_limit_witness:
  "(0::int) \<le> 100 \<and> sum_list (map text_size (iv_files example_crowded)) = 120 \<and>
   sum_list (map text_size (iv_files (finalize example_scan example_crowded))) =
     selected_bytes (iv_coverage (finalize example_scan example_crowded)) \<and>
   selected_bytes (iv_coverage (finalize example_scan example_crowded)) \<le> 100"
proof -
  have "sum_list (map text_size (iv_files example_crowded)) = 120"
    by (simp add: example_crowded_def text_size_def example_selected_def regular_record_def)
  then show ?thesis using selection_within_limit[of example_scan example_crowded] by (simp add: example_scan_limit)
qed

section \<open>A committed file under a declared name\<close>

text \<open>
  A committed file at the top of the checkout that has the name of a declared source is not looked at before the download,
  where the source is expected to be absent, nor after it, when the vendor depth is zero: it is taken for
  the source. The check for a name in both roots compares records, and a directory has none, so a source that arrives
  as a directory does not collide with the file.
\<close>

lemma declared_name_excluded:
  assumes "iv_phase iv = ''pre''" "name \<in> set (cx_vendor cx)" "mode_kind (st_mode st) = kind_regular" "check_budget cx iv = None"
  shows "walk_entries cx [] True False 0 ((name, Node (Inr st) listing fa la) # es) iv =
    walk_entries cx [] True False 0 es (iv\<lparr>iv_exclusions := iv_exclusions iv @ [display_path name]\<rparr>)"
proof -
  have "entry_action cx (iv_phase iv) True False 0 name (display_path (child_path [] name)) (Inr st) = Exclude (display_path name)"
    using assms(1-3) by (simp add: entry_action_def Let_def child_path_def)
  then show ?thesis using assms(4) by (simp add: walk_entries.simps(2) Let_def child_path_def)
qed

lemma declared_name_uninspected:
  assumes "read_regular cx fa name True 0 generated iv = Inr iv'" "bf_vendor_depth (cx_config cx) \<le> 0"
  shows "iv_findings iv' = iv_findings iv \<and> (\<exists>rec. iv_files iv' = iv_files iv @ [rec] \<and> fr_selected_text rec = [])"
  using assms
  by (auto simp: read_regular_def Let_def content_inspection_def archive_inspection_def bound_read_def inspect_content_def
      add_regular_def add_file_def file_result_of_def select_text_def regular_record_def split: if_splits sum.splits option.splits)

lemma directory_collides_with_nothing:
  assumes "mode_kind (st_mode st) = kind_directory" "check_budget cx iv = None"
  shows "walk_source_store cx (Some (Inr [(name, Node (Inr st) (Inr []) fa la)])) iv = Inr iv \<or>
    (\<exists>x. walk_source_store cx (Some (Inr [(name, Node (Inr st) (Inr []) fa la)])) iv = Inr (iv\<lparr>iv_exclusions := iv_exclusions iv @ [x]\<rparr>))"
  using assms
  by (auto simp: walk_source_store_def walk_root_def walk_entries.simps(2) entry_action_def Let_def)

end
