(* ===== verification/Spec2Isabelle.thy ===== *)
theory Spec2Isabelle
  imports Broker_Sessions Tunnel_Hello Safe_Primitives Unified_Diff Service Markers Acquire Review Scan_Selection
begin

text \<open>
  Prolewatch guards the building of AUR packages: it inspects a recipe and its sources before a
  build, runs the build in a sandbox without network of its own, and lets traffic out only
  through a broker that asks the user. This library models the parts of the Go program under
  src/internal and src/cmd that decide, and proves what they decide.

  The broker (src/internal/egress):
  \<^item> \<open>Address_Policy\<close>: address.go, which IP addresses may be contacted. The interfaces of the host
    are an argument. The policy is shown equal to its denylist plus the host's own networks.
  \<^item> \<open>Request_Host\<close>: host.go, which strings count as a destination host, and the locale
    \<open>host_syntax\<close> with what its clients rely on.
  \<^item> \<open>Broker_Config\<close>: config.go, the argument vector written by StartBroker and read by
    cmd/prolewatch-net, the validation on both sides, and the closed host set.
  \<^item> \<open>Tunnel_Host\<close>, \<open>Tunnel_Hello\<close>: checkTunnelHost of broker.go with its ClientHello and HTTP
    readers, and the round trip of the ClientHello wire format.
  \<^item> \<open>Broker\<close>, \<open>Broker_Sessions\<close>: the consent protocol (authorize, serveNetworkPromptAgent),
    dialPublic, handleSOCKS and handleHTTP, the transfer quota; the properties hold over any
    number of connections, any bytes they send, and any answers of the world, which is a
    function of the trace so far. The locale \<open>dial_client\<close> is the contract between the protocol
    handlers and the dialler, \<open>Bounded_Sink\<close> the one of every byte ceiling.
  \<^item> \<open>Allowance\<close>, \<open>Acquire\<close>: allowance.go and acquire.go, the source set frozen from a contained
    evaluation of the recipe and its download by trusted code: byte, time and disk budget,
    redirects, the checked dialer, the files written.

  The shared primitives (src/internal/safe):
  \<^item> \<open>Safe_Text\<close>: what of a package may reach a terminal, and the incremental UTF-8 validator.
  \<^item> \<open>Safe_Primitives\<close>: the bounded output buffer, digests, the hash bound to one inode, and the
    loops that read an answer. Answers of the kernel are arguments.

  Containment (src/internal/contain):
  \<^item> \<open>Sub_Ids\<close>: subid.go, which range of subordinate IDs may be used.
  \<^item> \<open>Userns_Map\<close>: userns.go, the command that creates the user namespace and the check of the
    maps the kernel reports.
  \<^item> \<open>Sandbox_Args\<close>: sandbox.go, the Bubblewrap arguments, read back as options to say what is
    mounted where.
  \<^item> \<open>Contain_Scope\<close>: scope.go, the systemd unit around a contained command and every way it ends.

  Inspection (src/internal/brief):
  \<^item> \<open>Surfaces\<close>: surfaces.go, the registry of root-execution paths and the classification of
    archive members.
  \<^item> \<open>Mtree\<close>: mtree.go, the .MTREE reader.
  \<^item> \<open>Archive_Filter\<close>: integration.go and filter.go, listing the surfaces of a built package and
    rewriting it without the refused ones. An archive is the list of its tar entries; gzip is a
    pair of parameters.
  \<^item> \<open>Unified_Diff\<close>: diff.go, the view of a patch without the lines it removes.
  \<^item> \<open>Rules\<close>: rules.go, the pattern rules over a text and over a stream read in chunks. What a regular
    expression matches is an argument.
  \<^item> \<open>Archive_Scan\<close>, \<open>Archive_Walk\<close>: archives.go, the scan of an archive and of the archives inside it.
    The decompressors and the tar and zip readers are arguments: functions from bytes to members.
  \<^item> \<open>Findings\<close>, \<open>Source_Records\<close>: models.go, sources.go and network_steps.go, the evidence a scan
    produces (findings, coverage, declared sources, manifest records) and its binding hash.

  \<^item> \<open>Scan_Static\<close>, \<open>Scan_Files\<close>, \<open>Scan_Walk\<close>, \<open>Scan_Finish\<close>: scanner.go and archive_probe.go, the scan of a
    checkout, of the source store and of built packages: the evaluator of static shell words, one file or link, the walk,
    the comparison of .SRCINFO with the recipe, the check of extractable sources, finalize. A file tree is given as what the
    kernel answers while it is walked; the shell parser and bsdtar are arguments. Progress callbacks are left out.
  \<^item> \<open>Scan_Binding\<close>, \<open>Scan_Agree\<close>, \<open>Scan_Selection\<close>: what these scans promise. Every entry is recorded, a later binding scan
    of the same tree agrees (a simulation, entry by entry), the selected text keeps to its limit; and where a
    committed file is not looked at.

  The audit (src/internal/audit):
  \<^item> \<open>Config\<close>: config.go and config_yaml.go, reading, restricting, decoding, filling in and validating
    the configuration. The node tree of the YAML library is an argument.
  \<^item> \<open>Resource\<close>: resource.go, the limits of a build and of a recipe evaluation, workspace accounting,
    the output transcript and the ways a contained run ends.
  \<^item> \<open>Reports\<close>, \<open>Report_Store\<close>: reports.go, the report with its validation and the store with saving,
    loading, replacing and pruning. A stored document is kept as the value written, because the JSON
    of a report whose strings are UTF-8 reads back as that report; directory listings are
    association lists; disk failures and which processes live are arguments.
  \<^item> \<open>Approvals\<close>: approvals.go, the one-time approvals as single calls and, under any number of
    concurrent processes, as the step relation \<open>approval_step\<close> with its invariant.
  \<^item> \<open>Policy\<close>: policy.go, the decision about a phase: deterministic assessment, approval, review,
    report, exit status. \<open>Approval_Flow\<close> follows a question from the block to the allowance and shows
    where an evaluation fails because the store refuses its report. \<open>Service\<close> is the policy
    fingerprint and the start of the service, \<open>Markers\<close> the markers of a running transaction, the
    decisions carried from the recipe gate, and the scan around the decision.
  \<^item> \<open>Review_Snapshot\<close>, \<open>Review\<close>: review.go, the batches shown to a model with the targets it must comment on,
    the checks of requests and responses, and the review over all batches. The worker is an
    argument, and so are the sizes of the request and of the Ollama chat request.

  The prelude models what the code uses of the Go standard library: \<open>Go_Base\<close> (strings, strconv),
  \<open>Go_Lines\<close> (bufio.Scanner), \<open>Go_Time\<close> (RFC 3339),
  \<open>Go_Path\<close> (path/filepath), \<open>Go_Url\<close> (net/url), \<open>Go_Utf8\<close> (unicode/utf8, white space), \<open>Go_Net\<close> and \<open>Go_Ip_Text\<close>
  (net.ParseIP, net.ParseCIDR, net.IP), \<open>Json\<close> (encoding/json as internal/safe uses it). The
  Unicode case tables are parameters; they matter only for text that is not ASCII.

  Bounds and fuel: the JSON reader carries a call budget of twice the input length plus two, and
  \<open>parse_json_fuel\<close> shows that a larger one gives the same result. The archive scan carries a level
  count of one more than the levels left below the depth limit, and \<open>scan_archive_level_enough\<close> shows
  that a larger one gives the same result. Every other loop is a total function with its measure.

  Not modelled: the shell rules (internal/brief/semantic.go), which work on the syntax tree of a library that is not
  in the repository, and the embedded threat bundle: both enter as the rule engine of the scans; the
  adapters of the AI providers and their prompts, which are arguments of the review; the build
  transaction (audit/build.go), which starts processes and moves files around the modelled decisions; terminal presentation,
  the command line, the doctor, recovery and the scenario runner. The decision about a phase takes a scan as its
  inventory; the theories of the scanner say how that inventory comes about.
\<close>

end
